(* ===== verification/Prelude.thy ===== *)
theory Prelude
  imports Main "HOL-Library.Char_ord"
begin

text \<open>
  What the component theories share: the types that stand for Python's instants,
  durations and optional references, the ordered dictionary (a Python dict keeps
  insertion order, and the repositories rely on it), and the generic lemmas on lists
  and dictionaries, collected in \<open>dict_simps\<close> and declared \<open>simp\<close> where they
  are safe.

  An instant is an aware UTC datetime, as microseconds since the epoch: \<open>ensure_utc\<close>
  (shared/clock.py) rejects a naive datetime at every boundary and normalises the rest,
  so behind it two datetimes compare as these integers do. A timedelta is a number of
  microseconds.
\<close>

type_synonym instant = int
type_synonym duration = int
type_synonym ref = string

definition seconds :: "int \<Rightarrow> duration" where
  "seconds n = n * 1000000"

definition minutes :: "int \<Rightarrow> duration" where
  "minutes n = seconds (n * 60)"

definition hours :: "int \<Rightarrow> duration" where
  "hours n = minutes (n * 60)"

definition days :: "int \<Rightarrow> duration" where
  "days n = hours (n * 24)"

lemmas duration_defs = seconds_def minutes_def hours_def days_def

named_theorems dict_simps \<open>lookup, membership and order facts of ordered dictionaries\<close>
named_theorems inv_intros \<open>introduction rules: an operation preserves an invariant\<close>
named_theorems frame_simps \<open>fields an operation leaves unchanged\<close>

section \<open>Errors\<close>

text \<open>A computation that may raise: \<open>Inl\<close> is the exception, \<open>Inr\<close> the result.\<close>

fun raises :: "'e + 'a \<Rightarrow> bool" where
  "raises (Inl _) = True"
| "raises (Inr _) = False"

fun and_then :: "'e + 'a \<Rightarrow> ('a \<Rightarrow> 'e + 'b) \<Rightarrow> 'e + 'b" where
  "and_then (Inl e) f = Inl e"
| "and_then (Inr x) f = f x"

lemma and_then_Inr_iff [simp]:
  "and_then m f = Inr y \<longleftrightarrow> (\<exists>x. m = Inr x \<and> f x = Inr y)"
  by (cases m) auto

lemma and_then_Inl_iff:
  "and_then m f = Inl e \<longleftrightarrow> m = Inl e \<or> (\<exists>x. m = Inr x \<and> f x = Inl e)"
  by (cases m) auto

lemma not_raises_iff: "\<not> raises m \<longleftrightarrow> (\<exists>x. m = Inr x)"
  by (cases m) auto

section \<open>Ordered dictionaries\<close>

text \<open>
  A Python dict as an association list in insertion order: assigning to a present key
  keeps its position, a new key goes to the end, \<open>pop\<close> removes the key.
\<close>

type_synonym ('k, 'v) odict = "('k \<times> 'v) list"

fun dict_get :: "('k, 'v) odict \<Rightarrow> 'k \<Rightarrow> 'v option" where
  "dict_get [] k = None"
| "dict_get ((k', v) # d) k = (if k' = k then Some v else dict_get d k)"

fun dict_set :: "('k, 'v) odict \<Rightarrow> 'k \<Rightarrow> 'v \<Rightarrow> ('k, 'v) odict" where
  "dict_set [] k v = [(k, v)]"
| "dict_set ((k', v') # d) k v = (if k' = k then (k, v) # d else (k', v') # dict_set d k v)"

fun dict_pop :: "('k, 'v) odict \<Rightarrow> 'k \<Rightarrow> ('k, 'v) odict" where
  "dict_pop [] k = []"
| "dict_pop ((k', v) # d) k = (if k' = k then dict_pop d k else (k', v) # dict_pop d k)"

definition dict_keys :: "('k, 'v) odict \<Rightarrow> 'k list" where
  "dict_keys d = map fst d"

definition dict_values :: "('k, 'v) odict \<Rightarrow> 'v list" where
  "dict_values d = map snd d"

definition dict_ok :: "('k, 'v) odict \<Rightarrow> bool" where
  "dict_ok d \<longleftrightarrow> distinct (dict_keys d)"

lemma dict_get_set [simp, dict_simps]:
  "dict_get (dict_set d k v) k' = (if k = k' then Some v else dict_get d k')"
  by (induction d k v rule: dict_set.induct) auto

lemma dict_get_pop [simp, dict_simps]:
  "dict_get (dict_pop d k) k' = (if k = k' then None else dict_get d k')"
  by (induction d) auto

lemma dict_get_None_iff [dict_simps]: "dict_get d k = None \<longleftrightarrow> k \<notin> set (dict_keys d)"
  by (induction d k rule: dict_get.induct) (auto simp: dict_keys_def)

lemma dict_get_in: "dict_get d k = Some v \<Longrightarrow> (k, v) \<in> set d"
  by (induction d k rule: dict_get.induct) (auto split: if_splits)

lemma dict_get_value: "dict_get d k = Some v \<Longrightarrow> v \<in> set (dict_values d)"
  by (force dest: dict_get_in simp: dict_values_def)

lemma in_dict_get:
  assumes "dict_ok d" and "(k, v) \<in> set d"
  shows "dict_get d k = Some v"
  using assms by (induction d) (force simp: dict_ok_def dict_keys_def)+

lemma set_keys_set [dict_simps]: "set (dict_keys (dict_set d k v)) = insert k (set (dict_keys d))"
  by (induction d k v rule: dict_set.induct) (auto simp: dict_keys_def)

lemma set_keys_pop [dict_simps]: "set (dict_keys (dict_pop d k)) = set (dict_keys d) - {k}"
  by (induction d k rule: dict_pop.induct) (auto simp: dict_keys_def)

lemma dict_ok_Nil [simp, inv_intros]: "dict_ok []"
  by (simp add: dict_ok_def dict_keys_def)

lemma dict_ok_set [simp, inv_intros]: "dict_ok d \<Longrightarrow> dict_ok (dict_set d k v)"
proof (induction d k v rule: dict_set.induct)
  case (2 k' v' d k v)
  then show ?case
    using set_keys_set [of d k v] by (auto simp: dict_ok_def dict_keys_def)
qed (simp add: dict_ok_def dict_keys_def)

lemma dict_ok_pop [simp, inv_intros]: "dict_ok d \<Longrightarrow> dict_ok (dict_pop d k)"
proof (induction d k rule: dict_pop.induct)
  case (2 k' v d k)
  then show ?case
    using set_keys_pop [of d k] by (auto simp: dict_ok_def dict_keys_def)
qed simp

lemma dict_set_values_sub:
  "set (dict_values (dict_set d k v)) \<subseteq> insert v (set (dict_values d))"
  by (induction d k v rule: dict_set.induct) (auto simp: dict_values_def)

lemma dict_values_get:
  assumes "dict_ok d" and "v \<in> set (dict_values d)"
  shows "\<exists>k. dict_get d k = Some v"
  using assms in_dict_get by (fastforce simp: dict_values_def)

text \<open>\<open>dict_map_values\<close> rewrites every value in place, as a loop over \<open>items()\<close> does.\<close>

definition dict_map_values :: "('k \<Rightarrow> 'v \<Rightarrow> 'v) \<Rightarrow> ('k, 'v) odict \<Rightarrow> ('k, 'v) odict" where
  "dict_map_values f d = map (\<lambda>(k, v). (k, f k v)) d"

lemma dict_get_map_values [simp, dict_simps]:
  "dict_get (dict_map_values f d) k = map_option (f k) (dict_get d k)"
  by (induction d k rule: dict_get.induct) (auto simp: dict_map_values_def)

lemma dict_keys_map_values [simp, dict_simps]: "dict_keys (dict_map_values f d) = dict_keys d"
  by (auto simp: dict_map_values_def dict_keys_def)

lemma dict_ok_map_values [simp]: "dict_ok (dict_map_values f d) = dict_ok d"
  by (simp add: dict_ok_def)

text \<open>Python's \<open>d.update(e)\<close> and the literal \<open>{**d, **e}\<close>, on maps where order is not used.\<close>

lemma map_add_get: "(m ++ n) k = (case n k of None \<Rightarrow> m k | Some v \<Rightarrow> Some v)"
  by (simp add: map_add_def)

section \<open>Lists\<close>

text \<open>Python's \<open>xs[-n:]\<close> for a positive \<open>n\<close>: the last \<open>n\<close> elements.\<close>

definition last_n :: "nat \<Rightarrow> 'a list \<Rightarrow> 'a list" where
  "last_n n xs = drop (length xs - n) xs"

lemma length_last_n [simp]: "length (last_n n xs) = min n (length xs)"
  by (simp add: last_n_def)

lemma last_n_snoc: "0 < n \<Longrightarrow> \<exists>ys. last_n n (xs @ [x]) = ys @ [x]"
  by (cases n) (auto simp: last_n_def)

lemma set_last_n: "set (last_n n xs) \<subseteq> set xs"
  by (simp add: last_n_def set_drop_subset)

text \<open>\<open>sep.join(parts)\<close>.\<close>

fun join :: "string \<Rightarrow> string list \<Rightarrow> string" where
  "join sep [] = []"
| "join sep [x] = x"
| "join sep (x # y # xs) = x @ sep @ join sep (y # xs)"

lemma find_Some_in: "find P xs = Some x \<Longrightarrow> x \<in> set xs \<and> P x"
  by (induction xs) (auto split: if_splits)

lemma find_None_iff': "find P xs = None \<longleftrightarrow> (\<forall>x\<in>set xs. \<not> P x)"
  by (induction xs) auto

lemma find_append: "find P (xs @ ys) = (case find P xs of None \<Rightarrow> find P ys | Some x \<Rightarrow> Some x)"
  by (induction xs) auto

end
