(* ===== verification/Claims.thy ===== *)
theory Claims
  imports Prelude
begin

text \<open>
  The two contracts behind "exactly one worker wins", as locales. \<open>single_winner\<close>: a durable
  claim on a key that is never given up (outbox rows, message-log rows, provider event ids).
  \<open>leased_claim\<close>: a claim that lapses after a time to live (idempotency keys). The stores that
  provide them interpret the locales in their own theories.
\<close>

section \<open>A claim that is never given up\<close>

locale single_winner =
  fixes claim :: "'s \<Rightarrow> 'k \<Rightarrow> bool \<times> 's"
    and claimed :: "'s \<Rightarrow> 'k \<Rightarrow> bool"
  assumes wins_iff: "fst (claim s k) \<longleftrightarrow> \<not> claimed s k"
    and claimed_after: "claimed (snd (claim s k)) j \<longleftrightarrow> claimed s j \<or> j = k"
begin

text \<open>Any interleaving of claims, as the sequence in which the store serves them.\<close>

fun claim_run :: "'s \<Rightarrow> 'k list \<Rightarrow> bool list \<times> 's" where
  "claim_run s [] = ([], s)"
| "claim_run s (k # ks) =
     (let (won, s') = claim s k; (wons, s'') = claim_run s' ks in (won # wons, s''))"

lemma claim_run_claimed:
  "claimed (snd (claim_run s ks)) j \<longleftrightarrow> claimed s j \<or> j \<in> set ks"
  by (induction ks arbitrary: s)
    (auto simp: Let_def split_beta claimed_after)

lemma length_claim_run: "length (fst (claim_run s ks)) = length ks"
  by (induction ks arbitrary: s) (auto simp: Let_def split_beta)

text \<open>Of all the claims on one key exactly one wins, unless the key was taken before: then none.\<close>

lemma claim_run_winners:
  "length (filter (\<lambda>(won, j). won \<and> j = k) (zip (fst (claim_run s ks)) ks))
     = (if claimed s k \<or> k \<notin> set ks then 0 else 1)"
proof (induction ks arbitrary: s)
  case (Cons j ks)
  show ?case
    using Cons.IH [of "snd (claim s j)"] wins_iff [of s j] claimed_after [of s j k]
    by (auto simp: Let_def split_beta)
qed simp

lemma first_claim_wins:
  assumes "\<not> claimed s k" and "k \<notin> set ks"
  shows "fst (claim (snd (claim_run s ks)) k)"
  using assms by (simp add: wins_iff claim_run_claimed)

lemma later_claim_loses:
  assumes "k \<in> set ks"
  shows "\<not> fst (claim (snd (claim_run s ks)) k)"
  using assms by (simp add: wins_iff claim_run_claimed)

end

section \<open>A claim that lapses\<close>

locale leased_claim =
  fixes claim :: "'s \<Rightarrow> 'k \<Rightarrow> instant \<Rightarrow> int \<Rightarrow> bool \<times> 's"
    and lease :: "'s \<Rightarrow> 'k \<Rightarrow> instant option"
  assumes busy: "lease s k = Some e \<Longrightarrow> t < e \<Longrightarrow> claim s k t ttl = (False, s)"
    and free: "(case lease s k of None \<Rightarrow> True | Some e \<Rightarrow> e < t) \<Longrightarrow> fst (claim s k t ttl)"
    and won_lease: "fst (claim s k t ttl) \<Longrightarrow>
          lease (snd (claim s k t ttl)) j = (if j = k then Some (t + seconds ttl) else lease s j)"
    and lost_same: "\<not> fst (claim s k t ttl) \<Longrightarrow> snd (claim s k t ttl) = s"
begin

lemma won_lease_other:
  "j \<noteq> k \<Longrightarrow> lease (snd (claim s k t ttl)) j = lease s j"
  using won_lease [of s k t ttl j] lost_same [of s k t ttl] by (cases "fst (claim s k t ttl)") auto

fun claim_seq :: "'s \<Rightarrow> ('k \<times> instant \<times> int) list \<Rightarrow> 's" where
  "claim_seq s [] = s"
| "claim_seq s ((k, t, ttl) # cs) = claim_seq (snd (claim s k t ttl)) cs"

lemma claim_seq_foldl: "claim_seq s cs = foldl (\<lambda>s (k, t, ttl). snd (claim s k t ttl)) s cs"
  by (induction s cs rule: claim_seq.induct) simp_all

text \<open>While the winner's lease runs, nobody else wins, whatever other claims are served.\<close>

lemma lease_keeps:
  assumes "lease s k = Some e" and "\<forall>(j, t, ttl)\<in>set cs. t < e"
  shows "lease (claim_seq s cs) k = Some e"
  using assms
proof (induction cs arbitrary: s)
  case (Cons c cs)
  obtain j t ttl where c: "c = (j, t, ttl)" by (cases c)
  have "lease (snd (claim s j t ttl)) k = Some e"
    using busy [of s j e t ttl] won_lease_other [of k j s t ttl] Cons.prems c
    by (cases "j = k") auto
  then show ?case using Cons c by simp
qed simp

lemma exclusive_until_lapse:
  assumes "fst (claim s k t ttl)" and "\<forall>(j, t', ttl')\<in>set cs. t' < t + seconds ttl"
    and "u < t + seconds ttl"
  shows "\<not> fst (claim (claim_seq (snd (claim s k t ttl)) cs) k u ttl')"
proof -
  have "lease (claim_seq (snd (claim s k t ttl)) cs) k = Some (t + seconds ttl)"
    using lease_keeps [OF _ assms(2)] won_lease [OF assms(1), of k] by simp
  then show ?thesis using busy assms(3) by simp
qed

lemma reclaimable_after_lapse:
  assumes "fst (claim s k t ttl)" and "\<forall>(j, t', ttl')\<in>set cs. t' < t + seconds ttl"
    and "t + seconds ttl < u"
  shows "fst (claim (claim_seq (snd (claim s k t ttl)) cs) k u ttl')"
proof -
  have "lease (claim_seq (snd (claim s k t ttl)) cs) k = Some (t + seconds ttl)"
    using lease_keeps [OF _ assms(2)] won_lease [OF assms(1), of k] by simp
  then show ?thesis using free assms(3) by simp
qed

end

end
