(* ===== verification/DemoStates.thy ===== *)
theory DemoStates
  imports Prelude
begin

text \<open>
  The closed enumerations of state/states.py and state/triggers.py: the lifecycle states
  with their classification, the triggers, and the actors who may fire them. Every
  enumeration carries its wire value and its list of members in the source's order, and
  is an instance of the library's \<open>enum\<close> class, so that a statement about all states
  is decided by evaluation.
\<close>

section \<open>States\<close>

datatype demo_state =
    NEW
  | OWNERSHIP_ACQUIRING
  | IDENTITY_RESOLUTION
  | COLLECTING_REQUIREMENTS
  | TUTOR_MATCH_REQUESTED
  | TUTOR_OPTIONS_READY
  | AWAITING_TUTOR_SELECTION
  | TUTOR_SELECTED
  | TUTOR_CONFIRMATION_PENDING
  | NEGOTIATING_SLOT
  | SLOT_HELD
  | CALENDAR_CREATION_PENDING
  | SCHEDULED
  | REMINDERS_ACTIVE
  | DEMO_READY
  | OUTCOME_PENDING
  | COMPLETED
  | STUDENT_NO_SHOW_REVIEW
  | TUTOR_NO_SHOW_REVIEW
  | POST_DEMO_ANALYSIS
  | FOLLOWUP_PENDING
  | PAYMENT_PENDING
  | PAYMENT_CONFIRMED
  | SUBSCRIPTION_ACTIVATING
  | ONBOARDING_HANDOFF_PENDING
  | CONVERTED
  | CANCELLED
  | HUMAN_HANDOFF
  | FAILED_RECOVERABLE
  | FAILED_TERMINAL

fun state_value :: "demo_state \<Rightarrow> string" where
    "state_value NEW = ''NEW''"
  | "state_value OWNERSHIP_ACQUIRING = ''OWNERSHIP_ACQUIRING''"
  | "state_value IDENTITY_RESOLUTION = ''IDENTITY_RESOLUTION''"
  | "state_value COLLECTING_REQUIREMENTS = ''COLLECTING_REQUIREMENTS''"
  | "state_value TUTOR_MATCH_REQUESTED = ''TUTOR_MATCH_REQUESTED''"
  | "state_value TUTOR_OPTIONS_READY = ''TUTOR_OPTIONS_READY''"
  | "state_value AWAITING_TUTOR_SELECTION = ''AWAITING_TUTOR_SELECTION''"
  | "state_value TUTOR_SELECTED = ''TUTOR_SELECTED''"
  | "state_value TUTOR_CONFIRMATION_PENDING = ''TUTOR_CONFIRMATION_PENDING''"
  | "state_value NEGOTIATING_SLOT = ''NEGOTIATING_SLOT''"
  | "state_value SLOT_HELD = ''SLOT_HELD''"
  | "state_value CALENDAR_CREATION_PENDING = ''CALENDAR_CREATION_PENDING''"
  | "state_value SCHEDULED = ''SCHEDULED''"
  | "state_value REMINDERS_ACTIVE = ''REMINDERS_ACTIVE''"
  | "state_value DEMO_READY = ''DEMO_READY''"
  | "state_value OUTCOME_PENDING = ''OUTCOME_PENDING''"
  | "state_value COMPLETED = ''COMPLETED''"
  | "state_value STUDENT_NO_SHOW_REVIEW = ''STUDENT_NO_SHOW_REVIEW''"
  | "state_value TUTOR_NO_SHOW_REVIEW = ''TUTOR_NO_SHOW_REVIEW''"
  | "state_value POST_DEMO_ANALYSIS = ''POST_DEMO_ANALYSIS''"
  | "state_value FOLLOWUP_PENDING = ''FOLLOWUP_PENDING''"
  | "state_value PAYMENT_PENDING = ''PAYMENT_PENDING''"
  | "state_value PAYMENT_CONFIRMED = ''PAYMENT_CONFIRMED''"
  | "state_value SUBSCRIPTION_ACTIVATING = ''SUBSCRIPTION_ACTIVATING''"
  | "state_value ONBOARDING_HANDOFF_PENDING = ''ONBOARDING_HANDOFF_PENDING''"
  | "state_value CONVERTED = ''CONVERTED''"
  | "state_value CANCELLED = ''CANCELLED''"
  | "state_value HUMAN_HANDOFF = ''HUMAN_HANDOFF''"
  | "state_value FAILED_RECOVERABLE = ''FAILED_RECOVERABLE''"
  | "state_value FAILED_TERMINAL = ''FAILED_TERMINAL''"

text \<open>\<open>for state in DemoState\<close>: the members in declaration order.\<close>

definition all_states :: "demo_state list" where
  "all_states =
    [NEW, OWNERSHIP_ACQUIRING, IDENTITY_RESOLUTION, COLLECTING_REQUIREMENTS,
     TUTOR_MATCH_REQUESTED, TUTOR_OPTIONS_READY, AWAITING_TUTOR_SELECTION, TUTOR_SELECTED,
     TUTOR_CONFIRMATION_PENDING, NEGOTIATING_SLOT, SLOT_HELD, CALENDAR_CREATION_PENDING,
     SCHEDULED, REMINDERS_ACTIVE, DEMO_READY, OUTCOME_PENDING,
     COMPLETED, STUDENT_NO_SHOW_REVIEW, TUTOR_NO_SHOW_REVIEW, POST_DEMO_ANALYSIS,
     FOLLOWUP_PENDING, PAYMENT_PENDING, PAYMENT_CONFIRMED, SUBSCRIPTION_ACTIVATING,
     ONBOARDING_HANDOFF_PENDING, CONVERTED, CANCELLED, HUMAN_HANDOFF,
     FAILED_RECOVERABLE, FAILED_TERMINAL]"

lemma set_all_states [simp]: "set all_states = UNIV"
proof -
  have "x \<in> set all_states" for x by (cases x) (simp_all add: all_states_def)
  then show ?thesis by blast
qed

instantiation demo_state :: enum
begin

definition enum_demo_state :: "demo_state list" where
  "enum_demo_state = all_states"

definition enum_all_demo_state :: "(demo_state \<Rightarrow> bool) \<Rightarrow> bool" where
  "enum_all_demo_state P = list_all P all_states"

definition enum_ex_demo_state :: "(demo_state \<Rightarrow> bool) \<Rightarrow> bool" where
  "enum_ex_demo_state P = list_ex P all_states"

instance
proof
  show "(UNIV :: demo_state set) = set enum_class.enum"
    by (simp add: enum_demo_state_def)
  show "distinct (enum_class.enum :: demo_state list)"
    by (simp add: enum_demo_state_def all_states_def)
qed (simp_all add: enum_all_demo_state_def enum_ex_demo_state_def list_all_iff list_ex_iff)

end

definition TERMINAL :: "demo_state set" where
  "TERMINAL = {CONVERTED, CANCELLED, FAILED_TERMINAL}"

definition AWAITING_USER :: "demo_state set" where
  "AWAITING_USER =
     {COLLECTING_REQUIREMENTS, AWAITING_TUTOR_SELECTION, NEGOTIATING_SLOT, FOLLOWUP_PENDING,
      PAYMENT_PENDING}"

definition SUSPENDED :: "demo_state set" where
  "SUSPENDED = {HUMAN_HANDOFF}"

definition DEMO_BOOKED :: "demo_state set" where
  "DEMO_BOOKED = {SCHEDULED, REMINDERS_ACTIVE, DEMO_READY}"

definition POST_DEMO :: "demo_state set" where
  "POST_DEMO =
     {COMPLETED, POST_DEMO_ANALYSIS, FOLLOWUP_PENDING, STUDENT_NO_SHOW_REVIEW,
      TUTOR_NO_SHOW_REVIEW}"

definition PAYMENT_IN_FLIGHT :: "demo_state set" where
  "PAYMENT_IN_FLIGHT = {PAYMENT_PENDING, PAYMENT_CONFIRMED, SUBSCRIPTION_ACTIVATING}"

definition is_terminal :: "demo_state \<Rightarrow> bool" where
  "is_terminal s \<longleftrightarrow> s \<in> TERMINAL"

definition can_send_automated_message :: "demo_state \<Rightarrow> bool" where
  "can_send_automated_message s \<longleftrightarrow> s \<notin> TERMINAL \<and> s \<notin> SUSPENDED"

lemmas state_sets =
  TERMINAL_def AWAITING_USER_def SUSPENDED_def DEMO_BOOKED_def POST_DEMO_def
  PAYMENT_IN_FLIGHT_def is_terminal_def can_send_automated_message_def

text \<open>The classes the rest of the system keys on do not contradict each other.\<close>

lemma nudgeable_states_can_send: "s \<in> AWAITING_USER \<Longrightarrow> can_send_automated_message s"
  by (auto simp: state_sets)

section \<open>Actors and triggers\<close>

datatype actor =
    USER
  | TUTOR
  | SYSTEM
  | PAYMENT_PROVIDER
  | AGENT
  | OPERATOR
  | SCHEDULER

fun actor_value :: "actor \<Rightarrow> string" where
    "actor_value USER = ''user''"
  | "actor_value TUTOR = ''tutor''"
  | "actor_value SYSTEM = ''system''"
  | "actor_value PAYMENT_PROVIDER = ''payment_provider''"
  | "actor_value AGENT = ''agent''"
  | "actor_value OPERATOR = ''operator''"
  | "actor_value SCHEDULER = ''scheduler''"

datatype trigger =
    HANDOFF_RECEIVED
  | OWNERSHIP_ACQUIRED
  | IDENTITY_RESOLVED
  | IDENTITY_UNRESOLVED
  | REQUIREMENTS_UPDATED
  | REQUIREMENTS_COMPLETE
  | MATCH_REQUESTED
  | MATCH_SUCCEEDED
  | MATCH_EMPTY
  | OPTIONS_PRESENTED
  | TUTOR_CHOSEN
  | OPTIONS_REJECTED
  | TUTOR_CONFIRMATION_SENT
  | TUTOR_ACCEPTED
  | TUTOR_DECLINED
  | TUTOR_REQUEST_EXPIRED
  | SLOT_PROPOSED
  | SLOT_AGREED
  | HOLD_PLACED
  | HOLD_EXPIRED
  | CALENDAR_REQUESTED
  | CALENDAR_CREATED
  | CALENDAR_FAILED
  | REMINDERS_SCHEDULED
  | DEMO_WINDOW_OPEN
  | RESCHEDULE_REQUESTED
  | CANCELLED_BY_USER
  | CANCELLED_BY_TUTOR
  | OUTCOME_DUE
  | DEMO_COMPLETED
  | STUDENT_ABSENT
  | TUTOR_ABSENT
  | NO_SHOW_RESOLVED
  | ANALYSIS_REQUESTED
  | ANALYSIS_COMPLETE
  | FOLLOWUP_SENT
  | PAYMENT_LINK_ISSUED
  | PAYMENT_PAID
  | PAYMENT_FAILED
  | ACTIVATION_STARTED
  | ACTIVATION_SUCCEEDED
  | ACTIVATION_FAILED
  | ONBOARDING_HANDED_OFF
  | ONBOARDING_ACCEPTED
  | HUMAN_REQUESTED
  | HUMAN_RESOLVED
  | RECOVERABLE_FAILURE
  | RETRY
  | ABANDON

fun trigger_value :: "trigger \<Rightarrow> string" where
    "trigger_value HANDOFF_RECEIVED = ''handoff_received''"
  | "trigger_value OWNERSHIP_ACQUIRED = ''ownership_acquired''"
  | "trigger_value IDENTITY_RESOLVED = ''identity_resolved''"
  | "trigger_value IDENTITY_UNRESOLVED = ''identity_unresolved''"
  | "trigger_value REQUIREMENTS_UPDATED = ''requirements_updated''"
  | "trigger_value REQUIREMENTS_COMPLETE = ''requirements_complete''"
  | "trigger_value MATCH_REQUESTED = ''match_requested''"
  | "trigger_value MATCH_SUCCEEDED = ''match_succeeded''"
  | "trigger_value MATCH_EMPTY = ''match_empty''"
  | "trigger_value OPTIONS_PRESENTED = ''options_presented''"
  | "trigger_value TUTOR_CHOSEN = ''tutor_chosen''"
  | "trigger_value OPTIONS_REJECTED = ''options_rejected''"
  | "trigger_value TUTOR_CONFIRMATION_SENT = ''tutor_confirmation_sent''"
  | "trigger_value TUTOR_ACCEPTED = ''tutor_accepted''"
  | "trigger_value TUTOR_DECLINED = ''tutor_declined''"
  | "trigger_value TUTOR_REQUEST_EXPIRED = ''tutor_request_expired''"
  | "trigger_value SLOT_PROPOSED = ''slot_proposed''"
  | "trigger_value SLOT_AGREED = ''slot_agreed''"
  | "trigger_value HOLD_PLACED = ''hold_placed''"
  | "trigger_value HOLD_EXPIRED = ''hold_expired''"
  | "trigger_value CALENDAR_REQUESTED = ''calendar_requested''"
  | "trigger_value CALENDAR_CREATED = ''calendar_created''"
  | "trigger_value CALENDAR_FAILED = ''calendar_failed''"
  | "trigger_value REMINDERS_SCHEDULED = ''reminders_scheduled''"
  | "trigger_value DEMO_WINDOW_OPEN = ''demo_window_open''"
  | "trigger_value RESCHEDULE_REQUESTED = ''reschedule_requested''"
  | "trigger_value CANCELLED_BY_USER = ''cancelled_by_user''"
  | "trigger_value CANCELLED_BY_TUTOR = ''cancelled_by_tutor''"
  | "trigger_value OUTCOME_DUE = ''outcome_due''"
  | "trigger_value DEMO_COMPLETED = ''demo_completed''"
  | "trigger_value STUDENT_ABSENT = ''student_absent''"
  | "trigger_value TUTOR_ABSENT = ''tutor_absent''"
  | "trigger_value NO_SHOW_RESOLVED = ''no_show_resolved''"
  | "trigger_value ANALYSIS_REQUESTED = ''analysis_requested''"
  | "trigger_value ANALYSIS_COMPLETE = ''analysis_complete''"
  | "trigger_value FOLLOWUP_SENT = ''followup_sent''"
  | "trigger_value PAYMENT_LINK_ISSUED = ''payment_link_issued''"
  | "trigger_value PAYMENT_PAID = ''payment_paid''"
  | "trigger_value PAYMENT_FAILED = ''payment_failed''"
  | "trigger_value ACTIVATION_STARTED = ''activation_started''"
  | "trigger_value ACTIVATION_SUCCEEDED = ''activation_succeeded''"
  | "trigger_value ACTIVATION_FAILED = ''activation_failed''"
  | "trigger_value ONBOARDING_HANDED_OFF = ''onboarding_handed_off''"
  | "trigger_value ONBOARDING_ACCEPTED = ''onboarding_accepted''"
  | "trigger_value HUMAN_REQUESTED = ''human_requested''"
  | "trigger_value HUMAN_RESOLVED = ''human_resolved''"
  | "trigger_value RECOVERABLE_FAILURE = ''recoverable_failure''"
  | "trigger_value RETRY = ''retry''"
  | "trigger_value ABANDON = ''abandon''"

definition all_actors :: "actor list" where
  "all_actors =
    [USER, TUTOR, SYSTEM, PAYMENT_PROVIDER,
     AGENT, OPERATOR, SCHEDULER]"

lemma set_all_actors [simp]: "set all_actors = UNIV"
proof -
  have "x \<in> set all_actors" for x by (cases x) (simp_all add: all_actors_def)
  then show ?thesis by blast
qed

instantiation actor :: enum
begin

definition enum_actor :: "actor list" where
  "enum_actor = all_actors"

definition enum_all_actor :: "(actor \<Rightarrow> bool) \<Rightarrow> bool" where
  "enum_all_actor P = list_all P all_actors"

definition enum_ex_actor :: "(actor \<Rightarrow> bool) \<Rightarrow> bool" where
  "enum_ex_actor P = list_ex P all_actors"

instance
proof
  show "(UNIV :: actor set) = set enum_class.enum"
    by (simp add: enum_actor_def)
  show "distinct (enum_class.enum :: actor list)"
    by (simp add: enum_actor_def all_actors_def)
qed (simp_all add: enum_all_actor_def enum_ex_actor_def list_all_iff list_ex_iff)

end

definition all_triggers :: "trigger list" where
  "all_triggers =
    [HANDOFF_RECEIVED, OWNERSHIP_ACQUIRED, IDENTITY_RESOLVED, IDENTITY_UNRESOLVED,
     REQUIREMENTS_UPDATED, REQUIREMENTS_COMPLETE, MATCH_REQUESTED, MATCH_SUCCEEDED,
     MATCH_EMPTY, OPTIONS_PRESENTED, TUTOR_CHOSEN, OPTIONS_REJECTED,
     TUTOR_CONFIRMATION_SENT, TUTOR_ACCEPTED, TUTOR_DECLINED, TUTOR_REQUEST_EXPIRED,
     SLOT_PROPOSED, SLOT_AGREED, HOLD_PLACED, HOLD_EXPIRED,
     CALENDAR_REQUESTED, CALENDAR_CREATED, CALENDAR_FAILED, REMINDERS_SCHEDULED,
     DEMO_WINDOW_OPEN, RESCHEDULE_REQUESTED, CANCELLED_BY_USER, CANCELLED_BY_TUTOR,
     OUTCOME_DUE, DEMO_COMPLETED, STUDENT_ABSENT, TUTOR_ABSENT,
     NO_SHOW_RESOLVED, ANALYSIS_REQUESTED, ANALYSIS_COMPLETE, FOLLOWUP_SENT,
     PAYMENT_LINK_ISSUED, PAYMENT_PAID, PAYMENT_FAILED, ACTIVATION_STARTED,
     ACTIVATION_SUCCEEDED, ACTIVATION_FAILED, ONBOARDING_HANDED_OFF, ONBOARDING_ACCEPTED,
     HUMAN_REQUESTED, HUMAN_RESOLVED, RECOVERABLE_FAILURE, RETRY,
     ABANDON]"

lemma set_all_triggers [simp]: "set all_triggers = UNIV"
proof -
  have "x \<in> set all_triggers" for x by (cases x) (simp_all add: all_triggers_def)
  then show ?thesis by blast
qed

instantiation trigger :: enum
begin

definition enum_trigger :: "trigger list" where
  "enum_trigger = all_triggers"

definition enum_all_trigger :: "(trigger \<Rightarrow> bool) \<Rightarrow> bool" where
  "enum_all_trigger P = list_all P all_triggers"

definition enum_ex_trigger :: "(trigger \<Rightarrow> bool) \<Rightarrow> bool" where
  "enum_ex_trigger P = list_ex P all_triggers"

instance
proof
  show "(UNIV :: trigger set) = set enum_class.enum"
    by (simp add: enum_trigger_def)
  show "distinct (enum_class.enum :: trigger list)"
    by (simp add: enum_trigger_def all_triggers_def)
qed (simp_all add: enum_all_trigger_def enum_ex_trigger_def list_all_iff list_ex_iff)

end

definition USER_FORBIDDEN :: "trigger set" where
  "USER_FORBIDDEN =
     {PAYMENT_PAID, PAYMENT_FAILED, ACTIVATION_SUCCEEDED, ACTIVATION_FAILED, TUTOR_ACCEPTED,
      TUTOR_DECLINED, DEMO_COMPLETED, STUDENT_ABSENT, TUTOR_ABSENT, MATCH_SUCCEEDED,
      IDENTITY_RESOLVED}"

end
