(* ===== verification/Transitions.thy ===== *)
theory Transitions
  imports DemoStates
begin

text \<open>
  state/transitions.py: the commands, the guards and the transition table, row by row in
  the source's order, with the index built from it. A frozenset of sources or actors is
  given by the list of its elements. A guard sees the conversation's facts, a dict from
  names to values of any type; \<open>fact_value\<close> has the kinds of value the code stores
  there, and \<open>truthy\<close> is Python's truth value of each.
\<close>

section \<open>Commands\<close>

datatype command =
    NONE
  | RESOLVE_IDENTITY
  | ASK_MISSING_REQUIREMENTS
  | REQUEST_TUTOR_MATCH
  | PRESENT_TUTOR_OPTIONS
  | REQUEST_TUTOR_CONFIRMATION
  | PROPOSE_SLOTS
  | PLACE_SLOT_HOLD
  | RELEASE_SLOT_HOLD
  | CREATE_CALENDAR_EVENT
  | CANCEL_CALENDAR_EVENT
  | SEND_CONFIRMATION
  | SCHEDULE_REMINDERS
  | CANCEL_REMINDERS
  | CAPTURE_OUTCOME
  | RUN_POST_DEMO_ANALYSIS
  | SEND_FOLLOWUP
  | CREATE_PAYMENT_ORDER
  | ACTIVATE_SUBSCRIPTION
  | HANDOFF_TO_ONBOARDING
  | SEND_WELCOME
  | RAISE_HUMAN_CASE
  | NOTIFY_CANCELLATION
  | TRY_FALLBACK_TUTOR

fun command_value :: "command \<Rightarrow> string" where
    "command_value NONE = ''none''"
  | "command_value RESOLVE_IDENTITY = ''resolve_identity''"
  | "command_value ASK_MISSING_REQUIREMENTS = ''ask_missing_requirements''"
  | "command_value REQUEST_TUTOR_MATCH = ''request_tutor_match''"
  | "command_value PRESENT_TUTOR_OPTIONS = ''present_tutor_options''"
  | "command_value REQUEST_TUTOR_CONFIRMATION = ''request_tutor_confirmation''"
  | "command_value PROPOSE_SLOTS = ''propose_slots''"
  | "command_value PLACE_SLOT_HOLD = ''place_slot_hold''"
  | "command_value RELEASE_SLOT_HOLD = ''release_slot_hold''"
  | "command_value CREATE_CALENDAR_EVENT = ''create_calendar_event''"
  | "command_value CANCEL_CALENDAR_EVENT = ''cancel_calendar_event''"
  | "command_value SEND_CONFIRMATION = ''send_confirmation''"
  | "command_value SCHEDULE_REMINDERS = ''schedule_reminders''"
  | "command_value CANCEL_REMINDERS = ''cancel_reminders''"
  | "command_value CAPTURE_OUTCOME = ''capture_outcome''"
  | "command_value RUN_POST_DEMO_ANALYSIS = ''run_post_demo_analysis''"
  | "command_value SEND_FOLLOWUP = ''send_followup''"
  | "command_value CREATE_PAYMENT_ORDER = ''create_payment_order''"
  | "command_value ACTIVATE_SUBSCRIPTION = ''activate_subscription''"
  | "command_value HANDOFF_TO_ONBOARDING = ''handoff_to_onboarding''"
  | "command_value SEND_WELCOME = ''send_welcome''"
  | "command_value RAISE_HUMAN_CASE = ''raise_human_case''"
  | "command_value NOTIFY_CANCELLATION = ''notify_cancellation''"
  | "command_value TRY_FALLBACK_TUTOR = ''try_fallback_tutor''"

section \<open>Facts and guards\<close>

datatype fact_value =
    FNone
  | FBool bool
  | FInt int
  | FStr string
  | FStrs "string list"

type_synonym facts = "string \<Rightarrow> fact_value option"

fun truthy :: "fact_value \<Rightarrow> bool" where
  "truthy FNone = False"
| "truthy (FBool b) = b"
| "truthy (FInt n) = (n \<noteq> 0)"
| "truthy (FStr s) = (s \<noteq> [])"
| "truthy (FStrs xs) = (xs \<noteq> [])"

record guard_context =
  gc_state :: demo_state
  gc_actor :: actor
  gc_facts :: facts

text \<open>\<open>GuardContext.fact(name, default)\<close>: a \<open>dict.get\<close>; a missing name gives the default.\<close>

definition fact :: "guard_context \<Rightarrow> string \<Rightarrow> fact_value \<Rightarrow> fact_value" where
  "fact ctx name dflt = (case gc_facts ctx name of None \<Rightarrow> dflt | Some v \<Rightarrow> v)"

type_synonym guard = "guard_context \<Rightarrow> string option"

definition require :: "string \<Rightarrow> string \<Rightarrow> guard" where
  "require name message ctx = (if truthy (fact ctx name FNone) then None else Some message)"

text \<open>\<open>','.join(missing)\<close> is only reached for the tuple of names the code stores.\<close>

fun fact_names :: "fact_value \<Rightarrow> string list" where
  "fact_names (FStrs xs) = xs"
| "fact_names (FStr s) = map (\<lambda>c. [c]) s"
| "fact_names _ = []"

definition requirements_complete_guard :: guard where
  "requirements_complete_guard ctx =
     (let missing = fact ctx ''missing_requirements'' (FStrs [])
      in if \<not> truthy missing then None
         else Some (''missing_requirements:'' @ join '','' (fact_names missing)))"

definition tutor_from_trusted_source :: guard where
  "tutor_from_trusted_source ctx =
     (if \<not> truthy (fact ctx ''tutor_ref'' FNone) then Some ''no_tutor_selected''
      else if \<not> truthy (fact ctx ''tutor_in_snapshot'' FNone)
        then Some ''tutor_not_in_presented_candidates''
      else None)"

definition hold_is_live :: guard where
  "hold_is_live ctx =
     (if \<not> truthy (fact ctx ''hold_id'' FNone) then Some ''no_slot_hold''
      else if truthy (fact ctx ''hold_expired'' (FBool False)) then Some ''slot_hold_expired''
      else None)"

definition payment_verified :: guard where
  "payment_verified ctx =
     (if \<not> truthy (fact ctx ''signature_verified'' FNone)
        then Some ''payment_signature_unverified''
      else if \<not> truthy (fact ctx ''amount_matches_order'' FNone)
        then Some ''payment_amount_mismatch''
      else if \<not> truthy (fact ctx ''order_belongs_to_conversation'' FNone)
        then Some ''payment_order_mismatch''
      else None)"

definition outcome_is_evidenced :: guard where
  "outcome_is_evidenced ctx =
     (if \<not> truthy (fact ctx ''grace_period_elapsed'' FNone)
        then Some ''grace_period_not_elapsed''
      else if fact ctx ''evidence_source'' FNone \<in> {FNone, FStr [], FStr ''llm''}
        then Some ''no_authoritative_absence_evidence''
      else None)"

lemmas guard_defs =
  require_def requirements_complete_guard_def tutor_from_trusted_source_def hold_is_live_def
  payment_verified_def outcome_is_evidenced_def fact_def

section \<open>The table\<close>

record transition =
  sources :: "demo_state list"
  on :: trigger
  actors :: "actor list"
  target :: demo_state
  command :: command
  guard :: "guard option"
  compensation :: command
  reason :: string

abbreviation SYSTEM_ONLY :: "actor list" where
  "SYSTEM_ONLY \<equiv> [SYSTEM]"

abbreviation USER_OR_SYSTEM :: "actor list" where
  "USER_OR_SYSTEM \<equiv> [USER, SYSTEM]"

abbreviation ANY_HUMAN :: "actor list" where
  "ANY_HUMAN \<equiv> [USER, OPERATOR]"

abbreviation OPERATOR_ONLY :: "actor list" where
  "OPERATOR_ONLY \<equiv> [OPERATOR]"

abbreviation SCHEDULER_ACTORS :: "actor list" where
  "SCHEDULER_ACTORS \<equiv> [SCHEDULER, SYSTEM]"

definition ESCALATABLE :: "demo_state list" where
  "ESCALATABLE =
     filter (\<lambda>s. s \<notin> {HUMAN_HANDOFF, CONVERTED, CANCELLED, FAILED_TERMINAL}) all_states"

definition CANCELLABLE :: "demo_state list" where
  "CANCELLABLE =
     filter (\<lambda>s. s \<notin> {CONVERTED, CANCELLED, FAILED_TERMINAL, PAYMENT_CONFIRMED,
                     SUBSCRIPTION_ACTIVATING}) all_states"

definition INTAKE_ROWS :: "transition list" where
  "INTAKE_ROWS = [
  \<lparr>sources = [NEW], on = HANDOFF_RECEIVED,
    actors = [AGENT, SYSTEM], target = OWNERSHIP_ACQUIRING,
    command = NONE, guard = None,
    compensation = NONE, reason = ''handoff_accepted''\<rparr>,
  \<lparr>sources = [OWNERSHIP_ACQUIRING], on = OWNERSHIP_ACQUIRED,
    actors = SYSTEM_ONLY, target = IDENTITY_RESOLUTION,
    command = RESOLVE_IDENTITY, guard = None,
    compensation = NONE, reason = ''ownership_taken''\<rparr>,
  \<lparr>sources = [IDENTITY_RESOLUTION], on = IDENTITY_RESOLVED,
    actors = SYSTEM_ONLY, target = COLLECTING_REQUIREMENTS,
    command = ASK_MISSING_REQUIREMENTS, guard = None,
    compensation = NONE, reason = ''identity_resolved''\<rparr>,
  \<lparr>sources = [IDENTITY_RESOLUTION], on = IDENTITY_UNRESOLVED,
    actors = SYSTEM_ONLY, target = COLLECTING_REQUIREMENTS,
    command = ASK_MISSING_REQUIREMENTS, guard = None,
    compensation = NONE, reason = ''identity_pending''\<rparr>,
  \<lparr>sources = [COLLECTING_REQUIREMENTS], on = REQUIREMENTS_UPDATED,
    actors = USER_OR_SYSTEM, target = COLLECTING_REQUIREMENTS,
    command = ASK_MISSING_REQUIREMENTS, guard = None,
    compensation = NONE, reason = ''requirement_captured''\<rparr>,
  \<lparr>sources = [COLLECTING_REQUIREMENTS], on = REQUIREMENTS_COMPLETE,
    actors = SYSTEM_ONLY, target = TUTOR_MATCH_REQUESTED,
    command = REQUEST_TUTOR_MATCH, guard = Some requirements_complete_guard,
    compensation = NONE, reason = ''requirements_complete''\<rparr>]"

definition DISCOVERY_ROWS :: "transition list" where
  "DISCOVERY_ROWS = [
  \<lparr>sources = [TUTOR_MATCH_REQUESTED], on = MATCH_SUCCEEDED,
    actors = SYSTEM_ONLY, target = TUTOR_OPTIONS_READY,
    command = PRESENT_TUTOR_OPTIONS, guard = Some (require ''has_candidates'' ''no_candidates_returned''),
    compensation = NONE, reason = ''candidates_returned''\<rparr>,
  \<lparr>sources = [TUTOR_MATCH_REQUESTED], on = MATCH_EMPTY,
    actors = SYSTEM_ONLY, target = HUMAN_HANDOFF,
    command = RAISE_HUMAN_CASE, guard = None,
    compensation = NONE, reason = ''no_tutor_available''\<rparr>,
  \<lparr>sources = [TUTOR_OPTIONS_READY], on = OPTIONS_PRESENTED,
    actors = SYSTEM_ONLY, target = AWAITING_TUTOR_SELECTION,
    command = NONE, guard = None,
    compensation = NONE, reason = ''options_sent''\<rparr>,
  \<lparr>sources = [AWAITING_TUTOR_SELECTION], on = TUTOR_CHOSEN,
    actors = USER_OR_SYSTEM, target = TUTOR_SELECTED,
    command = PROPOSE_SLOTS, guard = Some tutor_from_trusted_source,
    compensation = NONE, reason = ''tutor_selected''\<rparr>,
  \<lparr>sources = [AWAITING_TUTOR_SELECTION], on = OPTIONS_REJECTED,
    actors = USER_OR_SYSTEM, target = TUTOR_MATCH_REQUESTED,
    command = REQUEST_TUTOR_MATCH, guard = None,
    compensation = NONE, reason = ''alternatives_requested''\<rparr>]"

definition SLOT_ROWS :: "transition list" where
  "SLOT_ROWS = [
  \<lparr>sources = [TUTOR_SELECTED, NEGOTIATING_SLOT], on = SLOT_PROPOSED,
    actors = SYSTEM_ONLY, target = NEGOTIATING_SLOT,
    command = NONE, guard = None,
    compensation = NONE, reason = ''slots_offered''\<rparr>,
  \<lparr>sources = [NEGOTIATING_SLOT, TUTOR_SELECTED], on = SLOT_AGREED,
    actors = USER_OR_SYSTEM, target = SLOT_HELD,
    command = PLACE_SLOT_HOLD, guard = None,
    compensation = NONE, reason = ''slot_agreed''\<rparr>,
  \<lparr>sources = [SLOT_HELD], on = HOLD_PLACED,
    actors = SYSTEM_ONLY, target = TUTOR_CONFIRMATION_PENDING,
    command = REQUEST_TUTOR_CONFIRMATION, guard = Some hold_is_live,
    compensation = NONE, reason = ''hold_placed''\<rparr>,
  \<lparr>sources = [SLOT_HELD, TUTOR_CONFIRMATION_PENDING], on = HOLD_EXPIRED,
    actors = SCHEDULER_ACTORS, target = NEGOTIATING_SLOT,
    command = PROPOSE_SLOTS, guard = None,
    compensation = RELEASE_SLOT_HOLD, reason = ''hold_expired''\<rparr>,
  \<lparr>sources = [TUTOR_CONFIRMATION_PENDING], on = TUTOR_ACCEPTED,
    actors = [TUTOR, OPERATOR, SYSTEM], target = CALENDAR_CREATION_PENDING,
    command = CREATE_CALENDAR_EVENT, guard = Some hold_is_live,
    compensation = RELEASE_SLOT_HOLD, reason = ''tutor_accepted''\<rparr>,
  \<lparr>sources = [TUTOR_CONFIRMATION_PENDING], on = TUTOR_DECLINED,
    actors = [TUTOR, OPERATOR], target = TUTOR_MATCH_REQUESTED,
    command = TRY_FALLBACK_TUTOR, guard = None,
    compensation = RELEASE_SLOT_HOLD, reason = ''tutor_declined''\<rparr>,
  \<lparr>sources = [TUTOR_CONFIRMATION_PENDING], on = TUTOR_REQUEST_EXPIRED,
    actors = SCHEDULER_ACTORS, target = TUTOR_MATCH_REQUESTED,
    command = TRY_FALLBACK_TUTOR, guard = None,
    compensation = RELEASE_SLOT_HOLD, reason = ''tutor_request_expired''\<rparr>]"

definition CALENDAR_ROWS :: "transition list" where
  "CALENDAR_ROWS = [
  \<lparr>sources = [CALENDAR_CREATION_PENDING], on = CALENDAR_CREATED,
    actors = SYSTEM_ONLY, target = SCHEDULED,
    command = SEND_CONFIRMATION, guard = Some (require ''calendar_event_id'' ''calendar_event_missing''),
    compensation = NONE, reason = ''calendar_created''\<rparr>,
  \<lparr>sources = [CALENDAR_CREATION_PENDING], on = CALENDAR_FAILED,
    actors = SYSTEM_ONLY, target = FAILED_RECOVERABLE,
    command = NONE, guard = None,
    compensation = RELEASE_SLOT_HOLD, reason = ''calendar_failed''\<rparr>,
  \<lparr>sources = [FAILED_RECOVERABLE], on = RETRY,
    actors = [SYSTEM, OPERATOR, SCHEDULER], target = NEGOTIATING_SLOT,
    command = PROPOSE_SLOTS, guard = None,
    compensation = NONE, reason = ''retry_after_failure''\<rparr>,
  \<lparr>sources = [SCHEDULED], on = REMINDERS_SCHEDULED,
    actors = SYSTEM_ONLY, target = REMINDERS_ACTIVE,
    command = SCHEDULE_REMINDERS, guard = None,
    compensation = NONE, reason = ''reminders_scheduled''\<rparr>,
  \<lparr>sources = [REMINDERS_ACTIVE, SCHEDULED], on = DEMO_WINDOW_OPEN,
    actors = SCHEDULER_ACTORS, target = DEMO_READY,
    command = NONE, guard = None,
    compensation = NONE, reason = ''demo_window_open''\<rparr>]"

definition RESCHEDULE_ROWS :: "transition list" where
  "RESCHEDULE_ROWS = [
  \<lparr>sources = [SCHEDULED, REMINDERS_ACTIVE, DEMO_READY, SLOT_HELD], on = RESCHEDULE_REQUESTED,
    actors = [USER, TUTOR, OPERATOR], target = NEGOTIATING_SLOT,
    command = PROPOSE_SLOTS, guard = None,
    compensation = CANCEL_REMINDERS, reason = ''reschedule_requested''\<rparr>,
  \<lparr>sources = CANCELLABLE, on = CANCELLED_BY_USER,
    actors = ANY_HUMAN, target = CANCELLED,
    command = NOTIFY_CANCELLATION, guard = None,
    compensation = CANCEL_CALENDAR_EVENT, reason = ''cancelled_by_user''\<rparr>,
  \<lparr>sources = [SCHEDULED, REMINDERS_ACTIVE, DEMO_READY], on = CANCELLED_BY_TUTOR,
    actors = [TUTOR, OPERATOR], target = NEGOTIATING_SLOT,
    command = TRY_FALLBACK_TUTOR, guard = None,
    compensation = CANCEL_CALENDAR_EVENT, reason = ''cancelled_by_tutor''\<rparr>]"

definition OUTCOME_ROWS :: "transition list" where
  "OUTCOME_ROWS = [
  \<lparr>sources = [DEMO_READY, REMINDERS_ACTIVE], on = OUTCOME_DUE,
    actors = SCHEDULER_ACTORS, target = OUTCOME_PENDING,
    command = CAPTURE_OUTCOME, guard = None,
    compensation = NONE, reason = ''outcome_due''\<rparr>,
  \<lparr>sources = [OUTCOME_PENDING, DEMO_READY], on = DEMO_COMPLETED,
    actors = [SYSTEM, OPERATOR, TUTOR], target = COMPLETED,
    command = RUN_POST_DEMO_ANALYSIS, guard = None,
    compensation = NONE, reason = ''demo_completed''\<rparr>,
  \<lparr>sources = [OUTCOME_PENDING, DEMO_READY], on = STUDENT_ABSENT,
    actors = [SYSTEM, OPERATOR], target = STUDENT_NO_SHOW_REVIEW,
    command = NONE, guard = Some outcome_is_evidenced,
    compensation = NONE, reason = ''student_no_show''\<rparr>,
  \<lparr>sources = [OUTCOME_PENDING, DEMO_READY], on = TUTOR_ABSENT,
    actors = [SYSTEM, OPERATOR], target = TUTOR_NO_SHOW_REVIEW,
    command = NONE, guard = Some outcome_is_evidenced,
    compensation = NONE, reason = ''tutor_no_show''\<rparr>,
  \<lparr>sources = [STUDENT_NO_SHOW_REVIEW, TUTOR_NO_SHOW_REVIEW], on = NO_SHOW_RESOLVED,
    actors = [OPERATOR, SYSTEM], target = NEGOTIATING_SLOT,
    command = PROPOSE_SLOTS, guard = None,
    compensation = NONE, reason = ''no_show_rebooking''\<rparr>]"

definition POST_DEMO_ROWS :: "transition list" where
  "POST_DEMO_ROWS = [
  \<lparr>sources = [COMPLETED], on = ANALYSIS_REQUESTED,
    actors = SYSTEM_ONLY, target = POST_DEMO_ANALYSIS,
    command = RUN_POST_DEMO_ANALYSIS, guard = None,
    compensation = NONE, reason = ''analysis_started''\<rparr>,
  \<lparr>sources = [POST_DEMO_ANALYSIS, COMPLETED], on = ANALYSIS_COMPLETE,
    actors = SYSTEM_ONLY, target = FOLLOWUP_PENDING,
    command = SEND_FOLLOWUP, guard = None,
    compensation = NONE, reason = ''analysis_complete''\<rparr>,
  \<lparr>sources = [FOLLOWUP_PENDING], on = FOLLOWUP_SENT,
    actors = SYSTEM_ONLY, target = FOLLOWUP_PENDING,
    command = NONE, guard = None,
    compensation = NONE, reason = ''followup_sent''\<rparr>]"

definition COMMERCIAL_ROWS :: "transition list" where
  "COMMERCIAL_ROWS = [
  \<lparr>sources = [FOLLOWUP_PENDING, POST_DEMO_ANALYSIS], on = PAYMENT_LINK_ISSUED,
    actors = SYSTEM_ONLY, target = PAYMENT_PENDING,
    command = CREATE_PAYMENT_ORDER, guard = Some (require ''approved_quote'' ''no_approved_quote''),
    compensation = NONE, reason = ''payment_link_issued''\<rparr>,
  \<lparr>sources = [PAYMENT_PENDING], on = PAYMENT_PAID,
    actors = [PAYMENT_PROVIDER], target = PAYMENT_CONFIRMED,
    command = ACTIVATE_SUBSCRIPTION, guard = Some payment_verified,
    compensation = NONE, reason = ''payment_verified''\<rparr>,
  \<lparr>sources = [PAYMENT_PENDING], on = PAYMENT_FAILED,
    actors = [PAYMENT_PROVIDER], target = FOLLOWUP_PENDING,
    command = NONE, guard = None,
    compensation = NONE, reason = ''payment_failed''\<rparr>,
  \<lparr>sources = [PAYMENT_CONFIRMED], on = ACTIVATION_STARTED,
    actors = SYSTEM_ONLY, target = SUBSCRIPTION_ACTIVATING,
    command = ACTIVATE_SUBSCRIPTION, guard = None,
    compensation = NONE, reason = ''activation_started''\<rparr>,
  \<lparr>sources = [SUBSCRIPTION_ACTIVATING, PAYMENT_CONFIRMED], on = ACTIVATION_SUCCEEDED,
    actors = SYSTEM_ONLY, target = ONBOARDING_HANDOFF_PENDING,
    command = HANDOFF_TO_ONBOARDING, guard = Some (require ''subscription_ref'' ''no_subscription_ref''),
    compensation = NONE, reason = ''subscription_activated''\<rparr>,
  \<lparr>sources = [SUBSCRIPTION_ACTIVATING], on = ACTIVATION_FAILED,
    actors = SYSTEM_ONLY, target = HUMAN_HANDOFF,
    command = RAISE_HUMAN_CASE, guard = None,
    compensation = NONE, reason = ''activation_failed_paid''\<rparr>,
  \<lparr>sources = [ONBOARDING_HANDOFF_PENDING], on = ONBOARDING_ACCEPTED,
    actors = [AGENT, SYSTEM], target = CONVERTED,
    command = SEND_WELCOME, guard = None,
    compensation = NONE, reason = ''onboarding_accepted''\<rparr>]"

definition EXCEPTIONAL_ROWS :: "transition list" where
  "EXCEPTIONAL_ROWS = [
  \<lparr>sources = ESCALATABLE, on = HUMAN_REQUESTED,
    actors = [USER, SYSTEM, OPERATOR], target = HUMAN_HANDOFF,
    command = RAISE_HUMAN_CASE, guard = None,
    compensation = NONE, reason = ''human_requested''\<rparr>,
  \<lparr>sources = [HUMAN_HANDOFF], on = HUMAN_RESOLVED,
    actors = OPERATOR_ONLY, target = COLLECTING_REQUIREMENTS,
    command = ASK_MISSING_REQUIREMENTS, guard = None,
    compensation = NONE, reason = ''human_resolved''\<rparr>,
  \<lparr>sources = ESCALATABLE, on = RECOVERABLE_FAILURE,
    actors = SYSTEM_ONLY, target = FAILED_RECOVERABLE,
    command = NONE, guard = None,
    compensation = NONE, reason = ''recoverable_failure''\<rparr>,
  \<lparr>sources = [FAILED_RECOVERABLE], on = ABANDON,
    actors = [OPERATOR, SYSTEM], target = FAILED_TERMINAL,
    command = NONE, guard = None,
    compensation = NONE, reason = ''abandoned''\<rparr>]"

definition TRANSITIONS :: "transition list" where
  "TRANSITIONS =
     INTAKE_ROWS @ DISCOVERY_ROWS @ SLOT_ROWS @ CALENDAR_ROWS @ RESCHEDULE_ROWS @
     OUTCOME_ROWS @ POST_DEMO_ROWS @ COMMERCIAL_ROWS @ EXCEPTIONAL_ROWS"

lemmas table_rows =
  INTAKE_ROWS_def DISCOVERY_ROWS_def SLOT_ROWS_def CALENDAR_ROWS_def RESCHEDULE_ROWS_def
  OUTCOME_ROWS_def POST_DEMO_ROWS_def COMMERCIAL_ROWS_def EXCEPTIONAL_ROWS_def

lemma set_ESCALATABLE [simp]:
  "s \<in> set ESCALATABLE \<longleftrightarrow> s \<notin> {HUMAN_HANDOFF, CONVERTED, CANCELLED, FAILED_TERMINAL}"
  by (simp add: ESCALATABLE_def)

lemma set_CANCELLABLE [simp]:
  "s \<in> set CANCELLABLE \<longleftrightarrow>
     s \<notin> {CONVERTED, CANCELLED, FAILED_TERMINAL, PAYMENT_CONFIRMED, SUBSCRIPTION_ACTIVATING}"
  by (simp add: CANCELLABLE_def)

section \<open>The index\<close>

type_synonym index = "demo_state \<times> trigger \<Rightarrow> transition option"

text \<open>
  The module-level loop that fills \<open>INDEX\<close>: a second row for a key raises, so that the
  module does not even import.
\<close>

fun index_row :: "transition \<Rightarrow> demo_state list \<Rightarrow> index \<Rightarrow> string + index" where
  "index_row t [] idx = Inr idx"
| "index_row t (s # ss) idx =
     (case idx (s, on t) of
        Some _ \<Rightarrow> Inl (''ambiguous transition for '' @ state_value s @ ''/'' @ trigger_value (on t))
      | None \<Rightarrow> index_row t ss (idx((s, on t) \<mapsto> t)))"

fun build_index :: "transition list \<Rightarrow> index \<Rightarrow> string + index" where
  "build_index [] idx = Inr idx"
| "build_index (t # ts) idx = and_then (index_row t (sources t) idx) (build_index ts)"

definition row_matches :: "demo_state \<Rightarrow> trigger \<Rightarrow> transition \<Rightarrow> bool" where
  "row_matches s tr t \<longleftrightarrow> on t = tr \<and> s \<in> set (sources t)"

definition INDEX :: index where
  "INDEX = (case build_index TRANSITIONS Map.empty of Inl _ \<Rightarrow> Map.empty | Inr idx \<Rightarrow> idx)"

definition lookup :: "demo_state \<Rightarrow> trigger \<Rightarrow> transition option" where
  "lookup s tr = INDEX (s, tr)"

lemma index_row_result:
  "index_row t ss idx = Inr idx' \<Longrightarrow>
     idx' (s, tr) = (if on t = tr \<and> s \<in> set ss then Some t else idx (s, tr))"
  by (induction t ss idx rule: index_row.induct) (auto split: option.splits)

lemma index_row_fresh:
  "index_row t ss idx = Inr idx' \<Longrightarrow> s \<in> set ss \<Longrightarrow> idx (s, on t) = None"
  by (induction t ss idx rule: index_row.induct) (auto split: option.splits if_splits)

text \<open>The dictionary agrees with a scan of the table, whenever it could be built at all.\<close>

lemma build_index_scan:
  "build_index ts idx = Inr idx' \<Longrightarrow>
     idx' (s, tr) = (case idx (s, tr) of Some t \<Rightarrow> Some t | None \<Rightarrow> find (row_matches s tr) ts)"
proof (induction ts arbitrary: idx)
  case Nil
  then show ?case by (simp split: option.splits)
next
  case (Cons t ts)
  from Cons.prems obtain mid where mid: "index_row t (sources t) idx = Inr mid"
    and rest: "build_index ts mid = Inr idx'"
    by auto
  have "mid (s, tr) = (if row_matches s tr t then Some t else idx (s, tr))"
    using index_row_result [OF mid, of s tr] by (auto simp: row_matches_def)
  moreover have "row_matches s tr t \<Longrightarrow> idx (s, tr) = None"
    using index_row_fresh [OF mid, of s] by (auto simp: row_matches_def)
  ultimately show ?case
    using Cons.IH [OF rest] by (auto split: option.splits)
qed

lemma index_row_ok:
  "distinct ss \<Longrightarrow> \<forall>s\<in>set ss. idx (s, on t) = None \<Longrightarrow>
     \<exists>idx'. index_row t ss idx = Inr idx'"
  by (induction t ss idx rule: index_row.induct) fastforce+

definition row_keys :: "transition \<Rightarrow> (demo_state \<times> trigger) list" where
  "row_keys t = map (\<lambda>s. (s, on t)) (sources t)"

lemma build_index_ok:
  assumes "distinct (concat (map row_keys ts))"
    and "\<And>k. k \<in> set (concat (map row_keys ts)) \<Longrightarrow> idx k = None"
  shows "\<exists>idx'. build_index ts idx = Inr idx'"
  using assms
proof (induction ts arbitrary: idx)
  case Nil
  then show ?case by simp
next
  case (Cons t ts)
  have "distinct (sources t)"
    using Cons.prems(1) by (auto simp: row_keys_def distinct_map)
  moreover have "idx (s, on t) = None" if "s \<in> set (sources t)" for s
    using Cons.prems(2) [of "(s, on t)"] that by (simp add: row_keys_def)
  ultimately obtain mid where mid: "index_row t (sources t) idx = Inr mid"
    using index_row_ok by blast
  have "mid k = None" if k: "k \<in> set (concat (map row_keys ts))" for k
  proof -
    obtain s tr where k': "k = (s, tr)" by (cases k)
    have "\<not> (on t = tr \<and> s \<in> set (sources t))"
      using Cons.prems(1) k k' by (auto simp: row_keys_def)
    then show ?thesis
      using index_row_result [OF mid, of s tr] Cons.prems(2) [of k] k k' by auto
  qed
  with Cons.IH [of mid] Cons.prems(1) mid show ?case by auto
qed

end
