(* ===== verification/Machine.thy ===== *)
theory Machine
  imports Transitions
begin

text \<open>
  state/machine.py: the state machine as a pure function of a snapshot and an event, its
  non-raising probe and its menu of available triggers; then the runs it allows, as an
  inductive step relation, and what every run satisfies.
\<close>

section \<open>Snapshots and results\<close>

record snapshot =
  sn_conversation_ref :: ref
  sn_state :: demo_state
  sn_version :: int
  sn_demo_id :: "ref option"
  sn_updated_at :: "instant option"
  sn_facts :: facts

definition with_facts :: "snapshot \<Rightarrow> facts \<Rightarrow> snapshot" where
  "with_facts sn extra = sn\<lparr>sn_facts := sn_facts sn ++ extra\<rparr>"

lemma with_facts_frame [simp, frame_simps]:
  "sn_state (with_facts sn extra) = sn_state sn"
  "sn_version (with_facts sn extra) = sn_version sn"
  "sn_conversation_ref (with_facts sn extra) = sn_conversation_ref sn"
  by (simp_all add: with_facts_def)

record rejection =
  rj_reason :: string
  rj_state :: demo_state
  rj_trigger :: trigger

record transition_result =
  tr_conversation_ref :: ref
  from_state :: demo_state
  to_state :: demo_state
  tr_trigger :: trigger
  tr_actor :: actor
  tr_command :: command
  tr_compensation :: command
  tr_reason :: string
  expected_version :: int

definition changed :: "transition_result \<Rightarrow> bool" where
  "changed r \<longleftrightarrow> from_state r \<noteq> to_state r"

definition reject :: "string \<Rightarrow> demo_state \<Rightarrow> trigger \<Rightarrow> rejection" where
  "reject why s tr = \<lparr>rj_reason = why, rj_state = s, rj_trigger = tr\<rparr>"

section \<open>The machine\<close>

definition authorise :: "transition \<Rightarrow> actor \<Rightarrow> demo_state \<Rightarrow> trigger \<Rightarrow> rejection + unit" where
  "authorise t a s tr =
     (if a = USER \<and> tr \<in> USER_FORBIDDEN then Inl (reject ''trigger_forbidden_for_user'' s tr)
      else if a \<notin> set (actors t)
        then Inl (reject (''actor_not_permitted:'' @ actor_value a) s tr)
      else Inr ())"

definition run_guard :: "transition \<Rightarrow> guard_context \<Rightarrow> string option" where
  "run_guard t ctx = (case guard t of None \<Rightarrow> None | Some g \<Rightarrow> g ctx)"

definition result_for :: "snapshot \<Rightarrow> transition \<Rightarrow> trigger \<Rightarrow> actor \<Rightarrow> transition_result" where
  "result_for sn t tr a =
     \<lparr>tr_conversation_ref = sn_conversation_ref sn, from_state = sn_state sn,
      to_state = target t, tr_trigger = tr, tr_actor = a, tr_command = command t,
      tr_compensation = compensation t,
      tr_reason = (if reason t = [] then trigger_value tr else reason t),
      expected_version = sn_version sn\<rparr>"

lemma result_for_simps [simp]:
  "from_state (result_for sn t tr a) = sn_state sn" "to_state (result_for sn t tr a) = target t"
  "tr_trigger (result_for sn t tr a) = tr" "tr_actor (result_for sn t tr a) = a"
  "tr_command (result_for sn t tr a) = command t"
  "tr_compensation (result_for sn t tr a) = compensation t"
  "expected_version (result_for sn t tr a) = sn_version sn"
  "tr_conversation_ref (result_for sn t tr a) = sn_conversation_ref sn"
  by (simp_all add: result_for_def)

text \<open>\<open>StateMachine.fire\<close>: terminal, table lookup, authorisation, guard, in that order.\<close>

definition fire :: "snapshot \<Rightarrow> trigger \<Rightarrow> actor \<Rightarrow> facts \<Rightarrow> rejection + transition_result" where
  "fire sn tr a fs =
     (let s = sn_state sn in
      if is_terminal s then Inl (reject ''conversation_is_terminal'' s tr)
      else case lookup s tr of
        None \<Rightarrow> Inl (reject ''illegal_transition'' s tr)
      | Some t \<Rightarrow>
          and_then (authorise t a s tr) (\<lambda>_.
            case run_guard t \<lparr>gc_state = s, gc_actor = a, gc_facts = sn_facts sn ++ fs\<rparr> of
              Some refusal \<Rightarrow> Inl (reject refusal s tr)
            | None \<Rightarrow> Inr (result_for sn t tr a)))"

definition can_fire :: "snapshot \<Rightarrow> trigger \<Rightarrow> actor \<Rightarrow> facts \<Rightarrow> bool" where
  "can_fire sn tr a fs = (case fire sn tr a fs of Inl _ \<Rightarrow> False | Inr _ \<Rightarrow> True)"

definition triggers_from :: "demo_state \<Rightarrow> trigger set" where
  "triggers_from s = set (filter (\<lambda>tr. INDEX (s, tr) \<noteq> None) all_triggers)"

text \<open>\<open>StateMachine.available\<close>: authorisation only, guards deliberately ignored.\<close>

definition available :: "snapshot \<Rightarrow> actor \<Rightarrow> trigger set" where
  "available sn a =
     {tr \<in> triggers_from (sn_state sn).
        case lookup (sn_state sn) tr of
          None \<Rightarrow> False
        | Some t \<Rightarrow> \<not> raises (authorise t a (sn_state sn) tr)}"

definition user_authorised_triggers :: "trigger set" where
  "user_authorised_triggers = set (map on (filter (\<lambda>t. USER \<in> set (actors t)) TRANSITIONS))"

datatype table_problem =
    UserForbidden "trigger set"
  | Unreachable "demo_state list"
  | DeadEnd demo_state

definition table_invariants :: "table_problem list" where
  "table_invariants =
     (let forbidden = user_authorised_triggers \<inter> USER_FORBIDDEN;
          reachable = insert NEW (set (map target TRANSITIONS));
          unreachable = filter (\<lambda>s. s \<notin> reachable) all_states
      in (if forbidden \<noteq> {} then [UserForbidden forbidden] else []) @
         (if unreachable \<noteq> [] then [Unreachable unreachable] else []) @
         map DeadEnd (filter (\<lambda>s. \<not> (s \<in> TERMINAL \<or> s = HUMAN_HANDOFF) \<and> triggers_from s = {})
                        all_states))"

section \<open>The table is unambiguous, and the index is a scan of it\<close>

lemma table_keys_distinct: "distinct (concat (map row_keys TRANSITIONS))"
  by code_simp

lemma table_index: "\<exists>idx. build_index TRANSITIONS Map.empty = Inr idx"
  by (rule build_index_ok [OF table_keys_distinct]) simp

lemma lookup_scan: "lookup s tr = find (row_matches s tr) TRANSITIONS"
proof -
  obtain idx where "build_index TRANSITIONS Map.empty = Inr idx"
    using table_index by blast
  then show ?thesis
    using build_index_scan [of TRANSITIONS Map.empty idx s tr]
    by (simp add: lookup_def INDEX_def)
qed

lemma lookup_SomeD:
  "lookup s tr = Some t \<Longrightarrow> t \<in> set TRANSITIONS \<and> on t = tr \<and> s \<in> set (sources t)"
  unfolding lookup_scan by (drule find_Some_in) (simp add: row_matches_def)

lemma find_row:
  "distinct (concat (map row_keys ts)) \<Longrightarrow> t \<in> set ts \<Longrightarrow> row_matches s tr t \<Longrightarrow>
     find (row_matches s tr) ts = Some t"
proof (induction ts)
  case (Cons u ts)
  have "u = t" if "row_matches s tr u"
    using Cons.prems that by (force simp: row_keys_def row_matches_def)
  with Cons show ?case by auto
qed simp

lemma lookup_iff:
  "lookup s tr = Some t \<longleftrightarrow> t \<in> set TRANSITIONS \<and> on t = tr \<and> s \<in> set (sources t)"
  using lookup_SomeD find_row [OF table_keys_distinct, of t s tr]
  by (auto simp: lookup_scan row_matches_def)

lemma no_row_from_terminal: "t \<in> set TRANSITIONS \<Longrightarrow> s \<in> set (sources t) \<Longrightarrow> s \<notin> TERMINAL"
  by (auto simp: TRANSITIONS_def table_rows TERMINAL_def)

lemma triggers_from_iff:
  "tr \<in> triggers_from s \<longleftrightarrow> (\<exists>t\<in>set TRANSITIONS. on t = tr \<and> s \<in> set (sources t))"
  by (auto simp: triggers_from_def lookup_def [symmetric] lookup_iff)

lemma authorise_Inr [simp]:
  "authorise t a s tr = Inr u \<longleftrightarrow> \<not> (a = USER \<and> tr \<in> USER_FORBIDDEN) \<and> a \<in> set (actors t)"
  by (auto simp: authorise_def)

section \<open>What makes an event fire\<close>

lemma fire_Inr_iff:
  "fire sn tr a fs = Inr r \<longleftrightarrow>
     (\<exists>t\<in>set TRANSITIONS. on t = tr \<and> sn_state sn \<in> set (sources t) \<and>
        \<not> (a = USER \<and> tr \<in> USER_FORBIDDEN) \<and> a \<in> set (actors t) \<and>
        run_guard t \<lparr>gc_state = sn_state sn, gc_actor = a, gc_facts = sn_facts sn ++ fs\<rparr> = None \<and>
        r = result_for sn t tr a)"
proof (cases "lookup (sn_state sn) tr")
  case None
  then have "\<not> (\<exists>t\<in>set TRANSITIONS. on t = tr \<and> sn_state sn \<in> set (sources t))"
    by (metis (no_types) lookup_iff option.distinct(1))
  with None show ?thesis by (auto simp: fire_def Let_def)
next
  case (Some t)
  then have t: "t \<in> set TRANSITIONS" "on t = tr" "sn_state sn \<in> set (sources t)"
    by (simp_all add: lookup_iff)
  have only: "u = t" if "u \<in> set TRANSITIONS" "on u = tr" "sn_state sn \<in> set (sources u)" for u
    using that Some lookup_iff [of "sn_state sn" tr u] by simp
  have "\<not> is_terminal (sn_state sn)"
    using no_row_from_terminal t by (auto simp: is_terminal_def)
  with Some have "fire sn tr a fs = Inr r \<longleftrightarrow>
     \<not> (a = USER \<and> tr \<in> USER_FORBIDDEN) \<and> a \<in> set (actors t) \<and>
        run_guard t \<lparr>gc_state = sn_state sn, gc_actor = a, gc_facts = sn_facts sn ++ fs\<rparr> = None \<and>
        r = result_for sn t tr a"
    by (auto simp: fire_def Let_def split: option.splits)
  with t only show ?thesis by metis
qed

end
