(* ===== verification/MachineRuns.thy ===== *)
theory MachineRuns
  imports Machine
begin

text \<open>
  The runs of the state machine. A step is one successful \<open>fire\<close> from some snapshot in
  the given state; an event records the trigger, the actor and the facts the guard saw
  (the snapshot's, overlaid by the turn's). \<open>step_iff_row\<close> reduces a step to a row of
  the table, and \<open>entry\<close> is the one argument behind every "only after" property: a run
  that ends inside a set of states it did not start in has a last step into the set.
\<close>

section \<open>Steps and runs\<close>

record event =
  ev_trigger :: trigger
  ev_actor :: actor
  ev_facts :: facts

definition saw :: "event \<Rightarrow> string \<Rightarrow> bool" where
  "saw e name \<longleftrightarrow> (case ev_facts e name of None \<Rightarrow> False | Some v \<Rightarrow> truthy v)"

inductive step :: "demo_state \<Rightarrow> event \<Rightarrow> demo_state \<Rightarrow> bool" where
  fired: "fire sn tr a fs = Inr r \<Longrightarrow>
     step (sn_state sn) \<lparr>ev_trigger = tr, ev_actor = a, ev_facts = sn_facts sn ++ fs\<rparr> (to_state r)"

inductive run :: "demo_state \<Rightarrow> event list \<Rightarrow> demo_state \<Rightarrow> bool" for s where
  run_nil: "run s [] s"
| run_snoc: "run s es t \<Longrightarrow> step t e u \<Longrightarrow> run s (es @ [e]) u"

inductive_cases step_elim: "step s e t"
inductive_cases run_nilE: "run s [] t"

definition guard_passes :: "transition \<Rightarrow> demo_state \<Rightarrow> event \<Rightarrow> bool" where
  "guard_passes t s e \<longleftrightarrow>
     run_guard t \<lparr>gc_state = s, gc_actor = ev_actor e, gc_facts = ev_facts e\<rparr> = None"

definition row_allows :: "transition \<Rightarrow> demo_state \<Rightarrow> event \<Rightarrow> bool" where
  "row_allows t s e \<longleftrightarrow>
     on t = ev_trigger e \<and> s \<in> set (sources t) \<and>
     \<not> (ev_actor e = USER \<and> ev_trigger e \<in> USER_FORBIDDEN) \<and> ev_actor e \<in> set (actors t) \<and>
     guard_passes t s e"

lemma step_iff_row:
  "step s e u \<longleftrightarrow> (\<exists>t\<in>set TRANSITIONS. row_allows t s e \<and> target t = u)"
proof
  assume "step s e u"
  then show "\<exists>t\<in>set TRANSITIONS. row_allows t s e \<and> target t = u"
    by cases (auto simp: fire_Inr_iff row_allows_def guard_passes_def)
next
  assume "\<exists>t\<in>set TRANSITIONS. row_allows t s e \<and> target t = u"
  then obtain t where t: "t \<in> set TRANSITIONS" "row_allows t s e" "target t = u"
    by blast
  let ?sn = "\<lparr>sn_conversation_ref = [], sn_state = s, sn_version = 0, sn_demo_id = None,
    sn_updated_at = None, sn_facts = ev_facts e\<rparr>"
  have "fire ?sn (ev_trigger e) (ev_actor e) Map.empty =
      Inr (result_for ?sn t (ev_trigger e) (ev_actor e))"
    using t by (auto simp: fire_Inr_iff row_allows_def guard_passes_def intro!: bexI [of _ t])
  from fired [OF this] t(3) show "step s e u" by (cases e) simp
qed

lemma step_not_terminal: "step s e t \<Longrightarrow> s \<notin> TERMINAL"
  using no_row_from_terminal by (auto simp: step_iff_row row_allows_def)

text \<open>The rows into a state: for a given state this evaluates to a short list.\<close>

definition rows_into :: "demo_state \<Rightarrow> transition list" where
  "rows_into u = filter (\<lambda>t. target t = u) TRANSITIONS"

lemma step_into: "step s e u \<longleftrightarrow> (\<exists>t\<in>set (rows_into u). row_allows t s e)"
  by (auto simp: step_iff_row rows_into_def)

lemmas eval_rows_into = rows_into_def TRANSITIONS_def table_rows

text \<open>A guard reads the facts of the event through \<open>saw\<close>.\<close>

lemma truthy_fact [simp]:
  "truthy (fact \<lparr>gc_state = s, gc_actor = a, gc_facts = ev_facts e\<rparr> name FNone) = saw e name"
  "truthy (fact \<lparr>gc_state = s, gc_actor = a, gc_facts = ev_facts e\<rparr> name (FBool False)) = saw e name"
  by (simp_all add: fact_def saw_def split: option.splits)

lemmas guards =
  require_def tutor_from_trusted_source_def hold_is_live_def payment_verified_def
  outcome_is_evidenced_def

lemmas row_eval = row_allows_def guard_passes_def run_guard_def guards

section \<open>The last entry into a set of states\<close>

lemma entry:
  assumes "run s es u" and "u \<in> A" and "s \<notin> A"
  shows "\<exists>before e rest mid t. es = before @ e # rest \<and> run s before mid \<and> mid \<notin> A \<and>
           step mid e t \<and> t \<in> A"
  using assms
proof (induction rule: run.induct)
  case run_nil
  then show ?case by simp
next
  case (run_snoc es t e u)
  show ?case
  proof (cases "t \<in> A")
    case True
    with run_snoc obtain before e' rest mid t' where
      "es = before @ e' # rest" "run s before mid" "mid \<notin> A" "step mid e' t'" "t' \<in> A"
      by blast
    then show ?thesis by (intro exI [of _ before] exI [of _ e'] exI [of _ "rest @ [e]"]) auto
  next
    case False
    with run_snoc show ?thesis by blast
  qed
qed

lemma entry_by:
  assumes "run s es u" and "u \<in> A" and "s \<notin> A"
    and "\<And>mid e t. step mid e t \<Longrightarrow> mid \<notin> A \<Longrightarrow> t \<in> A \<Longrightarrow> P e \<and> mid \<in> B"
  obtains before e rest mid where "es = before @ e # rest" "run s before mid" "mid \<in> B" "P e"
  using entry [OF assms(1-3)] assms(4) by blast

section \<open>Which rows enter which states\<close>

text \<open>
  Each of these is read off the table: the rows whose target lies in the set, with the
  guard they carry.
\<close>

lemma into_CONVERTED:
  "step s e CONVERTED \<Longrightarrow> ev_trigger e = ONBOARDING_ACCEPTED \<and> s = ONBOARDING_HANDOFF_PENDING"
  by (simp add: step_into eval_rows_into) (simp add: row_eval)

lemma into_ONBOARDING:
  "step s e ONBOARDING_HANDOFF_PENDING \<Longrightarrow>
     ev_trigger e = ACTIVATION_SUCCEEDED \<and> saw e ''subscription_ref'' \<and>
     s \<in> {SUBSCRIPTION_ACTIVATING, PAYMENT_CONFIRMED}"
  by (simp add: step_into eval_rows_into) (auto simp: row_eval split: if_splits)

definition payment_evidence :: "event \<Rightarrow> bool" where
  "payment_evidence e \<longleftrightarrow>
     ev_trigger e = PAYMENT_PAID \<and> ev_actor e = PAYMENT_PROVIDER \<and>
     saw e ''signature_verified'' \<and> saw e ''amount_matches_order'' \<and>
     saw e ''order_belongs_to_conversation''"

lemma into_ACTIVATING: "step s e SUBSCRIPTION_ACTIVATING \<Longrightarrow> s = PAYMENT_CONFIRMED"
  by (simp add: step_into eval_rows_into) (simp add: row_eval)

lemma into_PAID: "step s e PAYMENT_CONFIRMED \<Longrightarrow> payment_evidence e \<and> s = PAYMENT_PENDING"
  by (simp add: step_into eval_rows_into)
    (auto simp: row_eval payment_evidence_def split: if_splits)

lemma into_SCHEDULED:
  "step s e SCHEDULED \<Longrightarrow>
     ev_trigger e = CALENDAR_CREATED \<and> saw e ''calendar_event_id'' \<and> s = CALENDAR_CREATION_PENDING"
  by (simp add: step_into eval_rows_into) (auto simp: row_eval split: if_splits)

lemma into_REMINDERS: "step s e REMINDERS_ACTIVE \<Longrightarrow> s = SCHEDULED"
  by (simp add: step_into eval_rows_into) (simp add: row_eval)

lemma into_READY: "step s e DEMO_READY \<Longrightarrow> s \<in> {REMINDERS_ACTIVE, SCHEDULED}"
  by (simp add: step_into eval_rows_into) (auto simp: row_eval)

lemma into_CALENDAR:
  "step s e CALENDAR_CREATION_PENDING \<Longrightarrow>
     ev_trigger e = TUTOR_ACCEPTED \<and> ev_actor e \<in> {TUTOR, OPERATOR, SYSTEM} \<and>
     saw e ''hold_id'' \<and> \<not> saw e ''hold_expired'' \<and> s = TUTOR_CONFIRMATION_PENDING"
  by (simp add: step_into eval_rows_into) (auto simp: row_eval split: if_splits)

lemma into_CONFIRMATION:
  "step s e TUTOR_CONFIRMATION_PENDING \<Longrightarrow>
     ev_trigger e = HOLD_PLACED \<and> saw e ''hold_id'' \<and> \<not> saw e ''hold_expired'' \<and> s = SLOT_HELD"
  by (simp add: step_into eval_rows_into) (auto simp: row_eval split: if_splits)

section \<open>What the parent can do\<close>

definition user_targets :: "demo_state set" where
  "user_targets =
     {COLLECTING_REQUIREMENTS, TUTOR_SELECTED, TUTOR_MATCH_REQUESTED, SLOT_HELD,
      NEGOTIATING_SLOT, CANCELLED, HUMAN_HANDOFF}"

lemma user_rows:
  "t \<in> set TRANSITIONS \<Longrightarrow> USER \<in> set (actors t) \<Longrightarrow> target t \<in> user_targets"
  by (auto simp: TRANSITIONS_def table_rows user_targets_def)

text \<open>What a parent's message can do: every step fired by the user is on a trigger users may fire
  and leads to one of seven states; none of them is booked, paid, activated or converted.\<close>

theorem user_steps_are_harmless:
  "step s e u \<Longrightarrow> ev_actor e = USER \<Longrightarrow>
     ev_trigger e \<notin> USER_FORBIDDEN \<and> u \<in> user_targets"
  using user_rows by (auto simp: step_iff_row row_allows_def)

theorem user_steps_are_harmless_witness:
  "\<exists>e u. step AWAITING_TUTOR_SELECTION e u \<and> ev_actor e = USER \<and> u \<in> user_targets"
proof -
  let ?e = "\<lparr>ev_trigger = HUMAN_REQUESTED, ev_actor = USER, ev_facts = Map.empty\<rparr>"
  have st: "step AWAITING_TUTOR_SELECTION ?e HUMAN_HANDOFF"
    by (simp add: step_into eval_rows_into row_eval USER_FORBIDDEN_def)
  then have "HUMAN_HANDOFF \<in> user_targets" using user_steps_are_harmless [OF st] by simp
  with st show ?thesis by (intro exI [of _ ?e] exI [of _ HUMAN_HANDOFF]) simp
qed

lemma available_iff:
  "tr \<in> available sn a \<longleftrightarrow>
     (\<exists>t. lookup (sn_state sn) tr = Some t \<and> \<not> raises (authorise t a (sn_state sn) tr))"
  by (auto simp: available_def triggers_from_def lookup_def split: option.splits)

lemma fire_unavailable:
  assumes "tr \<notin> available sn a"
  shows "fire sn tr a fs = (if is_terminal (sn_state sn)
       then Inl (reject ''conversation_is_terminal'' (sn_state sn) tr)
       else case lookup (sn_state sn) tr of
         None \<Rightarrow> Inl (reject ''illegal_transition'' (sn_state sn) tr)
       | Some t \<Rightarrow> Inl (projl (authorise t a (sn_state sn) tr)))"
proof (cases "lookup (sn_state sn) tr")
  case None
  then show ?thesis by (simp add: fire_def Let_def)
next
  case (Some t)
  with assms have "raises (authorise t a (sn_state sn) tr)" by (simp add: available_iff)
  then obtain e where "authorise t a (sn_state sn) tr = Inl e"
    by (cases "authorise t a (sn_state sn) tr") auto
  with Some show ?thesis by (simp add: fire_def Let_def)
qed

text \<open>The answer an unauthorised actor gets is a function of the state alone: it is a rejection, and
  the same one whatever facts are stored and whatever facts come with the event, so it cannot be used
  to probe what a guard reads.\<close>

theorem unauthorised_actor_cannot_probe:
  assumes "tr \<notin> available sn a"
  shows "raises (fire sn tr a fs) \<and> fire (with_facts sn gs) tr a fs' = fire sn tr a fs"
proof -
  have "tr \<notin> available (with_facts sn gs) a"
    using assms by (simp add: available_iff)
  with assms show ?thesis
    by (simp add: fire_unavailable split: option.splits)
qed

theorem unauthorised_actor_cannot_probe_witness:
  "let sn = \<lparr>sn_conversation_ref = ''c'', sn_state = PAYMENT_PENDING, sn_version = 3,
         sn_demo_id = None, sn_updated_at = None, sn_facts = Map.empty\<rparr>
   in fire (with_facts sn [''signature_verified'' \<mapsto> FBool True]) PAYMENT_PAID USER
        [''amount_matches_order'' \<mapsto> FBool True]
      = fire sn PAYMENT_PAID USER Map.empty \<and> raises (fire sn PAYMENT_PAID USER Map.empty)"
proof -
  let ?sn = "\<lparr>sn_conversation_ref = ''c'', sn_state = PAYMENT_PENDING, sn_version = 3,
         sn_demo_id = None, sn_updated_at = None, sn_facts = Map.empty\<rparr>"
  have "PAYMENT_PAID \<notin> available ?sn USER"
    by (auto simp: available_iff authorise_def USER_FORBIDDEN_def)
  from unauthorised_actor_cannot_probe [OF this]
  show ?thesis by (simp add: Let_def)
qed

section \<open>Every guard can pass\<close>

definition good_facts :: facts where
  "good_facts = Map.empty(
     ''missing_requirements'' \<mapsto> FStrs [], ''has_candidates'' \<mapsto> FBool True,
     ''tutor_ref'' \<mapsto> FStr ''tut_1'', ''tutor_in_snapshot'' \<mapsto> FBool True,
     ''hold_id'' \<mapsto> FStr ''hold_1'', ''hold_expired'' \<mapsto> FBool False,
     ''calendar_event_id'' \<mapsto> FStr ''ev_1'', ''grace_period_elapsed'' \<mapsto> FBool True,
     ''evidence_source'' \<mapsto> FStr ''meet_participation'', ''approved_quote'' \<mapsto> FBool True,
     ''signature_verified'' \<mapsto> FBool True, ''amount_matches_order'' \<mapsto> FBool True,
     ''order_belongs_to_conversation'' \<mapsto> FBool True, ''subscription_ref'' \<mapsto> FStr ''sub_1'')"

lemma table_guards:
  "t \<in> set TRANSITIONS \<Longrightarrow> guard t \<in> {None, Some requirements_complete_guard,
     Some tutor_from_trusted_source, Some hold_is_live, Some payment_verified,
     Some outcome_is_evidenced, Some (require ''has_candidates'' ''no_candidates_returned''),
     Some (require ''calendar_event_id'' ''calendar_event_missing''),
     Some (require ''approved_quote'' ''no_approved_quote''),
     Some (require ''subscription_ref'' ''no_subscription_ref'')}"
  by (simp add: TRANSITIONS_def table_rows) (elim disjE; simp)

lemma good_guards:
  "requirements_complete_guard \<lparr>gc_state = s, gc_actor = a, gc_facts = f ++ good_facts\<rparr> = None"
  "tutor_from_trusted_source \<lparr>gc_state = s, gc_actor = a, gc_facts = f ++ good_facts\<rparr> = None"
  "hold_is_live \<lparr>gc_state = s, gc_actor = a, gc_facts = f ++ good_facts\<rparr> = None"
  "payment_verified \<lparr>gc_state = s, gc_actor = a, gc_facts = f ++ good_facts\<rparr> = None"
  "outcome_is_evidenced \<lparr>gc_state = s, gc_actor = a, gc_facts = f ++ good_facts\<rparr> = None"
  "name \<in> {''has_candidates'', ''calendar_event_id'', ''approved_quote'', ''subscription_ref''} \<Longrightarrow>
     require name why \<lparr>gc_state = s, gc_actor = a, gc_facts = f ++ good_facts\<rparr> = None"
  by (auto simp: guards requirements_complete_guard_def fact_def good_facts_def)

lemma guards_can_pass:
  "t \<in> set TRANSITIONS \<Longrightarrow>
     run_guard t \<lparr>gc_state = s, gc_actor = a, gc_facts = f ++ good_facts\<rparr> = None"
  by (drule table_guards) (auto simp: run_guard_def good_guards)

text \<open>The menu offered to an actor is exact: the triggers available to it are those that can fire
  under some facts.\<close>

theorem available_is_can_fire:
  "available sn a = {tr. \<exists>fs. can_fire sn tr a fs}"
proof -
  have "tr \<in> available sn a \<longleftrightarrow> (\<exists>t\<in>set TRANSITIONS. on t = tr \<and> sn_state sn \<in> set (sources t) \<and>
      \<not> (a = USER \<and> tr \<in> USER_FORBIDDEN) \<and> a \<in> set (actors t))" for tr
    unfolding available_iff lookup_iff not_raises_iff authorise_Inr by blast
  moreover have "(\<exists>fs. can_fire sn tr a fs) \<longleftrightarrow>
      (\<exists>t\<in>set TRANSITIONS. on t = tr \<and> sn_state sn \<in> set (sources t) \<and>
      \<not> (a = USER \<and> tr \<in> USER_FORBIDDEN) \<and> a \<in> set (actors t))" for tr
  proof -
    have "can_fire sn tr a fs \<longleftrightarrow> (\<exists>r. fire sn tr a fs = Inr r)" for fs
      by (auto simp: can_fire_def split: sum.splits)
    then show ?thesis
      using guards_can_pass by (simp add: fire_Inr_iff) blast
  qed
  ultimately show ?thesis by blast
qed

section \<open>Reachability\<close>

definition successors :: "demo_state \<Rightarrow> demo_state list" where
  "successors s = map target (filter (\<lambda>t. s \<in> set (sources t)) TRANSITIONS)"

text \<open>Every state of the list has a predecessor among the ones before it.\<close>

fun reach_order :: "demo_state list \<Rightarrow> demo_state list \<Rightarrow> bool" where
  "reach_order seen [] = True"
| "reach_order seen (s # ss) =
     (list_ex (\<lambda>p. List.member (successors p) s) seen \<and> reach_order (s # seen) ss)"

lemma non_user_actor: "t \<in> set TRANSITIONS \<Longrightarrow> \<exists>a. a \<in> set (actors t) \<and> a \<noteq> USER"
  by (simp add: TRANSITIONS_def table_rows) (elim disjE; simp; blast)

lemma row_steps:
  assumes "t \<in> set TRANSITIONS" and "s \<in> set (sources t)"
  shows "\<exists>e. step s e (target t)"
proof -
  have "\<exists>a. a \<in> set (actors t) \<and> a \<noteq> USER"
    using assms(1) by (rule non_user_actor)
  then obtain a where "a \<in> set (actors t)" "a \<noteq> USER" by blast
  then have "row_allows t s \<lparr>ev_trigger = on t, ev_actor = a, ev_facts = good_facts\<rparr>"
    using assms guards_can_pass [of t s a Map.empty] by (simp add: row_allows_def guard_passes_def)
  then show ?thesis using assms(1) step_iff_row by blast
qed

lemma reach_order_reachable:
  "reach_order seen ss \<Longrightarrow> \<forall>s\<in>set seen. \<exists>es. run NEW es s \<Longrightarrow> \<forall>s\<in>set ss. \<exists>es. run NEW es s"
proof (induction seen ss rule: reach_order.induct)
  case (2 seen s ss)
  then obtain p es where p: "p \<in> set seen" "s \<in> set (successors p)" "run NEW es p"
    by (auto simp: list_ex_iff)
  then obtain e where "step p e s" using row_steps by (auto simp: successors_def)
  with p have "\<exists>es. run NEW es s" using run_snoc by blast
  with 2 show ?case by auto
qed simp

definition funnel_order :: "demo_state list" where
  "funnel_order =
     [HUMAN_HANDOFF, FAILED_RECOVERABLE, FAILED_TERMINAL, CANCELLED, NEGOTIATING_SLOT, SLOT_HELD,
      TUTOR_CONFIRMATION_PENDING, TUTOR_MATCH_REQUESTED, TUTOR_OPTIONS_READY,
      AWAITING_TUTOR_SELECTION, TUTOR_SELECTED, OWNERSHIP_ACQUIRING, IDENTITY_RESOLUTION,
      COLLECTING_REQUIREMENTS, CALENDAR_CREATION_PENDING, SCHEDULED, REMINDERS_ACTIVE, DEMO_READY,
      OUTCOME_PENDING, STUDENT_NO_SHOW_REVIEW, TUTOR_NO_SHOW_REVIEW, COMPLETED,
      POST_DEMO_ANALYSIS, FOLLOWUP_PENDING, PAYMENT_PENDING, PAYMENT_CONFIRMED,
      SUBSCRIPTION_ACTIVATING, ONBOARDING_HANDOFF_PENDING, CONVERTED]"

lemma funnel_reachable: "reach_order [NEW] funnel_order"
  by code_simp

text \<open>Every state of the machine is reached by some run from NEW.\<close>

theorem every_state_reachable: "\<exists>es. run NEW es s"
proof -
  have "\<forall>s\<in>set funnel_order. \<exists>es. run NEW es s"
    using reach_order_reachable [OF funnel_reachable] run_nil by auto
  moreover have "s = NEW \<or> s \<in> set funnel_order"
    by (cases s) (simp_all add: funnel_order_def)
  ultimately show ?thesis using run_nil by blast
qed

section \<open>Only after\<close>

text \<open>(C1) No conversation is converted without the money: on every run from NEW to CONVERTED there is,
  in this order, a PAYMENT_PAID fired by the payment provider whose facts say that the signature was
  verified, the amount matches the order and the order belongs to the conversation; an activation
  with a subscription reference; and the onboarding's acceptance.\<close>

theorem conversion_needs_verified_payment:
  assumes "run NEW es CONVERTED"
  shows "\<exists>xs p ys a zs c ws. es = xs @ p # ys @ a # zs @ c # ws \<and> payment_evidence p \<and>
           ev_trigger a = ACTIVATION_SUCCEEDED \<and> saw a ''subscription_ref'' \<and>
           ev_trigger c = ONBOARDING_ACCEPTED"
proof -
  obtain b1 c ws where c: "es = b1 @ c # ws" "run NEW b1 ONBOARDING_HANDOFF_PENDING"
      "ev_trigger c = ONBOARDING_ACCEPTED"
    using entry [OF assms, of "{CONVERTED}"] into_CONVERTED by fastforce
  obtain b2 a zs m where a: "b1 = b2 @ a # zs" "run NEW b2 m"
      "m \<in> {PAYMENT_CONFIRMED, SUBSCRIPTION_ACTIVATING}"
      "ev_trigger a = ACTIVATION_SUCCEEDED" "saw a ''subscription_ref''"
    using entry [OF c(2), of "{ONBOARDING_HANDOFF_PENDING}"] into_ONBOARDING by fastforce
  obtain xs p ys where p: "b2 = xs @ p # ys" "payment_evidence p"
    using entry [OF a(2,3)] into_PAID into_ACTIVATING by fastforce
  show ?thesis
    using a c p
    by (intro exI [of _ xs] exI [of _ p] exI [of _ ys] exI [of _ a] exI [of _ zs] exI [of _ c]
        exI [of _ ws]) simp
qed

theorem conversion_needs_verified_payment_witness:
  "\<exists>es p. run NEW es CONVERTED \<and> p \<in> set es \<and> payment_evidence p \<and> ev_actor p = PAYMENT_PROVIDER"
proof -
  obtain es where es: "run NEW es CONVERTED" using every_state_reachable by blast
  then show ?thesis
    using conversion_needs_verified_payment [OF es] by (fastforce simp: payment_evidence_def)
qed

text \<open>(C19) No demo is booked without a held slot, the tutor's acceptance and a calendar event, in this
  order: every run from NEW into a booked state passed a HOLD_PLACED with an unexpired hold, a
  TUTOR_ACCEPTED by the tutor, an operator or the system with a hold on file, and a CALENDAR_CREATED
  that names its event.\<close>

theorem booking_needs_tutor_and_calendar:
  assumes "run NEW es s" and "s \<in> DEMO_BOOKED"
  shows "\<exists>xs h ys a zs c ws. es = xs @ h # ys @ a # zs @ c # ws \<and>
           ev_trigger h = HOLD_PLACED \<and> saw h ''hold_id'' \<and> \<not> saw h ''hold_expired'' \<and>
           ev_trigger a = TUTOR_ACCEPTED \<and> ev_actor a \<in> {TUTOR, OPERATOR, SYSTEM} \<and>
           saw a ''hold_id'' \<and>
           ev_trigger c = CALENDAR_CREATED \<and> saw c ''calendar_event_id''"
proof -
  obtain b1 c ws where c: "es = b1 @ c # ws" "run NEW b1 CALENDAR_CREATION_PENDING"
      "ev_trigger c = CALENDAR_CREATED" "saw c ''calendar_event_id''"
    using entry [OF assms] into_SCHEDULED into_REMINDERS into_READY
    by (fastforce simp: DEMO_BOOKED_def)
  obtain b2 a zs where a: "b1 = b2 @ a # zs" "run NEW b2 TUTOR_CONFIRMATION_PENDING"
      "ev_trigger a = TUTOR_ACCEPTED" "ev_actor a \<in> {TUTOR, OPERATOR, SYSTEM}" "saw a ''hold_id''"
    using entry [OF c(2), of "{CALENDAR_CREATION_PENDING}"] into_CALENDAR by fastforce
  obtain xs h ys where h: "b2 = xs @ h # ys" "ev_trigger h = HOLD_PLACED" "saw h ''hold_id''"
      "\<not> saw h ''hold_expired''"
    using entry [OF a(2), of "{TUTOR_CONFIRMATION_PENDING}"] into_CONFIRMATION by fastforce
  show ?thesis
    using a c h
    by (intro exI [of _ xs] exI [of _ h] exI [of _ ys] exI [of _ a] exI [of _ zs] exI [of _ c]
        exI [of _ ws]) simp
qed

theorem booking_needs_tutor_and_calendar_witness:
  "\<exists>es h. run NEW es SCHEDULED \<and> h \<in> set es \<and> ev_trigger h = HOLD_PLACED \<and> saw h ''hold_id''"
proof -
  obtain es where es: "run NEW es SCHEDULED" using every_state_reachable by blast
  then show ?thesis
    using booking_needs_tutor_and_calendar [OF es] by (fastforce simp: DEMO_BOOKED_def)
qed

section \<open>The table's own invariants\<close>

text \<open>The check run over the transition table at import time finds nothing: no trigger forbidden
  to users is authorised for them, every state is entered by some row, and every state but the
  terminal ones and the handoff itself has the human escape.\<close>

theorem table_is_sound: "table_invariants = []"
proof -
  have "user_authorised_triggers \<inter> USER_FORBIDDEN = {}"
    by (auto simp: user_authorised_triggers_def USER_FORBIDDEN_def TRANSITIONS_def table_rows)
  moreover have "s \<in> insert NEW (set (map target TRANSITIONS))" for s
    by (cases s) (simp_all add: TRANSITIONS_def table_rows)
  moreover have "HUMAN_REQUESTED \<in> triggers_from s" if "s \<notin> TERMINAL" "s \<noteq> HUMAN_HANDOFF" for s
    using that by (simp add: triggers_from_iff TRANSITIONS_def EXCEPTIONAL_ROWS_def TERMINAL_def)
  ultimately show ?thesis
    by (auto simp: table_invariants_def Let_def filter_empty_conv)
qed

text \<open>(C27) A human can always be asked for: from every conversation that is neither closed nor already
  with a human, the user, the system and an operator can fire HUMAN_REQUESTED under any facts; it
  opens a case, and no automated message may be sent from the state it leads to.\<close>

theorem human_escape_hatch:
  assumes "\<not> is_terminal (sn_state sn)" and "sn_state sn \<noteq> HUMAN_HANDOFF"
    and "a \<in> {USER, SYSTEM, OPERATOR}"
  shows "\<exists>r. fire sn HUMAN_REQUESTED a fs = Inr r \<and> to_state r = HUMAN_HANDOFF \<and>
           tr_command r = RAISE_HUMAN_CASE \<and>
           \<not> can_send_automated_message (to_state r)"
proof -
  let ?t = "hd EXCEPTIONAL_ROWS"
  have t: "?t \<in> set TRANSITIONS" "on ?t = HUMAN_REQUESTED" "sources ?t = ESCALATABLE"
      "actors ?t = [USER, SYSTEM, OPERATOR]" "guard ?t = None" "target ?t = HUMAN_HANDOFF"
      "command ?t = RAISE_HUMAN_CASE"
    by (simp_all add: TRANSITIONS_def EXCEPTIONAL_ROWS_def)
  have "sn_state sn \<in> set (sources ?t)"
    using assms(1,2) t(3) by (simp add: is_terminal_def TERMINAL_def)
  then have "fire sn HUMAN_REQUESTED a fs = Inr (result_for sn ?t HUMAN_REQUESTED a)"
    using assms(3) t
    by (auto simp: fire_Inr_iff run_guard_def USER_FORBIDDEN_def intro!: bexI [of _ ?t])
  then show ?thesis using t by (simp add: state_sets)
qed

theorem human_escape_hatch_witness:
  "\<exists>r. fire \<lparr>sn_conversation_ref = ''c'', sn_state = PAYMENT_PENDING, sn_version = 3,
         sn_demo_id = None, sn_updated_at = None, sn_facts = Map.empty\<rparr> HUMAN_REQUESTED USER Map.empty
       = Inr r \<and> to_state r = HUMAN_HANDOFF"
  using human_escape_hatch [of "\<lparr>sn_conversation_ref = ''c'', sn_state = PAYMENT_PENDING,
      sn_version = 3, sn_demo_id = None, sn_updated_at = None, sn_facts = Map.empty\<rparr>" USER Map.empty]
  by (auto simp: is_terminal_def TERMINAL_def)

section \<open>Evidence of absence\<close>

definition absence_reported :: "demo_state \<Rightarrow> event \<Rightarrow> bool" where
  "absence_reported s e \<longleftrightarrow>
     s \<in> {OUTCOME_PENDING, DEMO_READY} \<and> ev_actor e \<in> {SYSTEM, OPERATOR} \<and>
     saw e ''grace_period_elapsed'' \<and>
     ev_facts e ''evidence_source'' \<notin> {None, Some FNone, Some (FStr []), Some (FStr ''llm'')}"

definition absence_event :: "string \<Rightarrow> event" where
  "absence_event evidence = \<lparr>ev_trigger = STUDENT_ABSENT, ev_actor = SYSTEM,
     ev_facts = [''grace_period_elapsed'' \<mapsto> FBool True, ''evidence_source'' \<mapsto> FStr evidence]\<rparr>"

text \<open>A conversation goes to a no-show review on exactly these events: the demo awaits its outcome
  or is ready, the system or an operator reports the absence, the grace period is a true fact and
  the evidence source is neither absent nor empty nor the word ''llm''. The source a model's
  inference has in the domain (AttendanceSignal, domain/demo.py) is ''llm_inference'', and that of
  no signal at all ''none'': both are accepted.\<close>

theorem no_show_needs_evidence:
  "(step s e STUDENT_NO_SHOW_REVIEW \<longleftrightarrow> ev_trigger e = STUDENT_ABSENT \<and> absence_reported s e) \<and>
   (step s e TUTOR_NO_SHOW_REVIEW \<longleftrightarrow> ev_trigger e = TUTOR_ABSENT \<and> absence_reported s e) \<and>
   (absence_reported s e \<longleftrightarrow>
      s \<in> {OUTCOME_PENDING, DEMO_READY} \<and> ev_actor e \<in> {SYSTEM, OPERATOR} \<and>
      saw e ''grace_period_elapsed'' \<and>
      ev_facts e ''evidence_source'' \<notin> {None, Some FNone, Some (FStr []), Some (FStr ''llm'')}) \<and>
   step OUTCOME_PENDING (absence_event ''llm_inference'') STUDENT_NO_SHOW_REVIEW \<and>
   step OUTCOME_PENDING (absence_event ''none'') STUDENT_NO_SHOW_REVIEW"
proof -
  have "step s e STUDENT_NO_SHOW_REVIEW \<longleftrightarrow> ev_trigger e = STUDENT_ABSENT \<and> absence_reported s e"
    for s e
    by (simp add: step_into eval_rows_into)
      (auto simp: row_eval absence_reported_def fact_def saw_def USER_FORBIDDEN_def split: if_splits option.splits)
  moreover have "step s e TUTOR_NO_SHOW_REVIEW \<longleftrightarrow> ev_trigger e = TUTOR_ABSENT \<and> absence_reported s e"
    by (simp add: step_into eval_rows_into)
      (auto simp: row_eval absence_reported_def fact_def saw_def USER_FORBIDDEN_def split: if_splits option.splits)
  ultimately show ?thesis
    by (simp add: absence_reported_def absence_event_def saw_def)
qed

section \<open>Paid conversations can still be abandoned\<close>

text \<open>
  capabilities/paid_transition/service.py says of a failed activation after a payment that
  it is "never terminal". The table lets the system actor alone take a paid conversation
  to \<open>FAILED_TERMINAL\<close>: \<open>RECOVERABLE_FAILURE\<close> fires from every escalatable state,
  and \<open>ABANDON\<close> closes what it leaves.
\<close>

theorem paid_conversation_can_be_abandoned:
  "\<exists>es. run PAYMENT_CONFIRMED es FAILED_TERMINAL \<and> (\<forall>e\<in>set es. ev_actor e = SYSTEM) \<and>
        map ev_trigger es = [RECOVERABLE_FAILURE, ABANDON]"
proof -
  let ?e1 = "\<lparr>ev_trigger = RECOVERABLE_FAILURE, ev_actor = SYSTEM, ev_facts = Map.empty\<rparr>"
  let ?e2 = "\<lparr>ev_trigger = ABANDON, ev_actor = SYSTEM, ev_facts = Map.empty\<rparr>"
  have "step PAYMENT_CONFIRMED ?e1 FAILED_RECOVERABLE" "step FAILED_RECOVERABLE ?e2 FAILED_TERMINAL"
    by (simp_all add: step_into eval_rows_into row_eval)
  then have "run PAYMENT_CONFIRMED [?e1, ?e2] FAILED_TERMINAL"
    using run_snoc [OF run_snoc [OF run_nil]] by fastforce
  then show ?thesis by (intro exI [of _ "[?e1, ?e2]"]) simp
qed

end
