(* ===== verification/PyText.thy ===== *)
theory PyText
  imports Prelude "HOL-Library.List_Lexorder" "HOL-Library.Sublist"
begin

text \<open>
  What the source uses of Python's \<open>str\<close>: \<open>isspace\<close>, \<open>strip\<close>, \<open>split\<close>, \<open>casefold\<close>,
  \<open>isupper\<close>, \<open>in\<close> and truncation, and the exceptions a constructor raises. A character
  is a code point below 256; case mapping is the ASCII one.
\<close>

datatype py_error =
    ValueError string
  | ValidationError string
  | CurrencyMismatch string string

text \<open>A pydantic model whose fields do not satisfy its constraints is a \<open>ValidationError\<close>.\<close>

definition validated :: "string \<Rightarrow> ('a \<Rightarrow> bool) \<Rightarrow> 'a \<Rightarrow> py_error + 'a" where
  "validated model ok x = (if ok x then Inr x else Inl (ValidationError model))"

lemma validated_Inr_iff [simp]: "validated m ok x = Inr y \<longleftrightarrow> ok x \<and> y = x"
  by (auto simp: validated_def)

definition is_space :: "char \<Rightarrow> bool" where
  "is_space c \<longleftrightarrow> (let n = (of_char c :: nat) in n \<in> {9, 10, 11, 12, 13, 28, 29, 30, 31, 32, 133, 160})"

definition strip :: "string \<Rightarrow> string" where
  "strip s = rev (dropWhile is_space (rev (dropWhile is_space s)))"

text \<open>\<open>s.split()\<close> with no argument: the maximal runs without white space.\<close>

function words :: "string \<Rightarrow> string list" where
  "words s =
     (let t = dropWhile is_space s
      in if t = [] then []
         else takeWhile (\<lambda>c. \<not> is_space c) t # words (dropWhile (\<lambda>c. \<not> is_space c) t))"
  by pat_completeness auto

termination words
proof (relation "measure length")
  fix s t :: string
  assume t: "t = dropWhile is_space s" and "t \<noteq> []"
  then have "\<not> is_space (hd t)" using hd_dropWhile by metis
  then have "dropWhile (\<lambda>c. \<not> is_space c) t = dropWhile (\<lambda>c. \<not> is_space c) (tl t)"
    using \<open>t \<noteq> []\<close> by (cases t) auto
  then have "length (dropWhile (\<lambda>c. \<not> is_space c) t) \<le> length (tl t)"
    by (simp only: length_dropWhile_le)
  also have "\<dots> < length t" using \<open>t \<noteq> []\<close> by simp
  also have "\<dots> \<le> length s" using t by (simp add: length_dropWhile_le)
  finally show "(dropWhile (\<lambda>c. \<not> is_space c) t, s) \<in> measure length" by simp
qed simp

declare words.simps [simp del]

definition lower_char :: "char \<Rightarrow> char" where
  "lower_char c = (if CHR ''A'' \<le> c \<and> c \<le> CHR ''Z'' then char_of ((of_char c :: nat) + 32) else c)"

definition casefold :: "string \<Rightarrow> string" where
  "casefold s = map lower_char s"

definition is_upper_char :: "char \<Rightarrow> bool" where
  "is_upper_char c \<longleftrightarrow> CHR ''A'' \<le> c \<and> c \<le> CHR ''Z''"

definition is_lower_char :: "char \<Rightarrow> bool" where
  "is_lower_char c \<longleftrightarrow> CHR ''a'' \<le> c \<and> c \<le> CHR ''z''"

definition isupper :: "string \<Rightarrow> bool" where
  "isupper s \<longleftrightarrow> list_ex is_upper_char s \<and> \<not> list_ex is_lower_char s"

text \<open>The decimal digits of a natural number.\<close>

fun show_nat :: "nat \<Rightarrow> string" where
  "show_nat n = (if n < 10 then [char_of (48 + n)] else show_nat (n div 10) @ [char_of (48 + n mod 10)])"

declare show_nat.simps [simp del]

text \<open>\<open>needle in haystack\<close>.\<close>

fun contains :: "string \<Rightarrow> string \<Rightarrow> bool" where
  "contains hay needle =
     (prefix needle hay \<or> (case hay of [] \<Rightarrow> False | _ # t \<Rightarrow> contains t needle))"

declare contains.simps [simp del]

lemma contains_iff: "contains hay needle \<longleftrightarrow> (\<exists>a b. hay = a @ needle @ b)"
proof (induction hay)
  case Nil
  then show ?case by (simp add: contains.simps prefix_def)
next
  case (Cons c hay)
  have "(\<exists>a b. c # hay = a @ needle @ b) \<longleftrightarrow>
      prefix needle (c # hay) \<or> (\<exists>a b. hay = a @ needle @ b)"
    by (metis (no_types, opaque_lifting) append_Cons append_Nil list.inject neq_Nil_conv prefix_def)
  then show ?case using Cons by (simp add: contains.simps [of "c # hay"])
qed

lemma words_Nil [simp]: "words [] = []"
  by (subst words.simps) simp

lemma words_space:
  assumes "t \<noteq> []" and "list_all is_space t"
  shows "words (t @ s) = words s"
proof -
  have "dropWhile is_space (t @ s) = dropWhile is_space s"
    using assms(2) by (simp add: list_all_iff)
  then show ?thesis by (simp add: words.simps [of "t @ s"] words.simps [of s])
qed

lemma words_word:
  assumes "w \<noteq> []" and "\<forall>c\<in>set w. \<not> is_space c" and "s = [] \<or> is_space (hd s)"
  shows "words (w @ s) = w # words s"
proof -
  have start: "dropWhile is_space (w @ s) = w @ s"
    using assms by (cases w) auto
  have "takeWhile (\<lambda>c. \<not> is_space c) s = []" "dropWhile (\<lambda>c. \<not> is_space c) s = s"
    using assms(3) by (cases s; simp)+
  then have run: "takeWhile (\<lambda>c. \<not> is_space c) (w @ s) = w"
    "dropWhile (\<lambda>c. \<not> is_space c) (w @ s) = s"
    using assms(2) by (simp_all add: takeWhile_append2 dropWhile_append2)
  show ?thesis
    using start run assms(1) by (subst words.simps) (simp add: Let_def)
qed

lemma words_clean: "w \<in> set (words s) \<Longrightarrow> w \<noteq> [] \<and> (\<forall>c\<in>set w. \<not> is_space c)"
proof (induction s rule: words.induct)
  case IH: (1 s)
  let ?t = "dropWhile is_space s"
  show ?case
  proof (cases "?t = []")
    case True
    then have "words s = []" by (subst words.simps) simp
    then show ?thesis using IH(2) by simp
  next
    case False
    then have "\<not> is_space (hd ?t)" using hd_dropWhile by metis
    then have ne: "takeWhile (\<lambda>c. \<not> is_space c) ?t \<noteq> []"
      using False by (simp add: takeWhile_eq_Nil_iff)
    have "words s = takeWhile (\<lambda>c. \<not> is_space c) ?t
        # words (dropWhile (\<lambda>c. \<not> is_space c) ?t)"
      using False by (subst words.simps) (simp add: Let_def)
    then consider "w = takeWhile (\<lambda>c. \<not> is_space c) ?t"
      | "w \<in> set (words (dropWhile (\<lambda>c. \<not> is_space c) ?t))"
      using IH(2) by (metis set_ConsD)
    then show ?thesis
    proof cases
      case 1
      then show ?thesis using ne set_takeWhileD by metis
    next
      case 2
      then show ?thesis by (rule IH(1) [OF refl False])
    qed
  qed
qed

text \<open>Joining the words of a text with single spaces and splitting again gives the words.\<close>

lemma words_join:
  "\<forall>w\<in>set ws. w \<noteq> [] \<and> (\<forall>c\<in>set w. \<not> is_space c) \<Longrightarrow> words (join '' '' ws) = ws"
proof (induction ws)
  case Nil
  then show ?case by simp
next
  case (Cons x ws)
  have x: "x \<noteq> []" "\<forall>c\<in>set x. \<not> is_space c" using Cons.prems by simp_all
  have sp: "is_space CHR '' ''" by (simp add: is_space_def)
  show ?case
  proof (cases ws)
    case Nil
    then show ?thesis using words_word [OF x, of "[]"] by simp
  next
    case (Cons y xs)
    have "words (x @ '' '' @ join '' '' ws) = x # words ('' '' @ join '' '' ws)"
      by (rule words_word [OF x]) (use sp in simp)
    also have "words ('' '' @ join '' '' ws) = words (join '' '' ws)"
      by (rule words_space) (use sp in simp_all)
    finally show ?thesis using Cons Cons.IH Cons.prems by simp
  qed
qed

end
