(* ===== verification/Regex.thy ===== *)
theory Regex
  imports PyText
begin

text \<open>
  What the source uses of Python's \<open>re\<close>: \<open>search\<close>, \<open>findall\<close> and \<open>sub\<close> of the patterns in
  security/pii.py and guardrails/output.py. A pattern is a tree; \<open>ends\<close> lists where a match that
  starts here may end, in the order a backtracking matcher tries them, so that its head is the match
  Python reports. Repetition is of a character class, which is all those patterns need. A position
  is the text read so far, reversed, and the text to come, because boundaries look both ways.
  \<open>matches\<close> is the declarative reading, and \<open>ends_iff\<close> says that the two agree.
\<close>

section \<open>Patterns\<close>

datatype rx =
    Eps
  | Cls "char \<Rightarrow> bool"
  | Many "char \<Rightarrow> bool"
  | Few "char \<Rightarrow> bool"
  | AtLeast nat "char \<Rightarrow> bool"
  | Seq rx rx
  | Alt rx rx
  | WordB
  | NotBehind "char \<Rightarrow> bool"
  | NotAhead "char \<Rightarrow> bool"

type_synonym place = "string \<times> string"

text \<open>\<open>\w\<close> and \<open>\d\<close> on code points below 256: letters, digits, the underscore, and the Latin-1
  letters and numbers.\<close>

definition is_digit :: "char \<Rightarrow> bool" where
  "is_digit c \<longleftrightarrow> CHR ''0'' \<le> c \<and> c \<le> CHR ''9''"

definition is_word :: "char \<Rightarrow> bool" where
  "is_word c \<longleftrightarrow> is_upper_char c \<or> is_lower_char c \<or> is_digit c \<or> c = CHR ''_'' \<or>
     (let n = (of_char c :: nat)
      in n \<in> {170, 178, 179, 181, 185, 186, 188, 189, 190} \<or> (192 \<le> n \<and> n \<notin> {215, 247}))"

text \<open>One conversion of the character instead of a dozen, when these are evaluated.\<close>

lemma is_digit_code [code]: "is_digit c \<longleftrightarrow> (let n = (of_char c :: nat) in 48 \<le> n \<and> n \<le> 57)"
  by (simp add: is_digit_def less_eq_char_def Let_def)

lemma is_word_code [code]:
  "is_word c \<longleftrightarrow>
     (let n = (of_char c :: nat)
      in if n < 128 then 48 \<le> n \<and> (n \<le> 57 \<or> (65 \<le> n \<and> (n \<le> 90 \<or> n = 95 \<or> (97 \<le> n \<and> n \<le> 122))))
         else n \<in> {170, 178, 179, 181, 185, 186, 188, 189, 190} \<or> (192 \<le> n \<and> n \<notin> {215, 247}))"
proof -
  have u: "c = CHR ''_'' \<longleftrightarrow> (of_char c :: nat) = 95"
    using of_char_eq_iff [of c "CHR ''_''", where ?'a = nat] by simp
  show ?thesis
    unfolding is_word_def is_upper_char_def is_lower_char_def is_digit_def less_eq_char_def u Let_def
    by auto
qed

definition one_of :: "string \<Rightarrow> char \<Rightarrow> bool" where
  "one_of cs c \<longleftrightarrow> c \<in> set cs"

definition starts_word :: "string \<Rightarrow> bool" where
  "starts_word s \<longleftrightarrow> (case s of [] \<Rightarrow> False | c # _ \<Rightarrow> is_word c)"

fun greedy :: "(char \<Rightarrow> bool) \<Rightarrow> string \<Rightarrow> string \<Rightarrow> place list" where
  "greedy p rb [] = [(rb, [])]"
| "greedy p rb (c # s) = (if p c then greedy p (c # rb) s else []) @ [(rb, c # s)]"

fun ends :: "rx \<Rightarrow> place \<Rightarrow> place list" where
  "ends Eps z = [z]"
| "ends (Cls p) z = (case snd z of [] \<Rightarrow> [] | c # s \<Rightarrow> if p c then [(c # fst z, s)] else [])"
| "ends (Many p) z = greedy p (fst z) (snd z)"
| "ends (Few p) z = rev (greedy p (fst z) (snd z))"
| "ends (AtLeast n p) z =
     filter (\<lambda>(rb', s'). length s' + n \<le> length (snd z)) (greedy p (fst z) (snd z))"
| "ends (Seq a b) z = concat (map (ends b) (ends a z))"
| "ends (Alt a b) z = ends a z @ ends b z"
| "ends WordB z = (if starts_word (fst z) \<noteq> starts_word (snd z) then [z] else [])"
| "ends (NotBehind p) z = (case fst z of [] \<Rightarrow> [z] | c # _ \<Rightarrow> if p c then [] else [z])"
| "ends (NotAhead p) z = (case snd z of [] \<Rightarrow> [z] | c # _ \<Rightarrow> if p c then [] else [z])"

text \<open>Derived forms: \<open>r?\<close>, \<open>r{n}\<close>, \<open>p{n,m}\<close>, a literal, and one ignoring case.\<close>

definition Opt :: "rx \<Rightarrow> rx" where
  "Opt r = Alt r Eps"

fun Times :: "nat \<Rightarrow> rx \<Rightarrow> rx" where
  "Times 0 r = Eps"
| "Times (Suc n) r = Seq r (Times n r)"

fun UpTo :: "nat \<Rightarrow> (char \<Rightarrow> bool) \<Rightarrow> rx" where
  "UpTo 0 p = Eps"
| "UpTo (Suc n) p = Opt (Seq (Cls p) (UpTo n p))"

definition Between :: "nat \<Rightarrow> nat \<Rightarrow> (char \<Rightarrow> bool) \<Rightarrow> rx" where
  "Between n m p = Seq (Times n (Cls p)) (UpTo (m - n) p)"

fun Lit :: "string \<Rightarrow> rx" where
  "Lit [] = Eps"
| "Lit (c # cs) = Seq (Cls (\<lambda>d. d = c)) (Lit cs)"

fun LitI :: "string \<Rightarrow> rx" where
  "LitI [] = Eps"
| "LitI (c # cs) = Seq (Cls (\<lambda>d. lower_char d = lower_char c)) (LitI cs)"

fun Seqs :: "rx list \<Rightarrow> rx" where
  "Seqs [] = Eps"
| "Seqs [r] = r"
| "Seqs (r # q # rs) = Seq r (Seqs (q # rs))"

fun Alts :: "rx \<Rightarrow> rx list \<Rightarrow> rx" where
  "Alts r [] = r"
| "Alts r (q # rs) = Alt r (Alts q rs)"

section \<open>Search, findall, sub\<close>

fun search_from :: "rx \<Rightarrow> string \<Rightarrow> string \<Rightarrow> bool" where
  "search_from r rb [] = (ends r (rb, []) \<noteq> [])"
| "search_from r rb (c # s) = (ends r (rb, c # s) \<noteq> [] \<or> search_from r (c # rb) s)"

definition search :: "rx \<Rightarrow> string \<Rightarrow> bool" where
  "search r s = search_from r [] s"

text \<open>The leftmost match, and from its end the next; the patterns used never match the empty text,
  and an empty match is skipped.\<close>

function find_from :: "rx \<Rightarrow> string \<Rightarrow> string \<Rightarrow> string list" where
  "find_from r rb s =
     (case s of
        [] \<Rightarrow> []
      | c # t \<Rightarrow>
          (case ends r (rb, s) of
             [] \<Rightarrow> find_from r (c # rb) t
           | (rb', s') # _ \<Rightarrow>
               if length s' < length s
               then take (length s - length s') s # find_from r rb' s'
               else find_from r (c # rb) t))"
  by pat_completeness auto
termination by (relation "measure (\<lambda>(r, rb, s). length s)") auto

declare find_from.simps [simp del]

definition find_all :: "rx \<Rightarrow> string \<Rightarrow> string list" where
  "find_all r s = find_from r [] s"

function sub_from :: "rx \<Rightarrow> string \<Rightarrow> string \<Rightarrow> string \<Rightarrow> string" where
  "sub_from r tok rb s =
     (case s of
        [] \<Rightarrow> []
      | c # t \<Rightarrow>
          (case ends r (rb, s) of
             [] \<Rightarrow> c # sub_from r tok (c # rb) t
           | (rb', s') # _ \<Rightarrow>
               if length s' < length s then tok @ sub_from r tok rb' s'
               else c # sub_from r tok (c # rb) t))"
  by pat_completeness auto
termination by (relation "measure (\<lambda>(r, tok, rb, s). length s)") auto

declare sub_from.simps [simp del]

definition sub :: "rx \<Rightarrow> string \<Rightarrow> string \<Rightarrow> string" where
  "sub r tok s = sub_from r tok [] s"

section \<open>The declarative reading\<close>

fun matches :: "rx \<Rightarrow> string \<Rightarrow> string \<Rightarrow> string \<Rightarrow> bool" where
  "matches Eps rb w s \<longleftrightarrow> w = []"
| "matches (Cls p) rb w s \<longleftrightarrow> (\<exists>c. w = [c] \<and> p c)"
| "matches (Many p) rb w s \<longleftrightarrow> list_all p w"
| "matches (Few p) rb w s \<longleftrightarrow> list_all p w"
| "matches (AtLeast n p) rb w s \<longleftrightarrow> n \<le> length w \<and> list_all p w"
| "matches (Seq a b) rb w s \<longleftrightarrow>
     (\<exists>u v. w = u @ v \<and> matches a rb u (v @ s) \<and> matches b (rev u @ rb) v s)"
| "matches (Alt a b) rb w s \<longleftrightarrow> matches a rb w s \<or> matches b rb w s"
| "matches WordB rb w s \<longleftrightarrow> w = [] \<and> starts_word rb \<noteq> starts_word s"
| "matches (NotBehind p) rb w s \<longleftrightarrow> w = [] \<and> \<not> (rb \<noteq> [] \<and> p (hd rb))"
| "matches (NotAhead p) rb w s \<longleftrightarrow> w = [] \<and> \<not> (s \<noteq> [] \<and> p (hd s))"

lemma greedy_iff:
  "(rb', s') \<in> set (greedy p rb s) \<longleftrightarrow> (\<exists>w. s = w @ s' \<and> rb' = rev w @ rb \<and> list_all p w)"
proof (induction p rb s rule: greedy.induct)
  case (1 p rb)
  then show ?case by auto
next
  case (2 p rb c s)
  have "(\<exists>w. c # s = w @ s' \<and> rb' = rev w @ rb \<and> list_all p w) \<longleftrightarrow>
      (s' = c # s \<and> rb' = rb) \<or>
      (p c \<and> (\<exists>w. s = w @ s' \<and> rb' = rev w @ c # rb \<and> list_all p w))"
    by (auto simp: Cons_eq_append_conv)
  then show ?case using 2 by auto
qed

lemma ends_iff:
  "(rb', s') \<in> set (ends r (rb, s)) \<longleftrightarrow> (\<exists>w. s = w @ s' \<and> rb' = rev w @ rb \<and> matches r rb w s')"
proof (induction r arbitrary: rb s rb' s')
  case (Seq a b)
  have "(rb', s') \<in> set (ends (Seq a b) (rb, s)) \<longleftrightarrow>
      (\<exists>rb1 s1. (rb1, s1) \<in> set (ends a (rb, s)) \<and> (rb', s') \<in> set (ends b (rb1, s1)))"
    by auto
  also have "\<dots> \<longleftrightarrow> (\<exists>rb1 s1 u v. s = u @ s1 \<and> rb1 = rev u @ rb \<and> matches a rb u s1 \<and>
      s1 = v @ s' \<and> rb' = rev v @ rb1 \<and> matches b rb1 v s')"
    unfolding Seq.IH by blast
  also have "\<dots> \<longleftrightarrow> (\<exists>u v. s = u @ v @ s' \<and> matches a rb u (v @ s') \<and>
      rb' = rev v @ rev u @ rb \<and> matches b (rev u @ rb) v s')"
    by blast
  also have "\<dots> \<longleftrightarrow> (\<exists>w. s = w @ s' \<and> rb' = rev w @ rb \<and> matches (Seq a b) rb w s')"
    by (simp only: matches.simps) (metis append.assoc rev_append)
  finally show ?case .
next
  case (Cls p)
  then show ?case by (cases s) auto
qed (auto simp: greedy_iff split: list.splits)

lemma ends_nonempty: "ends r (rb, s) \<noteq> [] \<longleftrightarrow> (\<exists>w s'. s = w @ s' \<and> matches r rb w s')"
proof -
  have "ends r (rb, s) \<noteq> [] \<longleftrightarrow> (\<exists>rb' s'. (rb', s') \<in> set (ends r (rb, s)))"
    by (cases "ends r (rb, s)") auto
  then show ?thesis by (auto simp: ends_iff)
qed

lemma search_from_iff:
  "search_from r rb s \<longleftrightarrow> (\<exists>u w v. s = u @ w @ v \<and> matches r (rev u @ rb) w v)"
proof (induction r rb s rule: search_from.induct)
  case (1 r rb)
  then show ?case by (auto simp: ends_nonempty)
next
  case (2 r rb c s)
  have split: "(\<exists>u. P u) \<longleftrightarrow> P [] \<or> (\<exists>d u. P (d # u))" for P :: "string \<Rightarrow> bool"
    by (metis list.exhaust)
  have "(\<exists>u w v. c # s = u @ w @ v \<and> matches r (rev u @ rb) w v) \<longleftrightarrow>
      (\<exists>w v. c # s = w @ v \<and> matches r rb w v) \<or>
      (\<exists>u w v. s = u @ w @ v \<and> matches r (rev u @ c # rb) w v)"
    by (subst split) simp
  then show ?case using 2 by (simp only: search_from.simps ends_nonempty)
qed

theorem search_iff: "search r s \<longleftrightarrow> (\<exists>u w v. s = u @ w @ v \<and> matches r (rev u) w v)"
  by (simp add: search_def search_from_iff)

lemma searchI: "matches r (rev u) w v \<Longrightarrow> search r (u @ w @ v)"
  by (auto simp: search_iff)

section \<open>Matching the derived forms\<close>

lemma matches_Opt [simp]: "matches (Opt r) rb w s \<longleftrightarrow> matches r rb w s \<or> w = []"
  by (auto simp: Opt_def)

lemma matches_TimesI:
  "length w = n \<Longrightarrow> list_all p w \<Longrightarrow> matches (Times n (Cls p)) rb w s"
proof (induction n arbitrary: rb w)
  case (Suc n)
  then obtain c v where w: "w = c # v" "p c" "list_all p v" "length v = n"
    by (cases w) auto
  then have "w = [c] @ v \<and> matches (Cls p) rb [c] (v @ s) \<and>
      matches (Times n (Cls p)) (rev [c] @ rb) v s"
    using Suc.IH [OF w(4,3)] by simp
  then show ?case unfolding Times.simps matches.simps(6) by blast
qed simp

lemma matches_TimesD:
  "matches (Times n (Cls p)) rb w s \<Longrightarrow> length w = n \<and> list_all p w"
  by (induction n arbitrary: rb w) fastforce+

lemma matches_Times [simp]:
  "matches (Times n (Cls p)) rb w s \<longleftrightarrow> length w = n \<and> list_all p w"
  using matches_TimesI matches_TimesD by blast

lemma matches_Lit [simp]: "matches (Lit l) rb w s \<longleftrightarrow> w = l"
  by (induction l arbitrary: rb w) auto

text \<open>A pattern that matches nowhere substitutes nothing.\<close>

lemma sub_from_id: "\<not> search_from r rb s \<Longrightarrow> sub_from r tok rb s = s"
proof (induction s arbitrary: rb)
  case (Cons c s)
  then show ?case by (subst sub_from.simps) simp
qed (simp add: sub_from.simps)

lemma sub_id: "\<not> search r s \<Longrightarrow> sub r tok s = s"
  by (simp add: sub_def search_def sub_from_id)

text \<open>What is found stands in the text, where the pattern matches.\<close>

lemma find_from_Nil [simp]: "find_from r rb [] = []"
  by (subst find_from.simps) simp

lemma find_from_miss:
  "ends r (rb, c # t) = [] \<Longrightarrow> find_from r rb (c # t) = find_from r (c # rb) t"
  by (subst find_from.simps) simp

lemma find_from_empty:
  "ends r (rb, c # t) = (rb', s') # zs \<Longrightarrow> \<not> length s' < length (c # t) \<Longrightarrow>
     find_from r rb (c # t) = find_from r (c # rb) t"
  by (subst find_from.simps) simp

lemma find_from_hit:
  "ends r (rb, c # t) = (rb', s') # zs \<Longrightarrow> c # t = m @ s' \<Longrightarrow> m \<noteq> [] \<Longrightarrow>
     find_from r rb (c # t) = m # find_from r rb' s'"
  by (cases m, simp, subst find_from.simps) auto

text \<open>Induction along the scan: at each place the pattern matches nowhere, or there.\<close>

lemma scan_induct [case_names Nil miss hit]:
  assumes "\<And>rb. P rb []"
    and "\<And>rb c t. ends r (rb, c # t) = [] \<or> hd (ends r (rb, c # t)) = (rb, c # t) \<Longrightarrow>
       find_from r rb (c # t) = find_from r (c # rb) t \<Longrightarrow> P (c # rb) t \<Longrightarrow> P rb (c # t)"
    and "\<And>rb m s'. m \<noteq> [] \<Longrightarrow> matches r rb m s' \<Longrightarrow> hd (ends r (rb, m @ s')) = (rev m @ rb, s') \<Longrightarrow>
       find_from r rb (m @ s') = m # find_from r (rev m @ rb) s' \<Longrightarrow> P (rev m @ rb) s' \<Longrightarrow>
       P rb (m @ s')"
  shows "P rb s"
proof (induction "length s" arbitrary: rb s rule: less_induct)
  case less
  show ?case
  proof (cases s)
    case Nil
    then show ?thesis using assms(1) by simp
  next
    case (Cons c t)
    have next_place: "P (c # rb) t" using less Cons by simp
    show ?thesis
    proof (cases "ends r (rb, s)")
      case Nil
      then show ?thesis using assms(2) [OF _ find_from_miss next_place] Cons by simp
    next
      case e: (Cons z zs)
      obtain rb' s' where z: "z = (rb', s')" by (cases z)
      have "(rb', s') \<in> set (ends r (rb, s))" using e z by simp
      then obtain m where m: "s = m @ s'" "rb' = rev m @ rb" "matches r rb m s'"
        by (auto simp: ends_iff)
      show ?thesis
      proof (cases "m = []")
        case True
        then have "find_from r rb (c # t) = find_from r (c # rb) t"
          using find_from_empty [of r rb c t rb' s' zs] e z m(1) Cons by (metis append_Nil nless_le)
        moreover have "hd (ends r (rb, c # t)) = (rb, c # t)"
          using e z m True Cons by simp
        ultimately show ?thesis using assms(2) next_place Cons by simp
      next
        case False
        then have "P rb' s'" using less m(1) by simp
        moreover have "find_from r rb (m @ s') = m # find_from r rb' s'"
          using find_from_hit [of r rb c t rb' s' zs m] e z m(1) False Cons by simp
        ultimately show ?thesis
          using assms(3) [OF False m(3)] m e z by simp
      qed
    qed
  qed
qed

lemma find_from_sound:
  "w \<in> set (find_from r rb s) \<Longrightarrow>
     \<exists>u v. s = u @ w @ v \<and> w \<noteq> [] \<and> matches r (rev u @ rb) w v"
proof (induction rb s rule: scan_induct [where r = r])
  case (miss rb c t)
  then obtain u v where "t = u @ w @ v" "w \<noteq> []" "matches r (rev (c # u) @ rb) w v"
    by auto
  then show ?case by (metis append_Cons)
next
  case (hit rb m s')
  show ?case
  proof (cases "w = m")
    case True
    then show ?thesis using hit(1,2) by (metis append_Nil rev.simps(1))
  next
    case False
    then obtain u v where "s' = u @ w @ v" "w \<noteq> []" "matches r (rev (m @ u) @ rb) w v"
      using hit by auto
    then show ?thesis by (metis append.assoc)
  qed
qed simp

text \<open>Where the first choice of a literal and of a repetition ends.\<close>

lemma ends_Lit: "ends (Lit l) (rb, s) = (if prefix l s then [(rev l @ rb, drop (length l) s)] else [])"
proof (induction l arbitrary: rb s)
  case (Cons c l)
  then show ?case by (cases s) auto
qed simp

lemma hd_greedy: "hd (greedy p rb s) = (rev (takeWhile p s) @ rb, dropWhile p s)"
proof (induction p rb s rule: greedy.induct)
  case (2 p rb c s)
  have "greedy p (c # rb) s \<noteq> []" by (cases s) simp_all
  then show ?case using 2 by simp
qed simp

lemma greedy_not_Nil [simp]: "greedy p rb s \<noteq> []"
  by (cases s) simp_all

lemma greedy_length: "(rb', s') \<in> set (greedy p rb s) \<Longrightarrow> length s' \<le> length s"
  by (auto simp: greedy_iff)

lemma greedy_filter [simp]:
  "filter (\<lambda>(rb', s'). length s' \<le> length s) (greedy p rb s) = greedy p rb s"
  using greedy_length by (intro filter_True) fastforce

lemma greedy_filter_Suc [simp]:
  "filter (\<lambda>(rb', s'). Suc (length s') \<le> length s) (greedy p rb s) =
     (case s of [] \<Rightarrow> [] | c # t \<Rightarrow> if p c then greedy p (c # rb) t else [])"
  by (cases s) simp_all

lemma ends_AtLeast_1:
  "ends (AtLeast (Suc 0) p) (rb, s) =
     (case s of [] \<Rightarrow> [] | c # t \<Rightarrow> if p c then greedy p (c # rb) t else [])"
  by simp

lemma matches_SeqI:
  "matches a rb u (v @ s) \<Longrightarrow> matches b (rev u @ rb) v s \<Longrightarrow> matches (Seq a b) rb (u @ v) s"
  by auto

lemma matches_Times_sep:
  "list_all p w \<Longrightarrow> matches (Times (length w) (Seq (Opt r) (Cls p))) rb w s"
proof (induction w arbitrary: rb)
  case (Cons c w)
  then have "matches (Seq (Opt r) (Cls p)) rb ([] @ [c]) (w @ s)"
    by (intro matches_SeqI) simp_all
  then have "matches (Seq (Seq (Opt r) (Cls p)) (Times (length w) (Seq (Opt r) (Cls p)))) rb ([c] @ w) s"
    using Cons by (intro matches_SeqI) simp_all
  then show ?case by simp
qed simp

lemma matches_Alts:
  "matches (Alts r rs) rb w s \<longleftrightarrow> (\<exists>q\<in>set (r # rs). matches q rb w s)"
  by (induction r rs rule: Alts.induct) auto

end
