(* ===== verification/PatternGroups.thy ===== *)
theory PatternGroups
  imports Regex
begin

text \<open>
  What a group of a pattern matched: the part of Python's \<open>re\<close> that the class patterns and the
  patterns of inbound messages use, on top of the matcher of Regex.
\<close>

section \<open>Patterns with a group\<close>

text \<open>A pattern before, in and after its group. \<open>group_search\<close> returns what the group matched in the
  leftmost match of the first alternative that matches there, in the order Python tries them.\<close>

definition between_places :: "place \<Rightarrow> place \<Rightarrow> string" where
  "between_places z z' = take (length (snd z) - length (snd z')) (snd z)"

fun group_here :: "(rx \<times> rx \<times> rx) list \<Rightarrow> place \<Rightarrow> string option" where
  "group_here [] z = None"
| "group_here ((pre, grp, post) # alts) z =
     (case concat (map (\<lambda>z1. map (between_places z1) (filter (\<lambda>z2. ends post z2 \<noteq> []) (ends grp z1))) (ends pre z)) of
        [] \<Rightarrow> group_here alts z
      | g # _ \<Rightarrow> Some g)"

fun group_from :: "(rx \<times> rx \<times> rx) list \<Rightarrow> string \<Rightarrow> string \<Rightarrow> string option" where
  "group_from alts rb [] = group_here alts (rb, [])"
| "group_from alts rb (c # s) =
     (case group_here alts (rb, c # s) of Some g \<Rightarrow> Some g | None \<Rightarrow> group_from alts (c # rb) s)"

definition group_search :: "(rx \<times> rx \<times> rx) list \<Rightarrow> string \<Rightarrow> string option" where
  "group_search alts s = group_from alts [] s"

end
