(* ===== verification/Slots.thy ===== *)
theory Slots
  imports Prelude
begin

text \<open>
  domain/slots.py and the reference types of contracts/common.py: time slots, the booking
  window, and the short exclusive holds on one tutor at one minute.

  The IANA database is not under src/: the set of zone names \<open>ZoneInfo\<close> knows is the
  argument \<open>known_zone\<close>. The index key of a hold is a string built from the tutor reference
  and the UTC minute of the start; the minute has no \<open>|\<close> in it, so the string determines both
  parts, and the model keeps the pair. The labels shown to a parent (\<open>strftime\<close> in a zone) are
  not modelled.
\<close>

datatype demo_mode = ONLINE | HOME

fun demo_mode_value :: "demo_mode \<Rightarrow> string" where
  "demo_mode_value ONLINE = ''online''"
| "demo_mode_value HOME = ''home''"

text \<open>The pattern every opaque reference satisfies: 3 to 128 of \<open>A-Za-z0-9_.:-\<close>.\<close>

definition ref_char :: "char \<Rightarrow> bool" where
  "ref_char c \<longleftrightarrow>
     (CHR ''A'' \<le> c \<and> c \<le> CHR ''Z'') \<or> (CHR ''a'' \<le> c \<and> c \<le> CHR ''z'')
     \<or> (CHR ''0'' \<le> c \<and> c \<le> CHR ''9'') \<or> c \<in> set ''_.:-''"

definition valid_ref :: "string \<Rightarrow> bool" where
  "valid_ref r \<longleftrightarrow> 3 \<le> length r \<and> length r \<le> 128 \<and> list_all ref_char r"

definition DEFAULT_HOLD_TTL :: duration where "DEFAULT_HOLD_TTL = minutes 20"
definition MAX_BOOKING_HORIZON :: duration where "MAX_BOOKING_HORIZON = days 60"
definition MIN_BOOKING_LEAD :: duration where "MIN_BOOKING_LEAD = minutes 30"
definition DEFAULT_DEMO_MINUTES :: int where "DEFAULT_DEMO_MINUTES = 45"

lemmas slot_consts = DEFAULT_HOLD_TTL_def MAX_BOOKING_HORIZON_def MIN_BOOKING_LEAD_def
  DEFAULT_DEMO_MINUTES_def duration_defs

section \<open>Time slots\<close>

record time_slot =
  starts_at :: instant
  duration_minutes :: int
  timezone :: string

datatype slot_error =
    UnknownTimezone string
  | DurationRange int
  | FieldInvalid string
  | HoldOrder

definition resolve_timezone :: "(string \<Rightarrow> bool) \<Rightarrow> string \<Rightarrow> slot_error + string" where
  "resolve_timezone known_zone name =
     (if known_zone name then Inr name else Inl (UnknownTimezone name))"

definition make_slot ::
  "(string \<Rightarrow> bool) \<Rightarrow> instant \<Rightarrow> int \<Rightarrow> string \<Rightarrow> slot_error + time_slot" where
  "make_slot known_zone start dur zone =
     (if dur < 15 \<or> 180 < dur then Inl (DurationRange dur)
      else and_then (resolve_timezone known_zone zone)
        (\<lambda>z. Inr \<lparr>starts_at = start, duration_minutes = dur, timezone = z\<rparr>))"

definition slot_ok :: "time_slot \<Rightarrow> bool" where
  "slot_ok s \<longleftrightarrow> 15 \<le> duration_minutes s \<and> duration_minutes s \<le> 180"

lemma make_slot_ok: "make_slot z st d n = Inr s \<Longrightarrow> slot_ok s"
  by (auto simp: make_slot_def slot_ok_def split: if_splits)

definition ends_at :: "time_slot \<Rightarrow> instant" where
  "ends_at s = starts_at s + minutes (duration_minutes s)"

definition overlaps :: "time_slot \<Rightarrow> time_slot \<Rightarrow> bool" where
  "overlaps s other \<longleftrightarrow> starts_at s < ends_at other \<and> starts_at other < ends_at s"

definition bookable_from :: "time_slot \<Rightarrow> instant \<Rightarrow> string option" where
  "bookable_from s now =
     (let delta = starts_at s - now
      in if delta < MIN_BOOKING_LEAD then Some ''slot_too_soon''
         else if delta > MAX_BOOKING_HORIZON then Some ''slot_beyond_horizon''
         else None)"

lemma ends_after_start: "slot_ok s \<Longrightarrow> starts_at s < ends_at s"
  by (simp add: slot_ok_def ends_at_def duration_defs)

text \<open>Two well-formed slots overlap exactly when some instant lies in both half-open
  intervals \<open>[start, end)\<close>: the two comparisons of \<open>overlaps\<close> decide the double booking of a
  tutor, and back-to-back demos do not collide.\<close>

theorem overlaps_iff_shared_instant:
  assumes "slot_ok s" and "slot_ok s'"
  shows "overlaps s s' \<longleftrightarrow>
    (\<exists>t. starts_at s \<le> t \<and> t < ends_at s \<and> starts_at s' \<le> t \<and> t < ends_at s')"
proof
  assume "overlaps s s'"
  then show "\<exists>t. starts_at s \<le> t \<and> t < ends_at s \<and> starts_at s' \<le> t \<and> t < ends_at s'"
    using ends_after_start [OF assms(1)] ends_after_start [OF assms(2)]
    by (intro exI [of _ "max (starts_at s) (starts_at s')"]) (auto simp: overlaps_def)
qed (auto simp: overlaps_def)

theorem overlaps_iff_shared_instant_witness:
  "overlaps \<lparr>starts_at = 0, duration_minutes = 45, timezone = ''UTC''\<rparr>
     \<lparr>starts_at = minutes 45, duration_minutes = 60, timezone = ''UTC''\<rparr> \<longleftrightarrow>
   (\<exists>t. 0 \<le> t \<and> t < minutes 45 \<and> minutes 45 \<le> t \<and> t < minutes 105)"
  using overlaps_iff_shared_instant
    [of "\<lparr>starts_at = 0, duration_minutes = 45, timezone = ''UTC''\<rparr>"
        "\<lparr>starts_at = minutes 45, duration_minutes = 60, timezone = ''UTC''\<rparr>"]
  by (simp add: slot_ok_def ends_at_def duration_defs)

lemma bookable_window:
  "bookable_from s now = None \<longleftrightarrow>
     now + MIN_BOOKING_LEAD \<le> starts_at s \<and> starts_at s \<le> now + MAX_BOOKING_HORIZON"
  by (auto simp: bookable_from_def Let_def slot_consts)

section \<open>Holds\<close>

datatype hold_status = HOLD_ACTIVE | HOLD_CONFIRMED | HOLD_RELEASED | HOLD_EXPIRED

fun hold_status_value :: "hold_status \<Rightarrow> string" where
  "hold_status_value HOLD_ACTIVE = ''active''"
| "hold_status_value HOLD_CONFIRMED = ''confirmed''"
| "hold_status_value HOLD_RELEASED = ''released''"
| "hold_status_value HOLD_EXPIRED = ''expired''"

record slot_hold =
  hold_id :: ref
  hold_conversation :: ref
  hold_tutor :: ref
  hold_slot :: time_slot
  hold_mode :: demo_mode
  hold_status :: hold_status
  hold_created :: instant
  hold_expires :: instant

text \<open>\<open>SlotConflict(tutor_ref, starts_at, existing_hold_id)\<close>.\<close>

datatype slot_conflict = SlotConflict ref instant (existing_hold_id: ref)

definition hold_live :: "instant \<Rightarrow> slot_hold \<Rightarrow> bool" where
  "hold_live now h \<longleftrightarrow> hold_status h = HOLD_ACTIVE \<and> now < hold_expires h"

definition hold_expired :: "instant \<Rightarrow> slot_hold \<Rightarrow> bool" where
  "hold_expired now h \<longleftrightarrow> hold_status h = HOLD_ACTIVE \<and> now \<ge> hold_expires h"

type_synonym slot_key = "ref \<times> int"

definition conflict_key :: "slot_hold \<Rightarrow> slot_key" where
  "conflict_key h = (hold_tutor h, starts_at (hold_slot h) div minutes 1)"

definition new_hold ::
  "ref \<Rightarrow> ref \<Rightarrow> ref \<Rightarrow> time_slot \<Rightarrow> demo_mode \<Rightarrow> instant \<Rightarrow> duration \<Rightarrow> slot_error + slot_hold" where
  "new_hold hid conv tutor slot mode now ttl =
     (if 64 < length hid then Inl (FieldInvalid ''hold_id'')
      else if 128 < length conv then Inl (FieldInvalid ''conversation_ref'')
      else if \<not> valid_ref tutor then Inl (FieldInvalid ''tutor_ref'')
      else if now + ttl \<le> now then Inl HoldOrder
      else Inr \<lparr>hold_id = hid, hold_conversation = conv, hold_tutor = tutor, hold_slot = slot,
                hold_mode = mode, hold_status = HOLD_ACTIVE, hold_created = now,
                hold_expires = now + ttl\<rparr>)"

lemma hold_live_mono: "hold_live t h \<Longrightarrow> t' \<le> t \<Longrightarrow> hold_live t' h"
  by (auto simp: hold_live_def)

lemma hold_live_active: "hold_live t h \<Longrightarrow> hold_status h = HOLD_ACTIVE"
  by (simp add: hold_live_def)

lemma live_or_expired: "hold_status h = HOLD_ACTIVE \<Longrightarrow> hold_live t h \<longleftrightarrow> \<not> hold_expired t h"
  by (auto simp: hold_live_def hold_expired_def)

lemma new_hold_live:
  "new_hold hid conv tutor slot mode now ttl = Inr h \<Longrightarrow> hold_live now h \<and> hold_created h = now"
  by (auto simp: new_hold_def hold_live_def split: if_splits)

text \<open>Two clock readings of one appointment share the key when they fall in one minute.\<close>

lemma same_minute_same_key:
  assumes "hold_tutor h = hold_tutor g"
    and "starts_at (hold_slot h) = minutes m + d" and "0 \<le> d" and "d < minutes 1"
    and "starts_at (hold_slot g) = minutes m + e" and "0 \<le> e" and "e < minutes 1"
  shows "conflict_key h = conflict_key g"
  using assms by (simp add: conflict_key_def duration_defs)

end
