(* ===== verification/Messages.thy ===== *)
theory Messages
  imports PyText Slots
begin

text \<open>
  domain/messages.py: what a capability asks the outbound boundary to send, the validator run when
  it is built, the three sets of kinds the boundary's policy reads, the outcomes, and the session
  window.
\<close>

definition MAX_BODY_CHARS :: nat where "MAX_BODY_CHARS = 4096"
definition MAX_BUTTONS :: nat where "MAX_BUTTONS = 3"
definition MAX_BUTTON_CHARS :: nat where "MAX_BUTTON_CHARS = 20"

datatype language = LANG_EN | LANG_HI | LANG_HINGLISH
datatype party = PARTY_STUDENT | PARTY_TUTOR | PARTY_BOTH

datatype message_kind =
  MK_QUESTION | MK_TUTOR_OPTIONS | MK_SLOT_PROPOSAL | MK_CONFIRMATION | MK_REMINDER
| MK_TUTOR_REQUEST | MK_FOLLOWUP | MK_OFFER | MK_PAYMENT_LINK | MK_WELCOME | MK_CANCELLATION
| MK_HUMAN_HANDOFF_NOTICE

definition OPT_OUT_EXEMPT :: "message_kind set" where
  "OPT_OUT_EXEMPT = {MK_CONFIRMATION, MK_CANCELLATION, MK_PAYMENT_LINK}"

definition TEMPLATE_REQUIRED :: "message_kind set" where
  "TEMPLATE_REQUIRED = {MK_REMINDER, MK_TUTOR_REQUEST}"

definition TERMINAL_ALLOWED :: "message_kind set" where
  "TERMINAL_ALLOWED = {MK_WELCOME, MK_CANCELLATION}"

record button =
  reply_id :: string
  button_title :: string

definition reply_char :: "char \<Rightarrow> bool" where
  "reply_char c \<longleftrightarrow>
     (CHR ''a'' \<le> c \<and> c \<le> CHR ''z'') \<or> (CHR ''0'' \<le> c \<and> c \<le> CHR ''9'') \<or> c \<in> set ''_:.-''"

definition button_ok :: "button \<Rightarrow> bool" where
  "button_ok b \<longleftrightarrow>
     1 \<le> length (reply_id b) \<and> length (reply_id b) \<le> 64 \<and> list_all reply_char (reply_id b) \<and>
     1 \<le> length (button_title b) \<and> length (button_title b) \<le> MAX_BUTTON_CHARS"

record template_binding =
  template_name :: string
  template_language :: string
  template_variables :: "string list"

definition template_binding_ok :: "template_binding \<Rightarrow> bool" where
  "template_binding_ok t \<longleftrightarrow>
     1 \<le> length (template_name t) \<and> length (template_name t) \<le> 64 \<and>
     2 \<le> length (template_language t) \<and> length (template_language t) \<le> 8"

record outbound_message =
  om_conversation :: ref
  om_recipient :: ref
  om_audience :: party
  om_kind :: message_kind
  om_language :: language
  om_body :: string
  om_buttons :: "button list"
  om_template :: "template_binding option"
  om_key :: string
  om_demo_id :: "ref option"
  om_trace_id :: ref
  om_expires_at :: "instant option"
  om_created_at :: instant

text \<open>The field limits, then \<open>_deliverable\<close>.\<close>

definition message_fields_ok :: "outbound_message \<Rightarrow> bool" where
  "message_fields_ok m \<longleftrightarrow>
     length (om_conversation m) \<le> 128 \<and> length (om_recipient m) \<le> 128 \<and>
     length (om_body m) \<le> MAX_BODY_CHARS \<and> list_all button_ok (om_buttons m) \<and>
     (case om_template m of None \<Rightarrow> True | Some t \<Rightarrow> template_binding_ok t) \<and>
     length (om_key m) \<le> 128 \<and>
     (case om_demo_id m of None \<Rightarrow> True | Some d \<Rightarrow> length d \<le> 64) \<and> length (om_trace_id m) \<le> 64"

definition deliverable :: "outbound_message \<Rightarrow> bool" where
  "deliverable m \<longleftrightarrow>
     \<not> (strip (om_body m) = '''' \<and> om_template m = None) \<and>
     \<not> length (om_buttons m) > MAX_BUTTONS \<and>
     distinct (map reply_id (om_buttons m)) \<and>
     \<not> (om_kind m \<in> TEMPLATE_REQUIRED \<and> om_template m = None)"

definition message_ok :: "outbound_message \<Rightarrow> bool" where
  "message_ok m \<longleftrightarrow> message_fields_ok m \<and> deliverable m"

definition make_message :: "outbound_message \<Rightarrow> py_error + outbound_message" where
  "make_message m = validated ''OutboundMessage'' message_ok m"

definition opt_out_exempt :: "outbound_message \<Rightarrow> bool" where
  "opt_out_exempt m \<longleftrightarrow> om_kind m \<in> OPT_OUT_EXEMPT"

definition message_expired :: "outbound_message \<Rightarrow> instant \<Rightarrow> bool" where
  "message_expired m now = (case om_expires_at m of None \<Rightarrow> False | Some e \<Rightarrow> now \<ge> e)"

datatype send_outcome =
  SENT | DUPLICATE | SUPPRESSED_NOT_OWNER | SUPPRESSED_STATE | SUPPRESSED_OPT_OUT
| SUPPRESSED_QUIET_HOURS | SUPPRESSED_RATE_LIMIT | SUPPRESSED_EXPIRED | SUPPRESSED_NO_TEMPLATE
| SUPPRESSED_GUARDRAIL | SEND_FAILED

record send_result =
  sr_outcome :: send_outcome
  sr_key :: string
  sr_provider_id :: string
  sr_detail :: string
  sr_sent_at :: "instant option"

definition delivered :: "send_result \<Rightarrow> bool" where
  "delivered r \<longleftrightarrow> sr_outcome r = SENT"

definition suppressed :: "send_result \<Rightarrow> bool" where
  "suppressed r \<longleftrightarrow>
     sr_outcome r \<in> {SUPPRESSED_NOT_OWNER, SUPPRESSED_STATE, SUPPRESSED_OPT_OUT,
       SUPPRESSED_QUIET_HOURS, SUPPRESSED_RATE_LIMIT, SUPPRESSED_EXPIRED, SUPPRESSED_NO_TEMPLATE,
       SUPPRESSED_GUARDRAIL}"

definition session_window_open :: "instant option \<Rightarrow> instant \<Rightarrow> int \<Rightarrow> bool" where
  "session_window_open last_inbound now window_hours =
     (case last_inbound of None \<Rightarrow> False | Some at \<Rightarrow> now - at < hours window_hours)"

text \<open>A reminder or a tutor request that was built carries a template.\<close>

lemma make_message_template:
  "make_message m = Inr m' \<Longrightarrow> om_kind m \<in> TEMPLATE_REQUIRED \<Longrightarrow> om_template m' \<noteq> None"
  by (auto simp: make_message_def message_ok_def deliverable_def)

lemma outcome_trichotomy: "delivered r \<or> suppressed r \<or> sr_outcome r \<in> {DUPLICATE, SEND_FAILED}"
  by (cases "sr_outcome r") (simp_all add: delivered_def suppressed_def)

end
