(* ===== verification/TutorMatch.thy ===== *)
theory TutorMatch
  imports Complex_Main Regex Messages
begin

text \<open>
  contracts/tutor_match.py and guardrails/tutor_selection.py: what Tutor Intelligence returns to the
  Demo Command Center, the checks before any of it is shown, and how a parent's words are mapped onto
  one of the options that were shown. Scores are exact rationals.
\<close>

definition MAX_RESULT_AGE :: duration where "MAX_RESULT_AGE = minutes 15"
definition MAX_OPTIONS :: nat where "MAX_OPTIONS = 3"

datatype match_quality = MQ_OK | MQ_PARTIAL | MQ_INSUFFICIENT | MQ_MISSING | MQ_STALE

definition UNQUOTABLE :: "match_quality set" where
  "UNQUOTABLE = {MQ_MISSING, MQ_INSUFFICIENT, MQ_STALE}"

datatype match_freshness = MF_FRESH | MF_AGING | MF_STALE | MF_UNKNOWN

definition BOOKABLE_FRESHNESS :: "match_freshness set" where
  "BOOKABLE_FRESHNESS = {MF_FRESH, MF_AGING}"

record score_evidence =
  se_source :: string
  se_field_name :: string
  se_value :: string
  se_observed_at :: "instant option"

record dimension_score =
  ds_dimension :: string
  ds_score :: rat
  ds_confidence :: rat
  ds_data_quality :: match_quality
  ds_evidence :: "score_evidence list"

definition score_quotable :: "dimension_score \<Rightarrow> bool" where
  "score_quotable d \<longleftrightarrow> ds_data_quality d \<notin> UNQUOTABLE \<and> ds_evidence d \<noteq> []"

record match_candidate =
  mc_rank :: int
  mc_tutor_ref :: ref
  mc_name :: string
  mc_profile_url :: string
  mc_reasons :: "string list"
  mc_mode_label :: "string option"
  mc_locality_label :: "string option"
  mc_availability_label :: "string option"
  mc_fee_label :: "string option"
  mc_scores :: "dimension_score list"
  mc_final_score :: rat
  mc_weight_coverage :: rat
  mc_freshness :: match_freshness

definition at_most :: "nat \<Rightarrow> string option \<Rightarrow> bool" where
  "at_most n v \<longleftrightarrow> (case v of None \<Rightarrow> True | Some s \<Rightarrow> length s \<le> n)"

definition unit_range :: "rat \<Rightarrow> bool" where
  "unit_range x \<longleftrightarrow> 0 \<le> x \<and> x \<le> 1"

definition evidence_ok :: "score_evidence \<Rightarrow> bool" where
  "evidence_ok e \<longleftrightarrow> length (se_source e) \<le> 80 \<and> length (se_field_name e) \<le> 64 \<and> length (se_value e) \<le> 240"

definition dimension_ok :: "dimension_score \<Rightarrow> bool" where
  "dimension_ok d \<longleftrightarrow> length (ds_dimension d) \<le> 32 \<and> unit_range (ds_score d) \<and> unit_range (ds_confidence d) \<and>
     (\<forall>e\<in>set (ds_evidence d). evidence_ok e)"

definition candidate_ok :: "match_candidate \<Rightarrow> bool" where
  "candidate_ok c \<longleftrightarrow>
     1 \<le> mc_rank c \<and> mc_rank c \<le> int MAX_OPTIONS \<and> valid_ref (mc_tutor_ref c) \<and>
     1 \<le> length (mc_name c) \<and> length (mc_name c) \<le> 160 \<and>
     1 \<le> length (mc_profile_url c) \<and> length (mc_profile_url c) \<le> 512 \<and>
     at_most 64 (mc_mode_label c) \<and> at_most 120 (mc_locality_label c) \<and>
     at_most 160 (mc_availability_label c) \<and> at_most 64 (mc_fee_label c) \<and>
     (\<forall>d\<in>set (mc_scores c). dimension_ok d) \<and>
     unit_range (mc_final_score c) \<and> unit_range (mc_weight_coverage c)"

definition bookable :: "match_candidate \<Rightarrow> bool" where
  "bookable c \<longleftrightarrow> mc_freshness c \<in> BOOKABLE_FRESHNESS"

definition quotable_reasons :: "match_candidate \<Rightarrow> string list" where
  "quotable_reasons c = (if list_ex score_quotable (mc_scores c) then mc_reasons c else [])"

record match_request =
  mr_trace_id :: string
  mr_correlation_id :: string
  mr_causation_id :: "string option"
  mr_conversation :: ref
  mr_student_ref :: "ref option"
  mr_subject :: string
  mr_student_class :: string
  mr_board :: string
  mr_mode :: demo_mode
  mr_region :: "ref option"
  mr_locality :: "string option"
  mr_timezone :: string
  mr_language :: "string option"
  mr_exclude :: "ref list"
  mr_limit :: int
  mr_return_only :: bool

definition opt_ref_ok :: "ref option \<Rightarrow> bool" where
  "opt_ref_ok v \<longleftrightarrow> (case v of None \<Rightarrow> True | Some r \<Rightarrow> valid_ref r)"

definition match_request_ok :: "match_request \<Rightarrow> bool" where
  "match_request_ok r \<longleftrightarrow>
     length (mr_trace_id r) \<le> 64 \<and> length (mr_correlation_id r) \<le> 128 \<and> at_most 128 (mr_causation_id r) \<and>
     length (mr_conversation r) \<le> 128 \<and> opt_ref_ok (mr_student_ref r) \<and>
     1 \<le> length (mr_subject r) \<and> length (mr_subject r) \<le> 64 \<and>
     1 \<le> length (mr_student_class r) \<and> length (mr_student_class r) \<le> 16 \<and>
     1 \<le> length (mr_board r) \<and> length (mr_board r) \<le> 32 \<and>
     opt_ref_ok (mr_region r) \<and> at_most 120 (mr_locality r) \<and> at_most 32 (mr_language r) \<and>
     list_all valid_ref (mr_exclude r) \<and> 1 \<le> mr_limit r \<and> mr_limit r \<le> 10 \<and> mr_return_only r"

record match_rejection =
  mx_tutor_ref :: ref
  mx_rule :: string
  mx_detail :: string

record match_result =
  ms_trace_id :: string
  ms_conversation :: ref
  ms_match_session_id :: string
  ms_policy_ref :: string
  ms_candidates :: "match_candidate list"
  ms_rejections :: "match_rejection list"
  ms_no_match_reason :: "string option"
  ms_requires_human_review :: bool
  ms_degraded_sources :: "string list"
  ms_generated_at :: instant
  ms_sender_was_silent :: bool

definition result_age :: "instant \<Rightarrow> match_result \<Rightarrow> duration" where
  "result_age now r = now - ms_generated_at r"

definition result_stale :: "instant \<Rightarrow> match_result \<Rightarrow> bool" where
  "result_stale now r \<longleftrightarrow> result_age now r > MAX_RESULT_AGE"

definition validate_for_presentation :: "instant \<Rightarrow> match_result \<Rightarrow> string list" where
  "validate_for_presentation now r =
     (let unbookable = filter (\<lambda>c. \<not> bookable c) (ms_candidates r)
      in (if ms_sender_was_silent r then [] else [''tutor_agent_may_have_sent_a_message'']) @
         (if result_stale now r
            then [''result_stale:'' @ show_nat (nat (result_age now r div seconds 1)) @ ''s''] else []) @
         (if ms_generated_at r > now + minutes 1 then [''result_generated_in_the_future''] else []) @
         (if ms_requires_human_review r then [''tutor_agent_requested_human_review''] else []) @
         (if ms_candidates r = []
            then [case ms_no_match_reason r of None \<Rightarrow> ''no_candidates''
                  | Some why \<Rightarrow> if why = [] then ''no_candidates'' else why] else []) @
         (if unbookable \<noteq> [] \<and> length unbookable = length (ms_candidates r)
            then [''all_candidates_stale''] else []))"

definition presentable :: "match_result \<Rightarrow> match_candidate list" where
  "presentable r =
     map (\<lambda>(i, c). c\<lparr>mc_rank := int i\<rparr>)
       (enumerate 1 (take MAX_OPTIONS (filter bookable (ms_candidates r))))"

section \<open>Selecting one of the options\<close>

definition ORDINALS :: "(string, nat) odict" where
  "ORDINALS =
     [(''1'', 1), (''one'', 1), (''first'', 1), (''pehla'', 1), (''a'', 1),
      (''2'', 2), (''two'', 2), (''second'', 2), (''dusra'', 2), (''b'', 2),
      (''3'', 3), (''three'', 3), (''third'', 3), (''teesra'', 3), (''c'', 3)]"

definition REJECT_WORDS :: "string list" where
  "REJECT_WORDS =
     [''none'', ''neither'', ''no one'', ''nobody'', ''other'', ''others'', ''different'',
      ''someone else'', ''koi aur'', ''dusra dikhao'', ''alternatives'', ''more options'']"

record selection =
  sel_candidate :: "match_candidate option"
  sel_rejected_all :: bool
  sel_ambiguous :: bool
  sel_reason :: string

definition chosen :: "match_candidate \<Rightarrow> selection" where
  "chosen c = \<lparr>sel_candidate = Some c, sel_rejected_all = False, sel_ambiguous = False, sel_reason = ''''\<rparr>"

definition unresolved :: "bool \<Rightarrow> bool \<Rightarrow> string \<Rightarrow> selection" where
  "unresolved rejected ambiguous why =
     \<lparr>sel_candidate = None, sel_rejected_all = rejected, sel_ambiguous = ambiguous, sel_reason = why\<rparr>"

text \<open>The pattern \<open>^tutor:(?P<ordinal>[1-3])$\<close> on a stripped text, which ends in no line break.\<close>

definition button_ordinal :: "string \<Rightarrow> nat option" where
  "button_ordinal b =
     (let s = casefold (strip b)
      in if s = ''tutor:1'' then Some 1 else if s = ''tutor:2'' then Some 2
         else if s = ''tutor:3'' then Some 3 else None)"

definition name_tokens :: "match_candidate \<Rightarrow> string list" where
  "name_tokens c = map casefold (filter (\<lambda>w. 3 \<le> length w) (words (mc_name c)))"

definition match_by_name :: "string \<Rightarrow> match_candidate list \<Rightarrow> match_candidate list" where
  "match_by_name text cs =
     filter (\<lambda>c. list_ex (\<lambda>t. t \<in> set (name_tokens c)) (find_all (AtLeast 3 is_lower_char) text)) cs"

definition ordinal_hit :: "match_candidate list \<Rightarrow> match_candidate list \<Rightarrow> string \<Rightarrow> match_candidate list" where
  "ordinal_hit cs hits token =
     (case dict_get ORDINALS token of
        None \<Rightarrow> hits
      | Some i \<Rightarrow> if i \<le> length cs \<and> cs ! (i - 1) \<notin> set hits then hits @ [cs ! (i - 1)] else hits)"

definition match_by_ordinal :: "string \<Rightarrow> match_candidate list \<Rightarrow> match_candidate list" where
  "match_by_ordinal text cs =
     foldl (ordinal_hit cs) [] (find_all (AtLeast 1 (\<lambda>c. is_lower_char c \<or> is_digit c)) text)"

definition resolve_text :: "string \<Rightarrow> match_candidate list \<Rightarrow> selection" where
  "resolve_text text cs =
     (let lowered = join '' '' (words (casefold text))
      in if lowered = [] then unresolved False False ''empty_selection''
         else if list_ex (contains lowered) REJECT_WORDS then unresolved True False ''alternatives_requested''
         else case match_by_name lowered cs of
           [c] \<Rightarrow> chosen c
         | _ # _ # _ \<Rightarrow> unresolved False True ''multiple_name_matches''
         | [] \<Rightarrow>
             (case match_by_ordinal lowered cs of
                [c] \<Rightarrow> chosen c
              | _ # _ # _ \<Rightarrow> unresolved False True ''multiple_ordinals''
              | [] \<Rightarrow> unresolved False False ''unrecognised_selection''))"

definition resolve_selection :: "string \<Rightarrow> match_candidate list \<Rightarrow> string option \<Rightarrow> selection" where
  "resolve_selection text cs button =
     (if cs = [] then unresolved False False ''no_candidates_presented''
      else case (case button of None \<Rightarrow> None | Some b \<Rightarrow> if b = [] then None else button_ordinal b) of
        Some i \<Rightarrow> if i \<le> length cs then chosen (cs ! (i - 1))
                  else unresolved False False ''button_ordinal_out_of_range''
      | None \<Rightarrow> resolve_text text cs)"

definition assert_from_snapshot :: "ref \<Rightarrow> match_candidate list \<Rightarrow> string + match_candidate" where
  "assert_from_snapshot tutor cs =
     (case find (\<lambda>c. mc_tutor_ref c = tutor) cs of
        Some c \<Rightarrow> Inr c
      | None \<Rightarrow> Inl (''tutor_not_in_presented_candidates:'' @ take 24 tutor))"

section \<open>The reference is looked up, never accepted\<close>

text \<open>Every reference replaced by another, everything else kept.\<close>

definition relabel :: "(ref \<Rightarrow> ref) \<Rightarrow> match_candidate \<Rightarrow> match_candidate" where
  "relabel f c = c\<lparr>mc_tutor_ref := f (mc_tutor_ref c)\<rparr>"

definition relabel_selection :: "(ref \<Rightarrow> ref) \<Rightarrow> selection \<Rightarrow> selection" where
  "relabel_selection f s = s\<lparr>sel_candidate := map_option (relabel f) (sel_candidate s)\<rparr>"

lemma relabel_simps [simp]:
  "name_tokens (relabel f c) = name_tokens c" "mc_rank (relabel f c) = mc_rank c"
  by (simp_all add: relabel_def name_tokens_def)

lemma relabel_selection_simps [simp]:
  "relabel_selection f (chosen c) = chosen (relabel f c)"
  "relabel_selection f (unresolved r a w) = unresolved r a w"
  by (simp_all add: relabel_selection_def chosen_def unresolved_def)

lemma relabel_inj: "distinct (map mc_rank cs) \<Longrightarrow> inj_on (relabel f) (set cs)"
  by (metis distinct_map inj_on_def relabel_simps(2))

lemma ordinal_range: "dict_get ORDINALS t = Some i \<Longrightarrow> 1 \<le> i \<and> i \<le> 3"
  by (drule dict_get_in) (auto simp: ORDINALS_def)

lemma ordinal_hit_subset:
  assumes "set hits \<subseteq> set cs"
  shows "set (ordinal_hit cs hits t) \<subseteq> set cs"
proof (cases "dict_get ORDINALS t")
  case (Some i)
  have "cs ! (i - 1) \<in> set cs" if "i \<le> length cs" using that ordinal_range [OF Some] by (intro nth_mem) linarith
  then show ?thesis using assms Some by (auto simp: ordinal_hit_def)
qed (use assms in \<open>simp add: ordinal_hit_def\<close>)

lemma ordinal_hit_relabel:
  assumes "inj_on (relabel f) (set cs)" and "set hits \<subseteq> set cs"
  shows "ordinal_hit (map (relabel f) cs) (map (relabel f) hits) t = map (relabel f) (ordinal_hit cs hits t)"
proof (cases "dict_get ORDINALS t")
  case (Some i)
  show ?thesis
  proof (cases "i \<le> length cs")
    case True
    then have i: "i - 1 < length cs" using ordinal_range [OF Some] by linarith
    then have "relabel f (cs ! (i - 1)) \<in> relabel f ` set hits \<longleftrightarrow> cs ! (i - 1) \<in> set hits"
      using assms by (meson inj_on_image_mem_iff nth_mem)
    then show ?thesis using Some True i by (simp add: ordinal_hit_def)
  qed (simp add: ordinal_hit_def Some)
qed (simp add: ordinal_hit_def)

lemma ordinal_hits:
  assumes "inj_on (relabel f) (set cs)" and "set hits \<subseteq> set cs"
  shows "foldl (ordinal_hit (map (relabel f) cs)) (map (relabel f) hits) ts =
      map (relabel f) (foldl (ordinal_hit cs) hits ts) \<and> set (foldl (ordinal_hit cs) hits ts) \<subseteq> set cs"
  using assms(2)
  by (induction ts arbitrary: hits) (simp_all add: ordinal_hit_relabel [OF assms(1)] ordinal_hit_subset)

lemma match_by_ordinal_relabel:
  "inj_on (relabel f) (set cs) \<Longrightarrow>
   match_by_ordinal t (map (relabel f) cs) = map (relabel f) (match_by_ordinal t cs)"
  using ordinal_hits [of f cs "[]"] by (simp add: match_by_ordinal_def)

lemma match_by_name_relabel:
  "match_by_name t (map (relabel f) cs) = map (relabel f) (match_by_name t cs)"
  by (simp add: match_by_name_def filter_map o_def)

lemma fold_hits_subset: "set hits \<subseteq> set cs \<Longrightarrow> set (foldl (ordinal_hit cs) hits ts) \<subseteq> set cs"
  by (induction ts arbitrary: hits) (simp_all add: ordinal_hit_subset)

lemma matched_subset:
  "set (match_by_name t cs) \<subseteq> set cs" "set (match_by_ordinal t cs) \<subseteq> set cs"
  by (auto simp: match_by_name_def match_by_ordinal_def dest: subsetD [OF fold_hits_subset, rotated])

lemma resolve_text_relabel:
  "inj_on (relabel f) (set cs) \<Longrightarrow>
   resolve_text t (map (relabel f) cs) = relabel_selection f (resolve_text t cs)"
  by (simp add: resolve_text_def Let_def match_by_name_relabel match_by_ordinal_relabel split: list.split)

lemma resolve_text_member: "sel_candidate (resolve_text t cs) = Some c \<Longrightarrow> c \<in> set cs"
  using matched_subset [of "join '' '' (words (casefold t))" cs]
  by (auto simp: resolve_text_def Let_def chosen_def unresolved_def split: if_splits list.splits)

text \<open>A tutor reference is looked up, never accepted. Whatever the parent writes and whichever button
  comes back, a resolved selection is one of the candidates that were shown, and no reference plays a
  part in choosing it: if the references of the candidates are replaced by any others, the same place
  of the list is chosen. A reference typed into the text therefore selects nobody.\<close>

theorem reference_is_looked_up:
  assumes "distinct (map mc_rank cs)"
  shows "resolve_selection text (map (relabel f) cs) button = relabel_selection f (resolve_selection text cs button) \<and>
    (\<forall>c. sel_candidate (resolve_selection text cs button) = Some c \<longrightarrow>
       c \<in> set cs \<and> (\<exists>d. assert_from_snapshot (mc_tutor_ref c) cs = Inr d \<and> mc_tutor_ref d = mc_tutor_ref c))"
proof (intro conjI allI impI)
  have button: "1 \<le> i" if "button_ordinal b = Some i" for b i
    using that by (auto simp: button_ordinal_def Let_def split: if_splits)
  show "resolve_selection text (map (relabel f) cs) button = relabel_selection f (resolve_selection text cs button)"
    using resolve_text_relabel [OF relabel_inj [OF assms]]
    by (auto simp: resolve_selection_def split: option.split dest: button)
  fix c assume c: "sel_candidate (resolve_selection text cs button) = Some c"
  then show "c \<in> set cs"
    by (auto simp: resolve_selection_def unresolved_def chosen_def
        split: if_splits option.splits dest: resolve_text_member button intro!: nth_mem)
  then show "\<exists>d. assert_from_snapshot (mc_tutor_ref c) cs = Inr d \<and> mc_tutor_ref d = mc_tutor_ref c"
    by (auto simp: assert_from_snapshot_def find_None_iff' split: option.split dest: find_Some_in)
qed

section \<open>What is presented\<close>

lemma presentable_nth:
  assumes "k < length (presentable r)"
  shows "presentable r ! k = (filter bookable (ms_candidates r) ! k)\<lparr>mc_rank := int k + 1\<rparr> \<and>
    filter bookable (ms_candidates r) ! k \<in> set (filter bookable (ms_candidates r)) \<and> k < 3"
proof -
  have "k < length (filter bookable (ms_candidates r))" "k < 3"
    using assms by (simp_all add: presentable_def MAX_OPTIONS_def)
  then show ?thesis by (simp add: presentable_def nth_enumerate_eq MAX_OPTIONS_def del: set_filter)
qed

lemma presentable_ranks: "map mc_rank (presentable r) = map (\<lambda>k. int k + 1) [0..<length (presentable r)]"
  by (rule nth_equalityI) (simp_all add: presentable_nth)

text \<open>(C32) What is presented is well formed. A result that passes the checks offers one to three tutors,
  numbered from one without a gap, none of them stale; each is a candidate of the result, in order, with
  nothing but its number changed, and still satisfies the contract's bounds although the copy that
  renumbers it is not validated; and the result is at most fifteen minutes old.\<close>

theorem presented_options_are_well_formed:
  assumes "validate_for_presentation now r = []" and "\<forall>c\<in>set (ms_candidates r). candidate_ok c"
  shows "presentable r \<noteq> [] \<and> length (presentable r) \<le> 3 \<and>
    map mc_rank (presentable r) = map (\<lambda>k. int k + 1) [0..<length (presentable r)] \<and>
    (\<forall>c\<in>set (presentable r). candidate_ok c \<and> bookable c) \<and>
    map (mc_rank_update (\<lambda>_. 0)) (presentable r) =
      map (mc_rank_update (\<lambda>_. 0)) (take 3 (filter bookable (ms_candidates r))) \<and>
    result_age now r \<le> MAX_RESULT_AGE"
proof (intro conjI)
  have bookable: "filter bookable (ms_candidates r) \<noteq> []"
  proof
    assume none: "filter bookable (ms_candidates r) = []"
    then have "filter (\<lambda>c. \<not> bookable c) (ms_candidates r) = ms_candidates r"
      by (simp add: filter_empty_conv filter_id_conv)
    then show False using assms(1) by (auto simp: validate_for_presentation_def Let_def split: if_splits)
  qed
  then show "presentable r \<noteq> []" by (cases "filter bookable (ms_candidates r)") (simp_all add: presentable_def MAX_OPTIONS_def)
  show "length (presentable r) \<le> 3" by (simp add: presentable_def MAX_OPTIONS_def)
  show "map mc_rank (presentable r) = map (\<lambda>k. int k + 1) [0..<length (presentable r)]"
    by (rule presentable_ranks)
  show "\<forall>c\<in>set (presentable r). candidate_ok c \<and> bookable c"
  proof
    fix c assume "c \<in> set (presentable r)"
    then obtain k where k: "k < length (presentable r)" "c = presentable r ! k" by (metis in_set_conv_nth)
    let ?d = "filter bookable (ms_candidates r) ! k"
    have "c = ?d\<lparr>mc_rank := int k + 1\<rparr>" "k < 3" "?d \<in> set (ms_candidates r)" "bookable ?d"
      using presentable_nth [OF k(1)] k(2) by auto
    then show "candidate_ok c \<and> bookable c"
      using assms(2) by (auto simp: candidate_ok_def bookable_def MAX_OPTIONS_def)
  qed
  show "map (mc_rank_update (\<lambda>_. 0)) (presentable r) =
      map (mc_rank_update (\<lambda>_. 0)) (take 3 (filter bookable (ms_candidates r)))"
    by (rule nth_equalityI) (simp_all add: presentable_def MAX_OPTIONS_def nth_enumerate_eq)
  show "result_age now r \<le> MAX_RESULT_AGE"
    using assms(1) by (auto simp: validate_for_presentation_def Let_def result_stale_def split: if_splits)
qed

text \<open>\<open>Button(reply_id=f"tutor:{c.rank}")\<close>.\<close>

definition option_button :: "match_candidate \<Rightarrow> string" where
  "option_button c = ''tutor:'' @ show_nat (nat (mc_rank c))"

text \<open>A button comes back as the tutor it was minted for. Whatever text comes with it, pressing the
  button of a presented option selects that very candidate.\<close>

theorem option_button_selects_its_tutor:
  assumes "c \<in> set (presentable r)"
  shows "resolve_selection text (presentable r) (Some (option_button c)) = chosen c"
proof -
  obtain k where k: "k < length (presentable r)" "c = presentable r ! k" using assms by (metis in_set_conv_nth)
  have rank: "nat (mc_rank c) = k + 1" and "k < 3" using presentable_nth [OF k(1)] k(2) by simp_all
  then consider "k = 0" | "k = 1" | "k = 2" by linarith
  then have "button_ordinal (''tutor:'' @ show_nat (k + 1)) = Some (k + 1)"
    by cases (simp, code_simp)+
  moreover have "option_button c \<noteq> []" by (simp add: option_button_def)
  ultimately show ?thesis using k rank by (auto simp: resolve_selection_def option_button_def)
qed

text \<open>Two ways a plain answer is misread. With at least two options none of which is called so, "the second
  one" is ambiguous, because "one" counts as the first: the answer the buttons are numbered for never
  selects. And any text with "another" or "mother" in it asks for other tutors.\<close>

theorem the_second_one_is_ambiguous:
  assumes "cs = c # d # rest" and "c \<noteq> d"
    and "\<forall>x\<in>set cs. \<forall>t\<in>set (name_tokens x). t \<noteq> ''the'' \<and> t \<noteq> ''second'' \<and> t \<noteq> ''one''"
  shows "resolve_selection ''The second one'' cs None = unresolved False True ''multiple_ordinals'' \<and>
    resolve_selection ''My mother likes the first'' cs None = unresolved True False ''alternatives_requested''"
proof
  have low: "join '' '' (words (casefold ''The second one'')) = ''the second one''" by code_simp
  have calm: "\<not> list_ex (contains ''the second one'') REJECT_WORDS" by code_simp
  have letters: "find_all (AtLeast 3 is_lower_char) ''the second one'' = [''the'', ''second'', ''one'']" by code_simp
  have tokens: "find_all (AtLeast 1 (\<lambda>c. is_lower_char c \<or> is_digit c)) ''the second one'' = [''the'', ''second'', ''one'']"
    by code_simp
  have names: "match_by_name ''the second one'' cs = []"
    using assms(3) unfolding match_by_name_def letters by (auto simp: filter_empty_conv)
  have "match_by_ordinal ''the second one'' cs = [d, c]"
    unfolding match_by_ordinal_def tokens using assms(1,2) by (simp add: ordinal_hit_def ORDINALS_def)
  then show "resolve_selection ''The second one'' cs None = unresolved False True ''multiple_ordinals''"
    using assms(1) calm names by (simp add: resolve_selection_def resolve_text_def low)
  have "join '' '' (words (casefold ''My mother likes the first'')) = ''my mother likes the first''" by code_simp
  moreover have "list_ex (contains ''my mother likes the first'') REJECT_WORDS" by code_simp
  ultimately show "resolve_selection ''My mother likes the first'' cs None = unresolved True False ''alternatives_requested''"
    using assms(1) by (simp add: resolve_selection_def resolve_text_def)
qed

section \<open>Concrete instances\<close>

definition sample_option :: "ref \<Rightarrow> string \<Rightarrow> match_freshness \<Rightarrow> match_candidate" where
  "sample_option r name fresh =
     \<lparr>mc_rank = 1, mc_tutor_ref = r, mc_name = name, mc_profile_url = ''https://nxtutors.com/t'', mc_reasons = [],
      mc_mode_label = None, mc_locality_label = None, mc_availability_label = None, mc_fee_label = None,
      mc_scores = [], mc_final_score = 1 / 2, mc_weight_coverage = 1, mc_freshness = fresh\<rparr>"

definition sample_result :: match_result where
  "sample_result =
     \<lparr>ms_trace_id = ''t'', ms_conversation = ''conv'', ms_match_session_id = ''m'', ms_policy_ref = ''p'',
      ms_candidates = [sample_option ''tut_a'' ''Asha Rao'' MF_FRESH, sample_option ''tut_b'' ''Banu'' MF_STALE,
                       sample_option ''tut_c'' ''Chitra Sen'' MF_AGING],
      ms_rejections = [], ms_no_match_reason = None, ms_requires_human_review = False,
      ms_degraded_sources = [], ms_generated_at = 0, ms_sender_was_silent = True\<rparr>"

definition second_option :: match_candidate where
  "second_option = (sample_option ''tut_c'' ''Chitra Sen'' MF_AGING)\<lparr>mc_rank := 2\<rparr>"

lemma sample_presentable:
  "presentable sample_result = [sample_option ''tut_a'' ''Asha Rao'' MF_FRESH, second_option]"
  by (simp add: presentable_def sample_result_def sample_option_def second_option_def bookable_def
      BOOKABLE_FRESHNESS_def MAX_OPTIONS_def)

theorem presented_options_are_well_formed_witness:
  "presentable sample_result \<noteq> [] \<and> list_all (\<lambda>c. candidate_ok c \<and> bookable c) (presentable sample_result)"
proof -
  have "validate_for_presentation (minutes 5) sample_result = []"
    by (simp add: validate_for_presentation_def Let_def sample_result_def sample_option_def bookable_def
        BOOKABLE_FRESHNESS_def result_stale_def result_age_def MAX_RESULT_AGE_def duration_defs)
  moreover have "\<forall>c\<in>set (ms_candidates sample_result). candidate_ok c"
    by (simp add: sample_result_def sample_option_def candidate_ok_def MAX_OPTIONS_def at_most_def unit_range_def
        valid_ref_def ref_char_def)
  ultimately show ?thesis using presented_options_are_well_formed [of "minutes 5" sample_result] by (auto simp: list_all_iff)
qed

theorem option_button_selects_its_tutor_witness:
  "resolve_selection ''the first'' (presentable sample_result) (Some ''tutor:2'') = chosen second_option"
proof -
  have "option_button second_option = ''tutor:2''" by code_simp
  then show ?thesis
    using option_button_selects_its_tutor [of second_option sample_result "''the first''"]
    by (simp add: sample_presentable)
qed

end
