(* ===== verification/Money.thy ===== *)
theory Money
  imports PyText
begin

text \<open>
  shared/money.py: money as an integer count of minor units with its currency, every operation
  with the exceptions it raises. \<open>Decimal\<close> arithmetic is exact at 28 digits; the model computes
  exactly at every size, so it agrees with the code for amounts below 10^24 paise. Percentages
  are the integers the policies hold. \<open>display\<close> and \<open>__str__\<close> only render and are not modelled.
\<close>

definition INR :: string where "INR = ''INR''"
definition MINOR_UNITS :: int where "MINOR_UNITS = 100"

record money =
  minor :: int
  currency :: string

definition make_money :: "int \<Rightarrow> string \<Rightarrow> py_error + money" where
  "make_money n cur =
     (if n < 0 then Inl (ValueError ''negative'')
      else if length cur \<noteq> 3 \<or> \<not> isupper cur then Inl (ValueError ''currency'')
      else Inr \<lparr>minor = n, currency = cur\<rparr>)"

definition money_ok :: "money \<Rightarrow> bool" where
  "money_ok m \<longleftrightarrow> 0 \<le> minor m \<and> length (currency m) = 3 \<and> isupper (currency m)"

text \<open>\<open>Decimal.quantize\<close> of \<open>num / den\<close> to an integer, ROUND_HALF_UP: ties go away from zero.\<close>

definition quantize_half_up :: "int \<Rightarrow> int \<Rightarrow> int" where
  "quantize_half_up num den = sgn num * ((2 * \<bar>num\<bar> + den) div (2 * den))"

text \<open>A decimal figure is a coefficient and the number of its decimal places.\<close>

definition from_major :: "int \<Rightarrow> nat \<Rightarrow> string \<Rightarrow> py_error + money" where
  "from_major coeff places cur =
     make_money (quantize_half_up (coeff * MINOR_UNITS) (10 ^ places)) cur"

definition money_check :: "money \<Rightarrow> money \<Rightarrow> py_error + unit" where
  "money_check a b =
     (if currency a \<noteq> currency b then Inl (CurrencyMismatch (currency a) (currency b)) else Inr ())"

definition money_add :: "money \<Rightarrow> money \<Rightarrow> py_error + money" where
  "money_add a b = and_then (money_check a b) (\<lambda>_. make_money (minor a + minor b) (currency a))"

definition money_sub :: "money \<Rightarrow> money \<Rightarrow> py_error + money" where
  "money_sub a b =
     and_then (money_check a b)
       (\<lambda>_. if minor b > minor a then Inl (ValueError ''negative result'')
            else make_money (minor a - minor b) (currency a))"

definition money_percent :: "money \<Rightarrow> int \<Rightarrow> py_error + money" where
  "money_percent m pct = make_money (quantize_half_up (minor m * pct) 100) (currency m)"

text \<open>The ordering of the dataclass: the fields, lexicographically.\<close>

definition money_less :: "money \<Rightarrow> money \<Rightarrow> bool" where
  "money_less a b \<longleftrightarrow> minor a < minor b \<or> minor a = minor b \<and> currency a < currency b"

lemma make_money_Inr_iff [simp]:
  "make_money n cur = Inr m \<longleftrightarrow> 0 \<le> n \<and> length cur = 3 \<and> isupper cur \<and> m = \<lparr>minor = n, currency = cur\<rparr>"
  by (auto simp: make_money_def)

lemma make_money_ok: "make_money n cur = Inr m \<Longrightarrow> money_ok m"
  by (auto simp: money_ok_def)

section \<open>Rounding\<close>

abbreviation pct_of :: "int \<Rightarrow> int \<Rightarrow> int" where
  "pct_of n p \<equiv> quantize_half_up (n * p) 100"

lemma quantize_nonneg: "0 \<le> n \<Longrightarrow> quantize_half_up n 100 = (2 * n + 100) div 200"
  by (cases "n = 0") (simp_all add: quantize_half_up_def)

lemma quantize_zero [simp]: "quantize_half_up 0 100 = 0"
  by (simp add: quantize_half_up_def)

lemma quantize_mono: "0 \<le> n \<Longrightarrow> n \<le> k \<Longrightarrow> quantize_half_up n 100 \<le> quantize_half_up k 100"
  by (simp add: quantize_nonneg zdiv_mono1)

lemma pct_of_nonneg [simp]: "0 \<le> n \<Longrightarrow> 0 \<le> p \<Longrightarrow> 0 \<le> pct_of n p"
  using quantize_nonneg [of "n * p"] by (simp add: pos_imp_zdiv_nonneg_iff)

lemma pct_of_hundred [simp]: "0 \<le> n \<Longrightarrow> pct_of n 100 = n"
  using quantize_nonneg [of "n * 100"] by simp

lemma pct_of_zero [simp]: "pct_of n 0 = 0"
  by simp

lemma pct_of_mono: "0 \<le> n \<Longrightarrow> 0 \<le> p \<Longrightarrow> p \<le> q \<Longrightarrow> pct_of n p \<le> pct_of n q"
  by (rule quantize_mono) (simp_all add: mult_left_mono)

lemma pct_of_le [simp]: "0 \<le> n \<Longrightarrow> 0 \<le> p \<Longrightarrow> p \<le> 100 \<Longrightarrow> pct_of n p \<le> n"
  using pct_of_mono [of n p 100] by simp

lemma pct_of_error: "0 \<le> n \<Longrightarrow> 0 \<le> p \<Longrightarrow> \<bar>100 * pct_of n p - n * p\<bar> \<le> 50"
  using quantize_nonneg [of "n * p"] by simp

lemma pct_of_tie: "0 \<le> n \<Longrightarrow> 0 \<le> p \<Longrightarrow> n * p = 100 * k + 50 \<Longrightarrow> pct_of n p = k + 1"
  using quantize_nonneg [of "n * p"] mult_nonneg_nonneg [of n p] by simp

lemma money_percent_eq:
  assumes "money_ok m" and "0 \<le> p"
  shows "money_percent m p = Inr \<lparr>minor = pct_of (minor m) p, currency = currency m\<rparr>"
  using assms by (simp add: money_percent_def money_ok_def)

lemma money_sub_eq:
  assumes "money_ok m" and "0 \<le> k" and "k \<le> minor m"
  shows "money_sub m \<lparr>minor = k, currency = currency m\<rparr>
    = Inr \<lparr>minor = minor m - k, currency = currency m\<rparr>"
  using assms by (simp add: money_sub_def money_check_def money_ok_def)

text \<open>A percentage of an amount is its exact share rounded half up to the minor unit: never
  more than half a unit from the exact value, up on a tie, between nothing and the whole amount,
  and growing with the percentage.\<close>

theorem percent_rounds_half_up:
  assumes "money_ok m" and "0 \<le> p" and "p \<le> q" and "q \<le> 100"
  shows "\<exists>a b. money_percent m p = Inr a \<and> money_percent m q = Inr b \<and> money_ok a \<and>
    currency a = currency m \<and> minor a \<le> minor b \<and> minor b \<le> minor m \<and>
    \<bar>100 * minor a - minor m * p\<bar> \<le> 50 \<and>
    (\<forall>k. minor m * p = 100 * k + 50 \<longrightarrow> minor a = k + 1)"
proof -
  have n: "0 \<le> minor m" using assms(1) by (simp add: money_ok_def)
  show ?thesis
    using assms n pct_of_mono [OF n assms(2,3)] pct_of_error [OF n assms(2)]
      pct_of_tie [OF n assms(2)]
    by (simp add: money_percent_eq money_ok_def)
qed

theorem percent_rounds_half_up_witness:
  "\<exists>a. money_percent \<lparr>minor = 119950, currency = ''INR''\<rparr> 5 = Inr a \<and> minor a = 5998"
  using percent_rounds_half_up [of "\<lparr>minor = 119950, currency = ''INR''\<rparr>" 5 10]
  by (auto simp: money_ok_def isupper_def is_upper_char_def is_lower_char_def money_percent_def
      quantize_half_up_def)

end
