(* ===== verification/Objections.thy ===== *)
theory Objections
  imports PyText
begin

text \<open>
  domain/objections.py: the analysis a model must produce, its validators, what the discount
  engine reads of it, and the check that every quote occurs in the transcript.
\<close>

definition MAX_QUOTE_CHARS :: nat where "MAX_QUOTE_CHARS = 300"

datatype confidence = CONF_LOW | CONF_MEDIUM | CONF_HIGH
datatype evidence = EXPLICIT | INFERRED | EVIDENCE_UNKNOWN

datatype objection_category =
  PRICE | TUTOR_FIT | TIMING | TRUST | LEARNING_NEED | DECISION_MAKER | COMPETITOR | LOGISTICS
| NO_OBJECTION

fun category_value :: "objection_category \<Rightarrow> string" where
  "category_value PRICE = ''price_concern''"
| "category_value TUTOR_FIT = ''tutor_fit_concern''"
| "category_value TIMING = ''timing_concern''"
| "category_value TRUST = ''trust_concern''"
| "category_value LEARNING_NEED = ''learning_need_concern''"
| "category_value DECISION_MAKER = ''decision_maker_dependency''"
| "category_value COMPETITOR = ''competitor_mention''"
| "category_value LOGISTICS = ''logistics_concern''"
| "category_value NO_OBJECTION = ''no_objection''"

definition all_categories :: "objection_category list" where
  "all_categories = [PRICE, TUTOR_FIT, TIMING, TRUST, LEARNING_NEED, DECISION_MAKER, COMPETITOR,
     LOGISTICS, NO_OBJECTION]"

lemma set_all_categories [simp]: "set all_categories = UNIV"
proof -
  have "c \<in> set all_categories" for c by (cases c) (simp_all add: all_categories_def)
  then show ?thesis by blast
qed

lemma category_value_inj: "category_value c = category_value d \<longleftrightarrow> c = d"
  by (cases c; cases d; simp)

datatype sentiment = SENT_POSITIVE | SENT_NEUTRAL | SENT_NEGATIVE | SENT_MIXED
datatype purchase_intent =
  INTENT_READY | INTENT_INTERESTED | INTENT_HESITANT | INTENT_UNLIKELY | INTENT_UNKNOWN
datatype next_step =
  SEND_FOLLOWUP | ADDRESS_OBJECTIONS | OFFER_DISCOUNT_STEP | OFFER_ALTERNATIVE_TUTOR
| OFFER_RESCHEDULE | ANSWER_QUESTION | WAIT_FOR_DECISION_MAKER | STEP_HUMAN_HANDOFF
| CLOSE_AS_LOST | STEP_NONE

record objection_item =
  oi_category :: objection_category
  oi_evidence :: evidence
  oi_quote :: string
  oi_message_ref :: ref
  oi_rationale :: string
  oi_confidence :: confidence
  oi_root_cause :: string

definition objection_item_ok :: "objection_item \<Rightarrow> bool" where
  "objection_item_ok o' \<longleftrightarrow>
     length (oi_quote o') \<le> MAX_QUOTE_CHARS \<and> length (oi_message_ref o') \<le> 64 \<and>
     length (oi_rationale o') \<le> 400 \<and> length (oi_root_cause o') \<le> 200 \<and>
     \<not> (oi_evidence o' = EXPLICIT \<and> strip (oi_quote o') = '''') \<and>
     \<not> (oi_evidence o' = INFERRED \<and> strip (oi_rationale o') = '''')"

definition quotable_to_customer :: "objection_item \<Rightarrow> bool" where
  "quotable_to_customer o' \<longleftrightarrow>
     oi_evidence o' = EXPLICIT \<and> oi_confidence o' \<noteq> CONF_LOW \<and> strip (oi_quote o') \<noteq> ''''"

record objection_analysis =
  oa_demo_id :: ref
  oa_conversation :: ref
  objections :: "objection_item list"
  oa_sentiment :: sentiment
  oa_intent :: purchase_intent
  recommended_next_step :: next_step
  oa_summary :: string
  oa_model_ref :: string
  oa_prompt_version :: string
  analysed_at :: instant

definition objection_analysis_ok :: "objection_analysis \<Rightarrow> bool" where
  "objection_analysis_ok a \<longleftrightarrow>
     length (oa_demo_id a) \<le> 64 \<and> length (oa_conversation a) \<le> 128 \<and>
     list_all objection_item_ok (objections a) \<and> length (oa_summary a) \<le> 600 \<and>
     length (oa_model_ref a) \<le> 64 \<and> length (oa_prompt_version a) \<le> 32 \<and>
     distinct (filter (\<lambda>c. c \<noteq> NO_OBJECTION) (map oi_category (objections a)))"

definition make_analysis :: "objection_analysis \<Rightarrow> py_error + objection_analysis" where
  "make_analysis a = validated ''ObjectionAnalysisV1'' objection_analysis_ok a"

definition categories :: "bool \<Rightarrow> objection_analysis \<Rightarrow> objection_category set" where
  "categories explicit_only a =
     set (map oi_category
       (filter (\<lambda>o'. oi_category o' \<noteq> NO_OBJECTION \<and>
                     (\<not> explicit_only \<or> oi_evidence o' = EXPLICIT)) (objections a)))"

definition has_category :: "objection_category \<Rightarrow> bool \<Rightarrow> objection_analysis \<Rightarrow> bool" where
  "has_category c explicit_only a \<longleftrightarrow> c \<in> categories explicit_only a"

definition customer_quotable :: "objection_analysis \<Rightarrow> objection_item list" where
  "customer_quotable a = filter quotable_to_customer (objections a)"

text \<open>\<open>" ".join(s.split()).casefold()\<close>, and the offending quotes in the order of the items.\<close>

definition normalise_text :: "string \<Rightarrow> string" where
  "normalise_text s = casefold (join '' '' (words s))"

definition bad_quote :: "string \<Rightarrow> objection_item \<Rightarrow> bool" where
  "bad_quote haystack item \<longleftrightarrow>
     (let quote = normalise_text (oi_quote item)
      in quote \<noteq> '''' \<and> \<not> contains haystack quote)"

definition verify_quotes :: "objection_analysis \<Rightarrow> string \<Rightarrow> string list" where
  "verify_quotes a transcript =
     (let haystack = normalise_text transcript
      in map (\<lambda>item. category_value (oi_category item) @ '':'' @ take 60 (oi_quote item))
           (filter (bad_quote haystack) (objections a)))"

lemma categories_explicit:
  "c \<in> categories True a \<longleftrightarrow>
     c \<noteq> NO_OBJECTION \<and> (\<exists>o'\<in>set (objections a). oi_category o' = c \<and> oi_evidence o' = EXPLICIT)"
  by (auto simp: categories_def)

lemma normalise_reflow:
  "normalise_text (join '' '' (words s)) = normalise_text s"
  using words_join [of "words s"] words_clean [of _ s] by (simp add: normalise_text_def)

lemma join_append:
  "join sep (xs @ ys) = (if xs = [] then join sep ys else if ys = [] then join sep xs
     else join sep xs @ sep @ join sep ys)"
  by (induction sep xs rule: join.induct) (auto simp: neq_Nil_conv)

lemma join_middle: "\<exists>a b. join sep (xs @ ys @ zs) = a @ join sep ys @ b"
proof (cases "ys = []")
  case True
  then show ?thesis by (metis append_Nil append_Nil2 join.simps(1))
next
  case False
  show ?thesis
    by (intro exI [of _ "if xs = [] then [] else join sep xs @ sep"]
        exI [of _ "if zs = [] then [] else sep @ join sep zs"]) (simp add: join_append False)
qed

text \<open>The anti-fabrication check. An analysis passes exactly when every quote that is not
  blank occurs in the transcript up to white space and case; in particular a quote whose words
  stand in the transcript one after the other passes however it is wrapped across lines, and
  every item that may be echoed to a customer was stated explicitly and quoted.\<close>

theorem verified_quotes_occur:
  "(verify_quotes a transcript = [] \<longleftrightarrow>
     (\<forall>o'\<in>set (objections a). words (oi_quote o') = [] \<or>
        (\<exists>before after. normalise_text transcript
            = before @ normalise_text (oi_quote o') @ after))) \<and>
   ((\<forall>o'\<in>set (objections a). \<exists>ws ws'. words transcript = ws @ words (oi_quote o') @ ws')
      \<longrightarrow> verify_quotes a transcript = []) \<and>
   (\<forall>o'\<in>set (customer_quotable a). oi_category o' \<noteq> NO_OBJECTION
      \<longrightarrow> oi_category o' \<in> categories True a)"
proof -
  have blank: "normalise_text q = [] \<longleftrightarrow> words q = []" for q
  proof (cases "words q" rule: list.exhaust)
    case (Cons w ws)
    then have "w \<noteq> []" using words_clean [of w q] by simp
    then show ?thesis using Cons by (cases ws) (simp_all add: normalise_text_def casefold_def)
  qed (simp add: normalise_text_def casefold_def)
  have iff: "verify_quotes a transcript = [] \<longleftrightarrow>
     (\<forall>o'\<in>set (objections a). words (oi_quote o') = [] \<or>
        (\<exists>before after. normalise_text transcript
            = before @ normalise_text (oi_quote o') @ after))"
    by (auto simp: verify_quotes_def Let_def bad_quote_def filter_empty_conv blank contains_iff)
  have sub: "\<exists>before after. normalise_text transcript = before @ normalise_text q @ after"
    if "words transcript = ws @ words q @ ws'" for q ws ws'
    using join_middle [of "'' ''" ws "words q" ws'] that
    by (metis casefold_def map_append normalise_text_def)
  show ?thesis
    using iff sub
    by (auto simp: customer_quotable_def quotable_to_customer_def categories_explicit)
qed

theorem verified_quotes_occur_witness:
  "verify_quotes
     \<lparr>oa_demo_id = ''d'', oa_conversation = ''c'', objections =
        [\<lparr>oi_category = PRICE, oi_evidence = EXPLICIT, oi_quote = ''b  c'', oi_message_ref = ''m'',
          oi_rationale = '''', oi_confidence = CONF_HIGH, oi_root_cause = ''''\<rparr>],
       oa_sentiment = SENT_NEUTRAL, oa_intent = INTENT_UNKNOWN,
       recommended_next_step = STEP_NONE, oa_summary = '''', oa_model_ref = '''',
       oa_prompt_version = '''', analysed_at = 0\<rparr> ''a b c'' = []"
proof -
  have w: "words ''a b c'' = [''a'', ''b'', ''c'']" "words ''b  c'' = [''b'', ''c'']"
    by code_simp+
  show ?thesis
    by (rule verified_quotes_occur [THEN conjunct2, THEN conjunct1, rule_format])
      (auto simp: w intro: exI [of _ "[''a'']"])
qed

end
