(* ===== verification/Pricing.thy ===== *)
theory Pricing
  imports Money Objections Slots
begin

text \<open>
  domain/pricing.py: the authoritative quote, the discount decision with the validator that is
  run when one is built or re-read, and the approved offer that only \<open>approve\<close> builds.
\<close>

definition QUOTE_TTL :: duration where "QUOTE_TTL = minutes 30"

datatype discount_status = DS_APPROVED | DS_ESCALATED | DS_DENIED | DS_NOT_APPLICABLE

fun discount_status_value :: "discount_status \<Rightarrow> string" where
  "discount_status_value DS_APPROVED = ''approved''"
| "discount_status_value DS_ESCALATED = ''escalated''"
| "discount_status_value DS_DENIED = ''denied''"
| "discount_status_value DS_NOT_APPLICABLE = ''not_applicable''"

datatype denial_reason =
  NO_QUALIFYING_OBJECTION | PRICE_FLOOR_BREACHED | OFFER_LIMIT_REACHED | REPEAT_REQUESTS
| DENIED_DEMO_NOT_COMPLETED | POLICY_DISABLED | DENIAL_NONE

section \<open>Quotes\<close>

record plan_quote =
  pq_plan_ref :: ref
  pq_plan_name :: string
  list_price_minor :: int
  pq_currency :: string
  pq_billing_period :: string
  pq_inclusions :: "string list"
  fetched_at :: instant

definition plan_quote_ok :: "plan_quote \<Rightarrow> bool" where
  "plan_quote_ok q \<longleftrightarrow>
     valid_ref (pq_plan_ref q) \<and> length (pq_plan_name q) \<le> 120 \<and> 0 \<le> list_price_minor q \<and>
     length (pq_currency q) = 3 \<and> length (pq_billing_period q) \<le> 24"

definition list_price :: "plan_quote \<Rightarrow> py_error + money" where
  "list_price q = make_money (list_price_minor q) (pq_currency q)"

definition quote_fresh :: "plan_quote \<Rightarrow> instant \<Rightarrow> duration \<Rightarrow> bool" where
  "quote_fresh q now ttl \<longleftrightarrow> now - fetched_at q \<le> ttl"

section \<open>Decisions\<close>

record discount_decision =
  dd_conversation :: ref
  dd_demo_id :: ref
  dd_student_ref :: "ref option"
  dd_status :: discount_status
  dd_band_name :: string
  dd_percent :: int
  dd_list_price_minor :: int
  discount_minor :: int
  payable_minor :: int
  floor_minor :: int
  dd_currency :: string
  dd_triggers :: "objection_category list"
  dd_conditions :: "string list"
  dd_reason_code :: denial_reason
  requires_human_approval :: bool
  approved_by :: string
  dd_policy_stamp :: string
  dd_valid_until :: "instant option"
  decided_at :: instant

definition decision_fields_ok :: "discount_decision \<Rightarrow> bool" where
  "decision_fields_ok d \<longleftrightarrow>
     length (dd_conversation d) \<le> 128 \<and> length (dd_demo_id d) \<le> 64 \<and>
     (case dd_student_ref d of None \<Rightarrow> True | Some r \<Rightarrow> valid_ref r) \<and>
     length (dd_band_name d) \<le> 48 \<and> 0 \<le> dd_percent d \<and> dd_percent d \<le> 100 \<and>
     0 \<le> dd_list_price_minor d \<and> 0 \<le> discount_minor d \<and> 0 \<le> payable_minor d \<and>
     0 \<le> floor_minor d \<and> length (dd_currency d) = 3 \<and> length (approved_by d) \<le> 64 \<and>
     length (dd_policy_stamp d) \<le> 96"

text \<open>\<open>_arithmetic_is_consistent\<close>.\<close>

definition arithmetic_consistent :: "discount_decision \<Rightarrow> bool" where
  "arithmetic_consistent d \<longleftrightarrow>
     dd_list_price_minor d - discount_minor d = payable_minor d \<and>
     \<not> (dd_status d = DS_APPROVED \<and> payable_minor d < floor_minor d) \<and>
     \<not> (dd_status d = DS_APPROVED \<and> requires_human_approval d \<and> approved_by d = '''') \<and>
     \<not> (dd_percent d > 0 \<and> dd_status d = DS_NOT_APPLICABLE)"

definition decision_ok :: "discount_decision \<Rightarrow> bool" where
  "decision_ok d \<longleftrightarrow> decision_fields_ok d \<and> arithmetic_consistent d"

definition make_decision :: "discount_decision \<Rightarrow> py_error + discount_decision" where
  "make_decision d = validated ''DiscountDecision'' decision_ok d"

definition decision_payable :: "discount_decision \<Rightarrow> py_error + money" where
  "decision_payable d = make_money (payable_minor d) (dd_currency d)"

definition decision_discount :: "discount_decision \<Rightarrow> py_error + money" where
  "decision_discount d = make_money (discount_minor d) (dd_currency d)"

definition live_until :: "instant option \<Rightarrow> instant \<Rightarrow> bool" where
  "live_until until now = (case until of None \<Rightarrow> True | Some u \<Rightarrow> now < u)"

definition decision_live :: "discount_decision \<Rightarrow> instant \<Rightarrow> bool" where
  "decision_live d now = live_until (dd_valid_until d) now"

section \<open>Offers\<close>

record approved_offer =
  ao_conversation :: ref
  ao_demo_id :: ref
  ao_student_ref :: "ref option"
  ao_amount_minor :: int
  ao_currency :: string
  ao_list_price_minor :: int
  ao_discount_percent :: int
  ao_band_name :: string
  ao_policy_stamp :: string
  ao_valid_until :: "instant option"
  approved_at :: instant

definition offer_ok :: "approved_offer \<Rightarrow> bool" where
  "offer_ok o' \<longleftrightarrow>
     length (ao_conversation o') \<le> 128 \<and> length (ao_demo_id o') \<le> 64 \<and>
     (case ao_student_ref o' of None \<Rightarrow> True | Some r \<Rightarrow> valid_ref r) \<and>
     1 \<le> ao_amount_minor o' \<and> length (ao_currency o') = 3 \<and> 0 \<le> ao_list_price_minor o' \<and>
     0 \<le> ao_discount_percent o' \<and> ao_discount_percent o' \<le> 100 \<and>
     length (ao_band_name o') \<le> 48 \<and> length (ao_policy_stamp o') \<le> 96"

definition offer_live :: "approved_offer \<Rightarrow> instant \<Rightarrow> bool" where
  "offer_live o' now = live_until (ao_valid_until o') now"

definition approve :: "discount_decision \<Rightarrow> instant \<Rightarrow> py_error + approved_offer" where
  "approve d now =
     (if dd_status d = DS_ESCALATED then Inl (ValueError ''awaits human approval'')
      else if payable_minor d \<le> 0 then Inl (ValueError ''zero amount'')
      else if \<not> decision_live d now then Inl (ValueError ''offer has expired'')
      else validated ''ApprovedOffer'' offer_ok
        \<lparr>ao_conversation = dd_conversation d, ao_demo_id = dd_demo_id d,
         ao_student_ref = dd_student_ref d, ao_amount_minor = payable_minor d,
         ao_currency = dd_currency d, ao_list_price_minor = dd_list_price_minor d,
         ao_discount_percent = dd_percent d, ao_band_name = dd_band_name d,
         ao_policy_stamp = dd_policy_stamp d, ao_valid_until = dd_valid_until d,
         approved_at = now\<rparr>)"

lemma make_decision_Inr_iff [simp]: "make_decision d = Inr d' \<longleftrightarrow> decision_ok d \<and> d' = d"
  by (auto simp: make_decision_def)

text \<open>A valid decision that is live, not escalated and not free always gives an offer.\<close>

lemma approve_total:
  assumes "decision_ok d" and "dd_status d \<noteq> DS_ESCALATED" and "0 < payable_minor d"
    and "decision_live d now"
  shows "\<exists>o'. approve d now = Inr o' \<and> ao_amount_minor o' = payable_minor d"
  using assms by (auto simp: approve_def decision_ok_def decision_fields_ok_def offer_ok_def validated_def)

lemma approve_InrD:
  "approve d now = Inr o' \<Longrightarrow>
     dd_status d \<noteq> DS_ESCALATED \<and> 0 < payable_minor d \<and> decision_live d now \<and>
     ao_amount_minor o' = payable_minor d \<and> ao_currency o' = dd_currency d \<and>
     ao_list_price_minor o' = dd_list_price_minor d \<and> ao_valid_until o' = dd_valid_until d \<and>
     ao_discount_percent o' = dd_percent d \<and> ao_conversation o' = dd_conversation d \<and>
     ao_policy_stamp o' = dd_policy_stamp d \<and> offer_ok o'"
  by (auto simp: approve_def split: if_splits)

end
