(* ===== verification/Discounts.thy ===== *)
theory Discounts
  imports Pricing
begin

text \<open>
  The discount policy (config/policies.py) and the engine over it
  (capabilities/discounts/service.py). Reading and checksumming the YAML file is not modelled:
  a policy is the validated record, its stamp \<open>id@version#checksum\<close> computed from it.
\<close>

record discount_band =
  band_name :: string
  min_percent :: int
  max_percent :: int
  band_triggers :: "string list"
  band_conditions :: "string list"

definition band_ok :: "discount_band \<Rightarrow> bool" where
  "band_ok b \<longleftrightarrow>
     length (band_name b) \<le> 48 \<and> 0 \<le> min_percent b \<and> min_percent b \<le> 100 \<and>
     0 \<le> max_percent b \<and> max_percent b \<le> 100 \<and> \<not> min_percent b > max_percent b"

record discount_policy =
  policy_id :: string
  policy_version :: string
  checksum :: string
  bands :: "discount_band list"
  max_auto_approve_percent :: int
  absolute_max_percent :: int
  price_floor_percent_of_list :: int
  validity_hours :: int
  max_offers_per_customer_per_days :: int
  lookback_days :: int
  escalate_after_repeat_requests :: int

definition in_range :: "int \<Rightarrow> int \<Rightarrow> int \<Rightarrow> bool" where
  "in_range lo hi x \<longleftrightarrow> lo \<le> x \<and> x \<le> hi"

definition discount_policy_ok :: "discount_policy \<Rightarrow> bool" where
  "discount_policy_ok p \<longleftrightarrow>
     length (policy_id p) \<le> 64 \<and> length (policy_version p) \<le> 16 \<and> list_all band_ok (bands p) \<and>
     in_range 0 100 (max_auto_approve_percent p) \<and> in_range 0 100 (absolute_max_percent p) \<and>
     in_range 1 100 (price_floor_percent_of_list p) \<and> in_range 1 720 (validity_hours p) \<and>
     in_range 1 10 (max_offers_per_customer_per_days p) \<and> in_range 1 365 (lookback_days p) \<and>
     in_range 1 10 (escalate_after_repeat_requests p) \<and>
     bands p \<noteq> [] \<and>
     filter (\<lambda>b. max_percent b > absolute_max_percent p) (bands p) = [] \<and>
     \<not> max_auto_approve_percent p > absolute_max_percent p"

definition policy_stamp :: "discount_policy \<Rightarrow> string" where
  "policy_stamp p = policy_id p @ ''@'' @ policy_version p @ ''#'' @ take 12 (checksum p)"

datatype demo_outcome =
  OUTCOME_POSITIVE | OUTCOME_NEUTRAL | OUTCOME_NEGATIVE | OUTCOME_NOT_HELD | OUTCOME_UNKNOWN

section \<open>The engine\<close>

text \<open>\<open>max(applicable, key=...)\<close> keeps the first of equal maxima.\<close>

fun max_by :: "('a \<Rightarrow> 'a \<Rightarrow> bool) \<Rightarrow> 'a \<Rightarrow> 'a list \<Rightarrow> 'a" where
  "max_by lt best [] = best"
| "max_by lt best (x # xs) = max_by lt (if lt best x then x else best) xs"

definition band_less :: "discount_band \<Rightarrow> discount_band \<Rightarrow> bool" where
  "band_less a b \<longleftrightarrow>
     max_percent a < max_percent b \<or> max_percent a = max_percent b \<and> min_percent a < min_percent b"

definition band_applies :: "objection_category set \<Rightarrow> discount_band \<Rightarrow> bool" where
  "band_applies triggers b \<longleftrightarrow>
     band_triggers b \<noteq> [] \<and> set (band_triggers b) \<subseteq> category_value ` triggers"

definition select_band ::
  "discount_policy \<Rightarrow> objection_category set \<Rightarrow> discount_band option" where
  "select_band p triggers =
     (if triggers = {} then None
      else (case filter (band_applies triggers) (bands p) of
              [] \<Rightarrow> None
            | b # bs \<Rightarrow> Some (max_by band_less b bs)))"

definition as_categories :: "string list \<Rightarrow> objection_category list" where
  "as_categories vs = List.map_filter (\<lambda>v. find (\<lambda>c. category_value c = v) all_categories) vs"

text \<open>\<open>tuple(sorted(triggers & set(as_categories(...)), key=value))\<close>.\<close>

definition sorted_triggers ::
  "objection_category set \<Rightarrow> string list \<Rightarrow> objection_category list" where
  "sorted_triggers triggers vs =
     sort_key category_value
       (filter (\<lambda>c. c \<in> triggers \<and> c \<in> set (as_categories vs)) all_categories)"

record decision_args =
  da_conversation :: ref
  da_demo_id :: ref
  da_student_ref :: "ref option"
  da_quote :: plan_quote
  da_floor :: money
  da_now :: instant

definition decision ::
  "discount_policy \<Rightarrow> decision_args \<Rightarrow> discount_band option \<Rightarrow> int \<Rightarrow> discount_status
     \<Rightarrow> denial_reason \<Rightarrow> objection_category list \<Rightarrow> bool \<Rightarrow> py_error + discount_decision" where
  "decision p a band pct status reason triggers requires_human =
     (let quote = da_quote a in
      and_then (if pct \<noteq> 0 then and_then (list_price quote) (\<lambda>lp. money_percent lp pct)
                else make_money 0 (pq_currency quote))
     (\<lambda>discount. and_then (list_price quote)
     (\<lambda>lp. and_then (money_sub lp discount)
     (\<lambda>payable. make_decision
        \<lparr>dd_conversation = da_conversation a, dd_demo_id = da_demo_id a,
         dd_student_ref = da_student_ref a, dd_status = status,
         dd_band_name = (case band of None \<Rightarrow> '''' | Some b \<Rightarrow> band_name b),
         dd_percent = pct, dd_list_price_minor = list_price_minor quote,
         discount_minor = minor discount, payable_minor = minor payable,
         floor_minor = minor (da_floor a), dd_currency = pq_currency quote,
         dd_triggers = triggers,
         dd_conditions = (case band of None \<Rightarrow> [] | Some b \<Rightarrow> band_conditions b),
         dd_reason_code = reason, requires_human_approval = requires_human, approved_by = '''',
         dd_policy_stamp = policy_stamp p,
         dd_valid_until = (if pct \<noteq> 0 then Some (da_now a + hours (validity_hours p)) else None),
         decided_at = da_now a\<rparr>))))"

definition refuse ::
  "discount_policy \<Rightarrow> decision_args \<Rightarrow> denial_reason \<Rightarrow> discount_status
     \<Rightarrow> py_error + discount_decision" where
  "refuse p a reason status = decision p a None 0 status reason [] False"

definition after_percent :: "plan_quote \<Rightarrow> int \<Rightarrow> py_error + money" where
  "after_percent quote pct =
     and_then (list_price quote) (\<lambda>lp. and_then (money_percent lp pct) (\<lambda>d. money_sub lp d))"

definition grant ::
  "discount_policy \<Rightarrow> decision_args \<Rightarrow> objection_category set \<Rightarrow> discount_band \<Rightarrow> int
     \<Rightarrow> py_error + discount_decision" where
  "grant p a triggers band pct =
     (let needs_human = pct > max_auto_approve_percent p
      in decision p a (Some band) pct (if needs_human then DS_ESCALATED else DS_APPROVED)
           DENIAL_NONE (sorted_triggers triggers (band_triggers band)) needs_human)"

definition award ::
  "discount_policy \<Rightarrow> decision_args \<Rightarrow> objection_category set \<Rightarrow> discount_band
     \<Rightarrow> py_error + discount_decision" where
  "award p a triggers band =
     and_then (after_percent (da_quote a) (max_percent band)) (\<lambda>payable.
       if money_less payable (da_floor a)
       then and_then (after_percent (da_quote a) (min_percent band)) (\<lambda>payable'.
              if money_less payable' (da_floor a) \<or> min_percent band = 0
              then refuse p a PRICE_FLOOR_BREACHED DS_DENIED
              else grant p a triggers band (min_percent band))
       else grant p a triggers band (max_percent band))"

text \<open>The branches of \<open>evaluate\<close> once the floor is computed.\<close>

definition evaluate_gates ::
  "discount_policy \<Rightarrow> decision_args \<Rightarrow> objection_analysis option \<Rightarrow> demo_outcome \<Rightarrow> int \<Rightarrow> int
     \<Rightarrow> bool \<Rightarrow> py_error + discount_decision" where
  "evaluate_gates p a analysis outcome prior repeats enabled =
      (if \<not> enabled then refuse p a POLICY_DISABLED DS_NOT_APPLICABLE
       else if outcome \<in> {OUTCOME_NOT_HELD, OUTCOME_UNKNOWN}
         then refuse p a DENIED_DEMO_NOT_COMPLETED DS_DENIED
       else if prior \<ge> max_offers_per_customer_per_days p then refuse p a OFFER_LIMIT_REACHED DS_DENIED
       else if repeats \<ge> escalate_after_repeat_requests p
         then decision p a None 0 DS_ESCALATED REPEAT_REQUESTS [] True
       else (let triggers = (case analysis of None \<Rightarrow> {} | Some an \<Rightarrow> categories True an)
             in case select_band p triggers of
                  None \<Rightarrow> refuse p a NO_QUALIFYING_OBJECTION DS_NOT_APPLICABLE
                | Some band \<Rightarrow>
                    if max_percent band = 0 then refuse p a NO_QUALIFYING_OBJECTION DS_NOT_APPLICABLE
                    else award p a triggers band))"

definition evaluate ::
  "discount_policy \<Rightarrow> ref \<Rightarrow> ref \<Rightarrow> ref option \<Rightarrow> plan_quote \<Rightarrow> objection_analysis option
     \<Rightarrow> demo_outcome \<Rightarrow> int \<Rightarrow> int \<Rightarrow> instant \<Rightarrow> bool \<Rightarrow> py_error + discount_decision" where
  "evaluate p conv demo student quote analysis outcome prior_offers repeat_requests now enabled =
     and_then (and_then (list_price quote)
                (\<lambda>lp. money_percent lp (price_floor_percent_of_list p)))
     (\<lambda>floor'. evaluate_gates p
        \<lparr>da_conversation = conv, da_demo_id = demo, da_student_ref = student,
         da_quote = quote, da_floor = floor', da_now = now\<rparr>
        analysis outcome prior_offers repeat_requests enabled)"

definition approve_escalated ::
  "discount_policy \<Rightarrow> discount_decision \<Rightarrow> string \<Rightarrow> instant \<Rightarrow> py_error + discount_decision" where
  "approve_escalated p d approver now =
     (if dd_status d \<noteq> DS_ESCALATED then Inl (ValueError ''not escalated'')
      else if strip approver = '''' then Inl (ValueError ''approver'')
      else if dd_percent d > absolute_max_percent p then Inl (ValueError ''ceiling'')
      else Inr (d\<lparr>dd_status := DS_APPROVED, approved_by := take 64 approver, decided_at := now,
                  dd_valid_until := Some (now + hours (validity_hours p))\<rparr>))"

section \<open>Lemmas\<close>

lemma max_by_in: "max_by lt b bs \<in> set (b # bs)"
  by (induction bs arbitrary: b) auto

lemma select_band_SomeD:
  assumes "select_band p triggers = Some b"
  shows "b \<in> set (bands p) \<and> band_applies triggers b"
proof -
  obtain c cs where "filter (band_applies triggers) (bands p) = c # cs" "b = max_by band_less c cs"
    using assms by (auto simp: select_band_def split: if_splits list.splits)
  then have "b \<in> set (filter (band_applies triggers) (bands p))"
    using max_by_in [of band_less c cs] by simp
  then show ?thesis by simp
qed

lemma max_by_max:
  assumes "x \<in> set (b # bs)"
  shows "max_percent x \<le> max_percent (max_by band_less b bs)"
  using assms
proof (induction bs arbitrary: b x)
  case (Cons y ys)
  let ?c = "if band_less b y then y else b"
  have "max_percent ?c \<le> max_percent (max_by band_less ?c ys)"
    using Cons.IH [of ?c ?c] by simp
  moreover have "max_percent b \<le> max_percent ?c" "max_percent y \<le> max_percent ?c"
    by (auto simp: band_less_def)
  moreover have "x \<in> set ys \<Longrightarrow> max_percent x \<le> max_percent (max_by band_less ?c ys)"
    using Cons.IH [of x ?c] by simp
  ultimately show ?case
    using Cons.prems by (simp only: max_by.simps set_simps insert_iff) (elim disjE; simp)
qed simp

lemma select_band_best:
  assumes "c \<in> set (bands p)" and "band_applies triggers c"
  shows "\<exists>b. select_band p triggers = Some b \<and> max_percent c \<le> max_percent b"
proof -
  have c: "c \<in> set (filter (band_applies triggers) (bands p))" using assms by simp
  then obtain d ds where f: "filter (band_applies triggers) (bands p) = d # ds"
    by (cases "filter (band_applies triggers) (bands p)") auto
  have "triggers \<noteq> {}" using assms(2) by (auto simp: band_applies_def neq_Nil_conv)
  then show ?thesis
    using f c max_by_max [of c d ds] by (simp add: select_band_def)
qed

lemma band_applies_explicit:
  assumes "band_applies (categories True a) b" and "v \<in> set (band_triggers b)"
  shows "\<exists>o'\<in>set (objections a). category_value (oi_category o') = v \<and> oi_evidence o' = EXPLICIT"
  using assms by (fastforce simp: band_applies_def categories_explicit)

text \<open>A quote whose currency a \<open>Money\<close> accepts, and references the decision can hold.\<close>

definition priceable :: "plan_quote \<Rightarrow> bool" where
  "priceable q \<longleftrightarrow> plan_quote_ok q \<and> isupper (pq_currency q)"

definition args_ok :: "discount_policy \<Rightarrow> decision_args \<Rightarrow> bool" where
  "args_ok p a \<longleftrightarrow>
     length (da_conversation a) \<le> 128 \<and> length (da_demo_id a) \<le> 64 \<and>
     (case da_student_ref a of None \<Rightarrow> True | Some r \<Rightarrow> valid_ref r) \<and>
     priceable (da_quote a) \<and> 
     da_floor a = \<lparr>minor = pct_of (list_price_minor (da_quote a)) (price_floor_percent_of_list p),
                   currency = pq_currency (da_quote a)\<rparr>"

lemma list_price_eq:
  "priceable q \<Longrightarrow> list_price q = Inr \<lparr>minor = list_price_minor q, currency = pq_currency q\<rparr>"
  by (simp add: list_price_def priceable_def plan_quote_ok_def)

lemma priceable_money:
  "priceable q \<Longrightarrow> money_ok \<lparr>minor = list_price_minor q, currency = pq_currency q\<rparr>"
  by (simp add: money_ok_def priceable_def plan_quote_ok_def)

lemma after_percent_eq:
  assumes "priceable q" and "0 \<le> pct" and "pct \<le> 100"
  shows "after_percent q pct =
    Inr \<lparr>minor = list_price_minor q - pct_of (list_price_minor q) pct, currency = pq_currency q\<rparr>"
proof -
  have "0 \<le> list_price_minor q" using assms(1) by (simp add: priceable_def plan_quote_ok_def)
  then show ?thesis
    using assms priceable_money [OF assms(1)] money_percent_eq [OF priceable_money [OF assms(1)]]
      money_sub_eq [OF priceable_money [OF assms(1)]]
    by (simp add: after_percent_def list_price_eq)
qed

lemma policy_stamp_length: "discount_policy_ok p \<Longrightarrow> length (policy_stamp p) \<le> 96"
  by (auto simp: discount_policy_ok_def policy_stamp_def min_def)

text \<open>The one place a decision is built: it never raises on these inputs, and its numbers are the
  quote's price, the rounded share and their difference.\<close>

lemma decision_builds:
  assumes "args_ok p a" and "discount_policy_ok p" and "0 \<le> pct" and "pct \<le> 100"
    and "case band of None \<Rightarrow> True | Some b \<Rightarrow> band_ok b"
    and "status = DS_APPROVED \<Longrightarrow>
      minor (da_floor a) \<le> list_price_minor (da_quote a) - pct_of (list_price_minor (da_quote a)) pct
      \<and> \<not> human"
    and "pct > 0 \<Longrightarrow> status \<noteq> DS_NOT_APPLICABLE"
  shows "\<exists>d. decision p a band pct status reason triggers human = Inr d \<and> decision_ok d \<and>
    dd_status d = status \<and> dd_percent d = pct \<and> dd_reason_code d = reason \<and>
    dd_list_price_minor d = list_price_minor (da_quote a) \<and>
    payable_minor d = list_price_minor (da_quote a) - pct_of (list_price_minor (da_quote a)) pct \<and>
    floor_minor d = minor (da_floor a) \<and> requires_human_approval d = human \<and>
    dd_currency d = pq_currency (da_quote a) \<and>
    dd_valid_until d = (if pct \<noteq> 0 then Some (da_now a + hours (validity_hours p)) else None)"
proof -
  let ?q = "da_quote a" and ?lp = "\<lparr>minor = list_price_minor (da_quote a), currency = pq_currency (da_quote a)\<rparr>"
  let ?n = "list_price_minor (da_quote a)"
  have q: "priceable ?q" "0 \<le> ?n" "length (pq_currency ?q) = 3" "isupper (pq_currency ?q)"
    using assms(1) by (auto simp: args_ok_def priceable_def plan_quote_ok_def)
  note lp = list_price_eq [OF q(1)]
  have disc: "(if pct \<noteq> 0 then and_then (list_price ?q) (\<lambda>lp. money_percent lp pct)
        else make_money 0 (pq_currency ?q)) = Inr \<lparr>minor = pct_of ?n pct, currency = pq_currency ?q\<rparr>"
    using q money_percent_eq [OF priceable_money [OF q(1)] assms(3)] by (simp add: lp)
  have sub: "money_sub ?lp \<lparr>minor = pct_of ?n pct, currency = pq_currency ?q\<rparr>
      = Inr \<lparr>minor = ?n - pct_of ?n pct, currency = pq_currency ?q\<rparr>"
    using money_sub_eq [OF priceable_money [OF q(1)], of "pct_of ?n pct"] assms(3,4) q(2) by simp
  have floor_nn: "0 \<le> minor (da_floor a)"
    using assms(1,2) q(2) by (simp add: args_ok_def discount_policy_ok_def in_range_def)
  show ?thesis
    unfolding decision_def Let_def unfolding disc and_then.simps unfolding lp and_then.simps
    unfolding sub and_then.simps
    using assms q policy_stamp_length [OF assms(2)] floor_nn
    by (auto simp: make_decision_def validated_def decision_ok_def decision_fields_ok_def
        arithmetic_consistent_def args_ok_def band_ok_def split: option.splits)
qed

lemma args_list_nonneg: "args_ok p a \<Longrightarrow> 0 \<le> list_price_minor (da_quote a)"
  by (simp add: args_ok_def priceable_def plan_quote_ok_def)

lemma floor_le_list:
  "args_ok p a \<Longrightarrow> discount_policy_ok p \<Longrightarrow> minor (da_floor a) \<le> list_price_minor (da_quote a)"
  using args_list_nonneg [of p a] by (simp add: args_ok_def discount_policy_ok_def in_range_def)

text \<open>What every decision of the engine satisfies, whatever branch made it.\<close>

definition within_policy :: "discount_policy \<Rightarrow> discount_decision \<Rightarrow> bool" where
  "within_policy p d \<longleftrightarrow>
     decision_ok d \<and> floor_minor d \<le> payable_minor d \<and> payable_minor d \<le> dd_list_price_minor d \<and>
     dd_percent d \<le> absolute_max_percent p \<and>
     (dd_status d = DS_APPROVED \<longrightarrow> dd_percent d \<le> max_auto_approve_percent p) \<and>
     (dd_status d \<in> {DS_DENIED, DS_NOT_APPLICABLE} \<longrightarrow> dd_percent d = 0)"

lemma refuse_builds:
  assumes "args_ok p a" and "discount_policy_ok p" and "status \<noteq> DS_APPROVED"
  shows "\<exists>d. decision p a None 0 status reason [] human = Inr d \<and> within_policy p d \<and>
    dd_percent d = 0 \<and> dd_status d = status \<and> dd_reason_code d = reason \<and>
    payable_minor d = list_price_minor (da_quote a) \<and>
    floor_minor d = minor (da_floor a) \<and> dd_list_price_minor d = list_price_minor (da_quote a)"
  using decision_builds [OF assms(1,2), of 0 None status human reason "[]"] assms(3)
    floor_le_list [OF assms(1,2)] assms(2)
  by (auto simp: within_policy_def discount_policy_ok_def in_range_def)

lemma grant_builds:
  assumes "args_ok p a" and "discount_policy_ok p" and "band \<in> set (bands p)" and "0 < pct"
    and "pct \<le> max_percent band"
    and "minor (da_floor a) \<le> list_price_minor (da_quote a) - pct_of (list_price_minor (da_quote a)) pct"
  shows "\<exists>d. grant p a triggers band pct = Inr d \<and> within_policy p d \<and> dd_percent d = pct \<and>
    dd_status d = (if pct > max_auto_approve_percent p then DS_ESCALATED else DS_APPROVED) \<and>
    floor_minor d = minor (da_floor a) \<and> dd_list_price_minor d = list_price_minor (da_quote a)"
proof -
  have b: "band_ok band" "max_percent band \<le> absolute_max_percent p"
    using assms(2,3) by (auto simp: discount_policy_ok_def list_all_iff filter_empty_conv not_less)
  then have "pct \<le> 100" using assms(5) by (simp add: band_ok_def)
  then show ?thesis
    using decision_builds [OF assms(1,2), of pct "Some band"
        "if pct > max_auto_approve_percent p then DS_ESCALATED else DS_APPROVED"
        "pct > max_auto_approve_percent p" DENIAL_NONE
        "sorted_triggers triggers (band_triggers band)"] assms b
      pct_of_nonneg [OF args_list_nonneg [OF assms(1)], of pct]
    by (auto simp: grant_def Let_def within_policy_def)
qed

lemma award_builds:
  assumes "args_ok p a" and "discount_policy_ok p" and "band \<in> set (bands p)"
    and "max_percent band \<noteq> 0"
  shows "\<exists>d. award p a triggers band = Inr d \<and> within_policy p d \<and>
    floor_minor d = minor (da_floor a) \<and> dd_list_price_minor d = list_price_minor (da_quote a) \<and>
    (dd_percent d = 0 \<and> dd_status d = DS_DENIED
     \<or> dd_percent d \<in> {min_percent band, max_percent band} \<and> 0 < dd_percent d \<and>
       dd_status d = (if dd_percent d > max_auto_approve_percent p then DS_ESCALATED
                      else DS_APPROVED))"
proof -
  let ?n = "list_price_minor (da_quote a)" and ?f = "minor (da_floor a)"
  have b: "0 \<le> min_percent band" "min_percent band \<le> max_percent band" "max_percent band \<le> 100"
    using assms(2,3) by (auto simp: discount_policy_ok_def list_all_iff band_ok_def)
  have q: "priceable (da_quote a)" "currency (da_floor a) = pq_currency (da_quote a)"
    using assms(1) by (simp_all add: args_ok_def)
  have ap: "after_percent (da_quote a) pct
      = Inr \<lparr>minor = ?n - pct_of ?n pct, currency = pq_currency (da_quote a)\<rparr>"
    if "0 \<le> pct" "pct \<le> 100" for pct
    using after_percent_eq [OF q(1) that] .
  have lt: "money_less \<lparr>minor = k, currency = pq_currency (da_quote a)\<rparr> (da_floor a) \<longleftrightarrow> k < ?f" for k
    using q(2) by (auto simp: money_less_def)
  consider (top) "?f \<le> ?n - pct_of ?n (max_percent band)"
    | (low) "?n - pct_of ?n (max_percent band) < ?f" "?f \<le> ?n - pct_of ?n (min_percent band)"
        "min_percent band \<noteq> 0"
    | (no) "?n - pct_of ?n (max_percent band) < ?f"
        "?n - pct_of ?n (min_percent band) < ?f \<or> min_percent band = 0"
    by linarith
  then show ?thesis
  proof cases
    case top
    then show ?thesis
      using grant_builds [OF assms(1-3), of "max_percent band" triggers] b assms(4)
      by (auto simp: award_def ap lt)
  next
    case low
    then show ?thesis
      using grant_builds [OF assms(1-3), of "min_percent band" triggers] b
      by (auto simp: award_def ap lt)
  next
    case no
    then show ?thesis
      using refuse_builds [OF assms(1,2), of DS_DENIED PRICE_FLOOR_BREACHED False] b
      by (auto simp: award_def ap lt refuse_def)
  qed
qed

section \<open>What the engine guarantees\<close>

definition evaluate_input_ok ::
  "discount_policy \<Rightarrow> ref \<Rightarrow> ref \<Rightarrow> ref option \<Rightarrow> plan_quote \<Rightarrow> bool" where
  "evaluate_input_ok p conv demo student quote \<longleftrightarrow>
     discount_policy_ok p \<and> length conv \<le> 128 \<and> length demo \<le> 64 \<and>
     (case student of None \<Rightarrow> True | Some r \<Rightarrow> valid_ref r) \<and> priceable quote"

lemma evaluate_eq:
  assumes "evaluate_input_ok p conv demo student quote"
  obtains a where "args_ok p a" and "da_quote a = quote"
    and "evaluate p conv demo student quote analysis outcome prior repeats now enabled
      = evaluate_gates p a analysis outcome prior repeats enabled"
proof
  let ?fl = "\<lparr>minor = pct_of (list_price_minor quote) (price_floor_percent_of_list p),
              currency = pq_currency quote\<rparr>"
  let ?a = "\<lparr>da_conversation = conv, da_demo_id = demo, da_student_ref = student,
             da_quote = quote, da_floor = ?fl, da_now = now\<rparr>"
  show "args_ok p ?a" using assms by (simp add: args_ok_def evaluate_input_ok_def)
  show "da_quote ?a = quote" by simp
  have q: "priceable quote" and p: "0 \<le> price_floor_percent_of_list p"
    using assms by (auto simp: evaluate_input_ok_def discount_policy_ok_def in_range_def)
  have floor': "and_then (list_price quote) (\<lambda>lp. money_percent lp (price_floor_percent_of_list p))
      = Inr ?fl"
    by (simp only: list_price_eq [OF q] and_then.simps
        money_percent_eq [OF priceable_money [OF q] p]) simp
  show "evaluate p conv demo student quote analysis outcome prior repeats now enabled
      = evaluate_gates p ?a analysis outcome prior repeats enabled"
    unfolding evaluate_def floor' and_then.simps ..
qed

definition sample_band :: discount_band where
  "sample_band = \<lparr>band_name = ''price_sensitive'', min_percent = 8, max_percent = 10,
     band_triggers = [''price_concern''], band_conditions = []\<rparr>"

definition sample_policy :: discount_policy where
  "sample_policy = \<lparr>policy_id = ''discount'', policy_version = ''v1'', checksum = ''a1b2'',
     bands = [sample_band,
       \<lparr>band_name = ''retention_recovery'', min_percent = 12, max_percent = 15,
        band_triggers = [''price_concern'', ''competitor_mention''], band_conditions = []\<rparr>],
     max_auto_approve_percent = 10, absolute_max_percent = 25, price_floor_percent_of_list = 70,
     validity_hours = 48, max_offers_per_customer_per_days = 2, lookback_days = 90,
     escalate_after_repeat_requests = 2\<rparr>"

definition sample_quote :: "string \<Rightarrow> plan_quote" where
  "sample_quote cur = \<lparr>pq_plan_ref = ''plan-1'', pq_plan_name = ''Monthly'', list_price_minor = 120000,
     pq_currency = cur, pq_billing_period = ''monthly'', pq_inclusions = [], fetched_at = 0\<rparr>"

definition sample_objection :: "objection_category \<Rightarrow> evidence \<Rightarrow> objection_item" where
  "sample_objection c e = \<lparr>oi_category = c, oi_evidence = e, oi_quote = ''too costly'',
     oi_message_ref = ''m1'', oi_rationale = ''r'', oi_confidence = CONF_HIGH, oi_root_cause = ''''\<rparr>"

definition sample_analysis :: "objection_item list \<Rightarrow> objection_analysis" where
  "sample_analysis os = \<lparr>oa_demo_id = ''demo-1'', oa_conversation = ''conv-1'', objections = os,
     oa_sentiment = SENT_NEUTRAL, oa_intent = INTENT_UNKNOWN, recommended_next_step = STEP_NONE,
     oa_summary = '''', oa_model_ref = '''', oa_prompt_version = '''', analysed_at = 0\<rparr>"

lemma sample_input_ok: "evaluate_input_ok sample_policy ''conv-1'' ''demo-1'' None (sample_quote ''INR'')"
  by code_simp

lemma engine_decides:
  assumes "evaluate_input_ok p conv demo student quote"
  shows "\<exists>d. evaluate p conv demo student quote analysis outcome prior repeats now enabled = Inr d \<and>
    within_policy p d \<and> dd_list_price_minor d = list_price_minor quote \<and>
    floor_minor d = pct_of (list_price_minor quote) (price_floor_percent_of_list p) \<and>
    (dd_percent d \<noteq> 0 \<longrightarrow>
       enabled \<and> outcome \<notin> {OUTCOME_NOT_HELD, OUTCOME_UNKNOWN} \<and>
       prior < max_offers_per_customer_per_days p \<and> repeats < escalate_after_repeat_requests p \<and>
       (\<exists>band an. band \<in> set (bands p) \<and> band_triggers band \<noteq> [] \<and> analysis = Some an \<and>
          dd_percent d \<in> {min_percent band, max_percent band} \<and>
          (\<forall>v\<in>set (band_triggers band). \<exists>o'\<in>set (objections an).
             category_value (oi_category o') = v \<and> oi_evidence o' = EXPLICIT)))"
proof -
  obtain a where a: "args_ok p a" "da_quote a = quote"
    and ev: "evaluate p conv demo student quote analysis outcome prior repeats now enabled
      = evaluate_gates p a analysis outcome prior repeats enabled"
    using evaluate_eq [OF assms] by blast
  have pol: "discount_policy_ok p" using assms by (simp add: evaluate_input_ok_def)
  have fl: "minor (da_floor a) = pct_of (list_price_minor quote) (price_floor_percent_of_list p)"
    using a by (simp add: args_ok_def)
  note refused = refuse_builds [OF a(1) pol]
  show ?thesis
  proof (cases "enabled \<and> outcome \<notin> {OUTCOME_NOT_HELD, OUTCOME_UNKNOWN} \<and>
      prior < max_offers_per_customer_per_days p \<and> repeats < escalate_after_repeat_requests p")
    case False
    then show ?thesis
      using refused [of DS_NOT_APPLICABLE POLICY_DISABLED False]
        refused [of DS_DENIED DENIED_DEMO_NOT_COMPLETED False]
        refused [of DS_DENIED OFFER_LIMIT_REACHED False] refused [of DS_ESCALATED REPEAT_REQUESTS True]
      by (auto simp: ev evaluate_gates_def a(2) fl refuse_def)
  next
    case gates: True
    let ?t = "case analysis of None \<Rightarrow> {} | Some an \<Rightarrow> categories True an"
    show ?thesis
    proof (cases "\<exists>band. select_band p ?t = Some band \<and> max_percent band \<noteq> 0")
      case False
      then have "evaluate_gates p a analysis outcome prior repeats enabled
          = refuse p a NO_QUALIFYING_OBJECTION DS_NOT_APPLICABLE"
        using gates by (cases "select_band p ?t") (auto simp: evaluate_gates_def Let_def)
      then show ?thesis
        using refused [of DS_NOT_APPLICABLE NO_QUALIFYING_OBJECTION False]
        by (auto simp: ev a(2) fl refuse_def)
    next
      case True
      then obtain band where band: "select_band p ?t = Some band" "max_percent band \<noteq> 0" by blast
      note sel = select_band_SomeD [OF band(1)]
      then obtain an where an: "analysis = Some an" "band_applies (categories True an) band"
        by (cases analysis) (auto simp: band_applies_def neq_Nil_conv)
      have trig: "band_triggers band \<noteq> []" using an(2) by (simp add: band_applies_def)
      have "evaluate_gates p a analysis outcome prior repeats enabled = award p a ?t band"
        using gates band by (auto simp: evaluate_gates_def Let_def)
      moreover obtain d where d: "award p a ?t band = Inr d" "within_policy p d"
          "floor_minor d = minor (da_floor a)" "dd_list_price_minor d = list_price_minor quote"
          "dd_percent d \<noteq> 0 \<Longrightarrow> dd_percent d \<in> {min_percent band, max_percent band}"
        using award_builds [OF a(1) pol conjunct1 [OF sel] band(2), of ?t] unfolding a(2) by blast
      moreover have "\<exists>band an. band \<in> set (bands p) \<and> band_triggers band \<noteq> [] \<and> analysis = Some an \<and>
          dd_percent d \<in> {min_percent band, max_percent band} \<and>
          (\<forall>v\<in>set (band_triggers band). \<exists>o'\<in>set (objections an).
             category_value (oi_category o') = v \<and> oi_evidence o' = EXPLICIT)"
        if "dd_percent d \<noteq> 0"
        using d(5) [OF that] sel trig an band_applies_explicit [OF an(2)] by blast
      ultimately show ?thesis
        using gates unfolding ev by (intro exI [of _ d]) (simp add: fl)
    qed
  qed
qed

text \<open>(C16) The discount engine on a validated policy and a priceable quote: it always returns a
  decision. The decision's arithmetic balances, the payable amount is never below the policy's
  floor nor above the list price, the percentage is under the absolute ceiling, and an automatic
  approval under the automatic one. A non-zero percentage is paid only when the feature is on, the
  demo was held, neither abuse limit is reached, and every trigger of some band of the policy is an
  objection stated explicitly with evidence; the percentage is then one of that band's ends.\<close>

theorem discount_engine_is_sound:
  assumes "evaluate_input_ok p conv demo student quote"
  shows "\<exists>d. evaluate p conv demo student quote analysis outcome prior repeats now enabled = Inr d \<and>
    within_policy p d \<and> dd_list_price_minor d = list_price_minor quote \<and>
    floor_minor d = pct_of (list_price_minor quote) (price_floor_percent_of_list p) \<and>
    (dd_percent d \<noteq> 0 \<longrightarrow>
       enabled \<and> outcome \<notin> {OUTCOME_NOT_HELD, OUTCOME_UNKNOWN} \<and>
       prior < max_offers_per_customer_per_days p \<and> repeats < escalate_after_repeat_requests p \<and>
       (\<exists>band an. band \<in> set (bands p) \<and> band_triggers band \<noteq> [] \<and> analysis = Some an \<and>
          dd_percent d \<in> {min_percent band, max_percent band} \<and>
          (\<forall>v\<in>set (band_triggers band). \<exists>o'\<in>set (objections an).
             category_value (oi_category o') = v \<and> oi_evidence o' = EXPLICIT)))"
  by (rule engine_decides [OF assms])

theorem discount_engine_is_sound_witness:
  "\<exists>d. evaluate sample_policy ''conv-1'' ''demo-1'' None (sample_quote ''INR'')
     (Some (sample_analysis [sample_objection PRICE EXPLICIT])) OUTCOME_POSITIVE 0 0 0 True = Inr d \<and>
     floor_minor d = 84000 \<and> within_policy sample_policy d"
  using discount_engine_is_sound [OF sample_input_ok, of
      "Some (sample_analysis [sample_objection PRICE EXPLICIT])" OUTCOME_POSITIVE 0 0 0 True]
  by (auto simp: sample_quote_def sample_policy_def quantize_half_up_def)

text \<open>(C25) Nothing is left on the table either: past the gates, when a price at the policy's ceiling
  would still clear the floor, the customer gets at least the top of every band whose triggers they
  stated explicitly; it is approved at once up to the automatic ceiling and escalated above it.\<close>

theorem best_band_is_awarded:
  assumes "evaluate_input_ok p conv demo student quote"
    and "outcome \<notin> {OUTCOME_NOT_HELD, OUTCOME_UNKNOWN}"
    and "prior < max_offers_per_customer_per_days p" and "repeats < escalate_after_repeat_requests p"
    and "c \<in> set (bands p)" and "band_applies (categories True an) c" and "0 < max_percent c"
    and "pct_of (list_price_minor quote) (price_floor_percent_of_list p)
      \<le> list_price_minor quote - pct_of (list_price_minor quote) (absolute_max_percent p)"
  shows "\<exists>d. evaluate p conv demo student quote (Some an) outcome prior repeats now True = Inr d \<and>
    max_percent c \<le> dd_percent d \<and>
    dd_status d = (if dd_percent d > max_auto_approve_percent p then DS_ESCALATED else DS_APPROVED)"
proof -
  obtain band where band: "select_band p (categories True an) = Some band"
      "max_percent c \<le> max_percent band"
    using select_band_best [OF assms(5,6)] by blast
  have bin: "band \<in> set (bands p)" using select_band_SomeD [OF band(1)] by simp
  have pol: "discount_policy_ok p" using assms(1) by (simp add: evaluate_input_ok_def)
  have le: "max_percent band \<le> absolute_max_percent p" "absolute_max_percent p \<le> 100"
    using pol bin by (auto simp: discount_policy_ok_def filter_empty_conv not_less in_range_def)
  obtain a where a: "args_ok p a" "da_quote a = quote"
    and ev: "evaluate p conv demo student quote (Some an) outcome prior repeats now True =
      evaluate_gates p a (Some an) outcome prior repeats True"
    using evaluate_eq [OF assms(1)] by blast
  have gates: "evaluate_gates p a (Some an) outcome prior repeats True
      = award p a (categories True an) band"
    using assms(2-4,7) band by (auto simp: evaluate_gates_def Let_def)
  have n: "0 \<le> list_price_minor quote" using args_list_nonneg [OF a(1)] a(2) by simp
  have fl: "minor (da_floor a) \<le> list_price_minor quote - pct_of (list_price_minor quote) (max_percent band)"
    using a assms(8) pct_of_mono [OF n, of "max_percent band" "absolute_max_percent p"] le band(2) assms(7)
    by (simp add: args_ok_def)
  have "award p a (categories True an) band = grant p a (categories True an) band (max_percent band)"
    using after_percent_eq [of quote "max_percent band"] a fl le band(2) assms(7)
    by (auto simp: award_def args_ok_def money_less_def)
  then show ?thesis
    using grant_builds [OF a(1) pol bin, of "max_percent band" "categories True an"] fl band(2)
      assms(7) a(2) by (auto simp: ev gates)
qed

theorem best_band_is_awarded_witness:
  "\<exists>d. evaluate sample_policy ''conv-1'' ''demo-1'' None (sample_quote ''INR'')
     (Some (sample_analysis [sample_objection PRICE EXPLICIT])) OUTCOME_POSITIVE 0 0 0 True = Inr d \<and>
     10 \<le> dd_percent d"
proof -
  have "band_applies (categories True (sample_analysis [sample_objection PRICE EXPLICIT])) sample_band"
    by code_simp
  then show ?thesis
    using best_band_is_awarded [OF sample_input_ok, of OUTCOME_POSITIVE 0 0 sample_band
        "sample_analysis [sample_objection PRICE EXPLICIT]" 0]
    by (auto simp: sample_policy_def sample_band_def sample_quote_def quantize_half_up_def)
qed

text \<open>The engine raises on a quote it is given in good faith: a plan quote accepts any
  three-letter currency, \<open>Money\<close> only an upper-case one.\<close>

theorem lower_case_currency_raises:
  assumes "\<not> isupper (pq_currency quote)"
  shows "raises (evaluate p conv demo student quote analysis outcome prior repeats now enabled)"
  using assms by (simp add: evaluate_def list_price_def make_money_def)

theorem lower_case_currency_raises_witness:
  "plan_quote_ok (sample_quote ''inr'') \<and>
   raises (evaluate sample_policy ''conv-1'' ''demo-1'' None (sample_quote ''inr'') None
     OUTCOME_POSITIVE 0 0 0 True)"
proof
  show "plan_quote_ok (sample_quote ''inr'')" by code_simp
  have "\<not> isupper (pq_currency (sample_quote ''inr''))" by code_simp
  then show "raises (evaluate sample_policy ''conv-1'' ''demo-1'' None (sample_quote ''inr'') None
     OUTCOME_POSITIVE 0 0 0 True)"
    by (rule lower_case_currency_raises)
qed

section \<open>Where decisions come from\<close>

text \<open>A decision of the engine, or one of those that a human signed.\<close>

inductive engine_decision :: "discount_policy \<Rightarrow> discount_decision \<Rightarrow> bool" for p where
  engine: "evaluate_input_ok p conv demo student quote \<Longrightarrow>
    evaluate p conv demo student quote analysis outcome prior repeats now enabled = Inr d \<Longrightarrow>
    engine_decision p d"
| signed: "engine_decision p d \<Longrightarrow> approve_escalated p d approver now = Inr d' \<Longrightarrow>
    engine_decision p d'"

lemma approve_escalated_InrD:
  assumes "approve_escalated p d approver now = Inr d'"
  shows "d' = d\<lparr>dd_status := DS_APPROVED, approved_by := take 64 approver, decided_at := now,
    dd_valid_until := Some (now + hours (validity_hours p))\<rparr> \<and> approver \<noteq> [] \<and>
    dd_percent d \<le> absolute_max_percent p"
  using assms by (auto simp: approve_escalated_def strip_def split: if_splits)

lemma engine_decision_priced:
  "engine_decision p d \<Longrightarrow>
     decision_ok d \<and> floor_minor d \<le> payable_minor d \<and> payable_minor d \<le> dd_list_price_minor d \<and>
     dd_percent d \<le> absolute_max_percent p"
proof (induction rule: engine_decision.induct)
  case (engine conv demo student quote analysis outcome prior repeats now enabled d)
  then show ?case
    using engine_decides [OF engine(1), of analysis outcome prior repeats now enabled]
    by (auto simp: within_policy_def)
next
  case (signed d approver now d')
  then show ?case
    using approve_escalated_InrD [OF signed(2)]
    by (auto simp: decision_ok_def decision_fields_ok_def arithmetic_consistent_def)
qed

text \<open>A human may sign an escalated decision but not change its price: signing keeps every
  amount and the percentage, which is under the policy's ceiling, and the signed decision, if it is
  not free, can be turned into an offer at or above the floor until it lapses.\<close>

theorem signing_keeps_the_price:
  assumes "engine_decision p d" and "approve_escalated p d approver now = Inr d'"
    and "0 < payable_minor d" and "t < now + hours (validity_hours p)"
  shows "decision_ok d' \<and> dd_status d' = DS_APPROVED \<and> dd_percent d' = dd_percent d \<and>
    dd_percent d' \<le> absolute_max_percent p \<and>
    (\<exists>o'. approve d' t = Inr o' \<and> ao_amount_minor o' = payable_minor d \<and>
       floor_minor d \<le> ao_amount_minor o' \<and> ao_amount_minor o' \<le> ao_list_price_minor o')"
proof -
  note d' = approve_escalated_InrD [OF assms(2)]
  note priced = engine_decision_priced [OF signed [OF assms(1,2)]]
  have lv: "decision_live d' t" using assms(4) d' by (simp add: decision_live_def live_until_def)
  obtain o' where o': "approve d' t = Inr o'"
    using approve_total [OF conjunct1 [OF priced], of t] lv assms(3) d' by auto
  show ?thesis
    using priced o' approve_InrD [OF o'] d' by auto
qed

theorem signing_keeps_the_price_witness:
  "\<exists>d d' o'. evaluate sample_policy ''conv-1'' ''demo-1'' None (sample_quote ''INR'') None
       OUTCOME_POSITIVE 0 2 0 True = Inr d \<and>
     approve_escalated sample_policy d ''ops-7'' 5 = Inr d' \<and> approve d' 6 = Inr o' \<and>
     floor_minor d \<le> ao_amount_minor o'"
proof -
  let ?e = "evaluate sample_policy ''conv-1'' ''demo-1'' None (sample_quote ''INR'') None
       OUTCOME_POSITIVE 0 2 0 True"
  have "case ?e of Inl _ \<Rightarrow> False | Inr d \<Rightarrow> 0 < payable_minor d \<and>
      \<not> raises (approve_escalated sample_policy d ''ops-7'' 5)"
    by code_simp
  then obtain d d' where d: "?e = Inr d" "0 < payable_minor d"
      "approve_escalated sample_policy d ''ops-7'' 5 = Inr d'"
    by (auto simp: not_raises_iff split: sum.splits)
  have "6 < 5 + hours (validity_hours sample_policy)" by code_simp
  then show ?thesis
    using signing_keeps_the_price [OF engine [OF sample_input_ok d(1)] d(3,2)] d by metis
qed

end
