(* ===== verification/Demos.thy ===== *)
theory Demos
  imports TutorMatch Discounts
begin

text \<open>
  The demo aggregate: \<open>Requirement\<close> of contracts/common.py, domain/demo.py, and
  \<open>InMemoryDemoRepository\<close> of storage/memory/demos.py. A \<open>model_copy\<close> is a record update: like the
  source's it does not run the validator.
\<close>

section \<open>What is asked for\<close>

record requirement =
  nd_service :: "string option"
  nd_board :: "string option"
  nd_student_class :: "string option"
  nd_subject :: "string option"
  nd_mode :: "demo_mode option"
  nd_region :: "ref option"
  nd_locality :: "string option"
  nd_timezone :: string
  nd_language :: language

definition truthy_text :: "string option \<Rightarrow> bool" where
  "truthy_text v \<longleftrightarrow> (case v of None \<Rightarrow> False | Some s \<Rightarrow> s \<noteq> [])"

definition missing :: "requirement \<Rightarrow> string list" where
  "missing r =
     (if nd_service r = None then [''service''] else []) @
     (if nd_board r = None then [''board''] else []) @
     (if nd_student_class r = None then [''student_class''] else []) @
     (if nd_subject r = None then [''subject''] else []) @
     (if nd_mode r = None then [''mode''] else []) @
     (if nd_mode r = Some HOME \<and> \<not> (truthy_text (nd_region r) \<or> truthy_text (nd_locality r))
        then [''region''] else [])"

definition complete_requirement :: "requirement \<Rightarrow> bool" where
  "complete_requirement r \<longleftrightarrow> missing r = []"

record demo_request =
  dr_request_id :: ref
  dr_conversation :: ref
  dr_student_ref :: "ref option"
  dr_requirement :: requirement
  dr_language :: language
  dr_region :: "ref option"
  dr_created_at :: instant
  dr_match_session_id :: "string option"

section \<open>The demo\<close>

definition OUTCOME_GRACE :: duration where "OUTCOME_GRACE = minutes 30"

datatype attendance_signal =
  CALENDAR_RESPONSE | MEET_PARTICIPATION | TUTOR_REPORT | STUDENT_REPORT | OPERATOR_REVIEW
| LLM_INFERENCE | NO_SIGNAL

fun signal_value :: "attendance_signal \<Rightarrow> string" where
  "signal_value CALENDAR_RESPONSE = ''calendar_response''"
| "signal_value MEET_PARTICIPATION = ''meet_participation''"
| "signal_value TUTOR_REPORT = ''tutor_report''"
| "signal_value STUDENT_REPORT = ''student_report''"
| "signal_value OPERATOR_REVIEW = ''operator_review''"
| "signal_value LLM_INFERENCE = ''llm_inference''"
| "signal_value NO_SIGNAL = ''none''"

definition AUTHORITATIVE_ABSENCE :: "attendance_signal set" where
  "AUTHORITATIVE_ABSENCE = {CALENDAR_RESPONSE, MEET_PARTICIPATION, OPERATOR_REVIEW}"

datatype contact_channel = VIA_WHATSAPP | VIA_EMAIL | VIA_CALENDAR_INVITE

record contact_ref =
  ct_ref :: ref
  ct_channel :: contact_channel
  ct_contactable :: bool

record demo_attendee =
  da_party :: party
  da_ref :: ref
  da_display_name :: string
  da_contacts :: "contact_ref list"
  da_invite_consent :: bool

definition contact_for :: "demo_attendee \<Rightarrow> contact_channel \<Rightarrow> contact_ref option" where
  "contact_for a channel = find (\<lambda>c. ct_channel c = channel \<and> ct_contactable c) (da_contacts a)"

record outcome_record =
  oc_outcome :: demo_outcome
  oc_student_attended :: "bool option"
  oc_tutor_attended :: "bool option"
  oc_evidence_source :: attendance_signal
  oc_recorded_at :: "instant option"
  oc_recorded_by :: string
  oc_notes :: string
  oc_duration_minutes :: "int option"

definition no_outcome :: outcome_record where
  "no_outcome = \<lparr>oc_outcome = OUTCOME_UNKNOWN, oc_student_attended = None, oc_tutor_attended = None,
     oc_evidence_source = NO_SIGNAL, oc_recorded_at = None, oc_recorded_by = [], oc_notes = [],
     oc_duration_minutes = None\<rparr>"

definition authoritative :: "outcome_record \<Rightarrow> bool" where
  "authoritative o' \<longleftrightarrow> oc_evidence_source o' \<in> AUTHORITATIVE_ABSENCE"

definition is_no_show :: "outcome_record \<Rightarrow> bool" where
  "is_no_show o' \<longleftrightarrow> oc_student_attended o' = Some False \<or> oc_tutor_attended o' = Some False"

record demo =
  dm_demo_id :: ref
  dm_conversation :: ref
  dm_request_id :: ref
  dm_student_ref :: "ref option"
  dm_tutor_ref :: "ref option"
  dm_region :: "ref option"
  dm_mode :: demo_mode
  dm_language :: language
  dm_slot :: "time_slot option"
  dm_calendar_event_id :: "string option"
  dm_meet_url :: "string option"
  dm_location_label :: "string option"
  dm_attendees :: "demo_attendee list"
  dm_outcome :: outcome_record
  dm_created_at :: instant
  dm_updated_at :: instant
  dm_revision :: int
  dm_cancelled_at :: "instant option"
  dm_cancellation_reason :: string

text \<open>The bounds of the fields and the validator \<open>_coherent\<close>.\<close>

definition coherent :: "demo \<Rightarrow> bool" where
  "coherent d \<longleftrightarrow>
     \<not> (dm_mode d = HOME \<and> truthy_text (dm_meet_url d)) \<and>
     \<not> (truthy_text (dm_meet_url d) \<and> \<not> truthy_text (dm_calendar_event_id d))"

definition demo_ok :: "demo \<Rightarrow> bool" where
  "demo_ok d \<longleftrightarrow>
     length (dm_demo_id d) \<le> 64 \<and> length (dm_conversation d) \<le> 128 \<and> length (dm_request_id d) \<le> 64 \<and>
     opt_ref_ok (dm_student_ref d) \<and> opt_ref_ok (dm_tutor_ref d) \<and> opt_ref_ok (dm_region d) \<and>
     at_most 256 (dm_calendar_event_id d) \<and> at_most 512 (dm_meet_url d) \<and> at_most 200 (dm_location_label d) \<and>
     1 \<le> dm_revision d \<and> length (dm_cancellation_reason d) \<le> 120 \<and> coherent d"

definition make_demo :: "demo \<Rightarrow> py_error + demo" where
  "make_demo d = validated ''Demo'' demo_ok d"

definition demo_scheduled :: "demo \<Rightarrow> bool" where
  "demo_scheduled d \<longleftrightarrow> dm_slot d \<noteq> None \<and> dm_calendar_event_id d \<noteq> None"

definition demo_cancelled :: "demo \<Rightarrow> bool" where
  "demo_cancelled d \<longleftrightarrow> dm_cancelled_at d \<noteq> None"

definition attendee :: "demo \<Rightarrow> party \<Rightarrow> demo_attendee option" where
  "attendee d p = find (\<lambda>a. da_party a = p) (dm_attendees d)"

definition outcome_due :: "demo \<Rightarrow> instant \<Rightarrow> bool" where
  "outcome_due d now \<longleftrightarrow>
     (case dm_slot d of
        None \<Rightarrow> False
      | Some s \<Rightarrow> \<not> demo_cancelled d \<and> now \<ge> ends_at s + OUTCOME_GRACE)"

definition with_slot :: "demo \<Rightarrow> time_slot \<Rightarrow> instant \<Rightarrow> demo" where
  "with_slot d s now = d\<lparr>dm_slot := Some s, dm_revision := dm_revision d + 1, dm_updated_at := now\<rparr>"

section \<open>The repository\<close>

record mem_demos =
  md_requests :: "(ref, demo_request) odict"
  md_demos :: "(ref, demo) odict"
  md_candidates :: "(ref, match_candidate list) odict"
  md_candidate_sessions :: "(ref, string) odict"

definition no_demos :: mem_demos where
  "no_demos = \<lparr>md_requests = [], md_demos = [], md_candidates = [], md_candidate_sessions = []\<rparr>"

definition save_request :: "mem_demos \<Rightarrow> demo_request \<Rightarrow> mem_demos" where
  "save_request s r = s\<lparr>md_requests := dict_set (md_requests s) (dr_request_id r) r\<rparr>"

definition load_request :: "mem_demos \<Rightarrow> ref \<Rightarrow> demo_request option" where
  "load_request s i = dict_get (md_requests s) i"

definition request_for_conversation :: "mem_demos \<Rightarrow> ref \<Rightarrow> demo_request option" where
  "request_for_conversation s c = find (\<lambda>r. dr_conversation r = c) (rev (dict_values (md_requests s)))"

definition save_demo :: "mem_demos \<Rightarrow> demo \<Rightarrow> mem_demos" where
  "save_demo s d = s\<lparr>md_demos := dict_set (md_demos s) (dm_demo_id d) d\<rparr>"

definition load_demo :: "mem_demos \<Rightarrow> ref \<Rightarrow> demo option" where
  "load_demo s i = dict_get (md_demos s) i"

definition for_conversation :: "mem_demos \<Rightarrow> ref \<Rightarrow> demo option" where
  "for_conversation s c =
     find (\<lambda>d. dm_conversation d = c \<and> \<not> demo_cancelled d) (rev (dict_values (md_demos s)))"

definition in_window :: "mem_demos \<Rightarrow> ref option \<Rightarrow> instant \<Rightarrow> instant \<Rightarrow> demo list" where
  "in_window s region from_at to_at =
     filter (\<lambda>d. (case dm_slot d of None \<Rightarrow> False | Some sl \<Rightarrow> from_at \<le> starts_at sl \<and> starts_at sl < to_at) \<and>
                 (region = None \<or> dm_region d = region)) (dict_values (md_demos s))"

definition save_candidates :: "mem_demos \<Rightarrow> ref \<Rightarrow> string \<Rightarrow> match_candidate list \<Rightarrow> mem_demos" where
  "save_candidates s c session cs =
     s\<lparr>md_candidates := dict_set (md_candidates s) c cs,
       md_candidate_sessions := dict_set (md_candidate_sessions s) c session\<rparr>"

definition load_candidates :: "mem_demos \<Rightarrow> ref \<Rightarrow> match_candidate list" where
  "load_candidates s c = (case dict_get (md_candidates s) c of None \<Rightarrow> [] | Some cs \<Rightarrow> cs)"

lemmas demo_store_defs = save_request_def load_request_def request_for_conversation_def save_demo_def
  load_demo_def for_conversation_def save_candidates_def load_candidates_def

lemma save_demo_frame [simp, frame_simps]:
  "md_candidates (save_demo s d) = md_candidates s" "md_requests (save_demo s d) = md_requests s"
  "load_candidates (save_demo s d) c = load_candidates s c"
  "request_for_conversation (save_demo s d) c = request_for_conversation s c"
  by (simp_all add: demo_store_defs)

lemma save_candidates_frame [simp, frame_simps]:
  "md_demos (save_candidates s c m cs) = md_demos s"
  "request_for_conversation (save_candidates s c m cs) c' = request_for_conversation s c'"
  "for_conversation (save_candidates s c m cs) c' = for_conversation s c'"
  "load_candidates (save_candidates s c m cs) c' = (if c = c' then cs else load_candidates s c')"
  by (simp_all add: demo_store_defs)

lemma for_conversation_SomeD:
  "for_conversation s c = Some d \<Longrightarrow>
   d \<in> set (dict_values (md_demos s)) \<and> dm_conversation d = c \<and> \<not> demo_cancelled d"
  unfolding for_conversation_def by (drule find_Some_in) auto

lemma saved_demos:
  "set (dict_values (md_demos (save_demo s d))) \<subseteq> insert d (set (dict_values (md_demos s)))"
  by (simp add: save_demo_def dict_set_values_sub)

text \<open>A saved demo of a conversation that had none, or had this one, is the one found next.\<close>

lemma dict_set_fresh: "k \<notin> set (dict_keys d) \<Longrightarrow> dict_set d k v = d @ [(k, v)]"
  by (induction d k v rule: dict_set.induct) (auto simp: dict_keys_def)

lemma for_conversation_saved_new:
  assumes "dm_demo_id d \<notin> set (dict_keys (md_demos s))" and "\<not> demo_cancelled d"
  shows "for_conversation (save_demo s d) (dm_conversation d) = Some d"
  using assms by (simp add: for_conversation_def save_demo_def dict_set_fresh dict_values_def)

end
