(* ===== verification/Inbound.thy ===== *)
theory Inbound
  imports MachineRuns PatternGroups Demos
begin

text \<open>
  Which trigger a parent's message means: orchestration/inbound.py. \<open>route\<close> reads the buttons, the
  phrases and the ordinals and offers a trigger only if the machine makes it available; \<open>capture\<close> folds
  what was said into the requirement. A payload value is a fact value or a slot. The clarifying texts
  hold characters beyond U+00FF and are left out.
\<close>

section \<open>The vocabulary\<close>

definition CANCEL_PHRASES :: "string list" where
  "CANCEL_PHRASES =
     [''cancel'', ''stop'', ''unsubscribe'', ''not interested'', ''no longer'',
      ''band karo'', ''nahi chahiye'', ''rehne do'']"

definition HUMAN_PHRASES :: "string list" where
  "HUMAN_PHRASES =
     [''human'', ''agent'', ''representative'', ''real person'',
      ''manager'', ''complaint'', ''speak to'', ''talk to a'', ''call me'',
      ''insaan'', ''baat karni'']"

definition RESCHEDULE_PHRASES :: "string list" where
  "RESCHEDULE_PHRASES =
     [''reschedule'', ''postpone'', ''change the time'', ''change time'', ''another time'',
      ''different time'', ''move it'', ''shift'', ''not free'',
      ''samay badal'', ''time badal'']"

definition REJECT_PHRASES :: "string list" where
  "REJECT_PHRASES =
     [''someone else'', ''other tutor'', ''others'', ''different tutor'', ''more options'',
      ''alternatives'', ''none of'', ''neither'', ''koi aur'', ''dusra dikhao'']"

text \<open>\<open>^tutor:([1-3])$\<close> on a stripped text, and the pattern of ordinals with its two groups.\<close>

definition option_digit :: "char \<Rightarrow> bool" where
  "option_digit c \<longleftrightarrow> c \<in> set ''123''"

definition tapped_option :: "string \<Rightarrow> string \<Rightarrow> int option" where
  "tapped_option kind tapped =
     (if prefix kind tapped
      then (case drop (length kind) tapped of
              [c] \<Rightarrow> if option_digit c then Some (int (of_char c) - 48) else None
            | _ \<Rightarrow> None)
      else None)"

definition INBOUND_ORDINAL_WORDS :: "(string, int) odict" where
  "INBOUND_ORDINAL_WORDS =
     [(''one'', 1), (''first'', 1), (''pehla'', 1),
      (''two'', 2), (''second'', 2), (''dusra'', 2),
      (''three'', 3), (''third'', 3), (''teesra'', 3)]"

definition INBOUND_ORDINAL :: "(rx \<times> rx \<times> rx) list" where
  "INBOUND_ORDINAL =
     [(Seq WordB (Opt (Seq (Lit ''option'') (Many is_space))), Cls option_digit, WordB),
      (WordB, Alts (Lit ''one'') (map Lit [''two'', ''three'', ''first'', ''second'', ''third'',
                                         ''pehla'', ''dusra'', ''teesra'']), WordB)]"

definition has_phrase :: "string \<Rightarrow> string list \<Rightarrow> bool" where
  "has_phrase t phrases \<longleftrightarrow> list_ex (contains t) phrases"

definition ordinal_in :: "string \<Rightarrow> int option" where
  "ordinal_in t =
     (case group_search INBOUND_ORDINAL t of
        None \<Rightarrow> None
      | Some g \<Rightarrow> (case g of
          [c] \<Rightarrow> if option_digit c then Some (int (of_char c) - 48) else dict_get INBOUND_ORDINAL_WORDS g
        | _ \<Rightarrow> dict_get INBOUND_ORDINAL_WORDS g))"

definition squeezed :: "string \<Rightarrow> string" where
  "squeezed t = join '' '' (words (casefold t))"

section \<open>Routing\<close>

datatype payload_value = PFact fact_value | PSlot time_slot

type_synonym payload = "string \<Rightarrow> payload_value option"

record routed =
  rt_trigger :: "trigger option"
  rt_payload :: payload
  rt_reason :: string

definition not_routed :: "string \<Rightarrow> routed" where
  "not_routed why = \<lparr>rt_trigger = None, rt_payload = Map.empty, rt_reason = why\<rparr>"

definition understood :: "routed \<Rightarrow> bool" where
  "understood r \<longleftrightarrow> rt_trigger r \<noteq> None"

definition offer :: "trigger set \<Rightarrow> string \<Rightarrow> trigger \<Rightarrow> string \<Rightarrow> (string \<times> fact_value) list \<Rightarrow> routed option" where
  "offer allowed txt tr why extra =
     (if tr \<notin> allowed then None
      else Some \<lparr>rt_trigger = Some tr,
                 rt_payload = [''text'' \<mapsto> PFact (FStr txt)] ++ (map_option PFact \<circ> map_of extra),
                 rt_reason = why\<rparr>)"

text \<open>The branches \<open>if test and (routed := offer(...)): return routed\<close>, in their order.\<close>

fun first_offer :: "(bool \<times> routed option) list \<Rightarrow> routed \<Rightarrow> routed" where
  "first_offer [] otherwise = otherwise"
| "first_offer ((test, r) # rest) otherwise =
     (if test then (case r of Some x \<Rightarrow> x | None \<Rightarrow> first_offer rest otherwise)
      else first_offer rest otherwise)"

definition ordinal_value :: "int option \<Rightarrow> (string \<times> fact_value) list" where
  "ordinal_value n = (case n of None \<Rightarrow> [] | Some k \<Rightarrow> [(''ordinal'', FInt k)])"

definition route_button :: "trigger set \<Rightarrow> string \<Rightarrow> string \<Rightarrow> routed" where
  "route_button allowed txt tapped =
     (let tutor = tapped_option ''tutor:'' tapped; slot = tapped_option ''slot:'' tapped
      in first_offer
           [(tutor \<noteq> None, offer allowed txt TUTOR_CHOSEN ''button_tutor'' ((''button_id'', FStr tapped) # ordinal_value tutor)),
            (slot \<noteq> None, offer allowed txt SLOT_AGREED ''button_slot'' ((''button_id'', FStr tapped) # ordinal_value slot))]
           (not_routed (''button_not_valid_here:'' @ take 24 tapped)))"

definition LETTERS :: rx where
  "LETTERS = AtLeast 3 is_lower_char"

definition route_text :: "trigger set \<Rightarrow> string \<Rightarrow> string \<Rightarrow> demo_state \<Rightarrow> routed" where
  "route_text allowed txt lowered s =
     (let position = ordinal_in lowered
      in first_offer
           [(has_phrase lowered HUMAN_PHRASES, offer allowed txt HUMAN_REQUESTED ''asked_for_a_human'' []),
            (has_phrase lowered CANCEL_PHRASES, offer allowed txt CANCELLED_BY_USER ''asked_to_cancel'' []),
            (has_phrase lowered REJECT_PHRASES, offer allowed txt OPTIONS_REJECTED ''rejected_the_shortlist'' []),
            (has_phrase lowered RESCHEDULE_PHRASES, offer allowed txt RESCHEDULE_REQUESTED ''asked_to_reschedule'' []),
            (position \<noteq> None, offer allowed txt TUTOR_CHOSEN ''ordinal_tutor'' (ordinal_value position)),
            (position \<noteq> None, offer allowed txt SLOT_AGREED ''ordinal_slot'' (ordinal_value position)),
            (search LETTERS lowered, offer allowed txt TUTOR_CHOSEN ''possible_name_selection'' []),
            (True, offer allowed txt REQUIREMENTS_UPDATED ''requirement_text'' [])]
           (not_routed (''no_trigger_for_state:'' @ state_value s)))"

definition route :: "string \<Rightarrow> string option \<Rightarrow> snapshot \<Rightarrow> actor \<Rightarrow> routed" where
  "route txt button_id sn a =
     (let allowed = available sn a; lowered = squeezed txt
      in if truthy_text button_id then route_button allowed txt (casefold (strip (the button_id)))
         else if lowered = [] then not_routed ''empty_message''
         else route_text allowed txt lowered (sn_state sn))"

section \<open>Capturing requirements\<close>

type_synonym wordlists = "(string list \<times> string) list"

definition CAPTURE_SUBJECTS :: wordlists where
  "CAPTURE_SUBJECTS =
     [([''maths'', ''math'', ''mathematics'', ''ganit''], ''Mathematics''),
      ([''physics''], ''Physics''),
      ([''chemistry''], ''Chemistry''),
      ([''biology'', ''bio''], ''Biology''),
      ([''science''], ''Science''),
      ([''english''], ''English''),
      ([''hindi''], ''Hindi''),
      ([''social'', ''sst'', ''history'', ''geography'', ''civics''], ''Social Studies''),
      ([''accounts'', ''accountancy''], ''Accountancy''),
      ([''economics'', ''eco''], ''Economics''),
      ([''computer'', ''coding'', ''programming''], ''Computer Science'')]"

definition CAPTURE_BOARDS :: wordlists where
  "CAPTURE_BOARDS =
     [([''cbse''], ''CBSE''),
      ([''icse'', ''isc''], ''ICSE''),
      ([''igcse''], ''IGCSE''),
      ([''ib '', ''international baccalaureate''], ''IB''),
      ([''state board'', ''state-board'', ''stateboard''], ''State Board'')]"

definition CAPTURE_SERVICES :: wordlists where
  "CAPTURE_SERVICES =
     [([''jee'', ''neet'', ''olympiad'', ''competitive'', ''entrance''], ''competitive_exam''),
      ([''board exam'', ''boards'', ''board prep'', ''board preparation''], ''board_exam_prep''),
      ([''urgent'', ''asap'', ''immediately'', ''kal se'', ''turant''], ''urgent_tuition''),
      ([''school'', ''regular'', ''tuition'', ''homework'', ''weak in''], ''regular_school_support'')]"

definition class_number :: rx where
  "class_number = Alt (Cls (\<lambda>c. is_digit c \<and> c \<noteq> CHR ''0'')) (Seq (Lit ''1'') (Cls (\<lambda>c. c \<in> set ''012'')))"

definition CAPTURE_CLASS :: "(rx \<times> rx \<times> rx) list" where
  "CAPTURE_CLASS =
     [(Seqs [WordB, Alts (Lit ''class'') [Lit ''grade'', Lit ''std'', Lit ''standard''], Many is_space],
       class_number, WordB),
      (WordB, class_number, Seqs [Many is_space, Lit ''th'', WordB])]"

definition first_named :: "string \<Rightarrow> wordlists \<Rightarrow> string option" where
  "first_named lowered table = map_option snd (find (\<lambda>(ws, _). has_phrase lowered ws) table)"

definition named_mode :: "string \<Rightarrow> demo_mode option" where
  "named_mode lowered =
     (if has_phrase lowered [''online'', ''video'', ''zoom'', ''remote''] then Some ONLINE
      else if has_phrase lowered [''home'', ''at my place'', ''offline'', ''in person'', ''ghar''] then Some HOME
      else None)"

definition filled :: "'a option \<Rightarrow> 'a option \<Rightarrow> 'a option" where
  "filled current said = (case current of None \<Rightarrow> said | Some _ \<Rightarrow> current)"

definition capture :: "string \<Rightarrow> requirement \<Rightarrow> requirement" where
  "capture txt r =
     (let lowered = squeezed txt
      in if lowered = [] then r
         else r\<lparr>nd_subject := filled (nd_subject r) (first_named lowered CAPTURE_SUBJECTS),
                nd_board := filled (nd_board r) (first_named lowered CAPTURE_BOARDS),
                nd_student_class := filled (nd_student_class r) (group_search CAPTURE_CLASS lowered),
                nd_mode := filled (nd_mode r) (named_mode lowered),
                nd_service := filled (nd_service r) (first_named lowered CAPTURE_SERVICES)\<rparr>)"

section \<open>What routing can do\<close>

definition ROUTABLE :: "trigger set" where
  "ROUTABLE = {HUMAN_REQUESTED, CANCELLED_BY_USER, OPTIONS_REJECTED, RESCHEDULE_REQUESTED, TUTOR_CHOSEN,
     SLOT_AGREED, REQUIREMENTS_UPDATED}"

lemma first_offer_cases:
  "first_offer qs d = d \<or> (True, Some (first_offer qs d)) \<in> set qs"
proof (induction qs)
  case (Cons q qs)
  obtain test r where "q = (test, r)" by fastforce
  with Cons show ?case by (cases test; cases r) auto
qed simp

lemma offer_SomeD:
  assumes "offer allowed txt tr why extra = Some r" and "map fst extra = ks" and "''text'' \<notin> set ks"
  shows "rt_trigger r = Some tr \<and> tr \<in> allowed \<and> dom (rt_payload r) = insert ''text'' (set ks) \<and>
    rt_payload r ''text'' = Some (PFact (FStr txt)) \<and> ran (rt_payload r) \<subseteq> range PFact"
proof -
  have r: "tr \<in> allowed" "r = \<lparr>rt_trigger = Some tr,
      rt_payload = [''text'' \<mapsto> PFact (FStr txt)] ++ (map_option PFact \<circ> map_of extra), rt_reason = why\<rparr>"
    using assms(1) by (auto simp: offer_def split: if_splits)
  have none: "map_of extra ''text'' = None" using assms(2,3) by (simp add: map_of_eq_None_iff) (metis set_map)
  have "dom (map_option PFact \<circ> map_of extra) = set ks"
    using assms(2) by (force simp: dom_def map_of_eq_None_iff image_iff)
  then have "x \<in> set ks \<longleftrightarrow> (\<exists>v. map_of extra x = Some v)" for x by (auto simp: dom_def)
  then show ?thesis using none r by (auto simp: map_add_def ran_def split: option.splits if_splits)
qed

definition routed_well :: "trigger set \<Rightarrow> string \<Rightarrow> routed \<Rightarrow> bool" where
  "routed_well allowed txt r \<longleftrightarrow>
     (case rt_trigger r of
        None \<Rightarrow> rt_payload r = Map.empty
      | Some tr \<Rightarrow> tr \<in> allowed \<and> tr \<in> ROUTABLE \<and> dom (rt_payload r) \<subseteq> {''text'', ''button_id'', ''ordinal''} \<and>
          rt_payload r ''text'' = Some (PFact (FStr txt)) \<and> ran (rt_payload r) \<subseteq> range PFact)"

lemma not_routed_well [simp]: "routed_well allowed txt (not_routed why)"
  by (simp add: routed_well_def not_routed_def)

lemma offer_well:
  assumes "offer allowed txt tr why extra = Some r" and "tr \<in> ROUTABLE" and "set (map fst extra) \<subseteq> {''button_id'', ''ordinal''}"
  shows "routed_well allowed txt r"
  using offer_SomeD [OF assms(1) refl] assms(2,3) by (fastforce simp: routed_well_def)

lemma first_offer_well:
  assumes "\<And>r. (True, Some r) \<in> set qs \<Longrightarrow> routed_well allowed txt r" and "routed_well allowed txt d"
  shows "routed_well allowed txt (first_offer qs d)"
  using first_offer_cases [of qs d] assms by auto

lemma ordinal_value_keys: "set (map fst (ordinal_value n)) \<subseteq> {''ordinal''}"
  by (cases n) (simp_all add: ordinal_value_def)

lemma route_well: "routed_well (available sn a) txt (route txt button_id sn a)"
proof -
  have keys: "fst ` set (ordinal_value n) \<subseteq> {''ordinal''}" for n using ordinal_value_keys [of n] by simp
  have "routed_well allowed txt (route_button allowed txt tapped)" for allowed tapped
    unfolding route_button_def Let_def
    by (rule first_offer_well) (auto simp: ROUTABLE_def dest!: sym [of "Some _"] intro!: offer_well subsetD [OF keys])
  moreover have "routed_well allowed txt (route_text allowed txt lowered s)" for allowed lowered s
    unfolding route_text_def Let_def
    by (rule first_offer_well) (auto simp: ROUTABLE_def dest!: sym [of "Some _"] intro!: offer_well subsetD [OF keys])
  ultimately show ?thesis by (simp add: route_def Let_def)
qed

text \<open>(C6) A message is routed only to what its sender may do. Whatever is typed or tapped, the trigger that
  \<open>route\<close> returns is one of seven, is available to the actor in this state, and carries the text and at
  most a button id and an ordinal: never a slot, a tutor, or a fact a guard reads. Fired under any
  facts, it can be refused only by the guard of its row.\<close>

theorem routed_trigger_is_permitted:
  assumes "rt_trigger (route txt button_id sn a) = Some tr"
  shows "tr \<in> ROUTABLE \<and> dom (rt_payload (route txt button_id sn a)) \<subseteq> {''text'', ''button_id'', ''ordinal''} \<and>
    rt_payload (route txt button_id sn a) ''text'' = Some (PFact (FStr txt)) \<and>
    (\<exists>t. lookup (sn_state sn) tr = Some t \<and>
      (\<forall>fs. fire sn tr a fs =
        (case run_guard t \<lparr>gc_state = sn_state sn, gc_actor = a, gc_facts = sn_facts sn ++ fs\<rparr> of
           Some why \<Rightarrow> Inl (reject why (sn_state sn) tr)
         | None \<Rightarrow> Inr (result_for sn t tr a))))"
proof -
  have well: "tr \<in> available sn a" "tr \<in> ROUTABLE"
    "dom (rt_payload (route txt button_id sn a)) \<subseteq> {''text'', ''button_id'', ''ordinal''}"
    "rt_payload (route txt button_id sn a) ''text'' = Some (PFact (FStr txt))"
    using route_well [of sn a "txt" button_id] assms by (auto simp: routed_well_def)
  obtain t where t: "lookup (sn_state sn) tr = Some t" "\<not> raises (authorise t a (sn_state sn) tr)"
    using well(1) by (auto simp: available_iff)
  have "\<not> is_terminal (sn_state sn)"
    using no_row_from_terminal t(1) by (auto simp: is_terminal_def lookup_iff)
  moreover obtain u where allowed: "authorise t a (sn_state sn) tr = Inr u"
    using t(2) by (cases "authorise t a (sn_state sn) tr") auto
  ultimately have "fire sn tr a fs =
      (case run_guard t \<lparr>gc_state = sn_state sn, gc_actor = a, gc_facts = sn_facts sn ++ fs\<rparr> of
         Some why \<Rightarrow> Inl (reject why (sn_state sn) tr)
       | None \<Rightarrow> Inr (result_for sn t tr a))" for fs
    by (simp only: fire_def Let_def t(1) allowed if_False option.case and_then.simps)
  then show ?thesis using well t(1) by blast
qed

section \<open>What capturing can do\<close>

lemma filled_keeps [simp]: "filled (Some x) y = Some x"
  by (simp add: filled_def)

lemma filled_twice [simp]: "filled (filled x y) y = filled x y"
  by (simp add: filled_def split: option.splits)

lemma capture_frame [simp]:
  "nd_region (capture t r) = nd_region r" "nd_locality (capture t r) = nd_locality r"
  "nd_timezone (capture t r) = nd_timezone r" "nd_language (capture t r) = nd_language r"
  by (simp_all add: capture_def Let_def)

text \<open>Capturing only adds. An answer once given is never changed by what is said later, hearing the
  same message again changes nothing, and no field becomes missing that was answered; the one question
  that can be added is the area, when home tuition is what was said.\<close>

theorem capture_only_adds:
  "(\<forall>f\<in>{nd_service, nd_board, nd_student_class, nd_subject}. f r \<noteq> None \<longrightarrow> f (capture t r) = f r) \<and>
   (nd_mode r \<noteq> None \<longrightarrow> nd_mode (capture t r) = nd_mode r) \<and>
   capture t (capture t r) = capture t r \<and>
   set (missing (capture t r)) \<subseteq> set (missing r) \<union> (if nd_mode r = None \<and> nd_mode (capture t r) = Some HOME then {''region''} else {})"
proof (intro conjI)
  show "\<forall>f\<in>{nd_service, nd_board, nd_student_class, nd_subject}. f r \<noteq> None \<longrightarrow> f (capture t r) = f r"
    and "nd_mode r \<noteq> None \<longrightarrow> nd_mode (capture t r) = nd_mode r"
    and "capture t (capture t r) = capture t r"
    by (auto simp: capture_def Let_def)
  show "set (missing (capture t r)) \<subseteq> set (missing r) \<union> (if nd_mode r = None \<and> nd_mode (capture t r) = Some HOME then {''region''} else {})"
    by (auto simp: missing_def capture_def Let_def filled_def split: option.splits if_splits)
qed

definition nothing_said :: requirement where
  "nothing_said = \<lparr>nd_service = None, nd_board = None, nd_student_class = None, nd_subject = None, nd_mode = None,
     nd_region = None, nd_locality = None, nd_timezone = ''Asia/Kolkata'', nd_language = LANG_EN\<rparr>"

theorem capture_only_adds_witness:
  "nd_board (capture ''my nephew does ICSE'' (nothing_said\<lparr>nd_board := Some ''CBSE''\<rparr>)) = Some ''CBSE''"
  using capture_only_adds [of "nothing_said\<lparr>nd_board := Some ''CBSE''\<rparr>" "''my nephew does ICSE''"] by simp

text \<open>Phrases are looked for inside words. ``discuss'' holds the board ISC, ``second'' the subject
  economics and ``homework'' home tuition: capturing guesses a board, a subject and a mode nobody said,
  and, as capturing only adds, what the parent says next does not correct them.\<close>

theorem capture_hears_inside_words:
  "let heard = capture ''can we discuss homework for my second child'' nothing_said;
       corrected = capture ''CBSE maths online please'' heard
   in nd_board heard = Some ''ICSE'' \<and> nd_subject heard = Some ''Economics'' \<and> nd_mode heard = Some HOME \<and>
      nd_board corrected = Some ''ICSE'' \<and> nd_subject corrected = Some ''Economics'' \<and> nd_mode corrected = Some HOME"
  by code_simp

definition choosing :: snapshot where
  "choosing = \<lparr>sn_conversation_ref = ''conv'', sn_state = AWAITING_TUTOR_SELECTION, sn_version = 3,
     sn_demo_id = None, sn_updated_at = None, sn_facts = Map.empty\<rparr>"

lemma choosing_available:
  "TUTOR_CHOSEN \<in> available choosing USER"
proof -
  have "case find (row_matches AWAITING_TUTOR_SELECTION TUTOR_CHOSEN) TRANSITIONS of None \<Rightarrow> False
    | Some t \<Rightarrow> \<not> raises (authorise t USER AWAITING_TUTOR_SELECTION TUTOR_CHOSEN)"
    by code_simp
  then show ?thesis by (auto simp: available_iff lookup_scan choosing_def split: option.splits)
qed

theorem routed_trigger_is_permitted_witness:
  "rt_trigger (route ''option 2'' None choosing USER) = Some TUTOR_CHOSEN \<and>
   rt_payload (route ''option 2'' None choosing USER) ''text'' = Some (PFact (FStr ''option 2''))"
proof -
  have "\<not> has_phrase ''option 2'' ws" if "ws \<in> {HUMAN_PHRASES, CANCEL_PHRASES, REJECT_PHRASES, RESCHEDULE_PHRASES}" for ws
    using that by (elim insertE) (simp_all, code_simp+)
  moreover have "squeezed ''option 2'' = ''option 2''" "ordinal_in ''option 2'' = Some 2" by code_simp+
  ultimately have "rt_trigger (route ''option 2'' None choosing USER) = Some TUTOR_CHOSEN"
    using choosing_available by (simp add: route_def Let_def truthy_text_def route_text_def offer_def)
  then show ?thesis using routed_trigger_is_permitted [of "''option 2''" None choosing USER TUTOR_CHOSEN] by blast
qed

end
