(* ===== verification/Ownership.thy ===== *)
theory Ownership
  imports Prelude
begin

text \<open>
  contracts/ownership.py and the agent identifiers of contracts/envelope.py: who owns a
  conversation, how it is acquired and transferred, what the outbound path asks, and the
  capability call that moves no ownership. \<open>lease\<close> arguments are \<open>timedelta | None\<close>;
  a zero timedelta is false in Python, so it counts as none.
\<close>

section \<open>Agents and owners\<close>

datatype agent_id =
    AG_LEAD_INTAKE
  | AG_ONBOARDING
  | AG_TUTOR_MATCH
  | AG_DEMO_COMMAND_CENTER
  | AG_CHITRAGUPTA
  | AG_WEBSITE
  | AG_COUNSELOR
  | AG_CRM
  | AG_NOTIFICATION
  | AG_SCHEDULING
  | AG_HUMAN

fun agent_value :: "agent_id \<Rightarrow> string" where
  "agent_value AG_LEAD_INTAKE = ''lead_intake_agent''"
| "agent_value AG_ONBOARDING = ''onboarding_agent''"
| "agent_value AG_TUTOR_MATCH = ''tutor_match_meta''"
| "agent_value AG_DEMO_COMMAND_CENTER = ''demo_command_center_agent''"
| "agent_value AG_CHITRAGUPTA = ''chitragupta_memory''"
| "agent_value AG_WEBSITE = ''nxtutors_website''"
| "agent_value AG_COUNSELOR = ''counselor_agent''"
| "agent_value AG_CRM = ''crm_agent''"
| "agent_value AG_NOTIFICATION = ''notification_agent''"
| "agent_value AG_SCHEDULING = ''scheduling_agent''"
| "agent_value AG_HUMAN = ''human_operator''"

datatype owner =
    LEAD_INTAKE
  | TUTOR_MATCH
  | DEMO_COMMAND_CENTER
  | ONBOARDING
  | HUMAN
  | RELEASED

fun owner_value :: "owner \<Rightarrow> string" where
  "owner_value LEAD_INTAKE = ''lead_intake_agent''"
| "owner_value TUTOR_MATCH = ''tutor_match_meta''"
| "owner_value DEMO_COMMAND_CENTER = ''demo_command_center_agent''"
| "owner_value ONBOARDING = ''onboarding_agent''"
| "owner_value HUMAN = ''human_operator''"
| "owner_value RELEASED = ''released''"

definition all_owners :: "owner list" where
  "all_owners = [LEAD_INTAKE, TUTOR_MATCH, DEMO_COMMAND_CENTER, ONBOARDING, HUMAN, RELEASED]"

text \<open>\<open>Owner.from_agent\<close>: the owner with the agent's value, or a ValueError.\<close>

definition owner_from_agent :: "agent_id \<Rightarrow> string + owner" where
  "owner_from_agent a =
     (case find (\<lambda>w. owner_value w = agent_value a) all_owners of
        None \<Rightarrow> Inl (agent_value a @ '' is not a conversation owner'')
      | Some w \<Rightarrow> Inr w)"

definition SELF :: owner where
  "SELF = DEMO_COMMAND_CENTER"

definition ACCEPT_FROM :: "owner set" where
  "ACCEPT_FROM = {LEAD_INTAKE, RELEASED, HUMAN}"

definition TRANSFER_TO :: "owner set" where
  "TRANSFER_TO = {ONBOARDING, HUMAN, RELEASED}"

definition DEFAULT_LEASE :: duration where
  "DEFAULT_LEASE = hours 1"

lemmas owner_sets = SELF_def ACCEPT_FROM_def TRANSFER_TO_def

section \<open>The ownership record\<close>

record ownership =
  ow_conversation_ref :: ref
  ow_owner :: owner
  ow_since :: instant
  ow_lease_expires_at :: "instant option"
  ow_previous :: "owner list"

definition ow_expired :: "ownership \<Rightarrow> instant \<Rightarrow> bool" where
  "ow_expired ow now = (case ow_lease_expires_at ow of None \<Rightarrow> False | Some at \<Rightarrow> now \<ge> at)"

definition held_by_us :: "ownership \<Rightarrow> instant \<Rightarrow> bool" where
  "held_by_us ow now \<longleftrightarrow> ow_owner ow = SELF \<and> \<not> ow_expired ow now"

definition lease_until :: "instant \<Rightarrow> duration option \<Rightarrow> instant option" where
  "lease_until now lease =
     (case lease of None \<Rightarrow> None | Some d \<Rightarrow> if d = 0 then None else Some (now + d))"

definition acquire :: "ownership \<Rightarrow> instant \<Rightarrow> duration option \<Rightarrow> string + ownership" where
  "acquire ow now lease =
     (if ow_owner ow = SELF \<and> \<not> ow_expired ow now then Inr ow
      else if ow_owner ow \<notin> ACCEPT_FROM \<and> ow_owner ow \<noteq> SELF
        then Inl (''cannot take conversation from '' @ owner_value (ow_owner ow))
      else Inr \<lparr>ow_conversation_ref = ow_conversation_ref ow, ow_owner = SELF, ow_since = now,
                ow_lease_expires_at = lease_until now lease,
                ow_previous = last_n 8 (ow_previous ow @ [ow_owner ow])\<rparr>)"

definition transfer :: "ownership \<Rightarrow> owner \<Rightarrow> instant \<Rightarrow> duration option \<Rightarrow> string + ownership" where
  "transfer ow to now lease =
     (if ow_owner ow \<noteq> SELF
        then Inl (''cannot transfer a conversation owned by '' @ owner_value (ow_owner ow))
      else if to \<notin> TRANSFER_TO
        then Inl (''transfer to '' @ owner_value to @ '' is not permitted'')
      else Inr \<lparr>ow_conversation_ref = ow_conversation_ref ow, ow_owner = to, ow_since = now,
                ow_lease_expires_at = (if to = RELEASED then None else lease_until now lease),
                ow_previous = last_n 8 (ow_previous ow @ [SELF])\<rparr>)"

definition assert_may_send :: "ownership \<Rightarrow> instant \<Rightarrow> string + unit" where
  "assert_may_send ow now =
     (if \<not> held_by_us ow now
        then Inl (''not the conversation owner (owner='' @ owner_value (ow_owner ow) @
                  '', expired='' @ (if ow_expired ow now then ''True'' else ''False'') @ '')'')
      else Inr ())"

definition unowned :: "ref \<Rightarrow> instant \<Rightarrow> ownership" where
  "unowned c now = \<lparr>ow_conversation_ref = c, ow_owner = RELEASED, ow_since = now,
     ow_lease_expires_at = None, ow_previous = []\<rparr>"

lemmas ownership_ops =
  ow_expired_def held_by_us_def lease_until_def acquire_def transfer_def assert_may_send_def
  unowned_def

section \<open>Capability calls\<close>

record capability_call =
  cc_conversation_ref :: ref
  cc_callee :: agent_id
  cc_purpose :: string
  cc_trace_id :: ref
  cc_correlation_id :: ref
  cc_causation_id :: "ref option"
  cc_return_only :: bool

text \<open>The constructor's validator, then \<open>assert_return_only\<close>, which a transport calls.\<close>

definition new_capability_call :: "capability_call \<Rightarrow> string + capability_call" where
  "new_capability_call c =
     (if \<not> cc_return_only c
        then Inl ''a capability call may not authorise the callee to send''
      else Inr c)"

definition assert_return_only :: "capability_call \<Rightarrow> ownership \<Rightarrow> instant \<Rightarrow> string + unit" where
  "assert_return_only c ow now =
     and_then (assert_may_send ow now) (\<lambda>_.
       if \<not> cc_return_only c then Inl ''capability call lost its return_only flag'' else Inr ())"

section \<open>Ownership over time\<close>

text \<open>
  One ownership record under any sequence of acquisitions and transfers, each at its own
  time. An operation that raises leaves the stored record as it was.
\<close>

datatype ownership_op =
    Acquire instant "duration option"
  | Transfer owner instant "duration option"

fun apply_op :: "ownership \<Rightarrow> ownership_op \<Rightarrow> string + ownership" where
  "apply_op ow (Acquire now lease) = acquire ow now lease"
| "apply_op ow (Transfer to now lease) = transfer ow to now lease"

fun replay :: "ownership \<Rightarrow> ownership_op list \<Rightarrow> ownership" where
  "replay ow [] = ow"
| "replay ow (x # xs) = replay (case apply_op ow x of Inl _ \<Rightarrow> ow | Inr ow' \<Rightarrow> ow') xs"

definition our_side :: "ownership \<Rightarrow> bool" where
  "our_side ow \<longleftrightarrow>
     ow_owner ow \<in> insert SELF TRANSFER_TO \<and> length (ow_previous ow) \<le> 8 \<and>
     set (ow_previous ow) \<subseteq> {SELF, HUMAN, RELEASED}"

lemma apply_op_our_side [inv_intros]:
  assumes "our_side ow" and "apply_op ow x = Inr ow'"
  shows "our_side ow'"
proof -
  have keep: "set (last_n 8 (ow_previous ow @ [w])) \<subseteq> {SELF, HUMAN, RELEASED}"
    if "w \<in> {SELF, HUMAN, RELEASED}" for w
    using assms(1) that set_last_n [of 8 "ow_previous ow @ [w]"] by (auto simp: our_side_def)
  show ?thesis
  proof (cases x)
    case (Acquire now lease)
    with assms keep [of "ow_owner ow"] show ?thesis
      by (auto simp: our_side_def acquire_def owner_sets split: if_splits)
  next
    case (Transfer to now lease)
    with assms keep [of SELF] show ?thesis
      by (auto simp: our_side_def transfer_def owner_sets split: if_splits)
  qed
qed

lemma replay_our_side: "our_side ow \<Longrightarrow> our_side (replay ow xs)"
  by (induction ow xs rule: replay.induct) (auto dest: apply_op_our_side split: sum.splits)

lemma unowned_our_side: "our_side (unowned c now)"
  by (simp add: our_side_def unowned_def owner_sets)

text \<open>
  Whatever sequence of acquisitions and transfers a conversation goes through, from
  the record of a conversation nobody has claimed, it never belongs to Lead Intake or to
  Tutor Intelligence, and the audit trail keeps at most eight previous owners.
\<close>

theorem ownership_stays_on_our_side:
  "ow_owner (replay (unowned c now) xs) \<notin> {LEAD_INTAKE, TUTOR_MATCH} \<and>
   length (ow_previous (replay (unowned c now) xs)) \<le> 8"
  using replay_our_side [OF unowned_our_side, of c now xs]
  by (auto simp: our_side_def owner_sets)

text \<open>
  Acquiring a conversation we already hold returns the very same record, so a
  redelivered handoff leaves the audit trail alone; and a first acquisition from an
  acceptable owner with an indefinite or a positive lease lets us send at once.
\<close>

theorem acquire_idempotent:
  assumes "acquire ow now lease = Inr ow'"
    and "case lease of None \<Rightarrow> True | Some d \<Rightarrow> 0 \<le> d"
  shows "held_by_us ow' now \<and> assert_may_send ow' now = Inr () \<and>
         acquire ow' now lease' = Inr ow'"
  using assms by (auto simp: ownership_ops owner_sets split: if_splits option.splits)

theorem acquire_idempotent_witness:
  "held_by_us (unowned ''c'' 0\<lparr>ow_owner := SELF, ow_since := 5, ow_previous := [RELEASED]\<rparr>) 5"
proof -
  have "acquire (unowned ''c'' 0) 5 None =
      Inr (unowned ''c'' 0\<lparr>ow_owner := SELF, ow_since := 5, ow_previous := [RELEASED]\<rparr>)"
    by (simp add: ownership_ops owner_sets last_n_def)
  from acquire_idempotent [OF this] show ?thesis by simp
qed

text \<open>
  A transfer silences us: whoever the conversation goes to, we may not send at any
  later time, whatever the lease, until it is acquired again; and a conversation handed
  to Onboarding can be neither acquired nor transferred by us ever again, an expired
  lease included.
\<close>

theorem transfer_silences_us:
  assumes "transfer ow to now lease = Inr ow'"
  shows "\<not> held_by_us ow' later \<and> raises (assert_may_send ow' later) \<and>
         raises (assert_return_only call ow' later) \<and>
         (to = ONBOARDING \<longrightarrow> replay ow' xs = ow')"
proof -
  have fixed: "ow_owner w = ONBOARDING \<Longrightarrow> replay w xs = w" for w
  proof (induction w xs rule: replay.induct)
    case (2 w x xs)
    have "\<exists>e. apply_op w x = Inl e"
      using "2.prems" by (cases x) (auto simp: acquire_def transfer_def owner_sets)
    with 2 show ?case by auto
  qed simp
  have "ow_owner ow' = to" "to \<noteq> SELF"
    using assms by (auto simp: transfer_def owner_sets split: if_splits)
  with fixed show ?thesis
    by (auto simp: held_by_us_def assert_may_send_def assert_return_only_def)
qed

theorem transfer_silences_us_witness:
  "\<exists>ow'. transfer (unowned ''c'' 0\<lparr>ow_owner := SELF\<rparr>) ONBOARDING 7 (Some DEFAULT_LEASE) = Inr ow' \<and>
     \<not> held_by_us ow' (7 + 2 * DEFAULT_LEASE)"
proof -
  obtain ow' where t: "transfer (unowned ''c'' 0\<lparr>ow_owner := SELF\<rparr>) ONBOARDING 7
      (Some DEFAULT_LEASE) = Inr ow'"
    by (simp add: transfer_def unowned_def owner_sets)
  from transfer_silences_us [OF t] t show ?thesis by blast
qed

end
