(* ===== verification/Conversations.thy ===== *)
theory Conversations
  imports MachineRuns Ownership
begin

text \<open>
  The conversation repositories: \<open>InMemoryConversationRepository\<close>
  (storage/memory/conversations.py) and \<open>PgConversationRepository\<close>
  (storage/postgres/repositories.py). Both promise optimistic locking, stated as the locale
  \<open>versioned_store\<close>. On top of it, any number of workers that read, fire the machine on what they
  read and try to save are a system of interleaved steps; the contract makes every such system
  follow the state machine one committed transition at a time.

  The fresh transition id (\<open>new_ulid\<close>) is an argument. The lock of the memory store and the
  transaction of the other make every save one atomic step.
\<close>

datatype conflict = ConcurrencyConflict ref (cc_expected: int) (cc_actual: int)

definition blank_snapshot :: "ref \<Rightarrow> snapshot" where
  "blank_snapshot c = \<lparr>sn_conversation_ref = c, sn_state = NEW, sn_version = 0, sn_demo_id = None,
     sn_updated_at = None, sn_facts = Map.empty\<rparr>"

text \<open>\<open>facts.get("demo_id", default)\<close>; the code stores a string or None under that name.\<close>

fun as_ref :: "fact_value \<Rightarrow> ref option" where
  "as_ref (FStr s) = Some s"
| "as_ref _ = None"

definition demo_id_fact :: "facts \<Rightarrow> ref option \<Rightarrow> ref option" where
  "demo_id_fact f dflt = (case f ''demo_id'' of None \<Rightarrow> dflt | Some v \<Rightarrow> as_ref v)"

text \<open>\<open>facts or {}\<close>.\<close>

definition facts_or_empty :: "facts option \<Rightarrow> facts" where
  "facts_or_empty f = (case f of None \<Rightarrow> Map.empty | Some g \<Rightarrow> g)"

record history_entry =
  he_id :: ref
  he_from :: demo_state
  he_to :: demo_state
  he_trigger :: trigger
  he_actor :: actor
  he_command :: command
  he_reason :: string
  he_version :: int
  he_occurred_at :: instant

definition new_history_entry :: "transition_result \<Rightarrow> int \<Rightarrow> ref \<Rightarrow> instant \<Rightarrow> history_entry" where
  "new_history_entry r version ulid now =
     \<lparr>he_id = ulid, he_from = from_state r, he_to = to_state r, he_trigger = tr_trigger r,
      he_actor = tr_actor r, he_command = tr_command r, he_reason = tr_reason r,
      he_version = version, he_occurred_at = now\<rparr>"

section \<open>The memory repository\<close>

record mem_convs =
  mc_states :: "(ref, snapshot) odict"
  mc_history :: "(ref, history_entry list) odict"
  mc_ownership :: "(ref, ownership) odict"
  mc_last_inbound :: "(ref, instant) odict"

definition mem_load :: "mem_convs \<Rightarrow> ref \<Rightarrow> snapshot" where
  "mem_load s c = (case dict_get (mc_states s) c of None \<Rightarrow> blank_snapshot c | Some sn \<Rightarrow> sn)"

definition mem_save_transition ::
  "mem_convs \<Rightarrow> transition_result \<Rightarrow> instant \<Rightarrow> ref \<Rightarrow> facts option
     \<Rightarrow> (conflict + snapshot) \<times> mem_convs" where
  "mem_save_transition s r now ulid facts =
     (let c = tr_conversation_ref r; current = mem_load s c
      in if sn_version current \<noteq> expected_version r
         then (Inl (ConcurrencyConflict c (expected_version r) (sn_version current)), s)
         else (let updated =
                 \<lparr>sn_conversation_ref = c, sn_state = to_state r, sn_version = sn_version current + 1,
                  sn_demo_id = demo_id_fact (facts_or_empty facts) (sn_demo_id current),
                  sn_updated_at = Some now,
                  sn_facts = sn_facts current ++ facts_or_empty facts\<rparr>;
               past = (case dict_get (mc_history s) c of None \<Rightarrow> [] | Some h \<Rightarrow> h)
               in (Inr updated,
                   s\<lparr>mc_states := dict_set (mc_states s) c updated,
                     mc_history := dict_set (mc_history s) c
                       (past @ [new_history_entry r (sn_version updated) ulid now])\<rparr>)))"

text \<open>\<open>list(...)[-limit:]\<close>; a limit of zero gives the whole list.\<close>

definition mem_history :: "mem_convs \<Rightarrow> ref \<Rightarrow> nat \<Rightarrow> history_entry list" where
  "mem_history s c limit =
     (let h = (case dict_get (mc_history s) c of None \<Rightarrow> [] | Some h \<Rightarrow> h)
      in if limit = 0 then h else last_n limit h)"

definition mem_load_ownership :: "mem_convs \<Rightarrow> ref \<Rightarrow> instant \<Rightarrow> ownership" where
  "mem_load_ownership s c now =
     (case dict_get (mc_ownership s) c of None \<Rightarrow> unowned c now | Some ow \<Rightarrow> ow)"

definition mem_save_ownership :: "mem_convs \<Rightarrow> ownership \<Rightarrow> mem_convs" where
  "mem_save_ownership s ow =
     s\<lparr>mc_ownership := dict_set (mc_ownership s) (ow_conversation_ref ow) ow\<rparr>"

definition mem_touch_inbound :: "mem_convs \<Rightarrow> ref \<Rightarrow> instant \<Rightarrow> mem_convs" where
  "mem_touch_inbound s c at = s\<lparr>mc_last_inbound := dict_set (mc_last_inbound s) c at\<rparr>"

definition mem_last_inbound_at :: "mem_convs \<Rightarrow> ref \<Rightarrow> instant option" where
  "mem_last_inbound_at s c = dict_get (mc_last_inbound s) c"

section \<open>The Postgres repository\<close>

record conv_row =
  cr_state :: demo_state
  cr_version :: int
  cr_demo_id :: "ref option"
  cr_updated_at :: instant
  cr_facts :: facts

record owner_row =
  wr_owner :: owner
  wr_since :: instant
  wr_lease_expires_at :: "instant option"
  wr_previous :: "owner list"
  wr_last_inbound_at :: "instant option"

record pg_convs =
  pc_state :: "(ref, conv_row) odict"
  pc_transitions :: "(ref \<times> history_entry) list"
  pc_conversations :: "(ref, owner_row) odict"

definition pg_load :: "pg_convs \<Rightarrow> ref \<Rightarrow> snapshot" where
  "pg_load db c =
     (case dict_get (pc_state db) c of
        None \<Rightarrow> blank_snapshot c
      | Some row \<Rightarrow> \<lparr>sn_conversation_ref = c, sn_state = cr_state row, sn_version = cr_version row,
                     sn_demo_id = cr_demo_id row, sn_updated_at = Some (cr_updated_at row),
                     sn_facts = cr_facts row\<rparr>)"

text \<open>The INSERT when version 0 was read, else the guarded UPDATE; None when no row came back.\<close>

definition pg_write_state ::
  "pg_convs \<Rightarrow> transition_result \<Rightarrow> instant \<Rightarrow> facts \<Rightarrow> conv_row option" where
  "pg_write_state db r now merged =
     (case dict_get (pc_state db) (tr_conversation_ref r) of
        None \<Rightarrow>
          if expected_version r = 0
          then Some \<lparr>cr_state = to_state r, cr_version = 1, cr_demo_id = demo_id_fact merged None,
                     cr_updated_at = now, cr_facts = merged\<rparr>
          else None
      | Some row \<Rightarrow>
          if expected_version r = 0 \<or> cr_version row \<noteq> expected_version r then None
          else Some \<lparr>cr_state = to_state r, cr_version = cr_version row + 1,
                     cr_demo_id = (case demo_id_fact merged None of
                                     None \<Rightarrow> cr_demo_id row | Some d \<Rightarrow> Some d),
                     cr_updated_at = now, cr_facts = cr_facts row ++ merged\<rparr>)"

definition pg_save_transition ::
  "pg_convs \<Rightarrow> transition_result \<Rightarrow> instant \<Rightarrow> ref \<Rightarrow> facts option
     \<Rightarrow> (conflict + snapshot) \<times> pg_convs" where
  "pg_save_transition db r now ulid facts =
     (let c = tr_conversation_ref r; merged = facts_or_empty facts
      in case pg_write_state db r now merged of
           None \<Rightarrow> (Inl (ConcurrencyConflict c (expected_version r) (sn_version (pg_load db c))), db)
         | Some row \<Rightarrow>
             (Inr \<lparr>sn_conversation_ref = c, sn_state = to_state r, sn_version = cr_version row,
                   sn_demo_id = demo_id_fact merged None, sn_updated_at = Some now,
                   sn_facts = merged\<rparr>,
              db\<lparr>pc_state := dict_set (pc_state db) c row,
                 pc_transitions := pc_transitions db @ [(c, new_history_entry r (cr_version row) ulid now)]\<rparr>))"

definition pg_trail :: "pg_convs \<Rightarrow> ref \<Rightarrow> history_entry list" where
  "pg_trail db c = map snd (filter (\<lambda>(c', h). c' = c) (pc_transitions db))"

definition pg_history :: "pg_convs \<Rightarrow> ref \<Rightarrow> nat \<Rightarrow> history_entry list" where
  "pg_history db c limit =
     take limit (sort_key (\<lambda>h. - he_occurred_at h) (pg_trail db c))"

definition pg_load_ownership :: "pg_convs \<Rightarrow> ref \<Rightarrow> instant \<Rightarrow> ownership" where
  "pg_load_ownership db c now =
     (case dict_get (pc_conversations db) c of
        None \<Rightarrow> unowned c now
      | Some row \<Rightarrow> \<lparr>ow_conversation_ref = c, ow_owner = wr_owner row, ow_since = wr_since row,
                     ow_lease_expires_at = wr_lease_expires_at row, ow_previous = wr_previous row\<rparr>)"

definition pg_save_ownership :: "pg_convs \<Rightarrow> ownership \<Rightarrow> pg_convs" where
  "pg_save_ownership db ow =
     db\<lparr>pc_conversations := dict_set (pc_conversations db) (ow_conversation_ref ow)
          \<lparr>wr_owner = ow_owner ow, wr_since = ow_since ow,
           wr_lease_expires_at = ow_lease_expires_at ow, wr_previous = ow_previous ow,
           wr_last_inbound_at =
             (case dict_get (pc_conversations db) (ow_conversation_ref ow) of
                None \<Rightarrow> None | Some row \<Rightarrow> wr_last_inbound_at row)\<rparr>\<rparr>"

definition pg_touch_inbound :: "pg_convs \<Rightarrow> ref \<Rightarrow> instant \<Rightarrow> pg_convs" where
  "pg_touch_inbound db c at =
     db\<lparr>pc_conversations := dict_set (pc_conversations db) c
          (case dict_get (pc_conversations db) c of
             None \<Rightarrow> \<lparr>wr_owner = RELEASED, wr_since = at, wr_lease_expires_at = None,
                      wr_previous = [], wr_last_inbound_at = Some at\<rparr>
           | Some row \<Rightarrow> row\<lparr>wr_last_inbound_at := Some at\<rparr>)\<rparr>"

definition pg_last_inbound_at :: "pg_convs \<Rightarrow> ref \<Rightarrow> instant option" where
  "pg_last_inbound_at db c =
     (case dict_get (pc_conversations db) c of None \<Rightarrow> None | Some row \<Rightarrow> wr_last_inbound_at row)"

lemma ownership_roundtrip:
  "mem_load_ownership (mem_save_ownership s ow) (ow_conversation_ref ow) now = ow"
  "pg_load_ownership (pg_save_ownership db ow) (ow_conversation_ref ow) now = ow"
  by (simp_all add: mem_load_ownership_def mem_save_ownership_def pg_load_ownership_def
      pg_save_ownership_def)

lemma inbound_roundtrip:
  "mem_last_inbound_at (mem_touch_inbound s c at) c' = (if c' = c then Some at else mem_last_inbound_at s c')"
  "pg_last_inbound_at (pg_touch_inbound db c at) c' = (if c' = c then Some at else pg_last_inbound_at db c')"
  by (auto simp: mem_last_inbound_at_def mem_touch_inbound_def pg_last_inbound_at_def
      pg_touch_inbound_def split: option.splits)

section \<open>Workers over a repository\<close>

text \<open>
  The system of all workers on one conversation \<open>c\<close>. A worker reads the stored snapshot, fires the
  machine on a snapshot it or another worker read at any earlier time, and tries to save; saves on
  other conversations happen in between. \<open>seen\<close> collects every snapshot handed out so far, and the
  events are those of the committed transitions.
\<close>

type_synonym 's save_op = "'s \<Rightarrow> transition_result \<Rightarrow> instant \<Rightarrow> ref \<Rightarrow> facts option \<Rightarrow> (conflict + snapshot) \<times> 's"

inductive workers ::
  "('s \<Rightarrow> ref \<Rightarrow> snapshot) \<Rightarrow> 's save_op \<Rightarrow> ref \<Rightarrow> 's \<Rightarrow> 's \<Rightarrow> snapshot set \<Rightarrow> event list \<Rightarrow> bool"
  for load save c s0 where
  start: "workers load save c s0 s0 {} []"
| read: "workers load save c s0 s seen es \<Longrightarrow>
     workers load save c s0 s (insert (load s c) seen) es"
| commit: "workers load save c s0 s seen es \<Longrightarrow> sn \<in> seen \<Longrightarrow> fire sn tr a fs = Inr r \<Longrightarrow>
     save s r now ulid f = (Inr sn', s') \<Longrightarrow>
     workers load save c s0 s' (insert sn' seen)
       (es @ [\<lparr>ev_trigger = tr, ev_actor = a, ev_facts = sn_facts sn ++ fs\<rparr>])"
| lost: "workers load save c s0 s seen es \<Longrightarrow> sn \<in> seen \<Longrightarrow> fire sn tr a fs = Inr r \<Longrightarrow>
     save s r now ulid f = (Inl e, s') \<Longrightarrow> workers load save c s0 s' seen es"
| elsewhere: "workers load save c s0 s seen es \<Longrightarrow> tr_conversation_ref r \<noteq> c \<Longrightarrow>
     save s r now ulid f = (res, s') \<Longrightarrow> workers load save c s0 s' seen es"

lemma fire_frame:
  assumes "fire sn tr a fs = Inr r"
  shows "tr_conversation_ref r = sn_conversation_ref sn \<and> expected_version r = sn_version sn \<and>
    from_state r = sn_state sn"
  using assms unfolding fire_Inr_iff by auto

section \<open>The contract\<close>

locale versioned_store =
  fixes load :: "'s \<Rightarrow> ref \<Rightarrow> snapshot"
    and save :: "'s save_op"
    and trail :: "'s \<Rightarrow> ref \<Rightarrow> history_entry list"
    and inv :: "'s \<Rightarrow> bool"
  assumes load_ref: "inv s \<Longrightarrow> sn_conversation_ref (load s c) = c"
    and save_inv: "inv s \<Longrightarrow> inv (snd (save s r now ulid f))"
    and save_wins_iff: "inv s \<Longrightarrow> \<not> raises (fst (save s r now ulid f)) \<longleftrightarrow>
          expected_version r = sn_version (load s (tr_conversation_ref r))"
    and save_lost: "save s r now ulid f = (Inl e, s') \<Longrightarrow>
          s' = s \<and> e = ConcurrencyConflict (tr_conversation_ref r) (expected_version r)
                        (sn_version (load s (tr_conversation_ref r)))"
    and save_won: "inv s \<Longrightarrow> save s r now ulid f = (Inr sn, s') \<Longrightarrow>
          sn_state (load s' (tr_conversation_ref r)) = to_state r \<and>
          sn_version (load s' (tr_conversation_ref r)) = expected_version r + 1 \<and>
          sn_conversation_ref sn = tr_conversation_ref r \<and> sn_state sn = to_state r \<and>
          sn_version sn = expected_version r + 1"
    and save_elsewhere: "c \<noteq> tr_conversation_ref r \<Longrightarrow> load (snd (save s r now ulid f)) c = load s c"
    and trail_won: "inv s \<Longrightarrow> save s r now ulid f = (Inr sn, s') \<Longrightarrow>
          trail s' (tr_conversation_ref r) = trail s (tr_conversation_ref r)
            @ [new_history_entry r (expected_version r + 1) ulid now]"
    and trail_elsewhere: "c \<noteq> tr_conversation_ref r \<Longrightarrow> trail (snd (save s r now ulid f)) c = trail s c"
begin

text \<open>Two workers that read the same version: when one has saved, the other is told so.\<close>

lemma second_save_conflicts:
  assumes "inv s" and "save s r now ulid f = (Inr sn, s')"
    and "tr_conversation_ref q = tr_conversation_ref r" and "expected_version q = expected_version r"
  shows "save s' q now' ulid' f' =
    (Inl (ConcurrencyConflict (tr_conversation_ref r) (expected_version r) (expected_version r + 1)), s')"
proof -
  have v: "sn_version (load s' (tr_conversation_ref r)) = expected_version r + 1"
    using save_won [OF assms(1,2)] by simp
  have "inv s'" using save_inv [OF assms(1), of r now ulid f] assms(2) by simp
  then have "raises (fst (save s' q now' ulid' f'))"
    using save_wins_iff [of s' q] v assms(3,4) by simp
  then obtain e s'' where es: "save s' q now' ulid' f' = (Inl e, s'')"
    by (cases "save s' q now' ulid' f'"; cases "fst (save s' q now' ulid' f')") auto
  show ?thesis using save_lost [OF es] es v assms(3,4) by simp
qed

lemma workers_inv:
  assumes "workers load save c s0 s seen es" and "inv s0"
  shows "inv s \<and> sn_version (load s c) = sn_version (load s0 c) + int (length es) \<and>
    run (sn_state (load s0 c)) es (sn_state (load s c)) \<and>
    (\<forall>sn\<in>seen. sn_conversation_ref sn = c \<and> sn_version sn \<le> sn_version (load s c) \<and>
       (sn_version sn = sn_version (load s c) \<longrightarrow> sn_state sn = sn_state (load s c)))"
  using assms
proof (induction rule: workers.induct)
  case start
  then show ?case by (simp add: run_nil)
next
  case (read s seen es)
  then show ?case using load_ref by auto
next
  case (commit s seen es sn tr a fs r now ulid f sn' s')
  let ?e = "\<lparr>ev_trigger = tr, ev_actor = a, ev_facts = sn_facts sn ++ fs\<rparr>"
  note IH = commit.IH [OF commit.prems]
  have r: "tr_conversation_ref r = c" "expected_version r = sn_version sn"
    using fire_frame [OF commit.hyps(3)] IH commit.hyps(2) by auto
  have "\<not> raises (fst (save s r now ulid f))" using commit.hyps(4) by simp
  then have v: "sn_version sn = sn_version (load s c)"
    using save_wins_iff [of s r now ulid f] IH r by simp
  then have "sn_state sn = sn_state (load s c)" using IH commit.hyps(2) by blast
  then have "step (sn_state (load s c)) ?e (to_state r)"
    using fired [OF commit.hyps(3)] by simp
  then have "run (sn_state (load s0 c)) (es @ [?e]) (to_state r)"
    using IH run_snoc by blast
  moreover have "inv s'" using save_inv [of s r now ulid f] IH commit.hyps(4) by simp
  ultimately show ?case
    using save_won [OF conjunct1 [OF IH] commit.hyps(4)] IH v r by fastforce
next
  case (lost s seen es sn tr a fs r now ulid f e s')
  then show ?case using save_lost by blast
next
  case (elsewhere s seen es r now ulid f res s')
  then show ?case
    using save_elsewhere [of c r s now ulid f] save_inv [of s r now ulid f] by auto
qed

text \<open>The audit trail of a conversation lists the committed events, numbered by version.\<close>

lemma workers_trail:
  assumes "workers load save c s0 s seen es" and "inv s0" and "trail s0 c = []"
    and "sn_version (load s0 c) = 0"
  shows "map (\<lambda>h. (he_trigger h, he_actor h)) (trail s c) = map (\<lambda>e. (ev_trigger e, ev_actor e)) es \<and>
    map he_version (trail s c) = map int [1..<Suc (length es)]"
  using assms
proof (induction rule: workers.induct)
  case (commit s seen es sn tr a fs r now ulid f sn' s')
  have W: "workers load save c s0 s seen es" by fact
  note I = workers_inv [OF W commit.prems(1)] and IH = commit.IH [OF commit.prems]
  have "\<not> raises (fst (save s r now ulid f))" using commit.hyps(4) by simp
  then have v: "tr_conversation_ref r = c" "expected_version r = int (length es)"
    using save_wins_iff [of s r now ulid f] I fire_frame [OF commit.hyps(3)] commit.hyps(2)
      commit.prems(3) by auto
  have t: "tr_trigger r = tr" "tr_actor r = a"
    using commit.hyps(3) unfolding fire_Inr_iff by auto
  show ?case
    using trail_won [OF conjunct1 [OF I] commit.hyps(4)] v t IH by (simp add: new_history_entry_def)
next
  case (lost s seen es sn tr a fs r now ulid f e s')
  then show ?case using save_lost by blast
next
  case (elsewhere s seen es r now ulid f res s')
  then show ?case using trail_elsewhere [of c r s now ulid f] by simp
qed simp_all

end

definition mem_convs_inv :: "mem_convs \<Rightarrow> bool" where
  "mem_convs_inv s \<longleftrightarrow> (\<forall>c sn. dict_get (mc_states s) c = Some sn \<longrightarrow> sn_conversation_ref sn = c)"

definition pg_convs_inv :: "pg_convs \<Rightarrow> bool" where
  "pg_convs_inv db \<longleftrightarrow> (\<forall>c row. dict_get (pc_state db) c = Some row \<longrightarrow> cr_version row \<ge> 1)"

interpretation mem_convs: versioned_store mem_load mem_save_transition "\<lambda>s c. mem_history s c 0"
  mem_convs_inv
  by unfold_locales
    (auto simp: mem_convs_inv_def mem_save_transition_def mem_load_def Let_def blank_snapshot_def
      mem_history_def
      split: option.splits if_splits)

interpretation pg_convs: versioned_store pg_load pg_save_transition pg_trail pg_convs_inv
  by unfold_locales
    (auto simp: pg_convs_inv_def pg_save_transition_def pg_write_state_def pg_load_def Let_def
      blank_snapshot_def pg_trail_def split: option.splits if_splits, fastforce+)

section \<open>What the repositories guarantee\<close>

definition mem_convs_init :: mem_convs where
  "mem_convs_init = \<lparr>mc_states = [], mc_history = [], mc_ownership = [], mc_last_inbound = []\<rparr>"

definition pg_convs_init :: pg_convs where
  "pg_convs_init = \<lparr>pc_state = [], pc_transitions = [], pc_conversations = []\<rparr>"

lemma mem_init_facts: "mem_convs_inv mem_convs_init" "mem_load mem_convs_init c = blank_snapshot c"
  by (simp_all add: mem_convs_inv_def mem_convs_init_def mem_load_def)

lemma pg_init_facts: "pg_convs_inv pg_convs_init" "pg_load pg_convs_init c = blank_snapshot c"
  by (simp_all add: pg_convs_inv_def pg_convs_init_def pg_load_def)

lemma blank_simps [simp]: "sn_state (blank_snapshot c) = NEW" "sn_version (blank_snapshot c) = 0"
  "sn_conversation_ref (blank_snapshot c) = c"
  by (simp_all add: blank_snapshot_def)

lemma trail_init: "mem_history mem_convs_init c 0 = []" "pg_trail pg_convs_init c = []"
  by (simp_all add: mem_history_def mem_convs_init_def pg_trail_def pg_convs_init_def Let_def)

text \<open>A worker that reads a new conversation, fires the handoff and saves, in either store.\<close>

definition sample_result :: transition_result where
  "sample_result = result_for (blank_snapshot ''c'') (hd INTAKE_ROWS) HANDOFF_RECEIVED AGENT"

definition sample_event :: event where
  "sample_event = \<lparr>ev_trigger = HANDOFF_RECEIVED, ev_actor = AGENT, ev_facts = Map.empty\<rparr>"

lemma sample_fires: "fire (blank_snapshot ''c'') HANDOFF_RECEIVED AGENT Map.empty = Inr sample_result"
  unfolding fire_Inr_iff sample_result_def
  by (rule bexI [of _ "hd INTAKE_ROWS"])
    (simp_all add: TRANSITIONS_def INTAKE_ROWS_def run_guard_def)

lemma sample_workers:
  "\<exists>s seen. workers mem_load mem_save_transition ''c'' mem_convs_init s seen [sample_event]"
  "\<exists>db seen. workers pg_load pg_save_transition ''c'' pg_convs_init db seen [sample_event]"
proof -
  have r: "tr_conversation_ref sample_result = ''c''" "expected_version sample_result = 0"
    using fire_frame [OF sample_fires] by simp_all
  have ev: "\<lparr>ev_trigger = HANDOFF_RECEIVED, ev_actor = AGENT,
      ev_facts = sn_facts (blank_snapshot ''c'') ++ Map.empty\<rparr> = sample_event"
    by (simp add: sample_event_def blank_snapshot_def)
  have M: "workers mem_load mem_save_transition ''c'' mem_convs_init mem_convs_init
      {blank_snapshot ''c''} []"
    using workers.read [OF workers.start, of mem_load mem_save_transition "''c''" mem_convs_init]
    by (simp add: mem_init_facts)
  obtain sn s' where "mem_save_transition mem_convs_init sample_result 1 ''t'' None = (Inr sn, s')"
    using r by (simp add: mem_save_transition_def Let_def mem_init_facts)
  from workers.commit [OF M _ sample_fires this]
  show "\<exists>s seen. workers mem_load mem_save_transition ''c'' mem_convs_init s seen [sample_event]"
    unfolding ev by auto
  have P: "workers pg_load pg_save_transition ''c'' pg_convs_init pg_convs_init
      {blank_snapshot ''c''} []"
    using workers.read [OF workers.start, of pg_load pg_save_transition "''c''" pg_convs_init]
    by (simp add: pg_init_facts)
  obtain sn db' where "pg_save_transition pg_convs_init sample_result 1 ''t'' None = (Inr sn, db')"
    using r by (simp add: pg_save_transition_def pg_write_state_def Let_def pg_convs_init_def)
  from workers.commit [OF P _ sample_fires this]
  show "\<exists>db seen. workers pg_load pg_save_transition ''c'' pg_convs_init db seen [sample_event]"
    unfolding ev by auto
qed

text \<open>(C2) Refinement of the state machine by the repositories: start from an empty store, memory
  or Postgres, and let any number of workers read, fire on stale or fresh snapshots and save, in any
  interleaving. The stored state is reached from NEW by a run of the machine whose steps are exactly
  the committed transitions, and the stored version counts them: no update is lost, and none is
  applied to a state it was not decided on.\<close>

theorem workers_follow_the_machine:
  assumes "workers mem_load mem_save_transition c mem_convs_init s seen es"
    and "workers pg_load pg_save_transition d pg_convs_init db seen' es'"
  shows "run NEW es (sn_state (mem_load s c)) \<and> sn_version (mem_load s c) = int (length es) \<and>
    run NEW es' (sn_state (pg_load db d)) \<and> sn_version (pg_load db d) = int (length es')"
  using mem_convs.workers_inv [OF assms(1) mem_init_facts(1)]
    pg_convs.workers_inv [OF assms(2) pg_init_facts(1)]
  by (simp add: mem_init_facts pg_init_facts)

theorem workers_follow_the_machine_witness:
  "\<exists>s seen. workers mem_load mem_save_transition ''c'' mem_convs_init s seen [sample_event] \<and>
     run NEW [sample_event] (sn_state (mem_load s ''c'')) \<and> sn_version (mem_load s ''c'') = 1"
proof -
  obtain s seen db seen'
    where w: "workers mem_load mem_save_transition ''c'' mem_convs_init s seen [sample_event]"
      "workers pg_load pg_save_transition ''c'' pg_convs_init db seen' [sample_event]"
    using sample_workers by blast
  show ?thesis using workers_follow_the_machine [OF w] w(1) by auto
qed

text \<open>The audit trail is complete: under any interleaving of workers, the rows kept for a
  conversation are the committed transitions in order, with their trigger and actor, and their
  versions are 1, 2, ... without a gap.\<close>

theorem audit_trail_is_complete:
  assumes "workers mem_load mem_save_transition c mem_convs_init s seen es"
    and "workers pg_load pg_save_transition d pg_convs_init db seen' es'"
  shows "map (\<lambda>h. (he_trigger h, he_actor h)) (mem_history s c 0) = map (\<lambda>e. (ev_trigger e, ev_actor e)) es \<and>
    map he_version (mem_history s c 0) = map int [1..<Suc (length es)] \<and>
    map (\<lambda>h. (he_trigger h, he_actor h)) (pg_trail db d) = map (\<lambda>e. (ev_trigger e, ev_actor e)) es' \<and>
    map he_version (pg_trail db d) = map int [1..<Suc (length es')]"
  using mem_convs.workers_trail [OF assms(1) mem_init_facts(1)]
    pg_convs.workers_trail [OF assms(2) pg_init_facts(1)]
  by (simp add: mem_init_facts pg_init_facts trail_init)

theorem audit_trail_is_complete_witness:
  "\<exists>s. map (\<lambda>h. (he_trigger h, he_actor h)) (mem_history s ''c'' 0) = [(HANDOFF_RECEIVED, AGENT)] \<and>
     map he_version (mem_history s ''c'' 0) = [1]"
proof -
  obtain s seen db seen'
    where w: "workers mem_load mem_save_transition ''c'' mem_convs_init s seen [sample_event]"
      "workers pg_load pg_save_transition ''c'' pg_convs_init db seen' [sample_event]"
    using sample_workers by blast
  show ?thesis
    using audit_trail_is_complete [OF w] by (intro exI [of _ s]) (simp add: sample_event_def)
qed

text \<open>Two workers decide on the same version of a conversation. In either store, once one has
  saved, the other's save fails with the version it expected and the version it found, and changes
  nothing.\<close>

theorem stale_save_conflicts:
  assumes "tr_conversation_ref q = tr_conversation_ref r" and "expected_version q = expected_version r"
    and "mem_convs_inv s" and "mem_save_transition s r now ulid f = (Inr sn, s')"
    and "pg_convs_inv db" and "pg_save_transition db r now ulid f = (Inr sn', db')"
  shows "mem_save_transition s' q now' ulid' f' =
      (Inl (ConcurrencyConflict (tr_conversation_ref r) (expected_version r) (expected_version r + 1)), s')
    \<and> pg_save_transition db' q now' ulid' f' =
      (Inl (ConcurrencyConflict (tr_conversation_ref r) (expected_version r) (expected_version r + 1)), db')"
  using mem_convs.second_save_conflicts [OF assms(3,4,1,2)]
    pg_convs.second_save_conflicts [OF assms(5,6,1,2)] by simp

theorem stale_save_conflicts_witness:
  "\<exists>s' sn. mem_save_transition mem_convs_init sample_result 1 ''t'' None = (Inr sn, s') \<and>
     fst (mem_save_transition s' sample_result 2 ''u'' None) = Inl (ConcurrencyConflict ''c'' 0 1)"
proof -
  have r: "tr_conversation_ref sample_result = ''c''" "expected_version sample_result = 0"
    using fire_frame [OF sample_fires] by simp_all
  obtain sn s' where m: "mem_save_transition mem_convs_init sample_result 1 ''t'' None = (Inr sn, s')"
    using r by (simp add: mem_save_transition_def Let_def mem_init_facts)
  obtain sn' db' where p: "pg_save_transition pg_convs_init sample_result 1 ''t'' None = (Inr sn', db')"
    using r by (simp add: pg_save_transition_def pg_write_state_def Let_def pg_convs_init_def)
  show ?thesis
    using stale_save_conflicts [OF refl refl mem_init_facts(1) m pg_init_facts(1) p, of 2 "''u''" None]
      m r by simp
qed

text \<open>The snapshot a save hands back is the stored one in memory, but not in Postgres: there it
  carries only the facts of this turn and the demo id only if this turn named it, although the row
  keeps the earlier ones.\<close>

theorem pg_save_returns_partial_snapshot:
  assumes "mem_save_transition s r now ulid f = (Inr sn, s')"
    and "pg_save_transition db r now ulid f = (Inr sn', db')"
    and "expected_version r \<noteq> 0"
  shows "sn = mem_load s' (tr_conversation_ref r) \<and>
    sn_facts (pg_load db' (tr_conversation_ref r))
      = sn_facts (pg_load db (tr_conversation_ref r)) ++ facts_or_empty f \<and>
    sn_facts sn' = facts_or_empty f \<and> sn_demo_id sn' = demo_id_fact (facts_or_empty f) None"
  using assms
  by (auto simp: mem_save_transition_def mem_load_def pg_save_transition_def pg_write_state_def
      pg_load_def Let_def split: option.splits if_splits)

theorem pg_save_returns_partial_snapshot_witness:
  "let f = [''hold_id'' \<mapsto> FStr ''h1''];
       db = \<lparr>pc_state = [(''c'', \<lparr>cr_state = SLOT_HELD, cr_version = 4, cr_demo_id = Some ''d1'',
              cr_updated_at = 0, cr_facts = f\<rparr>)], pc_transitions = [], pc_conversations = []\<rparr>
   in \<exists>sn db'. pg_save_transition db (sample_result\<lparr>expected_version := 4\<rparr>) 1 ''t'' None = (Inr sn, db') \<and>
        sn_facts (pg_load db' ''c'') = f \<and> sn_facts sn = Map.empty \<and> sn_demo_id sn = None"
proof -
  let ?f = "[''hold_id'' \<mapsto> FStr ''h1'']" and ?r = "sample_result\<lparr>expected_version := 4\<rparr>"
  let ?db = "\<lparr>pc_state = [(''c'', \<lparr>cr_state = SLOT_HELD, cr_version = 4, cr_demo_id = Some ''d1'',
              cr_updated_at = 0, cr_facts = ?f\<rparr>)], pc_transitions = [], pc_conversations = []\<rparr>"
  let ?s = "mem_convs_init\<lparr>mc_states := [(''c'', (blank_snapshot ''c'')\<lparr>sn_version := 4\<rparr>)]\<rparr>"
  have r: "tr_conversation_ref sample_result = ''c''"
    using fire_frame [OF sample_fires] by simp
  obtain sn s' where m: "mem_save_transition ?s ?r 1 ''t'' None = (Inr sn, s')"
    using r by (simp add: mem_save_transition_def Let_def mem_load_def)
  obtain sn' db' where p: "pg_save_transition ?db ?r 1 ''t'' None = (Inr sn', db')"
    using r by (simp add: pg_save_transition_def pg_write_state_def Let_def)
  have "pg_load ?db ''c'' = \<lparr>sn_conversation_ref = ''c'', sn_state = SLOT_HELD, sn_version = 4,
      sn_demo_id = Some ''d1'', sn_updated_at = Some 0, sn_facts = ?f\<rparr>"
    by (simp add: pg_load_def)
  then show ?thesis
    using pg_save_returns_partial_snapshot [OF m p] r p
    by (simp add: Let_def facts_or_empty_def demo_id_fact_def)
qed

end
