(* ===== verification/DeliveryStores.thy ===== *)
theory DeliveryStores
  imports Claims Messages
begin

text \<open>
  The stores that make redelivery harmless: idempotency keys, the transactional outbox and the
  message log, in memory (storage/memory/conversations.py, storage/memory/demos.py) and in
  Postgres (storage/postgres/repositories.py). The asyncio lock and the single SQL statement make
  each operation one atomic step. Identifiers from \<open>new_ulid\<close> are arguments. Results and payloads
  are dictionaries with values of any type.
\<close>

section \<open>Idempotency keys\<close>

type_synonym bucket = "string \<times> string"

record 'v mem_idem =
  mi_claims :: "(bucket, instant) odict"
  mi_results :: "(bucket, (string, 'v) odict) odict"

definition mem_idem_claim :: "'v mem_idem \<Rightarrow> bucket \<Rightarrow> instant \<Rightarrow> int \<Rightarrow> bool \<times> 'v mem_idem" where
  "mem_idem_claim s bucket now ttl_seconds =
     (let expiry = dict_get (mi_claims s) bucket
      in if (case expiry of None \<Rightarrow> False | Some e \<Rightarrow> now < e) then (False, s)
         else (True, s\<lparr>mi_claims := dict_set (mi_claims s) bucket (now + seconds ttl_seconds)\<rparr>))"

definition mem_idem_result_for :: "'v mem_idem \<Rightarrow> bucket \<Rightarrow> (string, 'v) odict option" where
  "mem_idem_result_for s bucket = dict_get (mi_results s) bucket"

definition mem_idem_record_result ::
  "'v mem_idem \<Rightarrow> bucket \<Rightarrow> (string, 'v) odict \<Rightarrow> 'v mem_idem" where
  "mem_idem_record_result s bucket r = s\<lparr>mi_results := dict_set (mi_results s) bucket r\<rparr>"

text \<open>A row of \<open>dcc_idempotency_keys\<close>, by its primary key (scope, key).\<close>

record 'v idem_row =
  ir_claimed_at :: instant
  ir_expires_at :: instant
  ir_result :: "(string, 'v) odict option"

type_synonym 'v pg_idem = "(bucket, 'v idem_row) odict"

text \<open>\<open>INSERT ... ON CONFLICT DO UPDATE ... WHERE expires_at < now RETURNING\<close>.\<close>

definition pg_idem_claim :: "'v pg_idem \<Rightarrow> bucket \<Rightarrow> instant \<Rightarrow> int \<Rightarrow> bool \<times> 'v pg_idem" where
  "pg_idem_claim db bucket now ttl_seconds =
     (case dict_get db bucket of
        None \<Rightarrow> (True, dict_set db bucket
                   \<lparr>ir_claimed_at = now, ir_expires_at = now + seconds ttl_seconds, ir_result = None\<rparr>)
      | Some row \<Rightarrow>
          if ir_expires_at row < now
          then (True, dict_set db bucket
                  (row\<lparr>ir_claimed_at := now, ir_expires_at := now + seconds ttl_seconds\<rparr>))
          else (False, db))"

definition pg_idem_result_for :: "'v pg_idem \<Rightarrow> bucket \<Rightarrow> (string, 'v) odict option" where
  "pg_idem_result_for db bucket =
     (case dict_get db bucket of None \<Rightarrow> None | Some row \<Rightarrow> ir_result row)"

definition pg_idem_record_result ::
  "'v pg_idem \<Rightarrow> bucket \<Rightarrow> (string, 'v) odict \<Rightarrow> 'v pg_idem" where
  "pg_idem_record_result db bucket r =
     dict_map_values (\<lambda>k row. if k = bucket then row\<lparr>ir_result := Some r\<rparr> else row) db"

definition pg_idem_lease :: "'v pg_idem \<Rightarrow> bucket \<Rightarrow> instant option" where
  "pg_idem_lease db bucket = map_option ir_expires_at (dict_get db bucket)"

interpretation mem_idem: leased_claim mem_idem_claim "\<lambda>s. dict_get (mi_claims s)"
  by unfold_locales (auto simp: mem_idem_claim_def Let_def split: option.splits if_splits)

interpretation pg_idem: leased_claim pg_idem_claim pg_idem_lease
  by unfold_locales
    (auto simp: pg_idem_claim_def pg_idem_lease_def split: option.splits if_splits)

lemma mem_idem_wins_iff:
  "fst (mem_idem_claim s k t ttl) \<longleftrightarrow>
     (case dict_get (mi_claims s) k of None \<Rightarrow> True | Some e \<Rightarrow> e \<le> t)"
  by (auto simp: mem_idem_claim_def Let_def split: option.splits)

lemma pg_idem_wins_iff:
  "fst (pg_idem_claim db k t ttl) \<longleftrightarrow> (case pg_idem_lease db k of None \<Rightarrow> True | Some e \<Rightarrow> e < t)"
  by (auto simp: pg_idem_claim_def pg_idem_lease_def split: option.splits)

definition mem_idem_run :: "'v mem_idem \<Rightarrow> (bucket \<times> instant \<times> int) list \<Rightarrow> 'v mem_idem" where
  "mem_idem_run s cs = foldl (\<lambda>s (k, t, ttl). snd (mem_idem_claim s k t ttl)) s cs"

definition pg_idem_run :: "'v pg_idem \<Rightarrow> (bucket \<times> instant \<times> int) list \<Rightarrow> 'v pg_idem" where
  "pg_idem_run db cs = foldl (\<lambda>db (k, t, ttl). snd (pg_idem_claim db k t ttl)) db cs"

text \<open>One worker wins an idempotency key, in both stores. After a winning claim, every other
  claim on that key loses until its time to live has passed, whatever claims on this and on other
  keys are served in between, and wins afterwards. At the very instant of expiry the stores differ:
  the memory store gives the key away, Postgres does not.\<close>

theorem idempotency_one_winner:
  assumes "fst (mem_idem_claim s k t ttl)" and "fst (pg_idem_claim db k t ttl)"
    and "\<forall>(j, t', ttl')\<in>set cs. t' < t + seconds ttl"
  shows "(fst (mem_idem_claim (mem_idem_run (snd (mem_idem_claim s k t ttl)) cs) k u ttl')
           \<longleftrightarrow> t + seconds ttl \<le> u) \<and>
         (fst (pg_idem_claim (pg_idem_run (snd (pg_idem_claim db k t ttl)) cs) k u ttl')
           \<longleftrightarrow> t + seconds ttl < u)"
proof -
  have "dict_get (mi_claims (mem_idem_run (snd (mem_idem_claim s k t ttl)) cs)) k
      = Some (t + seconds ttl)"
    using mem_idem.lease_keeps [OF _ assms(3), of _ k] mem_idem.won_lease [OF assms(1), of k]
    by (simp add: mem_idem_run_def mem_idem.claim_seq_foldl)
  moreover have "pg_idem_lease (pg_idem_run (snd (pg_idem_claim db k t ttl)) cs) k
      = Some (t + seconds ttl)"
    using pg_idem.lease_keeps [OF _ assms(3), of _ k] pg_idem.won_lease [OF assms(2), of k]
    by (simp add: pg_idem_run_def pg_idem.claim_seq_foldl)
  ultimately show ?thesis
    by (simp add: mem_idem_wins_iff pg_idem_wins_iff)
qed

theorem idempotency_one_winner_witness:
  "\<not> fst (pg_idem_claim (pg_idem_run (snd (pg_idem_claim ([] :: nat pg_idem) (''turn'', ''e1'') 0 60))
        [((''turn'', ''e2''), 5, 60), ((''turn'', ''e1''), 6, 60)]) (''turn'', ''e1'') 7 60)"
proof -
  let ?s = "\<lparr>mi_claims = [], mi_results = []\<rparr> :: nat mem_idem"
  have "fst (mem_idem_claim ?s (''turn'', ''e1'') 0 60)"
    "fst (pg_idem_claim ([] :: nat pg_idem) (''turn'', ''e1'') 0 60)"
    by (simp_all add: mem_idem_wins_iff pg_idem_wins_iff pg_idem_lease_def)
  from idempotency_one_winner [OF this,
      of "[((''turn'', ''e2''), 5, 60), ((''turn'', ''e1''), 6, 60)]" 7 60]
  show ?thesis by (simp add: seconds_def)
qed

text \<open>A recorded result is found again; in Postgres only for a key that was claimed.\<close>

lemma mem_idem_result:
  "mem_idem_result_for (mem_idem_record_result s b r) b' = (if b' = b then Some r else mem_idem_result_for s b')"
  by (simp add: mem_idem_result_for_def mem_idem_record_result_def)

lemma pg_idem_result:
  "pg_idem_result_for (pg_idem_record_result db b r) b'
     = (if b' = b \<and> pg_idem_lease db b \<noteq> None then Some r else pg_idem_result_for db b')"
  by (simp add: pg_idem_result_for_def pg_idem_record_result_def pg_idem_lease_def split: option.splits)

section \<open>The outbox\<close>

record 'v outbox_row =
  ob_id :: ref
  ob_event :: string
  ob_payload :: "(string, 'v) odict"
  ob_key :: string
  ob_created_at :: instant
  ob_published_at :: "instant option"

record 'v mem_outbox =
  mo_rows :: "'v outbox_row list"
  mo_keys :: "string set"

definition mem_enqueue ::
  "ref \<Rightarrow> string \<Rightarrow> (string, 'v) odict \<Rightarrow> instant \<Rightarrow> 'v mem_outbox \<Rightarrow> string \<Rightarrow> bool \<times> 'v mem_outbox" where
  "mem_enqueue ulid event payload now s key =
     (if key \<in> mo_keys s then (False, s)
      else (True, s\<lparr>mo_keys := insert key (mo_keys s),
                    mo_rows := mo_rows s @ [\<lparr>ob_id = ulid, ob_event = event, ob_payload = payload,
                      ob_key = key, ob_created_at = now, ob_published_at = None\<rparr>]\<rparr>))"

definition mem_unpublished :: "'v mem_outbox \<Rightarrow> nat \<Rightarrow> 'v outbox_row list" where
  "mem_unpublished s limit = take limit (filter (\<lambda>r. ob_published_at r = None) (mo_rows s))"

text \<open>\<open>mark_published\<close> updates the first row with the id and stops.\<close>

fun mark_first :: "ref \<Rightarrow> instant \<Rightarrow> 'v outbox_row list \<Rightarrow> 'v outbox_row list" where
  "mark_first oid now [] = []"
| "mark_first oid now (r # rs) =
     (if ob_id r = oid then r\<lparr>ob_published_at := Some now\<rparr> # rs else r # mark_first oid now rs)"

definition mem_mark_published :: "'v mem_outbox \<Rightarrow> ref \<Rightarrow> instant \<Rightarrow> 'v mem_outbox" where
  "mem_mark_published s oid now = s\<lparr>mo_rows := mark_first oid now (mo_rows s)\<rparr>"

interpretation mem_outbox: single_winner "mem_enqueue ulid event payload now" "\<lambda>s k. k \<in> mo_keys s"
  by unfold_locales (auto simp: mem_enqueue_def)

text \<open>The outbox rows and the key set agree, and the rows' keys are distinct.\<close>

definition mem_outbox_inv :: "'v mem_outbox \<Rightarrow> bool" where
  "mem_outbox_inv s \<longleftrightarrow> distinct (map ob_key (mo_rows s)) \<and> mo_keys s = set (map ob_key (mo_rows s))"

lemma mark_first_keys [simp]: "map ob_key (mark_first oid now rs) = map ob_key rs"
  by (induction rs) auto

lemma mem_enqueue_inv [inv_intros]:
  "mem_outbox_inv s \<Longrightarrow> mem_outbox_inv (snd (mem_enqueue ulid ev pl now s key))"
  by (auto simp: mem_outbox_inv_def mem_enqueue_def)

lemma mem_mark_published_inv [inv_intros]:
  "mem_outbox_inv s \<Longrightarrow> mem_outbox_inv (mem_mark_published s oid now)"
  unfolding mem_outbox_inv_def mem_mark_published_def by (simp del: set_map)

text \<open>
  The statement \<open>PgOutboxRepository.enqueue\<close> sends is two VALUES lists and an ON CONFLICT clause
  with no INSERT in front: Postgres refuses it when it parses it, before any row is touched, and
  the driver raises. The text is the code's, the test is the first word a statement that inserts
  must have.
\<close>

definition pg_enqueue_sql :: string where
  "pg_enqueue_sql =
     ''VALUES ($1,$2,$3,$4,$5,$6,$7,$8,$9,$10,$11,$12,'' @
     ''$13::jsonb,$14::jsonb,$15,$16,$17,$18,$19,$20) '' @
     ''VALUES ($1, $2, $3::jsonb, $4, $5) '' @
     ''ON CONFLICT (idempotency_key) DO NOTHING RETURNING outbox_id''"

definition has_insert :: "string \<Rightarrow> bool" where
  "has_insert sql \<longleftrightarrow> (case words sql of [] \<Rightarrow> False | w # _ \<Rightarrow> casefold w = ''insert'')"

text \<open>A Postgres statement that would insert a row: a syntax error when the text does not start
  with INSERT, and otherwise the row unless its key is taken.\<close>

definition pg_enqueue ::
  "ref \<Rightarrow> string \<Rightarrow> (string, 'v) odict \<Rightarrow> instant \<Rightarrow> 'v outbox_row list \<Rightarrow> string
     \<Rightarrow> py_error + bool \<times> 'v outbox_row list" where
  "pg_enqueue ulid event payload now db key =
     (if \<not> has_insert pg_enqueue_sql then Inl (ValueError ''syntax error'')
      else if key \<in> set (map ob_key db) then Inr (False, db)
      else Inr (True, db @ [\<lparr>ob_id = ulid, ob_event = event, ob_payload = payload, ob_key = key,
                             ob_created_at = now, ob_published_at = None\<rparr>]))"

definition pg_unpublished :: "'v outbox_row list \<Rightarrow> nat \<Rightarrow> 'v outbox_row list" where
  "pg_unpublished db limit =
     take limit (sort_key ob_created_at (filter (\<lambda>r. ob_published_at r = None) db))"

definition pg_mark_published :: "'v outbox_row list \<Rightarrow> ref \<Rightarrow> instant \<Rightarrow> 'v outbox_row list" where
  "pg_mark_published db oid now =
     map (\<lambda>r. if ob_id r = oid then r\<lparr>ob_published_at := Some now\<rparr> else r) db"

text \<open>No event can be put in the Postgres outbox: the statement has lost its INSERT clause,
  so every enqueue raises, on every table and for every key.\<close>

theorem pg_outbox_always_raises: "raises (pg_enqueue ulid event payload now db key)"
proof -
  have "\<not> has_insert pg_enqueue_sql" by code_simp
  then show ?thesis by (simp add: pg_enqueue_def)
qed

section \<open>The message log\<close>

record mem_log =
  ml_claims :: "string set"
  ml_results :: "(string, send_outcome \<times> string \<times> instant) odict"
  ml_sends :: "(ref \<times> instant) list"
  ml_statuses :: "(string, string) odict"

definition mem_claim_send :: "outbound_message \<Rightarrow> instant \<Rightarrow> mem_log \<Rightarrow> bool \<times> mem_log" where
  "mem_claim_send m now s =
     (if om_key m \<in> ml_claims s then (False, s)
      else (True, s\<lparr>ml_claims := insert (om_key m) (ml_claims s),
                    ml_sends := ml_sends s @ [(om_recipient m, now)]\<rparr>))"

definition mem_record_result :: "mem_log \<Rightarrow> string \<Rightarrow> send_result \<Rightarrow> instant \<Rightarrow> mem_log" where
  "mem_record_result s key r now =
     s\<lparr>ml_results := dict_set (ml_results s) key (sr_outcome r, sr_provider_id r, now)\<rparr>"

definition mem_record_status :: "mem_log \<Rightarrow> string \<Rightarrow> string \<Rightarrow> mem_log" where
  "mem_record_status s pid status = s\<lparr>ml_statuses := dict_set (ml_statuses s) pid status\<rparr>"

definition mem_sends_since :: "mem_log \<Rightarrow> ref \<Rightarrow> instant \<Rightarrow> nat" where
  "mem_sends_since s recipient since =
     length (filter (\<lambda>(r, at). r = recipient \<and> at \<ge> since) (ml_sends s))"

record log_row =
  lr_message :: outbound_message
  lr_outcome :: "send_outcome option"
  lr_provider_id :: string
  lr_delivery_status :: string
  lr_claimed_at :: instant

type_synonym pg_log = "(string, log_row) odict"

definition pg_claim_send :: "outbound_message \<Rightarrow> instant \<Rightarrow> pg_log \<Rightarrow> bool \<times> pg_log" where
  "pg_claim_send m now db =
     (case dict_get db (om_key m) of
        Some _ \<Rightarrow> (False, db)
      | None \<Rightarrow> (True, dict_set db (om_key m)
                   \<lparr>lr_message = m, lr_outcome = None, lr_provider_id = '''',
                    lr_delivery_status = '''', lr_claimed_at = now\<rparr>))"

definition pg_record_result :: "pg_log \<Rightarrow> string \<Rightarrow> send_result \<Rightarrow> instant \<Rightarrow> pg_log" where
  "pg_record_result db key r now =
     dict_map_values (\<lambda>k row. if k = key
       then row\<lparr>lr_outcome := Some (sr_outcome r), lr_provider_id := sr_provider_id r\<rparr> else row) db"

definition pg_record_status :: "pg_log \<Rightarrow> string \<Rightarrow> string \<Rightarrow> pg_log" where
  "pg_record_status db pid status =
     dict_map_values (\<lambda>k row. if lr_provider_id row = pid
       then row\<lparr>lr_delivery_status := status\<rparr> else row) db"

definition pg_sends_since :: "pg_log \<Rightarrow> ref \<Rightarrow> instant \<Rightarrow> nat" where
  "pg_sends_since db recipient since =
     length (filter (\<lambda>row. om_recipient (lr_message row) = recipient \<and> lr_claimed_at row \<ge> since)
       (dict_values db))"

text \<open>Both logs are claims on the message's key; the rest of the message rides along.\<close>

interpretation mem_sends: single_winner
  "\<lambda>s k. mem_claim_send (m\<lparr>om_key := k\<rparr>) now s" "\<lambda>s k. k \<in> ml_claims s"
  by unfold_locales (auto simp: mem_claim_send_def)

interpretation pg_sends: single_winner
  "\<lambda>db k. pg_claim_send (m\<lparr>om_key := k\<rparr>) now db" "\<lambda>db k. dict_get db k \<noteq> None"
  by unfold_locales (auto simp: pg_claim_send_def split: option.splits)

lemma mem_log_frames [frame_simps, simp]:
  "ml_claims (mem_record_result s key r now) = ml_claims s"
  "ml_claims (mem_record_status s pid st) = ml_claims s"
  by (simp_all add: mem_record_result_def mem_record_status_def)

lemma pg_log_frames [frame_simps, simp]:
  "dict_get (pg_record_result db key r now) k = None \<longleftrightarrow> dict_get db k = None"
  "dict_get (pg_record_status db pid st) k = None \<longleftrightarrow> dict_get db k = None"
  by (simp_all add: pg_record_result_def pg_record_status_def)

end
