(* ===== verification/Urls.thy ===== *)
theory Urls
  imports PyText
begin

text \<open>
  security/urls.py: the allowlist every link passes before it is fetched or shown to a parent.
  \<open>urlparse\<close> and \<open>ip_address\<close> are Python's; the model writes out what \<open>validate\<close> uses of them
  on text below U+0100: scheme, network location, user information and host, and dotted IPv4
  literals. Python's address tables are the argument \<open>ips\<close>: which bracketed hosts are IPv6 literals (when
  one is not, \<open>urlparse\<close> itself raises a ValueError) and which addresses are global.
\<close>

section \<open>The parts of a URL\<close>

definition until_any :: "char set \<Rightarrow> string \<Rightarrow> string" where
  "until_any cs s = takeWhile (\<lambda>c. c \<notin> cs) s"

definition from_any :: "char set \<Rightarrow> string \<Rightarrow> string" where
  "from_any cs s = dropWhile (\<lambda>c. c \<notin> cs) s"

definition alpha :: "char \<Rightarrow> bool" where
  "alpha c \<longleftrightarrow> is_upper_char c \<or> is_lower_char c"

definition digit :: "char \<Rightarrow> bool" where
  "digit c \<longleftrightarrow> CHR ''0'' \<le> c \<and> c \<le> CHR ''9''"

definition scheme_char :: "char \<Rightarrow> bool" where
  "scheme_char c \<longleftrightarrow> alpha c \<or> digit c \<or> c \<in> set ''+-.''"

text \<open>Leading control characters and spaces go, then every tab and line break.\<close>

definition clean_url :: "string \<Rightarrow> string" where
  "clean_url url =
     filter (\<lambda>c. (of_char c :: nat) \<notin> {9, 10, 13})
       (dropWhile (\<lambda>c. (of_char c :: nat) \<le> 32) url)"

text \<open>The scheme, lower-cased, and the text after it.\<close>

definition split_scheme :: "string \<Rightarrow> string \<times> string" where
  "split_scheme url =
     (let head = until_any {CHR '':''} url; rest = from_any {CHR '':''} url
      in if rest \<noteq> [] \<and> head \<noteq> [] \<and> alpha (hd head) \<and> list_all scheme_char head
         then (casefold head, tl rest) else ('''', url))"

definition split_netloc :: "string \<Rightarrow> string" where
  "split_netloc rest =
     (if take 2 rest = ''//'' then until_any (set ''/?#'') (drop 2 rest) else '''')"

text \<open>\<open>netloc.rpartition('@')\<close>: what stands before and after the last at sign.\<close>

definition userinfo :: "string \<Rightarrow> string" where
  "userinfo netloc =
     (if CHR ''@'' \<in> set netloc then rev (tl (from_any {CHR ''@''} (rev netloc))) else '''')"

definition hostinfo :: "string \<Rightarrow> string" where
  "hostinfo netloc = rev (until_any {CHR ''@''} (rev netloc))"

text \<open>User name and password are both empty exactly when the text is empty or a lone colon.\<close>

definition has_userinfo :: "string \<Rightarrow> bool" where
  "has_userinfo netloc \<longleftrightarrow> userinfo netloc \<notin> {'''', '':''}"

definition plain_host :: "string \<Rightarrow> string" where
  "plain_host netloc = casefold (until_any {CHR '':''} (hostinfo netloc))"

definition bracketed :: "string \<Rightarrow> bool" where
  "bracketed netloc \<longleftrightarrow> CHR ''['' \<in> set netloc \<or> CHR '']'' \<in> set netloc"

definition bracket_content :: "string \<Rightarrow> string" where
  "bracket_content netloc =
     until_any {CHR '']''} (tl (from_any {CHR ''[''} (hostinfo netloc)))"

section \<open>Dotted IPv4 literals\<close>

fun split_on :: "char \<Rightarrow> string \<Rightarrow> string list" where
  "split_on sep [] = [[]]"
| "split_on sep (c # cs) =
     (if c = sep then [] # split_on sep cs
      else (case split_on sep cs of [] \<Rightarrow> [[c]] | w # ws \<Rightarrow> (c # w) # ws))"

fun decimal :: "nat \<Rightarrow> string \<Rightarrow> nat" where
  "decimal acc [] = acc"
| "decimal acc (c # cs) = decimal (acc * 10 + (of_char c - 48)) cs"

definition ip4_octet :: "string \<Rightarrow> bool" where
  "ip4_octet w \<longleftrightarrow>
     w \<noteq> [] \<and> length w \<le> 3 \<and> list_all digit w \<and> decimal 0 w \<le> 255 \<and>
     \<not> (length w > 1 \<and> hd w = CHR ''0'')"

definition is_ip4 :: "string \<Rightarrow> bool" where
  "is_ip4 host \<longleftrightarrow> (let ws = split_on (CHR ''.'') host in length ws = 4 \<and> list_all ip4_octet ws)"

section \<open>The policy\<close>

record url_policy =
  allowed_hosts :: "string set"
  allowed_schemes :: "string set"
  allow_subdomains :: bool

definition DEFAULT_ALLOWED_HOSTS :: "string set" where
  "DEFAULT_ALLOWED_HOSTS =
     {''graph.facebook.com'', ''www.googleapis.com'', ''oauth2.googleapis.com'', ''meet.google.com'',
      ''api.openai.com'', ''api.cashfree.com'', ''sandbox.cashfree.com'', ''payments.cashfree.com'',
      ''payments-test.cashfree.com''}"

definition MEET_POLICY :: url_policy where
  "MEET_POLICY = \<lparr>allowed_hosts = {''meet.google.com''}, allowed_schemes = {''https''},
     allow_subdomains = False\<rparr>"

definition CASHFREE_LINK_POLICY :: url_policy where
  "CASHFREE_LINK_POLICY =
     \<lparr>allowed_hosts = {''payments.cashfree.com'', ''payments-test.cashfree.com''},
      allowed_schemes = {''https''}, allow_subdomains = False\<rparr>"

text \<open>What \<open>validate\<close> asks the \<open>ipaddress\<close> module.\<close>

record ip_book =
  valid_ip6 :: "string \<Rightarrow> bool"
  global_ip :: "string \<Rightarrow> bool"

datatype url_error = UrlRejected string | UrlValueError

text \<open>The host checks of \<open>validate\<close>, once the host is known not to be an address.\<close>

definition host_allowed :: "url_policy \<Rightarrow> string \<Rightarrow> bool" where
  "host_allowed rules host \<longleftrightarrow>
     host \<in> allowed_hosts rules \<or>
     allow_subdomains rules \<and> (\<exists>a\<in>allowed_hosts rules. suffix (''.'' @ a) host)"

definition literal_reason :: "ip_book \<Rightarrow> string \<Rightarrow> string" where
  "literal_reason ips host = (if global_ip ips host then ''literal_ip'' else ''private_ip'')"

definition validate :: "ip_book \<Rightarrow> string \<Rightarrow> url_policy \<Rightarrow> url_error + string" where
  "validate ips url rules =
     (if url = '''' \<or> length url > 2048 then Inl (UrlRejected ''empty_or_oversized'')
      else
        let (scheme, rest) = split_scheme (clean_url url);
            netloc = split_netloc rest
        in if bracketed netloc \<and> \<not> valid_ip6 ips (bracket_content netloc) then Inl UrlValueError
           else if scheme \<notin> allowed_schemes rules then Inl (UrlRejected (''scheme:'' @ scheme))
           else if bracketed netloc
             then (if has_userinfo netloc then Inl (UrlRejected ''userinfo_in_url'')
                   else Inl (UrlRejected (literal_reason ips (casefold (bracket_content netloc)))))
           else if plain_host netloc = '''' then Inl (UrlRejected ''no_host'')
           else if has_userinfo netloc then Inl (UrlRejected ''userinfo_in_url'')
           else if is_ip4 (plain_host netloc) 
             then Inl (UrlRejected (literal_reason ips (plain_host netloc)))
           else if host_allowed rules (plain_host netloc) then Inr url
           else Inl (UrlRejected (''host_not_allowed:'' @ plain_host netloc)))"

text \<open>\<open>is_allowed\<close> catches \<open>UrlRejected\<close> only: the ValueError of \<open>urlparse\<close> goes through it.\<close>

lemma validate_returns: "validate ip6 u rules = Inr l \<Longrightarrow> l = u"
  by (auto simp: validate_def Let_def split_beta split: if_splits)

definition is_allowed :: "ip_book \<Rightarrow> string \<Rightarrow> url_policy \<Rightarrow> url_error + bool" where
  "is_allowed ips url rules =
     (case validate ips url rules of
        Inr _ \<Rightarrow> Inr True
      | Inl (UrlRejected _) \<Rightarrow> Inr False
      | Inl UrlValueError \<Rightarrow> Inl UrlValueError)"

definition allowed_link :: "ip_book \<Rightarrow> string \<Rightarrow> url_policy \<Rightarrow> bool" where
  "allowed_link ips url rules \<longleftrightarrow> is_allowed ips url rules = Inr True"

lemma allowed_link_iff: "allowed_link ips url rules \<longleftrightarrow> \<not> raises (validate ips url rules)"
  by (cases "validate ips url rules") (auto simp: allowed_link_def is_allowed_def split: url_error.splits)

definition no_ip6 :: ip_book where
  "no_ip6 = \<lparr>valid_ip6 = (\<lambda>_. False), global_ip = (\<lambda>_. True)\<rparr>"

section \<open>What an accepted link is\<close>

lemma until_from: "until_any cs s @ from_any cs s = s"
  by (simp add: until_any_def from_any_def)

lemma from_any_hd: "from_any cs s \<noteq> [] \<Longrightarrow> hd (from_any cs s) \<in> cs"
  unfolding from_any_def using hd_dropWhile [of "\<lambda>c. c \<notin> cs" s] by simp

lemma split_schemeD:
  assumes "split_scheme url = (scheme, rest)" and "scheme \<noteq> []"
  shows "\<exists>head. url = head @ '':'' @ rest \<and> casefold head = scheme \<and> CHR '':'' \<notin> set head"
proof -
  let ?h = "until_any {CHR '':''} url" and ?r = "from_any {CHR '':''} url"
  have r: "?r \<noteq> []" "casefold ?h = scheme" "rest = tl ?r"
    using assms unfolding split_scheme_def Let_def by (simp_all split: if_split_asm)
  have "?r = CHR '':'' # rest"
    using r from_any_hd [OF r(1)] by (cases ?r) auto
  moreover have "CHR '':'' \<notin> set ?h" by (auto simp: until_any_def dest: set_takeWhileD)
  ultimately show ?thesis using until_from [of "{CHR '':''}" url] r(2) by (metis append_Cons append_Nil)
qed

lemma split_netlocD:
  assumes "split_netloc rest = netloc" and "netloc \<noteq> []"
  shows "\<exists>path. rest = ''//'' @ netloc @ path \<and> (path = [] \<or> hd path \<in> set ''/?#'') \<and>
    set netloc \<inter> set ''/?#'' = {}"
proof -
  have two: "take 2 rest = ''//''" and n: "netloc = until_any (set ''/?#'') (drop 2 rest)"
    using assms by (auto simp: split_netloc_def split: if_splits)
  have "rest = ''//'' @ drop 2 rest" using two by (metis append_take_drop_id)
  moreover have "drop 2 rest = netloc @ from_any (set ''/?#'') (drop 2 rest)"
    using until_from n by metis
  moreover have "set netloc \<inter> set ''/?#'' = {}"
    unfolding n by (auto simp: until_any_def dest: set_takeWhileD)
  ultimately show ?thesis using from_any_hd by metis
qed

lemma netloc_parts:
  "(CHR ''@'' \<in> set netloc \<and> netloc = userinfo netloc @ ''@'' @ hostinfo netloc) \<or>
   (CHR ''@'' \<notin> set netloc \<and> netloc = hostinfo netloc)"
proof (cases "CHR ''@'' \<in> set netloc")
  case True
  let ?f = "from_any {CHR ''@''} (rev netloc)"
  have "?f \<noteq> []"
    using True by (auto simp: from_any_def dropWhile_eq_Nil_conv)
  then have f: "?f = CHR ''@'' # tl ?f"
    using from_any_hd [of "{CHR ''@''}" "rev netloc"] by (cases ?f) auto
  have "rev netloc = until_any {CHR ''@''} (rev netloc) @ ?f"
    by (simp add: until_from)
  then have "netloc = rev ?f @ hostinfo netloc"
    by (metis hostinfo_def rev_append rev_rev_ident)
  then have "netloc = userinfo netloc @ ''@'' @ hostinfo netloc"
    using f True by (metis append.assoc append_Cons append_Nil rev.simps(2) userinfo_def)
  then show ?thesis using True by simp
next
  case False
  then have "until_any {CHR ''@''} (rev netloc) = rev netloc"
    by (auto simp: until_any_def takeWhile_eq_all_conv)
  then show ?thesis using False by (simp add: hostinfo_def)
qed

text \<open>(C26) The link boundary under a policy that allows no subdomains. An accepted link is returned
  unchanged, and, cleaned as a browser cleans it, it reads \<open>scheme://host...\<close> where the scheme is an
  allowed one and what stands between the slashes and the first of \<open>/ ? #\<close> is an allowed host, with
  at most an empty user part before it and a port after it: no other host can hide behind user
  information, a subdomain or a literal address.\<close>

theorem accepted_link_names_allowed_host:
  assumes "validate ips url rules = Inr out" and "\<not> allow_subdomains rules"
    and "'''' \<notin> allowed_schemes rules"
  shows "out = url \<and> length url \<le> 2048 \<and>
    (\<exists>scheme user host port path.
       clean_url url = scheme @ ''://'' @ user @ host @ port @ path \<and>
       casefold scheme \<in> allowed_schemes rules \<and> user \<in> {'''', ''@'', '':@''} \<and>
       casefold host \<in> allowed_hosts rules \<and> \<not> is_ip4 (casefold host) \<and>
       (port = [] \<or> hd port = CHR '':'') \<and> (path = [] \<or> hd path \<in> set ''/?#'') \<and>
       set (host @ port) \<inter> set ''/?#@'' = {})"
proof -
  obtain scheme rest where sr: "split_scheme (clean_url url) = (scheme, rest)"
    by (cases "split_scheme (clean_url url)")
  let ?n = "split_netloc rest"
  have v: "url \<noteq> ''''" "length url \<le> 2048" "scheme \<in> allowed_schemes rules" "out = url"
    "plain_host ?n \<noteq> ''''" "\<not> has_userinfo ?n" "\<not> is_ip4 (plain_host ?n)"
    "plain_host ?n \<in> allowed_hosts rules"
    using assms by (auto simp: validate_def sr Let_def host_allowed_def split: if_splits)
  have n: "?n \<noteq> []"
    using v(5) by (auto simp: plain_host_def hostinfo_def until_any_def casefold_def)
  obtain head where head: "clean_url url = head @ '':'' @ rest" "casefold head = scheme"
    using split_schemeD [OF sr] v(3) assms(3) by blast
  obtain path where path: "rest = ''//'' @ ?n @ path" "path = [] \<or> hd path \<in> set ''/?#''"
      "set ?n \<inter> set ''/?#'' = {}"
    using split_netlocD [OF refl n] by blast
  let ?hi = "hostinfo ?n"
  let ?host = "until_any {CHR '':''} ?hi" and ?port = "from_any {CHR '':''} ?hi"
  have hp: "?host @ ?port = ?hi" by (rule until_from)
  have port: "?port = [] \<or> hd ?port = CHR '':''" using from_any_hd by fastforce
  have noat: "CHR ''@'' \<notin> set ?hi" by (auto simp: hostinfo_def until_any_def dest: set_takeWhileD)
  have "userinfo ?n = '''' \<or> userinfo ?n = '':''" using v(6) by (simp add: has_userinfo_def)
  then have "?n = '''' @ ?hi \<or> ?n = ''@'' @ ?hi \<or> ?n = '':@'' @ ?hi"
    using netloc_parts [of ?n] by (elim disjE conjE) simp_all
  then obtain user where user: "?n = user @ ?hi" "user \<in> {'''', ''@'', '':@''}"
    by blast
  have "set (?host @ ?port) \<inter> set ''/?#@'' = {}"
    using path(3) noat unfolding hp by (subst (asm) user(1)) auto
  moreover have "clean_url url = head @ ''://'' @ user @ ?host @ ?port @ path"
  proof -
    have "rest = ''//'' @ (user @ (?host @ ?port)) @ path"
      unfolding hp using path(1) user(1) by metis
    then show ?thesis unfolding head(1) by simp
  qed
  moreover have "casefold ?host = plain_host ?n" by (simp add: plain_host_def)
  ultimately have parts: "clean_url url = head @ ''://'' @ user @ ?host @ ?port @ path \<and>
      casefold head \<in> allowed_schemes rules \<and> user \<in> {'''', ''@'', '':@''} \<and>
      casefold ?host \<in> allowed_hosts rules \<and> \<not> is_ip4 (casefold ?host) \<and>
      (?port = [] \<or> hd ?port = CHR '':'') \<and> (path = [] \<or> hd path \<in> set ''/?#'') \<and>
      set (?host @ ?port) \<inter> set ''/?#@'' = {}"
    using v(3,7,8) user(2) port path(2) unfolding head(2) by metis
  show ?thesis
    by (rule conjI [OF v(4) conjI [OF v(2)]], rule exI, rule exI, rule exI, rule exI, rule exI, rule parts)
qed

theorem accepted_link_names_allowed_host_witness:
  "length ''https://payments.cashfree.com/links/a1'' \<le> 2048 \<and>
   allowed_link no_ip6 ''https://payments.cashfree.com/links/a1'' CASHFREE_LINK_POLICY \<and>
   is_allowed no_ip6 ''https://payments.cashfree.com@evil.test/a1'' CASHFREE_LINK_POLICY = Inr False \<and>
   is_allowed no_ip6 ''https://169.254.169.254/meta'' CASHFREE_LINK_POLICY = Inr False \<and>
   is_allowed no_ip6 ''https://[a1'' CASHFREE_LINK_POLICY = Inl UrlValueError"
proof -
  have ok: "validate no_ip6 ''https://payments.cashfree.com/links/a1'' CASHFREE_LINK_POLICY
      = Inr ''https://payments.cashfree.com/links/a1''"
    by code_simp
  have "is_allowed no_ip6 ''https://payments.cashfree.com@evil.test/a1'' CASHFREE_LINK_POLICY = Inr False"
    "is_allowed no_ip6 ''https://169.254.169.254/meta'' CASHFREE_LINK_POLICY = Inr False"
    "is_allowed no_ip6 ''https://[a1'' CASHFREE_LINK_POLICY = Inl UrlValueError"
    by code_simp+
  then show ?thesis
    using accepted_link_names_allowed_host [OF ok]
    by (simp add: CASHFREE_LINK_POLICY_def allowed_link_iff ok [unfolded CASHFREE_LINK_POLICY_def])
qed

end
