(* ===== verification/OutputGuard.thy ===== *)
theory OutputGuard
  imports Regex Urls Messages
begin

text \<open>
  security/pii.py (the identifier patterns, \<open>redact\<close>, \<open>contains_pii\<close>, \<open>found_pii_kinds\<close>) and
  guardrails/output.py (the last check before a message leaves): every text a customer would see is
  searched for placeholders, identifiers, internal references, hashes, internal words and links
  that are not on the allowlist. Each pattern is the source's, written with the constructors of
  theory Regex. \<open>mask_phone\<close> and \<open>mask_email\<close> print a bullet, which is not below U+0100, and the
  keyed hashes are a library's: neither is modelled.
\<close>

section \<open>Identifier patterns\<close>

abbreviation (input) alnum :: "char \<Rightarrow> bool" where
  "alnum c \<equiv> is_upper_char c \<or> is_lower_char c \<or> is_digit c"

definition hex_lower :: "char \<Rightarrow> bool" where
  "hex_lower c \<longleftrightarrow> is_digit c \<or> (CHR ''a'' \<le> c \<and> c \<le> CHR ''f'')"

definition hex_any :: "char \<Rightarrow> bool" where
  "hex_any c \<longleftrightarrow> hex_lower (lower_char c)"

definition phone_sep :: "char \<Rightarrow> bool" where
  "phone_sep c \<longleftrightarrow> is_space c \<or> c = CHR ''.'' \<or> c = CHR ''-''"

definition PHONE :: rx where
  "PHONE = Seqs [NotBehind is_digit,
     Opt (Seqs [Opt (Lit ''+''), Lit ''91'', Opt (Cls phone_sep)]),
     Cls (one_of ''6789''), Times 9 (Seq (Opt (Cls phone_sep)) (Cls is_digit)), NotAhead is_digit]"

definition EMAIL :: rx where
  "EMAIL = Seqs [WordB, AtLeast 1 (\<lambda>c. is_word c \<or> one_of ''.+-'' c), Lit ''@'',
     AtLeast 1 (\<lambda>c. is_word c \<or> c = CHR ''-''), Lit ''.'',
     AtLeast 2 (\<lambda>c. is_word c \<or> one_of ''.-'' c), WordB]"

definition AADHAAR :: rx where
  "AADHAAR = Seqs [WordB, Times 4 (Cls is_digit), Opt (Cls is_space), Times 4 (Cls is_digit),
     Opt (Cls is_space), Times 4 (Cls is_digit), WordB]"

definition PAN :: rx where
  "PAN = Seqs [WordB, Times 5 (Cls is_upper_char), Times 4 (Cls is_digit), Cls is_upper_char, WordB]"

definition PINCODE :: rx where
  "PINCODE = Seqs [WordB, Cls (one_of ''123456789''), Times 5 (Cls is_digit), WordB]"

definition URL :: rx where
  "URL = Seqs [Lit ''http'', Opt (Lit ''s''), Lit ''://'', AtLeast 1 (\<lambda>c. \<not> is_space c)]"

definition LONG_DIGITS :: rx where
  "LONG_DIGITS = Seqs [WordB, Between 12 19 is_digit, WordB]"

definition UPI :: rx where
  "UPI = Seqs [WordB, AtLeast 2 (\<lambda>c. is_word c \<or> one_of ''.-'' c), Lit ''@'',
     Alts (Seq (LitI ''ok'') (AtLeast 1 is_word))
       [LitI ''paytm'', LitI ''ybl'', LitI ''upi'', LitI ''axl'', LitI ''ibl'', LitI ''apl''], WordB]"

definition key_char :: "char \<Rightarrow> bool" where
  "key_char c \<longleftrightarrow> alnum c \<or> one_of ''_-'' c"

definition OPENAI_KEY :: rx where
  "OPENAI_KEY = Seqs [WordB, Lit ''sk-'', Opt (Alts (Lit ''proj-'') [Lit ''svcacct-'', Lit ''admin-'']),
     AtLeast 16 key_char, WordB]"

definition META_TOKEN :: rx where
  "META_TOKEN = Seqs [WordB, Lit ''EAA'', AtLeast 20 (\<lambda>c. alnum c), WordB]"

definition CASHFREE_KEY :: rx where
  "CASHFREE_KEY = Seqs [WordB, LitI ''cfsk_'', AtLeast 8 (\<lambda>c. alnum c \<or> c = CHR ''_''), WordB]"

definition GOOGLE_KEY :: rx where
  "GOOGLE_KEY = Seqs [WordB, Alt (Seq (Lit ''AIza'') (AtLeast 20 key_char))
     (Seq (Lit ''ya29.'') (AtLeast 20 key_char)), WordB]"

definition AWS_KEY :: rx where
  "AWS_KEY = Seqs [WordB, Alt (Lit ''AKIA'') (Lit ''ASIA''),
     AtLeast 12 (\<lambda>c. is_upper_char c \<or> is_digit c), WordB]"

definition BEARER :: rx where
  "BEARER = Seqs [WordB, LitI ''Bearer'', AtLeast 1 is_space,
     AtLeast 16 (\<lambda>c. alnum c \<or> one_of ''._~+/-'' c), Many (\<lambda>c. c = CHR ''='')]"

definition SIGNATURE :: rx where
  "SIGNATURE = Seqs [WordB, Opt (Alt (LitI ''v1='') (LitI ''sha256='')), AtLeast 32 hex_any, WordB]"

definition PRIVATE_KEY :: rx where
  "PRIVATE_KEY = Seqs [Lit ''-----BEGIN '', Many (\<lambda>c. is_upper_char c \<or> c = CHR '' ''),
     Lit ''PRIVATE KEY-----'', Few (\<lambda>_. True), Lit ''-----END '',
     Many (\<lambda>c. is_upper_char c \<or> c = CHR '' ''), Lit ''PRIVATE KEY-----'']"

lemmas pii_pattern_defs = PHONE_def EMAIL_def AADHAAR_def PAN_def URL_def LONG_DIGITS_def UPI_def
  OPENAI_KEY_def META_TOKEN_def CASHFREE_KEY_def GOOGLE_KEY_def AWS_KEY_def BEARER_def SIGNATURE_def
  PRIVATE_KEY_def PINCODE_def

section \<open>Redaction and detection\<close>

definition RULES :: "(rx \<times> string) list" where
  "RULES =
     [(PRIVATE_KEY, ''[credential]''), (BEARER, ''[credential]''), (OPENAI_KEY, ''[credential]''),
      (META_TOKEN, ''[credential]''), (CASHFREE_KEY, ''[credential]''), (GOOGLE_KEY, ''[credential]''),
      (AWS_KEY, ''[credential]''), (UPI, ''[upi]''), (EMAIL, ''[email]''), (URL, ''[url]''),
      (AADHAAR, ''[id]''), (LONG_DIGITS, ''[id]''), (PAN, ''[id]''), (PHONE, ''[phone]''),
      (SIGNATURE, ''[credential]'')]"

definition redact :: "bool \<Rightarrow> string \<Rightarrow> string" where
  "redact redact_pincode text =
     (let out = foldl (\<lambda>out (r, tok). sub r tok out) text RULES
      in if redact_pincode then sub PINCODE ''[pincode]'' out else out)"

definition contains_pii :: "string \<Rightarrow> bool" where
  "contains_pii text \<longleftrightarrow> list_ex (\<lambda>(r, tok). search r text) RULES"

text \<open>The dictionary of kinds in the order \<open>sorted\<close> puts the names in.\<close>

definition PII_KINDS :: "(string \<times> rx) list" where
  "PII_KINDS =
     [(''aadhaar'', AADHAAR), (''credential'', OPENAI_KEY), (''email'', EMAIL),
      (''meta_token'', META_TOKEN), (''pan'', PAN), (''phone'', PHONE), (''signature'', SIGNATURE),
      (''upi'', UPI), (''url'', URL)]"

definition found_pii_kinds :: "string \<Rightarrow> string list" where
  "found_pii_kinds text = map fst (filter (\<lambda>(k, r). search r text) PII_KINDS)"

definition normalise_phone :: "string \<Rightarrow> string" where
  "normalise_phone phone =
     (let digits = filter is_digit phone
      in if 10 \<le> length digits then last_n 10 digits else digits)"

text \<open>Clean text passes through \<open>redact\<close> unchanged, whatever the rules would put in.\<close>

lemma redact_clean:
  assumes "\<not> contains_pii text"
  shows "redact False text = text"
proof -
  have "foldl (\<lambda>out (r, tok). sub r tok out) text rs = text"
    if "\<forall>(r, tok)\<in>set rs. \<not> search r text" for rs
    using that by (induction rs) (auto simp: sub_id)
  then show ?thesis
    using assms by (simp add: redact_def contains_pii_def list_ex_iff split_beta)
qed

section \<open>The output guard\<close>

definition INTERNAL_TOKENS :: "string list" where
  "INTERNAL_TOKENS =
     [''conversation_ref'', ''student_ref'', ''tutor_ref'', ''idempotency'', ''traceback'',
      ''exception'', ''null'', ''undefined'', ''none'', ''policy_stamp'', ''data_quality'',
      ''weight_coverage'', ''replacement_risk'', ''final_score'']"

definition REF_PATTERN :: rx where
  "REF_PATTERN = Seqs [WordB,
     Alts (Lit ''cv_'') [Lit ''ph_'', Lit ''ct_'', Lit ''hld_'', Lit ''nxo_'', Lit ''rmd_''],
     AtLeast 6 (\<lambda>c. alnum c), WordB]"

definition HEX_PATTERN :: rx where
  "HEX_PATTERN = Seqs [WordB, AtLeast 24 hex_lower, WordB]"

definition link_char :: "char \<Rightarrow> bool" where
  "link_char c \<longleftrightarrow> \<not> is_space c \<and> c \<notin> {CHR ''<'', CHR ''>'', CHR 0x22, CHR 0x27}"

definition URL_PATTERN :: rx where
  "URL_PATTERN = Seqs [Lit ''http'', Opt (Lit ''s''), Lit ''://'', AtLeast 1 link_char]"

definition PLACEHOLDER :: rx where
  "PLACEHOLDER =
     Alt (Seqs [Lit ''{{'', Many is_space, AtLeast 1 is_digit, Many is_space, Lit ''}}''])
         (Seqs [Lit ''{'', AtLeast 1 (\<lambda>c. is_lower_char c \<or> c = CHR ''_''), Lit ''}''])"

definition token_pattern :: "string \<Rightarrow> rx" where
  "token_pattern token = Seqs [WordB, Lit token, WordB]"

text \<open>\<open>url.rstrip(".,;:)")\<close>.\<close>

definition rstrip_punct :: "string \<Rightarrow> string" where
  "rstrip_punct s = rev (dropWhile (one_of ''.,;:)'') (rev s))"

text \<open>The loop over the links stops at the first that is not allowed.\<close>

fun unapproved :: "ip_book \<Rightarrow> url_policy \<Rightarrow> string list \<Rightarrow> url_error + bool" where
  "unapproved ips rules [] = Inr False"
| "unapproved ips rules (u # us) =
     and_then (is_allowed ips (rstrip_punct u) rules)
       (\<lambda>ok. if ok then unapproved ips rules us else Inr True)"

definition check_text :: "ip_book \<Rightarrow> url_policy \<Rightarrow> string \<Rightarrow> url_error + string list" where
  "check_text ips rules text =
     and_then (unapproved ips rules (find_all URL_PATTERN text)) (\<lambda>bad. Inr
       ((if search PLACEHOLDER text then [''unrendered_placeholder''] else []) @
        map (\<lambda>kind. ''pii:'' @ kind) (filter (\<lambda>kind. kind \<noteq> ''url'') (found_pii_kinds text)) @
        (if search REF_PATTERN text then [''internal_reference_leaked''] else []) @
        (if search HEX_PATTERN text then [''hash_leaked''] else []) @
        map (\<lambda>token. ''internal_token:'' @ token)
          (filter (\<lambda>token. search (token_pattern token) (casefold text)) INTERNAL_TOKENS) @
        (if bad then [''unapproved_url''] else [])))"

fun check_each :: "(string \<Rightarrow> url_error + string list) \<Rightarrow> (string \<times> string) list
    \<Rightarrow> url_error + string list" where
  "check_each check [] = Inr []"
| "check_each check ((label, text) # rest) =
     and_then (check text) (\<lambda>vs. and_then (check_each check rest)
       (\<lambda>ws. Inr (map (\<lambda>v. label @ v) vs @ ws)))"

text \<open>\<open>f"template_var_{index}:"\<close>, numbered from one.\<close>

definition guarded_texts :: "outbound_message \<Rightarrow> (string \<times> string) list" where
  "guarded_texts m =
     (if om_body m = '''' then [] else [('''', om_body m)]) @
     map (\<lambda>b. (''button:'', button_title b)) (om_buttons m) @
     (case om_template m of
        None \<Rightarrow> []
      | Some t \<Rightarrow> map (\<lambda>(i, v). (''template_var_'' @ show_nat i @ '':'', v))
                   (enumerate 1 (template_variables t)))"

text \<open>\<open>tuple(dict.fromkeys(...))\<close> keeps the first of equal violations.\<close>

definition first_of_each :: "'a list \<Rightarrow> 'a list" where
  "first_of_each xs = rev (remdups (rev xs))"

definition guard_check :: "ip_book \<Rightarrow> url_policy \<Rightarrow> outbound_message \<Rightarrow> url_error + string list" where
  "guard_check ips rules m =
     and_then (check_each (check_text ips rules) (guarded_texts m)) (\<lambda>vs. Inr (first_of_each
       (vs @ (case om_template m of
                None \<Rightarrow> []
              | Some t \<Rightarrow> if strip (template_name t) = '''' then [''empty_template_name''] else []))))"

definition customer_safe_url_policy :: "string \<Rightarrow> url_policy" where
  "customer_safe_url_policy website_host =
     \<lparr>allowed_hosts = {''meet.google.com'', ''payments.cashfree.com'', ''payments-test.cashfree.com''} \<union>
        (if website_host = '''' then {} else {casefold website_host}),
      allowed_schemes = {''https''}, allow_subdomains = False\<rparr>"

section \<open>Links are found whole\<close>

lemma link_chars: "list_all link_char ''https://''"
  by code_simp

lemma ends_URL_PATTERN:
  "ends URL_PATTERN (rb, s) = [] \<or>
   hd (ends URL_PATTERN (rb, s)) = (rev (takeWhile link_char s) @ rb, dropWhile link_char s)"
proof -
  have tail: "ends (Seq (Lit ''://'') (AtLeast 1 link_char)) (rb, s) = [] \<or>
      hd (ends (Seq (Lit ''://'') (AtLeast 1 link_char)) (rb, s))
        = (rev (takeWhile link_char s) @ rb, dropWhile link_char s)" for rb s
  proof (cases "prefix ''://'' s \<and> drop 3 s \<noteq> [] \<and> link_char (hd (drop 3 s))")
    case True
    then obtain c t where s: "s = ''://'' @ c # t" "link_char c"
      by (auto simp: prefix_def neq_Nil_conv)
    then show ?thesis
      using link_chars by (simp add: ends_Lit ends_AtLeast_1 hd_greedy hd_map concat_map_singleton)
  next
    case False
    then have "ends (Seq (Lit ''://'') (AtLeast 1 link_char)) (rb, s) = []"
      by (auto simp: ends_Lit ends_AtLeast_1 prefix_def split: list.splits)
    then show ?thesis by blast
  qed
  show ?thesis
  proof (cases "prefix ''http'' s")
    case False
    then have "ends URL_PATTERN (rb, s) = []" by (simp add: URL_PATTERN_def ends_Lit del: Lit.simps)
    then show ?thesis by blast
  next
    case True
    then obtain t where s: "s = ''http'' @ t" by (auto simp: prefix_def)
    have "ends URL_PATTERN (rb, s) =
        concat (map (ends (Seq (Lit ''://'') (AtLeast 1 link_char)))
          (ends (Opt (Lit ''s'')) (rev ''http'' @ rb, t)))"
      by (simp add: s URL_PATTERN_def ends_Lit del: Lit.simps)
    then show ?thesis
      using tail [of "''s'' @ rev ''http'' @ rb" "drop 1 t"] tail [of "rev ''http'' @ rb" t] link_chars
      by (cases "prefix ''s'' t") (auto simp: s Opt_def ends_Lit prefix_def hd_append simp del: Lit.simps)
  qed
qed

lemma links_covered:
  assumes "s = u @ ''http'' @ secure @ ''://'' @ c # v" and "secure = '''' \<or> secure = ''s''"
    and "link_char c"
  shows "\<exists>a link b. link \<in> set (find_from URL_PATTERN rb s) \<and> s = a @ link @ b \<and>
    length a \<le> length u \<and> length u < length a + length link \<and> (b = [] \<or> \<not> link_char (hd b))"
  using assms(1)
proof (induction rb s arbitrary: u rule: scan_induct [where r = URL_PATTERN])
  case (miss rb d t)
  show ?case
  proof (cases u)
    case Nil
    have "matches URL_PATTERN rb (''http'' @ secure @ ''://'' @ [c]) v"
      unfolding URL_PATTERN_def Seqs.simps using assms(2,3)
      by (intro matches_SeqI) (simp_all, auto simp: matches_Alts)
    then have "ends URL_PATTERN (rb, d # t) \<noteq> []"
      using miss.prems Nil ends_nonempty [of URL_PATTERN rb "d # t"] by force
    then have "dropWhile link_char (d # t) = d # t"
      using miss.hyps(1) ends_URL_PATTERN [of rb "d # t"] by auto
    moreover have "link_char d" using miss.prems Nil link_chars by simp
    ultimately have False using dropWhile_eq_self_iff [of link_char "d # t"] by simp
    then show ?thesis ..
  next
    case (Cons e u')
    then have "t = u' @ ''http'' @ secure @ ''://'' @ c # v" using miss.prems by simp
    from miss.IH [OF this] obtain a link b where
      "link \<in> set (find_from URL_PATTERN (d # rb) t)" "t = a @ link @ b" "length a \<le> length u'"
      "length u' < length a + length link" "b = [] \<or> \<not> link_char (hd b)"
      by blast
    then show ?thesis
      using miss.hyps(2) Cons by (intro exI [of _ "d # a"] exI [of _ link] exI [of _ b]) simp
  qed
next
  case (hit rb m s')
  have found: "m \<in> set (find_from URL_PATTERN rb (m @ s'))" using hit.hyps(4) by simp
  have "ends URL_PATTERN (rb, m @ s') \<noteq> []"
    using hit.hyps(2) ends_nonempty [of URL_PATTERN rb "m @ s'"] by blast
  then have stop: "s' = dropWhile link_char (m @ s')"
    using ends_URL_PATTERN [of rb "m @ s'"] hit.hyps(3) by simp
  then have last: "s' = [] \<or> \<not> link_char (hd s')" using hd_dropWhile by metis
  show ?case
  proof (cases "length u < length m")
    case True
    then show ?thesis
      using found last by (intro exI [of _ "[]"] exI [of _ m] exI [of _ s']) simp
  next
    case False
    then have "s' = drop (length m) u @ ''http'' @ secure @ ''://'' @ c # v"
      using arg_cong [OF hit.prems, of "drop (length m)"] by simp
    from hit.IH [OF this] obtain a link b where
      "link \<in> set (find_from URL_PATTERN (rev m @ rb) s')" "s' = a @ link @ b"
      "length a \<le> length (drop (length m) u)" "length (drop (length m) u) < length a + length link"
      "b = [] \<or> \<not> link_char (hd b)"
      by blast
    then show ?thesis
      using hit.hyps(4) False by (intro exI [of _ "m @ a"] exI [of _ link] exI [of _ b]) auto
  qed
qed simp

section \<open>What the guard lets through\<close>

lemma first_of_each_set [simp]: "set (first_of_each xs) = set xs" "first_of_each xs = [] \<longleftrightarrow> xs = []"
  by (auto simp: first_of_each_def)

lemma unapproved_False:
  "unapproved ips rules us = Inr False \<longleftrightarrow> (\<forall>u\<in>set us. allowed_link ips (rstrip_punct u) rules)"
  by (induction us) (auto simp: allowed_link_def)

lemma check_each_Nil:
  "check_each check ts = Inr [] \<longleftrightarrow> (\<forall>(label, text)\<in>set ts. check text = Inr [])"
  by (induction check ts rule: check_each.induct) auto

lemma guard_check_NilD:
  assumes "guard_check ips rules m = Inr []" and "(label, text) \<in> set (guarded_texts m)"
  shows "check_text ips rules text = Inr []"
  using assms by (auto simp: guard_check_def check_each_Nil split: option.splits)

lemma check_text_NilD:
  assumes "check_text ips rules text = Inr []"
  shows "\<not> search PLACEHOLDER text" "\<not> search REF_PATTERN text" "\<not> search HEX_PATTERN text"
    "kind \<in> set (found_pii_kinds text) \<Longrightarrow> kind = ''url''"
    "link \<in> set (find_all URL_PATTERN text) \<Longrightarrow> allowed_link ips (rstrip_punct link) rules"
    "token \<in> set INTERNAL_TOKENS \<Longrightarrow> \<not> search (token_pattern token) (casefold text)"
proof -
  obtain bad where "unapproved ips rules (find_all URL_PATTERN text) = Inr bad"
    using assms by (auto simp: check_text_def)
  then show "link \<in> set (find_all URL_PATTERN text) \<Longrightarrow> allowed_link ips (rstrip_punct link) rules"
    using assms unapproved_False [of ips rules] by (auto simp: check_text_def split: if_splits)
qed (use assms in \<open>auto simp: check_text_def filter_empty_conv split: if_splits\<close>)

lemma pii_foundI: "(k, r) \<in> set PII_KINDS \<Longrightarrow> search r text \<Longrightarrow> k \<in> set (found_pii_kinds text)"
  by (force simp: found_pii_kinds_def)

lemma phone_found:
  assumes "length ds = 10" and "list_all is_digit ds" and "hd ds \<in> set ''6789''"
    and "u = [] \<or> \<not> is_digit (last u)" and "v = [] \<or> \<not> is_digit (hd v)"
  shows "search PHONE (u @ ds @ v)"
proof (rule searchI)
  obtain d es where ds: "ds = d # es" "length es = 9" "list_all is_digit es" "d \<in> set ''6789''"
    using assms by (cases ds) auto
  have "matches PHONE (rev u) ([] @ [] @ [d] @ es @ []) v"
    unfolding PHONE_def Seqs.simps
  proof (intro matches_SeqI)
    show "matches (NotBehind is_digit) (rev u) [] (([] @ [d] @ es @ []) @ v)"
      using assms(4) by (simp add: hd_rev)
    show "matches (Times 9 (Seq (Opt (Cls phone_sep)) (Cls is_digit)))
        (rev [d] @ rev [] @ rev [] @ rev u) es ([] @ v)"
      using matches_Times_sep [OF ds(3)] ds(2) by metis
    show "matches (NotAhead is_digit) (rev es @ rev [d] @ rev [] @ rev [] @ rev u) [] v"
      using assms(5) by simp
  qed (use ds(4) in \<open>simp_all add: one_of_def\<close>)
  then show "matches PHONE (rev u) ds v" using ds(1) by simp
qed

lemma starts_word_rev: "starts_word (rev u) \<longleftrightarrow> u \<noteq> [] \<and> is_word (last u)"
  by (cases u rule: rev_cases) (simp_all add: starts_word_def)

lemma starts_word_Cons [simp]: "starts_word [] = False" "starts_word (c # s) = is_word c"
  by (simp_all add: starts_word_def)

lemma ref_found:
  assumes "p \<in> {''cv_'', ''ph_'', ''ct_'', ''hld_'', ''nxo_'', ''rmd_''}" and "6 \<le> length w"
    and "list_all (\<lambda>c. alnum c) w" and "u = [] \<or> \<not> is_word (last u)" and "v = [] \<or> \<not> is_word (hd v)"
  shows "search REF_PATTERN (u @ (p @ w) @ v)"
proof (rule searchI)
  have p: "starts_word (p @ s)" for s
    using assms(1) by (auto simp: is_word_def is_lower_char_def)
  have w: "w \<noteq> []" "is_word (last w)"
    using assms(2,3) by (cases w rule: rev_cases; auto simp: is_word_def)+
  have "matches REF_PATTERN (rev u) ([] @ p @ w @ []) v"
    unfolding REF_PATTERN_def Seqs.simps
  proof (intro matches_SeqI)
    show "matches WordB (rev u) [] ((p @ w @ []) @ v)"
      using assms(4) p [of "w @ v"] by (auto simp: starts_word_rev)
    show "matches (Alts (Lit ''cv_'') [Lit ''ph_'', Lit ''ct_'', Lit ''hld_'', Lit ''nxo_'', Lit ''rmd_''])
        (rev [] @ rev u) p ((w @ []) @ v)"
      using assms(1) by (auto simp: matches_Alts)
    show "matches (AtLeast 6 (\<lambda>c. alnum c)) (rev p @ rev [] @ rev u) w ([] @ v)"
      using assms(2,3) by simp
    have "starts_word (rev w @ x)" for x
      using w by (cases w rule: rev_cases) simp_all
    then show "matches WordB (rev w @ rev p @ rev [] @ rev u) [] v"
      using assms(5) by (cases v) (auto simp: starts_word_def split: list.splits)
  qed
  then show "matches REF_PATTERN (rev u) (p @ w) v" by simp
qed

lemma word_ends:
  "w \<noteq> [] \<Longrightarrow> is_word (hd w) \<Longrightarrow> starts_word (w @ x)" "w \<noteq> [] \<Longrightarrow> is_word (last w) \<Longrightarrow> starts_word (rev w @ x)"
  by (cases w; simp) (cases w rule: rev_cases; simp)

text \<open>An e-mail address as the pattern knows it, its first and last characters word characters.\<close>

definition is_email :: "string \<Rightarrow> bool" where
  "is_email e \<longleftrightarrow> (\<exists>l d t. e = l @ ''@'' @ d @ ''.'' @ t \<and> l \<noteq> [] \<and> d \<noteq> [] \<and> 2 \<le> length t \<and>
     list_all (\<lambda>c. is_word c \<or> one_of ''.+-'' c) l \<and> list_all (\<lambda>c. is_word c \<or> c = CHR ''-'') d \<and>
     list_all (\<lambda>c. is_word c \<or> one_of ''.-'' c) t \<and> is_word (hd l) \<and> is_word (last t))"

lemma email_found:
  assumes "is_email e" and "u = [] \<or> \<not> is_word (last u)" and "v = [] \<or> \<not> is_word (hd v)"
  shows "search EMAIL (u @ e @ v)"
proof (rule searchI)
  obtain l d t where e: "e = l @ ''@'' @ d @ ''.'' @ t" "l \<noteq> []" "d \<noteq> []" "2 \<le> length t"
    "list_all (\<lambda>c. is_word c \<or> one_of ''.+-'' c) l" "list_all (\<lambda>c. is_word c \<or> c = CHR ''-'') d"
    "list_all (\<lambda>c. is_word c \<or> one_of ''.-'' c) t" "is_word (hd l)" "is_word (last t)"
    using assms(1) by (auto simp: is_email_def)
  have t: "t \<noteq> []" using e(4) by auto
  have "matches EMAIL (rev u) ([] @ l @ ''@'' @ d @ ''.'' @ t @ []) v"
    unfolding EMAIL_def Seqs.simps
  proof (intro matches_SeqI)
    show "matches WordB (rev u) [] ((l @ ''@'' @ d @ ''.'' @ t @ []) @ v)"
      using assms(2) word_ends(1) [OF e(2,8)] by (auto simp: starts_word_rev)
    show "matches WordB (rev t @ rev ''.'' @ rev d @ rev ''@'' @ rev l @ rev [] @ rev u) [] v"
      using assms(3) word_ends(2) [OF t e(9)]
      by (cases v) (auto simp: starts_word_def [of "[]"])
  qed (use e(2-7) in \<open>simp_all add: Suc_le_eq del: Lit.simps\<close>)
  then show "matches EMAIL (rev u) e v" using e(1) by simp
qed

text \<open>(C30) What the output guard lets through. If a message passes, then in its body, its button
  titles and its template variables there is no run of ten digits that starts with 6 to 9, not next to
  another digit; no e-mail address (word characters, dots, plus and minus signs before the at sign, a
  dotted name of word characters and minus signs after it) standing at word boundaries; no internal
  reference (one of the six guarded prefixes and six or more letters or digits) standing at word
  boundaries; and every link that is written with a scheme in lower case, http or https, lies in a run of
  link characters which, without its trailing punctuation, the allowlist accepts. Links whose scheme is
  written in capitals are not covered: see \<open>capital_links_pass\<close>.\<close>

theorem guarded_text_is_clean:
  assumes "guard_check ips rules m = Inr []" and "(label, text) \<in> set (guarded_texts m)"
  shows
    "\<not> (\<exists>u ds v. text = u @ ds @ v \<and> length ds = 10 \<and> list_all is_digit ds \<and> hd ds \<in> set ''6789'' \<and>
         (u = [] \<or> \<not> is_digit (last u)) \<and> (v = [] \<or> \<not> is_digit (hd v))) \<and>
     \<not> (\<exists>u e v. text = u @ e @ v \<and> is_email e \<and> (u = [] \<or> \<not> is_word (last u)) \<and> (v = [] \<or> \<not> is_word (hd v))) \<and>
     \<not> (\<exists>u p w v. text = u @ (p @ w) @ v \<and> 6 \<le> length w \<and>
         p \<in> {''cv_'', ''ph_'', ''ct_'', ''hld_'', ''nxo_'', ''rmd_''} \<and> list_all (\<lambda>c. alnum c) w \<and>
         (u = [] \<or> \<not> is_word (last u)) \<and> (v = [] \<or> \<not> is_word (hd v))) \<and>
     (\<forall>u secure c v. text = u @ ''http'' @ secure @ ''://'' @ c # v \<and> secure \<in> {'''', ''s''} \<and> link_char c
         \<longrightarrow> (\<exists>a link b. text = a @ link @ b \<and> length a \<le> length u \<and>
               length u < length a + length link \<and> (b = [] \<or> \<not> link_char (hd b)) \<and>
               allowed_link ips (rstrip_punct link) rules))"
proof -
  note clean = check_text_NilD [OF guard_check_NilD [OF assms]]
  have "\<not> search PHONE text" "\<not> search EMAIL text"
    using pii_foundI [of "''phone''" PHONE "text"] pii_foundI [of "''email''" EMAIL "text"] clean(4)
    by (auto simp: PII_KINDS_def)
  moreover have "\<exists>a link b. text = a @ link @ b \<and> length a \<le> length u \<and>
      length u < length a + length link \<and> (b = [] \<or> \<not> link_char (hd b)) \<and>
      allowed_link ips (rstrip_punct link) rules"
    if "text = u @ ''http'' @ secure @ ''://'' @ c # v" "secure \<in> {'''', ''s''}" "link_char c"
    for u secure c v
    using links_covered [OF that(1) _ that(3), of "[]"] that(2) clean(5)
    unfolding find_all_def by blast
  ultimately show ?thesis
    using phone_found email_found ref_found clean(2) by (intro conjI allI impI) blast+
qed

definition sample_message :: "string \<Rightarrow> outbound_message" where
  "sample_message body = \<lparr>om_conversation = ''conv-1'', om_recipient = ''ct-1'', om_audience = PARTY_STUDENT,
     om_kind = MK_FOLLOWUP, om_language = LANG_EN, om_body = body, om_buttons = [], om_template = None,
     om_key = ''k-1'', om_demo_id = None, om_trace_id = ''t-1'', om_expires_at = None, om_created_at = 0\<rparr>"

theorem guarded_text_is_clean_witness:
  "guard_check no_ip6 (customer_safe_url_policy ''A'') (sample_message ''https://a'') = Inr [] \<and>
   allowed_link no_ip6 ''https://a'' (customer_safe_url_policy ''A'') \<and>
   guard_check no_ip6 (customer_safe_url_policy '''') (sample_message ''https://a'')
     = Inr [''unapproved_url''] \<and>
   found_pii_kinds ''98765 43210'' = [''phone'']"
proof -
  let ?t = "''https://a''"
  have parts: "unapproved no_ip6 (customer_safe_url_policy ''A'') [?t] = Inr False"
    "unapproved no_ip6 (customer_safe_url_policy '''') [?t] = Inr True"
    "found_pii_kinds ?t = [''url'']" "find_all URL_PATTERN ?t = [?t]" "\<not> search PLACEHOLDER ?t"
    "\<not> search REF_PATTERN ?t" "\<not> search HEX_PATTERN ?t"
    "filter (\<lambda>token. search (token_pattern token) (casefold ?t)) INTERNAL_TOKENS = []"
    "found_pii_kinds ''98765 43210'' = [''phone'']"
    by code_simp+
  have texts: "guarded_texts (sample_message ?t) = [('''', ?t)]"
    "om_template (sample_message ?t) = None"
    by (simp_all add: guarded_texts_def sample_message_def)
  have ok: "guard_check no_ip6 (customer_safe_url_policy ''A'') (sample_message ?t) = Inr []"
    "guard_check no_ip6 (customer_safe_url_policy '''') (sample_message ?t) = Inr [''unapproved_url'']"
    unfolding guard_check_def texts check_each.simps check_text_def parts(4) parts(1,2) and_then.simps
    by (simp_all add: parts(3,5-8) first_of_each_def)
  have body: "('''', ?t) \<in> set (guarded_texts (sample_message ?t))"
    by (simp add: texts)
  have "\<exists>a link b. ?t = a @ link @ b \<and> length a \<le> length '''' \<and>
      length '''' < length a + length link \<and> (b = [] \<or> \<not> link_char (hd b)) \<and>
      allowed_link no_ip6 (rstrip_punct link) (customer_safe_url_policy ''A'')"
    using guarded_text_is_clean [OF ok(1) body]
    by (elim conjE) (drule spec [of _ "''''"], drule spec [of _ "''s''"], drule spec [of _ "CHR ''a''"],
        drule spec [of _ "''''"], simp add: link_char_def is_space_def)
  then obtain a link b where l: "?t = a @ link @ b" "a = []" "b = [] \<or> \<not> link_char (hd b)"
      "allowed_link no_ip6 (rstrip_punct link) (customer_safe_url_policy ''A'')"
    by (metis le_zero_eq length_0_conv list.size(3))
  moreover have "list_all link_char ?t" "rstrip_punct ?t = ?t" by code_simp+
  moreover have "hd b \<in> set (a @ link @ b)" if "b \<noteq> []" using that by simp
  ultimately have "b = []" by (metis list_all_iff)
  then have "allowed_link no_ip6 ?t (customer_safe_url_policy ''A'')"
    using l \<open>rstrip_punct ?t = ?t\<close> by simp
  then show ?thesis using ok parts by blast
qed

text \<open>The scheme of a link is case-insensitive to every client, the pattern is not. A link to any host at all
  whose scheme is written in capitals is no link to the guard, and the message that carries it is sent
  whatever the allowlist says.\<close>

theorem capital_links_pass:
  "guard_check ips rules (sample_message ''see HTTPS://evil.test/x'') = Inr []"
proof -
  let ?t = "''see HTTPS://evil.test/x''"
  have "find_all URL_PATTERN ?t = []" "\<not> search PLACEHOLDER ?t" "found_pii_kinds ?t = []"
    "\<not> search REF_PATTERN ?t" "\<not> search HEX_PATTERN ?t"
    "filter (\<lambda>token. search (token_pattern token) (casefold ?t)) INTERNAL_TOKENS = []"
    by code_simp+
  then have "check_text ips rules ?t = Inr []" by (simp add: check_text_def)
  then show ?thesis by (simp add: guard_check_def guarded_texts_def sample_message_def first_of_each_def)
qed

end
