(* ===== verification/RateLimit.thy ===== *)
theory RateLimit
  imports PyText
begin

text \<open>
  security/rate_limit.py: the per-container fixed window, the durable counter and their layering.
  A window is (scope, key) with the instant it started and a count. The clock's reading is an
  argument; the float of \<open>timestamp()\<close> is the exact number of microseconds. The counter table is
  not in the repository: a store is any function that takes its state, the row's key and window and
  returns either nothing (it raised) or the new state and the new count.
\<close>

datatype limit_scope =
  LS_CONVERSATION | LS_IDENTITY | LS_GLOBAL | LS_LLM | LS_WHATSAPP_SEND | LS_PAYMENT_ORDER
| LS_GOOGLE | LS_GATEWAY | LS_OPS_API

fun scope_value :: "limit_scope \<Rightarrow> string" where
  "scope_value LS_CONVERSATION = ''conversation''"
| "scope_value LS_IDENTITY = ''identity''"
| "scope_value LS_GLOBAL = ''global''"
| "scope_value LS_LLM = ''llm''"
| "scope_value LS_WHATSAPP_SEND = ''whatsapp_send''"
| "scope_value LS_PAYMENT_ORDER = ''payment_order''"
| "scope_value LS_GOOGLE = ''google''"
| "scope_value LS_GATEWAY = ''gateway''"
| "scope_value LS_OPS_API = ''ops_api''"

record verdict =
  vd_allowed :: bool
  vd_scope :: limit_scope
  vd_remaining :: int
  vd_retry_after :: int

text \<open>\<open>raise_for_limit\<close>: the exception carries the scope and the wait.\<close>

definition raise_for_limit :: "verdict \<Rightarrow> (limit_scope \<times> int) + unit" where
  "raise_for_limit d = (if \<not> vd_allowed d then Inl (vd_scope d, vd_retry_after d) else Inr ())"

section \<open>The per-container window\<close>

record window =
  started_at :: instant
  count :: int

type_synonym windows = "(string \<times> string, window) odict"

text \<open>The oldest windows go, in the order of a stable sort by start.\<close>

definition evict_if_needed :: "nat \<Rightarrow> windows \<Rightarrow> windows" where
  "evict_if_needed max_keys ws =
     (if length ws \<le> max_keys then ws
      else foldl (\<lambda>ws (bucket, w). dict_pop ws bucket) ws
             (take (length ws - max_keys) (sort_key (\<lambda>(bucket, w). started_at w) ws)))"

text \<open>\<open>math.ceil\<close> of a number of microseconds, in seconds.\<close>

definition ceil_seconds :: "duration \<Rightarrow> int" where
  "ceil_seconds d = - ((- d) div 1000000)"

text \<open>\<open>window.count += 1\<close> changes the object in place: the dictionary sees it unless the eviction has
  just removed it.\<close>

definition fast_check ::
  "nat \<Rightarrow> windows \<Rightarrow> instant \<Rightarrow> limit_scope \<Rightarrow> string \<Rightarrow> int \<Rightarrow> int \<Rightarrow> verdict \<times> windows" where
  "fast_check max_keys ws now scope key limit per_seconds =
     (let bucket = (scope_value scope, key);
          fresh = (case dict_get ws bucket of
                     None \<Rightarrow> True | Some w \<Rightarrow> now - started_at w \<ge> seconds per_seconds);
          w = (if fresh then \<lparr>started_at = now, count = 0\<rparr> else the (dict_get ws bucket));
          ws1 = (if fresh then evict_if_needed max_keys (dict_set ws bucket w) else ws);
          n = count w + 1;
          ws2 = (if dict_get ws1 bucket = None then ws1 else dict_set ws1 bucket (w\<lparr>count := n\<rparr>))
      in (if n > limit
          then \<lparr>vd_allowed = False, vd_scope = scope, vd_remaining = 0,
                vd_retry_after = max (ceil_seconds (seconds per_seconds - (now - started_at w))) 1\<rparr>
          else \<lparr>vd_allowed = True, vd_scope = scope, vd_remaining = limit - n, vd_retry_after = 0\<rparr>,
          ws2))"

section \<open>The durable counter and the layers\<close>

text \<open>\<open>int(timestamp())\<close> truncates towards zero.\<close>

definition whole_seconds :: "instant \<Rightarrow> int" where
  "whole_seconds now = (if 0 \<le> now then now div 1000000 else - ((- now) div 1000000))"

type_synonym 'c counter = "'c \<Rightarrow> string \<Rightarrow> string \<Rightarrow> int \<Rightarrow> int \<Rightarrow> ('c \<times> int) option"

definition durable_check ::
  "'c counter \<Rightarrow> 'c \<Rightarrow> instant \<Rightarrow> limit_scope \<Rightarrow> string \<Rightarrow> int \<Rightarrow> int \<Rightarrow> (py_error + verdict) \<times> 'c" where
  "durable_check increment c now scope key limit per_seconds =
     (if per_seconds = 0 then (Inl (ValueError ''modulo by zero''), c)
      else
        let t = whole_seconds now; window_start = t - t mod per_seconds
        in case increment c (scope_value scope) key window_start (per_seconds * 2) of
             None \<Rightarrow> (Inr \<lparr>vd_allowed = True, vd_scope = scope, vd_remaining = limit,
                           vd_retry_after = 0\<rparr>, c)
           | Some (c', n) \<Rightarrow>
               (Inr (if n > limit
                     then \<lparr>vd_allowed = False, vd_scope = scope, vd_remaining = 0,
                           vd_retry_after = max (window_start + per_seconds - t) 1\<rparr>
                     else \<lparr>vd_allowed = True, vd_scope = scope, vd_remaining = limit - n,
                           vd_retry_after = 0\<rparr>), c'))"

text \<open>The durable layer, when there is one, is asked only if the cheap one allowed.\<close>

definition layered_check ::
  "nat \<Rightarrow> 'c counter option \<Rightarrow> windows \<times> 'c \<Rightarrow> instant \<Rightarrow> limit_scope \<Rightarrow> string \<Rightarrow> int \<Rightarrow> int
     \<Rightarrow> (py_error + verdict) \<times> windows \<times> 'c" where
  "layered_check max_keys durable st now scope key limit per_seconds =
     (let (v, ws) = fast_check max_keys (fst st) now scope key limit per_seconds
      in if \<not> vd_allowed v then (Inr v, ws, snd st)
         else case durable of
           None \<Rightarrow> (Inr v, ws, snd st)
         | Some increment \<Rightarrow>
             (let (r, c) = durable_check increment (snd st) now scope key limit per_seconds
              in (r, ws, c)))"

section \<open>One bucket\<close>

text \<open>What a sequence of checks does to one bucket while nothing is evicted, and the instants it
  allows.\<close>

definition bucket_step :: "int \<Rightarrow> duration \<Rightarrow> window option \<Rightarrow> instant \<Rightarrow> window" where
  "bucket_step L P w t =
     (case w of
        None \<Rightarrow> \<lparr>started_at = t, count = 1\<rparr>
      | Some x \<Rightarrow> if t - started_at x \<ge> P then \<lparr>started_at = t, count = 1\<rparr>
                  else x\<lparr>count := count x + 1\<rparr>)"

fun bucket_allowed :: "int \<Rightarrow> duration \<Rightarrow> window option \<Rightarrow> instant list \<Rightarrow> instant list" where
  "bucket_allowed L P w [] = []"
| "bucket_allowed L P w (t # ts) =
     (let x = bucket_step L P w t
      in (if count x \<le> L then [t] else []) @ bucket_allowed L P (Some x) ts)"

abbreviation allowed_within :: "int \<Rightarrow> duration \<Rightarrow> window option \<Rightarrow> instant list \<Rightarrow> instant \<Rightarrow> instant \<Rightarrow> int" where
  "allowed_within L P w ts lo hi \<equiv> int (length (filter (\<lambda>t. lo \<le> t \<and> t < hi) (bucket_allowed L P w ts)))"

lemma bucket_allowed_sub: "set (bucket_allowed L P w ts) \<subseteq> set ts"
  by (induction L P w ts rule: bucket_allowed.induct) (auto simp: Let_def)

lemma none_after:
  assumes "\<forall>t\<in>set ts. hi \<le> t"
  shows "allowed_within L P w ts lo hi = 0"
proof -
  have "filter (\<lambda>t. lo \<le> t \<and> t < hi) (bucket_allowed L P w ts) = []"
    using assms bucket_allowed_sub [of L P w ts] by (force simp: filter_empty_conv)
  then show ?thesis by simp
qed

text \<open>Inside the window that is open, what is left of the limit; up to the end of the next one,
  a whole limit more.\<close>

lemma rest_of_window:
  assumes "sorted ts" and "hi \<le> started_at x + P" and "0 \<le> L"
  shows "allowed_within L P (Some x) ts lo hi \<le> max 0 (L - count x)"
  using assms(1,2)
proof (induction ts arbitrary: x)
  case (Cons t ts)
  show ?case
  proof (cases "t - started_at x \<ge> P")
    case True
    then have late: "\<forall>u\<in>set (t # ts). hi \<le> u" using Cons.prems by fastforce
    show ?thesis using none_after [OF late] by (simp del: bucket_allowed.simps)
  next
    case False
    then show ?thesis
      using Cons.IH [of "x\<lparr>count := count x + 1\<rparr>"] Cons.prems
      by (auto simp: bucket_step_def Let_def split: if_splits)
  qed
qed simp

lemma two_windows:
  assumes "sorted ts" and "hi \<le> started_at x + 2 * P" and "0 \<le> L" and "0 < P"
  shows "allowed_within L P (Some x) ts lo hi \<le> max 0 (L - count x) + L"
  using assms(1,2)
proof (induction ts arbitrary: x)
  case (Cons t ts)
  show ?case
  proof (cases "t - started_at x \<ge> P")
    case True
    let ?y = "\<lparr>started_at = t, count = 1\<rparr> :: window"
    have "allowed_within L P (Some ?y) ts lo hi \<le> max 0 (L - 1)"
      using rest_of_window [of ts hi ?y P L lo] Cons.prems True assms(3) by simp
    then show ?thesis
      using True assms(3) by (auto simp: bucket_step_def Let_def split: if_splits)
  next
    case False
    then show ?thesis
      using Cons.IH [of "x\<lparr>count := count x + 1\<rparr>"] Cons.prems
      by (auto simp: bucket_step_def Let_def split: if_splits)
  qed
qed (use assms(3) in simp)

lemma at_most_double:
  assumes "sorted ts" and "0 \<le> L" and "0 < P" and "case w of None \<Rightarrow> True | Some x \<Rightarrow> 0 \<le> count x"
  shows "allowed_within L P w ts u (u + P) \<le> 2 * L"
  using assms(1,4)
proof (induction ts arbitrary: w)
  case (Cons t ts)
  let ?x = "bucket_step L P w t"
  have srt: "sorted ts" and pos: "1 \<le> count ?x"
    using Cons.prems by (auto simp: bucket_step_def split: option.splits)
  show ?case
  proof (cases "t < u")
    case True
    then have "allowed_within L P w (t # ts) u (u + P) = allowed_within L P (Some ?x) ts u (u + P)"
      by (simp add: Let_def)
    then show ?thesis using Cons.IH [OF srt, of "Some ?x"] pos by simp
  next
    case False
    have "t - started_at ?x < P"
      using assms(3) by (auto simp: bucket_step_def split: option.splits)
    then have "allowed_within L P (Some ?x) ts u (u + P) \<le> max 0 (L - count ?x) + L"
      using False by (intro two_windows [OF srt _ assms(2,3)]) simp
    then show ?thesis using pos assms(2) by (simp add: Let_def) linarith
  qed
qed (use assms(2) in simp)

section \<open>The limiter on many buckets\<close>

record request =
  rq_at :: instant
  rq_scope :: limit_scope
  rq_key :: string
  rq_limit :: int
  rq_per_seconds :: int

definition rq_bucket :: "request \<Rightarrow> string \<times> string" where
  "rq_bucket r = (scope_value (rq_scope r), rq_key r)"

fun allowed_times :: "nat \<Rightarrow> windows \<Rightarrow> string \<times> string \<Rightarrow> request list \<Rightarrow> instant list" where
  "allowed_times mk ws b [] = []"
| "allowed_times mk ws b (r # rs) =
     (let (v, ws') = fast_check mk ws (rq_at r) (rq_scope r) (rq_key r) (rq_limit r) (rq_per_seconds r)
      in (if vd_allowed v \<and> rq_bucket r = b then [rq_at r] else []) @ allowed_times mk ws' b rs)"

lemma dict_set_length:
  assumes "dict_ok ws" and "insert b (set (dict_keys ws)) \<subseteq> K" and "finite K"
  shows "length (dict_set ws b w) \<le> card K"
proof -
  have "length (dict_set ws b w) = card (set (dict_keys (dict_set ws b w)))"
    using dict_ok_set [OF assms(1), of b w] by (simp add: dict_ok_def distinct_card) (simp add: dict_keys_def)
  then show ?thesis using card_mono [OF assms(3,2)] by (simp add: set_keys_set)
qed

lemma fast_check_step:
  assumes "dict_ok ws" and "insert (rq_bucket r) (set (dict_keys ws)) \<subseteq> K" and "finite K" and "card K \<le> mk"
    and "fast_check mk ws (rq_at r) (rq_scope r) (rq_key r) (rq_limit r) (rq_per_seconds r) = (v, ws')"
  defines "x \<equiv> bucket_step (rq_limit r) (seconds (rq_per_seconds r)) (dict_get ws (rq_bucket r)) (rq_at r)"
  shows "dict_ok ws' \<and> set (dict_keys ws') \<subseteq> K \<and> (vd_allowed v \<longleftrightarrow> count x \<le> rq_limit r) \<and>
    (\<forall>b. dict_get ws' b = (if b = rq_bucket r then Some x else dict_get ws b))"
proof -
  have keep: "evict_if_needed mk (dict_set ws (rq_bucket r) w) = dict_set ws (rq_bucket r) w" for w
    using dict_set_length [OF assms(1,2,3), of w] assms(4) by (simp add: evict_if_needed_def)
  show ?thesis
    using assms(5,1,2) unfolding x_def
    by (auto simp: fast_check_def Let_def bucket_step_def rq_bucket_def [symmetric] keep set_keys_set
        split: option.splits if_splits)
qed

lemma allowed_times_bucket:
  assumes "dict_ok ws" and "set (dict_keys ws) \<union> rq_bucket ` set rs \<subseteq> K" and "finite K" and "card K \<le> mk"
    and "\<forall>r\<in>set rs. rq_bucket r = b \<longrightarrow> rq_limit r = L \<and> seconds (rq_per_seconds r) = P"
  shows "allowed_times mk ws b rs =
    bucket_allowed L P (dict_get ws b) (map rq_at (filter (\<lambda>r. rq_bucket r = b) rs))"
  using assms(1,2,5)
proof (induction rs arbitrary: ws)
  case (Cons r rs)
  obtain v ws' where c: "fast_check mk ws (rq_at r) (rq_scope r) (rq_key r) (rq_limit r)
      (rq_per_seconds r) = (v, ws')"
    by fastforce
  have keys: "insert (rq_bucket r) (set (dict_keys ws)) \<subseteq> K" using Cons.prems(2) by simp
  note st = fast_check_step [OF Cons.prems(1) keys assms(3,4) c]
  have b: "dict_get ws' b = (if b = rq_bucket r
      then Some (bucket_step (rq_limit r) (seconds (rq_per_seconds r)) (dict_get ws (rq_bucket r)) (rq_at r))
      else dict_get ws b)"
    using st by blast
  have "allowed_times mk ws' b rs =
      bucket_allowed L P (dict_get ws' b) (map rq_at (filter (\<lambda>r. rq_bucket r = b) rs))"
    using Cons.IH [of ws'] Cons.prems(2,3) conjunct1 [OF st] conjunct1 [OF conjunct2 [OF st]]
    by (simp del: split_paired_All)
  then show ?case
    using c b conjunct1 [OF conjunct2 [OF conjunct2 [OF st]]] Cons.prems(3)
    by (cases "b = rq_bucket r") (simp_all add: Let_def)
qed simp

text \<open>The limiter lets through at most twice the limit in any span of the window's length.
  Checks on any keys come in clock order, those on this key with one limit and window, and the keys
  fit the table, so that nothing is evicted; the bound holds for every position of the span, the
  worst one included, where the end of a window meets the start of the next.\<close>

theorem limiter_at_most_doubles:
  assumes "sorted (map rq_at rs)" and "card (rq_bucket ` set rs) \<le> max_keys"
    and "\<forall>r\<in>set rs. rq_bucket r = b \<longrightarrow> rq_limit r = limit \<and> rq_per_seconds r = per"
    and "0 \<le> limit" and "0 < per"
  shows "int (length (filter (\<lambda>t. u \<le> t \<and> t < u + seconds per) (allowed_times max_keys [] b rs)))
    \<le> 2 * limit"
proof -
  have "allowed_times max_keys [] b rs =
      bucket_allowed limit (seconds per) None (map rq_at (filter (\<lambda>r. rq_bucket r = b) rs))"
    using allowed_times_bucket [of "[]" rs "rq_bucket ` set rs" max_keys b limit "seconds per"] assms(2,3)
    by (simp add: dict_keys_def)
  moreover have "sorted (map rq_at (filter (\<lambda>r. rq_bucket r = b) rs))"
    using assms(1) by (induction rs) auto
  ultimately show ?thesis
    using at_most_double [of _ limit "seconds per" None u] assms(4,5) by (simp add: seconds_def)
qed

text \<open>The worst case is met: one message a minute, two of them a microsecond apart.\<close>

definition minute_request :: "instant \<Rightarrow> request" where
  "minute_request t = \<lparr>rq_at = t, rq_scope = LS_CONVERSATION, rq_key = ''c'', rq_limit = 1,
     rq_per_seconds = 60\<rparr>"

theorem limiter_at_most_doubles_witness:
  "int (length (filter (\<lambda>t. 59 * 1000000 \<le> t \<and> t < 59 * 1000000 + seconds 60)
     (allowed_times 10 [] (''conversation'', ''c'')
        (map minute_request [0, 59 * 1000000, 60 * 1000000, 61 * 1000000])))) \<le> 2 \<and>
   allowed_times 10 [] (''conversation'', ''c'')
     (map minute_request [0, 59 * 1000000, 60 * 1000000, 61 * 1000000]) = [0, 60 * 1000000]"
proof
  show "int (length (filter (\<lambda>t. 59 * 1000000 \<le> t \<and> t < 59 * 1000000 + seconds 60)
     (allowed_times 10 [] (''conversation'', ''c'')
        (map minute_request [0, 59 * 1000000, 60 * 1000000, 61 * 1000000])))) \<le> 2"
    using limiter_at_most_doubles [of "map minute_request [0, 59 * 1000000, 60 * 1000000, 61 * 1000000]"
        10 "(''conversation'', ''c'')" 1 60 "59 * 1000000"]
    by (simp add: minute_request_def rq_bucket_def)
qed code_simp

text \<open>A caller told to wait \<open>retry_after\<close> seconds finds the window over.\<close>

lemma retry_after_is_enough:
  assumes "fast_check mk ws now scope key limit per = (v, ws')" and "\<not> vd_allowed v"
    and "dict_get ws' (scope_value scope, key) = Some w" and "0 \<le> limit"
  shows "now + seconds (vd_retry_after v) - started_at w \<ge> seconds per"
proof -
  have ceil: "d \<le> 1000000 * ceil_seconds d" for d
    using div_mult_mod_eq [of "- d" 1000000] pos_mod_sign [of 1000000 "- d"]
    by (simp add: ceil_seconds_def)
  have "started_at w = (if case dict_get ws (scope_value scope, key) of
        None \<Rightarrow> True | Some w \<Rightarrow> now - started_at w \<ge> seconds per then now
      else started_at (the (dict_get ws (scope_value scope, key))))"
    using assms(1,3) by (auto simp: fast_check_def Let_def split: if_splits option.splits)
  then have "vd_retry_after v = max (ceil_seconds (seconds per - (now - started_at w))) 1"
    using assms(1,2) by (auto simp: fast_check_def Let_def split: if_splits)
  then show ?thesis
    using ceil [of "seconds per - (now - started_at w)"] by (simp add: seconds_def)
qed

end
