(* ===== verification/Ports.thy ===== *)
theory Ports
  imports PyText
begin

text \<open>
  contracts/ports.py: the classified failure every adapter of an outside service raises. The class
  name is what \<open>type(exc).__name__\<close> gives.
\<close>

record provider_error =
  px_provider :: string
  px_code :: string
  px_class :: string
  px_retryable :: bool

end
