(* ===== verification/Outbound.thy ===== *)
theory Outbound
  imports Conversations DeliveryStores OutputGuard RateLimit Ports
begin

text \<open>
  orchestration/outbound.py: the one place that sends. \<open>OutboundBoundary.send\<close> runs its gates in the
  source's order and returns an outcome; the message log and the limiter's windows are its state,
  the conversation repository is read, and the contacts directory and the WhatsApp sender are
  outside: their answers are arguments. Every call to the sender is kept in the state, so that what
  was sent, to whom and how often are statements about it.
\<close>

section \<open>The message log as the boundary uses it\<close>

locale send_log =
  fixes claim :: "outbound_message \<Rightarrow> instant \<Rightarrow> 'l \<Rightarrow> bool \<times> 'l"
    and record_result :: "'l \<Rightarrow> string \<Rightarrow> send_result \<Rightarrow> instant \<Rightarrow> 'l"
    and claimed :: "'l \<Rightarrow> string \<Rightarrow> bool"
  assumes claim_wins: "fst (claim m now l) \<longleftrightarrow> \<not> claimed l (om_key m)"
    and claim_claims: "claimed (snd (claim m now l)) k \<longleftrightarrow> claimed l k \<or> k = om_key m"
    and record_keeps: "claimed (record_result l j r now) k \<longleftrightarrow> claimed l k"

section \<open>What the boundary reads and is configured with\<close>

record reading =
  rd_ownership :: "ref \<Rightarrow> instant \<Rightarrow> ownership"
  rd_snapshot :: "ref \<Rightarrow> snapshot"
  rd_last_inbound :: "ref \<Rightarrow> instant option"

record outbound_policy =
  session_window_hours :: int
  sends_per_identity_per_hour :: int
  require_approved_template :: bool

record 'c boundary =
  bd_policy :: outbound_policy
  bd_templates :: "string set"
  bd_ips :: ip_book
  bd_urls :: url_policy
  bd_max_keys :: nat
  bd_durable :: "'c counter option"

record contacts =
  opted_out :: "ref \<Rightarrow> bool"
  resolve :: "ref \<Rightarrow> string option"

type_synonym sender = "outbound_message \<Rightarrow> string \<Rightarrow> provider_error + send_result"

record ('l, 'c) sending =
  sg_log :: 'l
  sg_windows :: windows
  sg_counter :: 'c
  sg_calls :: "(outbound_message \<times> string) list"

datatype boundary_error = GuardRaised url_error | LimiterRaised py_error

section \<open>The gates\<close>

definition refuse_send :: "outbound_message \<Rightarrow> send_outcome \<Rightarrow> string \<Rightarrow> send_result" where
  "refuse_send m outcome detail =
     \<lparr>sr_outcome = outcome, sr_key = om_key m, sr_provider_id = '''', sr_detail = take 200 detail,
      sr_sent_at = None\<rparr>"

definition template_check ::
  "'c boundary \<Rightarrow> reading \<Rightarrow> outbound_message \<Rightarrow> instant \<Rightarrow> string option" where
  "template_check b rd m now =
     (case om_template m of
        Some t \<Rightarrow>
          if require_approved_template (bd_policy b) \<and> bd_templates b \<noteq> {} \<and>
             template_name t \<notin> bd_templates b
          then Some (''template_not_approved:'' @ template_name t) else None
      | None \<Rightarrow>
          if session_window_open (rd_last_inbound rd (om_conversation m)) now
               (session_window_hours (bd_policy b))
          then None else Some ''session_window_closed_and_no_template'')"

text \<open>Gates one to four: nothing is written.\<close>

definition free_gates ::
  "reading \<Rightarrow> contacts \<Rightarrow> outbound_message \<Rightarrow> instant \<Rightarrow> (send_outcome \<times> string) option" where
  "free_gates rd ct m now =
     (let s = sn_state (rd_snapshot rd (om_conversation m))
      in if message_expired m now then Some (SUPPRESSED_EXPIRED, '''')
         else case assert_may_send (rd_ownership rd (om_conversation m) now) now of
           Inl why \<Rightarrow> Some (SUPPRESSED_NOT_OWNER, why)
         | Inr _ \<Rightarrow>
             if s \<in> SUSPENDED then Some (SUPPRESSED_STATE, state_value s)
             else if \<not> can_send_automated_message s \<and> om_kind m \<notin> TERMINAL_ALLOWED
               then Some (SUPPRESSED_STATE, state_value s)
             else if \<not> opt_out_exempt m \<and> opted_out ct (om_recipient m)
               then Some (SUPPRESSED_OPT_OUT, '''')
             else None)"

text \<open>Gate nine, then the record of the result.\<close>

definition deliver_to ::
  "('l \<Rightarrow> string \<Rightarrow> send_result \<Rightarrow> instant \<Rightarrow> 'l) \<Rightarrow> sender \<Rightarrow> ('l, 'c) sending \<Rightarrow> outbound_message
     \<Rightarrow> string \<Rightarrow> instant \<Rightarrow> send_result \<times> ('l, 'c) sending" where
  "deliver_to record_result sender st m recipient now =
     (let result =
        (case sender m recipient of
           Inr r \<Rightarrow> r
         | Inl exc \<Rightarrow>
             \<lparr>sr_outcome = SEND_FAILED, sr_key = om_key m, sr_provider_id = '''',
              sr_detail = take 200 (px_provider exc @ '':'' @
                (if px_code exc = '''' then ''error'' else px_code exc)), sr_sent_at = None\<rparr>)
      in (result, st\<lparr>sg_log := record_result (sg_log st) (om_key m) result now,
                     sg_calls := sg_calls st @ [(m, recipient)]\<rparr>))"

text \<open>A refusal after the claim is recorded under the message's key.\<close>

definition refuse_recorded ::
  "('l \<Rightarrow> string \<Rightarrow> send_result \<Rightarrow> instant \<Rightarrow> 'l) \<Rightarrow> ('l, 'c) sending \<Rightarrow> outbound_message \<Rightarrow> send_outcome
     \<Rightarrow> string \<Rightarrow> instant \<Rightarrow> (boundary_error + send_result) \<times> ('l, 'c) sending" where
  "refuse_recorded record_result st m outcome detail now =
     (let r = refuse_send m outcome detail
      in (Inr r, st\<lparr>sg_log := record_result (sg_log st) (om_key m) r now\<rparr>))"

definition paid_gates ::
  "('l \<Rightarrow> string \<Rightarrow> send_result \<Rightarrow> instant \<Rightarrow> 'l) \<Rightarrow> 'c boundary \<Rightarrow> reading \<Rightarrow> contacts \<Rightarrow> sender
     \<Rightarrow> ('l, 'c) sending \<Rightarrow> outbound_message \<Rightarrow> instant
     \<Rightarrow> (boundary_error + send_result) \<times> ('l, 'c) sending" where
  "paid_gates record_result b rd ct sender st m now =
     (let refuse = refuse_recorded record_result st m
      in case template_check b rd m now of
           Some why \<Rightarrow> refuse SUPPRESSED_NO_TEMPLATE why now
         | None \<Rightarrow>
      case guard_check (bd_ips b) (bd_urls b) m of
           Inl e \<Rightarrow> (Inl (GuardRaised e), st)
         | Inr (v # vs) \<Rightarrow> refuse SUPPRESSED_GUARDRAIL (join '','' (v # vs)) now
         | Inr [] \<Rightarrow>
      (let (d, ws, c) = layered_check (bd_max_keys b) (bd_durable b) (sg_windows st, sg_counter st) now
                          LS_WHATSAPP_SEND (om_recipient m)
                          (sends_per_identity_per_hour (bd_policy b)) 3600;
           st' = st\<lparr>sg_windows := ws, sg_counter := c\<rparr>
       in case d of
            Inl e \<Rightarrow> (Inl (LimiterRaised e), st')
          | Inr v \<Rightarrow>
              if \<not> vd_allowed v
              then refuse_recorded record_result st' m SUPPRESSED_RATE_LIMIT
                     (''retry_in='' @ show_nat (nat (vd_retry_after v))) now
              else case resolve ct (om_recipient m) of
                Some (p # ps) \<Rightarrow>
                  (let (r, st'') = deliver_to record_result sender st' m (p # ps) now in (Inr r, st''))
              | _ \<Rightarrow> refuse_recorded record_result st' m SUPPRESSED_OPT_OUT ''unresolvable_recipient'' now))"

text \<open>\<open>OutboundBoundary.send\<close>.\<close>

definition send ::
  "(outbound_message \<Rightarrow> instant \<Rightarrow> 'l \<Rightarrow> bool \<times> 'l) \<Rightarrow> ('l \<Rightarrow> string \<Rightarrow> send_result \<Rightarrow> instant \<Rightarrow> 'l)
     \<Rightarrow> 'c boundary \<Rightarrow> reading \<Rightarrow> contacts \<Rightarrow> sender \<Rightarrow> ('l, 'c) sending \<Rightarrow> outbound_message \<Rightarrow> instant
     \<Rightarrow> (boundary_error + send_result) \<times> ('l, 'c) sending" where
  "send claim record_result b rd ct sender st m now =
     (case free_gates rd ct m now of
        Some (outcome, detail) \<Rightarrow> (Inr (refuse_send m outcome detail), st)
      | None \<Rightarrow>
          (let (won, l) = claim m now (sg_log st); st' = st\<lparr>sg_log := l\<rparr>
           in if \<not> won then (Inr (refuse_send m DUPLICATE ''''), st')
              else paid_gates record_result b rd ct sender st' m now))"

text \<open>Delivery and read callbacks, and the count behind the no-show risk.\<close>

definition record_delivery_status :: "('l \<Rightarrow> string \<Rightarrow> string \<Rightarrow> 'l) \<Rightarrow> 'l \<Rightarrow> string \<Rightarrow> string \<Rightarrow> 'l" where
  "record_delivery_status record_status l pid status = record_status l pid status"

definition sends_in_last_day :: "('l \<Rightarrow> ref \<Rightarrow> instant \<Rightarrow> nat) \<Rightarrow> 'l \<Rightarrow> ref \<Rightarrow> instant \<Rightarrow> nat" where
  "sends_in_last_day sends_since l recipient now = sends_since l recipient (now - days 1)"

section \<open>What has to hold for a message to go out\<close>

definition may_go :: "'c boundary \<Rightarrow> reading \<Rightarrow> contacts \<Rightarrow> outbound_message \<Rightarrow> instant \<Rightarrow> bool" where
  "may_go b rd ct m now \<longleftrightarrow>
     \<not> message_expired m now \<and> held_by_us (rd_ownership rd (om_conversation m) now) now \<and>
     sn_state (rd_snapshot rd (om_conversation m)) \<noteq> HUMAN_HANDOFF \<and>
     (is_terminal (sn_state (rd_snapshot rd (om_conversation m))) \<longrightarrow> om_kind m \<in> {MK_WELCOME, MK_CANCELLATION}) \<and>
     (opted_out ct (om_recipient m) \<longrightarrow> om_kind m \<in> {MK_CONFIRMATION, MK_CANCELLATION, MK_PAYMENT_LINK}) \<and>
     (om_template m = None \<longrightarrow> (\<exists>t. rd_last_inbound rd (om_conversation m) = Some t \<and>
        now - t < hours (session_window_hours (bd_policy b)))) \<and>
     guard_check (bd_ips b) (bd_urls b) m = Inr []"

definition limiter_allows :: "'c boundary \<Rightarrow> windows \<Rightarrow> 'c \<Rightarrow> outbound_message \<Rightarrow> instant \<Rightarrow> bool" where
  "limiter_allows b ws c m now \<longleftrightarrow>
     (\<exists>v. fst (layered_check (bd_max_keys b) (bd_durable b) (ws, c) now LS_WHATSAPP_SEND (om_recipient m)
        (sends_per_identity_per_hour (bd_policy b)) 3600) = Inr v \<and> vd_allowed v)"

lemma free_gates_None:
  "free_gates rd ct m now = None \<longleftrightarrow>
     \<not> message_expired m now \<and> held_by_us (rd_ownership rd (om_conversation m) now) now \<and>
     sn_state (rd_snapshot rd (om_conversation m)) \<noteq> HUMAN_HANDOFF \<and>
     (is_terminal (sn_state (rd_snapshot rd (om_conversation m))) \<longrightarrow> om_kind m \<in> {MK_WELCOME, MK_CANCELLATION}) \<and>
     (opted_out ct (om_recipient m) \<longrightarrow> om_kind m \<in> {MK_CONFIRMATION, MK_CANCELLATION, MK_PAYMENT_LINK})"
  by (auto simp: free_gates_def Let_def assert_may_send_def SUSPENDED_def can_send_automated_message_def
      is_terminal_def TERMINAL_ALLOWED_def opt_out_exempt_def OPT_OUT_EXEMPT_def)

lemma refuse_recorded_calls [simp]:
  "sg_calls (snd (refuse_recorded rec st m oc detail now)) = sg_calls st"
  "sg_log (snd (refuse_recorded rec st m oc detail now)) = rec (sg_log st) (om_key m) (refuse_send m oc detail) now"
  by (simp_all add: refuse_recorded_def Let_def)

lemma deliver_to_calls [simp]:
  "sg_calls (snd (deliver_to rec sender st m p now)) = sg_calls st @ [(m, p)]"
  "sg_log (snd (deliver_to rec sender st m p now))
     = rec (sg_log st) (om_key m) (fst (deliver_to rec sender st m p now)) now"
  by (simp_all add: deliver_to_def Let_def)

lemma paid_gates_calls:
  "sg_calls (snd (paid_gates rec b rd ct sender st m now)) = sg_calls st \<or>
   (\<exists>p. sg_calls (snd (paid_gates rec b rd ct sender st m now)) = sg_calls st @ [(m, p)] \<and>
      resolve ct (om_recipient m) = Some p \<and> p \<noteq> [] \<and> template_check b rd m now = None \<and>
      guard_check (bd_ips b) (bd_urls b) m = Inr [] \<and>
      limiter_allows b (sg_windows st) (sg_counter st) m now)"
  by (simp add: paid_gates_def Let_def limiter_allows_def split_beta
      split: option.splits sum.splits list.splits)

lemma paid_gates_log:
  "sg_log (snd (paid_gates rec b rd ct sender st m now)) = sg_log st \<or>
   (\<exists>r. sg_log (snd (paid_gates rec b rd ct sender st m now)) = rec (sg_log st) (om_key m) r now)"
  by (auto simp: paid_gates_def Let_def split_beta split: option.splits sum.splits list.splits)

context send_log
begin

lemma send_call:
  assumes "sg_calls (snd (send claim record_result b rd ct sender st m now)) \<noteq> sg_calls st"
  shows "\<exists>p. sg_calls (snd (send claim record_result b rd ct sender st m now)) = sg_calls st @ [(m, p)] \<and>
    resolve ct (om_recipient m) = Some p \<and> \<not> claimed (sg_log st) (om_key m) \<and> may_go b rd ct m now \<and>
    limiter_allows b (sg_windows st) (sg_counter st) m now"
proof -
  have free: "free_gates rd ct m now = None" and won: "fst (claim m now (sg_log st))"
    using assms by (auto simp: send_def Let_def split_beta split: option.splits prod.splits if_splits)
  let ?st = "st\<lparr>sg_log := snd (claim m now (sg_log st))\<rparr>"
  have "snd (send claim record_result b rd ct sender st m now)
      = snd (paid_gates record_result b rd ct sender ?st m now)"
    using free won by (simp add: send_def Let_def split_beta)
  then show ?thesis
    using paid_gates_calls [of record_result b rd ct sender ?st m now] assms free won
    by (auto simp: claim_wins may_go_def free_gates_None template_check_def session_window_open_def
        split: option.splits if_splits)
qed

lemma send_claims:
  "claimed (sg_log (snd (send claim record_result b rd ct sender st m now))) k \<longleftrightarrow>
     claimed (sg_log st) k \<or> (free_gates rd ct m now = None \<and> k = om_key m)"
proof (cases "free_gates rd ct m now")
  case None
  let ?st = "st\<lparr>sg_log := snd (claim m now (sg_log st))\<rparr>"
  have "claimed (sg_log (snd (paid_gates record_result b rd ct sender ?st m now))) k \<longleftrightarrow>
      claimed (sg_log ?st) k"
    using paid_gates_log [of record_result b rd ct sender ?st m now] record_keeps by auto
  then show ?thesis using None by (simp add: send_def Let_def split_beta claim_claims)
qed (auto simp: send_def split: prod.splits)

end

record attempt =
  at_message :: outbound_message
  at_now :: instant
  at_reading :: reading
  at_contacts :: contacts
  at_sender :: sender

definition send_all ::
  "(outbound_message \<Rightarrow> instant \<Rightarrow> 'l \<Rightarrow> bool \<times> 'l) \<Rightarrow> ('l \<Rightarrow> string \<Rightarrow> send_result \<Rightarrow> instant \<Rightarrow> 'l)
     \<Rightarrow> 'c boundary \<Rightarrow> ('l, 'c) sending \<Rightarrow> attempt list \<Rightarrow> ('l, 'c) sending" where
  "send_all claim record_result b st xs =
     foldl (\<lambda>st a. snd (send claim record_result b (at_reading a) (at_contacts a) (at_sender a) st
       (at_message a) (at_now a))) st xs"

context send_log
begin

lemma send_all_calls:
  assumes "distinct (map (\<lambda>c. om_key (fst c)) (sg_calls st))"
    and "\<forall>(m, p)\<in>set (sg_calls st). claimed (sg_log st) (om_key m)"
  shows "distinct (map (\<lambda>c. om_key (fst c)) (sg_calls (send_all claim record_result b st xs))) \<and>
    (\<forall>k. claimed (sg_log st) k \<longrightarrow>
       filter (\<lambda>(m, p). om_key m = k) (sg_calls (send_all claim record_result b st xs))
         = filter (\<lambda>(m, p). om_key m = k) (sg_calls st)) \<and>
    (\<exists>ys. sg_calls (send_all claim record_result b st xs) = sg_calls st @ ys \<and>
       (\<forall>(m, p)\<in>set ys. \<exists>a\<in>set xs. at_message a = m \<and> resolve (at_contacts a) (om_recipient m) = Some p \<and>
          may_go b (at_reading a) (at_contacts a) m (at_now a)))"
  using assms
proof (induction xs arbitrary: st)
  case Nil
  then show ?case by (simp add: send_all_def)
next
  case (Cons a xs)
  let ?m = "at_message a"
  let ?st = "snd (send claim record_result b (at_reading a) (at_contacts a) (at_sender a) st ?m (at_now a))"
  have run: "send_all claim record_result b st (a # xs) = send_all claim record_result b ?st xs"
    by (simp add: send_all_def)
  have keep: "claimed (sg_log st) k \<Longrightarrow> claimed (sg_log ?st) k" for k by (simp add: send_claims)
  have step: "\<exists>zs. sg_calls ?st = sg_calls st @ zs \<and> distinct (map (\<lambda>c. om_key (fst c)) (sg_calls ?st)) \<and>
      (\<forall>(m, p)\<in>set zs. m = ?m \<and> resolve (at_contacts a) (om_recipient m) = Some p \<and>
         may_go b (at_reading a) (at_contacts a) m (at_now a) \<and> \<not> claimed (sg_log st) (om_key m) \<and>
         claimed (sg_log ?st) (om_key m))"
  proof (cases "sg_calls ?st = sg_calls st")
    case True
    then show ?thesis using Cons.prems(1) by (intro exI [of _ "[]"]) simp
  next
    case False
    obtain p where p: "sg_calls ?st = sg_calls st @ [(?m, p)]"
        "resolve (at_contacts a) (om_recipient ?m) = Some p"
        "\<not> claimed (sg_log st) (om_key ?m)" "may_go b (at_reading a) (at_contacts a) ?m (at_now a)"
      using send_call [OF False] by blast
    have "free_gates (at_reading a) (at_contacts a) ?m (at_now a) = None"
      using p(4) by (simp add: may_go_def free_gates_None)
    then have "claimed (sg_log ?st) (om_key ?m)" by (simp add: send_claims)
    moreover have "om_key ?m \<notin> set (map (\<lambda>c. om_key (fst c)) (sg_calls st))"
      using Cons.prems(2) p(3) by fastforce
    ultimately show ?thesis
      using p Cons.prems(1) by (intro exI [of _ "[(?m, p)]"]) simp
  qed
  then obtain zs where zs: "sg_calls ?st = sg_calls st @ zs" "distinct (map (\<lambda>c. om_key (fst c)) (sg_calls ?st))"
      "\<forall>(m, p)\<in>set zs. m = ?m \<and> resolve (at_contacts a) (om_recipient m) = Some p \<and>
         may_go b (at_reading a) (at_contacts a) m (at_now a) \<and> \<not> claimed (sg_log st) (om_key m) \<and>
         claimed (sg_log ?st) (om_key m)"
    by blast
  have "\<forall>(m, p)\<in>set (sg_calls ?st). claimed (sg_log ?st) (om_key m)"
    using Cons.prems(2) zs(1,3) keep by auto
  note IH = Cons.IH [OF zs(2) this]
  have none: "filter (\<lambda>(m, p). om_key m = k) zs = []" if "claimed (sg_log st) k" for k
    using zs(3) that by (auto simp: filter_empty_conv)
  obtain ys where ys: "sg_calls (send_all claim record_result b ?st xs) = sg_calls ?st @ ys"
      "\<forall>(m, p)\<in>set ys. \<exists>a\<in>set xs. at_message a = m \<and> resolve (at_contacts a) (om_recipient m) = Some p \<and>
          may_go b (at_reading a) (at_contacts a) m (at_now a)"
    using IH by blast
  have all: "\<forall>(m, p)\<in>set (zs @ ys). \<exists>a'\<in>set (a # xs). at_message a' = m \<and>
      resolve (at_contacts a') (om_recipient m) = Some p \<and>
      may_go b (at_reading a') (at_contacts a') m (at_now a')"
    using zs(3) ys(2) by fastforce
  show ?case
    unfolding run
  proof (intro conjI)
    show "distinct (map (\<lambda>c. om_key (fst c)) (sg_calls (send_all claim record_result b ?st xs)))"
      using IH by blast
    show "\<forall>k. claimed (sg_log st) k \<longrightarrow>
       filter (\<lambda>(m, p). om_key m = k) (sg_calls (send_all claim record_result b ?st xs))
         = filter (\<lambda>(m, p). om_key m = k) (sg_calls st)"
    proof (intro allI impI)
      fix k assume k: "claimed (sg_log st) k"
      have "filter (\<lambda>(m, p). om_key m = k) (sg_calls (send_all claim record_result b ?st xs))
          = filter (\<lambda>(m, p). om_key m = k) (sg_calls ?st)"
        using IH keep [OF k] by blast
      then show "filter (\<lambda>(m, p). om_key m = k) (sg_calls (send_all claim record_result b ?st xs))
         = filter (\<lambda>(m, p). om_key m = k) (sg_calls st)"
        using none [OF k] zs(1) by simp
    qed
    show "\<exists>ys. sg_calls (send_all claim record_result b ?st xs) = sg_calls st @ ys \<and>
       (\<forall>(m, p)\<in>set ys. \<exists>a\<in>set (a # xs). at_message a = m \<and> resolve (at_contacts a) (om_recipient m) = Some p \<and>
          may_go b (at_reading a) (at_contacts a) m (at_now a))"
      using ys(1) zs(1) all by (intro exI [of _ "zs @ ys"]) simp
  qed
qed

end

context send_log
begin

text \<open>A key is spent by the first attempt that passes the free gates.\<close>

lemma key_spent:
  assumes "free_gates rd ct m now = None" and "sg_calls st = []"
  shows "filter (\<lambda>(m', p). om_key m' = om_key m) (sg_calls (send_all claim record_result b
      (snd (send claim record_result b rd ct sender st m now)) xs))
    = filter (\<lambda>(m', p). om_key m' = om_key m) (sg_calls (snd (send claim record_result b rd ct sender st m now)))"
proof -
  let ?st = "snd (send claim record_result b rd ct sender st m now)"
  have spent: "claimed (sg_log ?st) (om_key m)" using assms(1) by (simp add: send_claims)
  have "sg_calls ?st = [] \<or> (\<exists>p. sg_calls ?st = [(m, p)])"
    using send_call [of b rd ct sender st m now] assms(2) by auto
  then have "distinct (map (\<lambda>c. om_key (fst c)) (sg_calls ?st))"
    "\<forall>(m, p)\<in>set (sg_calls ?st). claimed (sg_log ?st) (om_key m)"
    using spent by auto
  from send_all_calls [OF this] spent show ?thesis by blast
qed

end

text \<open>Both message logs provide it.\<close>

interpretation mem_outbound: send_log mem_claim_send mem_record_result "\<lambda>l k. k \<in> ml_claims l"
  by unfold_locales (auto simp: mem_claim_send_def)

interpretation pg_outbound: send_log pg_claim_send pg_record_result "\<lambda>l k. dict_get l k \<noteq> None"
  by unfold_locales (auto simp: pg_claim_send_def split: option.splits)

section \<open>Sending through the two logs\<close>

text \<open>(C29) Nothing is sent past a closed gate. In either log, when \<open>send\<close> calls the sender, it calls it
  once, with this message, for the address the directory gives; the message had not expired, we held
  the conversation's lease, no human had it, a closed conversation only gets its welcome or its
  cancellation, a parent who opted out only gets a confirmation, a cancellation or a payment link,
  a free-form text goes out inside the session window only, the output guard found nothing, the
  limiter allowed it, and its key had not been claimed before.\<close>

theorem sent_only_past_every_gate:
  "(sg_calls (snd (send mem_claim_send mem_record_result b rd ct sender st m now)) \<noteq> sg_calls st \<longrightarrow>
      (\<exists>p. sg_calls (snd (send mem_claim_send mem_record_result b rd ct sender st m now))
             = sg_calls st @ [(m, p)] \<and>
         resolve ct (om_recipient m) = Some p \<and> om_key m \<notin> ml_claims (sg_log st) \<and>
         may_go b rd ct m now \<and> limiter_allows b (sg_windows st) (sg_counter st) m now)) \<and>
   (sg_calls (snd (send pg_claim_send pg_record_result b rd ct sender db m now)) \<noteq> sg_calls db \<longrightarrow>
      (\<exists>p. sg_calls (snd (send pg_claim_send pg_record_result b rd ct sender db m now))
             = sg_calls db @ [(m, p)] \<and>
         resolve ct (om_recipient m) = Some p \<and> dict_get (sg_log db) (om_key m) = None \<and>
         may_go b rd ct m now \<and> limiter_allows b (sg_windows db) (sg_counter db) m now))"
proof (intro conjI impI)
  assume "sg_calls (snd (send pg_claim_send pg_record_result b rd ct sender db m now)) \<noteq> sg_calls db"
  from pg_outbound.send_call [OF this]
  show "\<exists>p. sg_calls (snd (send pg_claim_send pg_record_result b rd ct sender db m now))
             = sg_calls db @ [(m, p)] \<and>
         resolve ct (om_recipient m) = Some p \<and> dict_get (sg_log db) (om_key m) = None \<and>
         may_go b rd ct m now \<and> limiter_allows b (sg_windows db) (sg_counter db) m now"
    by simp
qed (rule mem_outbound.send_call)

definition empty_sending :: "'l \<Rightarrow> 'c \<Rightarrow> ('l, 'c) sending" where
  "empty_sending l c = \<lparr>sg_log = l, sg_windows = [], sg_counter = c, sg_calls = []\<rparr>"

definition empty_log :: mem_log where
  "empty_log = \<lparr>ml_claims = {}, ml_results = [], ml_sends = [], ml_statuses = []\<rparr>"

text \<open>A message goes out at most once. Whatever attempts are made, with whatever clock,
  conversation state, directory and sender answers at each, the messages handed to the sender have
  pairwise distinct keys, and each was handed over in an attempt all of whose gates were open.\<close>

theorem a_key_is_sent_once:
  "distinct (map (\<lambda>c. om_key (fst c))
     (sg_calls (send_all mem_claim_send mem_record_result b (empty_sending empty_log c) xs))) \<and>
   distinct (map (\<lambda>c. om_key (fst c))
     (sg_calls (send_all pg_claim_send pg_record_result b (empty_sending [] c) xs))) \<and>
   (\<forall>(m, p)\<in>set (sg_calls (send_all pg_claim_send pg_record_result b (empty_sending [] c) xs)).
      \<exists>a\<in>set xs. at_message a = m \<and> resolve (at_contacts a) (om_recipient m) = Some p \<and>
        may_go b (at_reading a) (at_contacts a) m (at_now a))"
proof -
  have "distinct (map (\<lambda>c. om_key (fst c))
     (sg_calls (send_all mem_claim_send mem_record_result b (empty_sending empty_log c) xs)))"
    using mem_outbound.send_all_calls [of "empty_sending empty_log c" b xs] by (simp add: empty_sending_def)
  moreover note pg_outbound.send_all_calls [of "empty_sending [] c" b xs]
  ultimately show ?thesis by (auto simp: empty_sending_def)
qed

text \<open>There is no second chance either: once a message has passed the free gates its key is spent,
  so a message that then failed at the provider, was over the rate limit or met a closed session
  window is never handed to the sender by any later attempt, in either log.\<close>

theorem spent_key_is_never_sent_again:
  assumes "free_gates rd ct m now = None"
  shows
    "filter (\<lambda>(m', p). om_key m' = om_key m) (sg_calls (send_all mem_claim_send mem_record_result b
        (snd (send mem_claim_send mem_record_result b rd ct sender (empty_sending empty_log c) m now)) xs))
      = filter (\<lambda>(m', p). om_key m' = om_key m)
          (sg_calls (snd (send mem_claim_send mem_record_result b rd ct sender (empty_sending empty_log c) m now)))
     \<and>
     filter (\<lambda>(m', p). om_key m' = om_key m) (sg_calls (send_all pg_claim_send pg_record_result b
        (snd (send pg_claim_send pg_record_result b rd ct sender (empty_sending [] c) m now)) xs))
      = filter (\<lambda>(m', p). om_key m' = om_key m)
          (sg_calls (snd (send pg_claim_send pg_record_result b rd ct sender (empty_sending [] c) m now)))"
  using mem_outbound.key_spent [OF assms, of "empty_sending empty_log c" b sender xs]
    pg_outbound.key_spent [OF assms, of "empty_sending [] c" b sender xs]
  by (simp add: empty_sending_def)

definition sample_reading :: reading where
  "sample_reading = \<lparr>rd_ownership = (\<lambda>c now. (unowned c now)\<lparr>ow_owner := SELF\<rparr>),
     rd_snapshot = blank_snapshot, rd_last_inbound = (\<lambda>_. Some 0)\<rparr>"

definition sample_boundary :: "unit boundary" where
  "sample_boundary = \<lparr>bd_policy = \<lparr>session_window_hours = 24, sends_per_identity_per_hour = 20,
       require_approved_template = True\<rparr>, bd_templates = {}, bd_ips = no_ip6,
     bd_urls = customer_safe_url_policy '''', bd_max_keys = 10, bd_durable = None\<rparr>"

definition sample_contacts :: contacts where
  "sample_contacts = \<lparr>opted_out = (\<lambda>_. False), resolve = (\<lambda>_. Some ''p'')\<rparr>"

definition failing_sender :: sender where
  "failing_sender = (\<lambda>m p. Inl \<lparr>px_provider = ''meta'', px_code = '''', px_class = ''ProviderTimeout'',
     px_retryable = True\<rparr>)"

definition working_sender :: sender where
  "working_sender = (\<lambda>m p. Inr \<lparr>sr_outcome = SENT, sr_key = om_key m, sr_provider_id = ''w'',
     sr_detail = '''', sr_sent_at = Some 1\<rparr>)"

definition sample_send :: "sender \<Rightarrow> (boundary_error + send_result) \<times> (mem_log, unit) sending" where
  "sample_send sender = send mem_claim_send mem_record_result sample_boundary sample_reading sample_contacts
     sender (empty_sending empty_log ()) (sample_message ''hi'') 1"

lemma sample_send_calls: "sg_calls (snd (sample_send s)) = [(sample_message ''hi'', ''p'')]"
proof -
  have g: "guard_check no_ip6 (customer_safe_url_policy '''') (sample_message ''hi'') = Inr []"
    by code_simp
  have f: "free_gates sample_reading sample_contacts (sample_message ''hi'') 1 = None"
    by code_simp
  have t: "template_check sample_boundary sample_reading (sample_message ''hi'') 1 = None"
    by code_simp
  have l: "layered_check 10 (None :: unit counter option) ([], ()) 1 LS_WHATSAPP_SEND ''ct-1'' 20 3600 =
      (Inr \<lparr>vd_allowed = True, vd_scope = LS_WHATSAPP_SEND, vd_remaining = 19, vd_retry_after = 0\<rparr>,
       [((''whatsapp_send'', ''ct-1''), \<lparr>started_at = 1, count = 1\<rparr>)], ())"
    by code_simp
  have c: "mem_claim_send (sample_message ''hi'') 1 empty_log =
      (True, empty_log\<lparr>ml_claims := {''k-1''}, ml_sends := [(''ct-1'', 1)]\<rparr>)"
    by (simp add: mem_claim_send_def empty_log_def sample_message_def)
  have b: "bd_ips sample_boundary = no_ip6" "bd_urls sample_boundary = customer_safe_url_policy ''''"
      "bd_max_keys sample_boundary = 10" "bd_durable sample_boundary = None"
      "sends_per_identity_per_hour (bd_policy sample_boundary) = 20"
      "om_recipient (sample_message ''hi'') = ''ct-1''" "resolve sample_contacts r = Some ''p''" for r
    by (simp_all add: sample_boundary_def sample_message_def sample_contacts_def)
  show ?thesis
    unfolding sample_send_def send_def f
    by (simp add: c paid_gates_def t b g l empty_sending_def Let_def case_prod_unfold)
qed

theorem sent_only_past_every_gate_witness:
  "may_go sample_boundary sample_reading sample_contacts (sample_message ''hi'') 1 \<and>
   sg_calls (snd (sample_send working_sender)) = [(sample_message ''hi'', ''p'')]"
  using sent_only_past_every_gate [of sample_boundary sample_reading sample_contacts working_sender
      "empty_sending empty_log ()" "sample_message ''hi''" 1] sample_send_calls [of working_sender]
  by (simp add: sample_send_def [symmetric]) (simp add: empty_sending_def)

theorem spent_key_is_never_sent_again_witness:
  "length (filter (\<lambda>(m', p). om_key m' = ''k-1'') (sg_calls (send_all mem_claim_send mem_record_result
     sample_boundary (snd (sample_send failing_sender))
     [\<lparr>at_message = sample_message ''hi'', at_now = 2, at_reading = sample_reading,
       at_contacts = sample_contacts, at_sender = working_sender\<rparr>]))) = 1"
proof -
  have f: "free_gates sample_reading sample_contacts (sample_message ''hi'') 1 = None"
    by code_simp
  have k: "om_key (sample_message ''hi'') = ''k-1''" by (simp add: sample_message_def)
  show ?thesis
    using conjunct1 [OF spent_key_is_never_sent_again [OF f, of sample_boundary failing_sender "()"
        "[\<lparr>at_message = sample_message ''hi'', at_now = 2, at_reading = sample_reading,
       at_contacts = sample_contacts, at_sender = working_sender\<rparr>]"]]
    unfolding sample_send_def [symmetric] k by (simp add: sample_send_calls k)
qed

theorem a_key_is_sent_once_witness:
  "length (sg_calls (send_all mem_claim_send mem_record_result sample_boundary (empty_sending empty_log ())
     [\<lparr>at_message = sample_message ''hi'', at_now = 1, at_reading = sample_reading,
       at_contacts = sample_contacts, at_sender = working_sender\<rparr>])) = 1 \<and>
   distinct (map (\<lambda>c. om_key (fst c)) (sg_calls (send_all mem_claim_send mem_record_result sample_boundary
     (empty_sending empty_log ())
     [\<lparr>at_message = sample_message ''hi'', at_now = 1, at_reading = sample_reading,
       at_contacts = sample_contacts, at_sender = working_sender\<rparr>])))"
  using a_key_is_sent_once [of sample_boundary "()" "[\<lparr>at_message = sample_message ''hi'', at_now = 1,
      at_reading = sample_reading, at_contacts = sample_contacts, at_sender = working_sender\<rparr>]"]
    sample_send_calls [of working_sender]
  by (simp add: send_all_def sample_send_def)

end
