(* ===== verification/Payments.thy ===== *)
theory Payments
  imports Pricing
begin

text \<open>
  domain/payments.py: payment orders, provider events and their reconciliation, activation
  attempts.

  The status of an order is a field of an enum type, but \<open>model_copy(update=...)\<close> does not
  validate, and the service updates it with plain strings: such an order holds a string that equals
  the enum member and is not identical to it. \<open>status_field\<close> keeps the difference, because
  \<open>reconcile\<close> tests identity and \<open>settled\<close> equality.
\<close>

definition DEFAULT_ORDER_TTL :: duration where "DEFAULT_ORDER_TTL = hours 48"

datatype order_status = OS_CREATED | OS_LINK_SENT | OS_PAID | OS_FAILED | OS_EXPIRED | OS_CANCELLED

fun order_status_value :: "order_status \<Rightarrow> string" where
  "order_status_value OS_CREATED = ''created''"
| "order_status_value OS_LINK_SENT = ''link_sent''"
| "order_status_value OS_PAID = ''paid''"
| "order_status_value OS_FAILED = ''failed''"
| "order_status_value OS_EXPIRED = ''expired''"
| "order_status_value OS_CANCELLED = ''cancelled''"

definition all_order_statuses :: "order_status list" where
  "all_order_statuses = [OS_CREATED, OS_LINK_SENT, OS_PAID, OS_FAILED, OS_EXPIRED, OS_CANCELLED]"

datatype status_field = Member order_status | Text string

fun status_text :: "status_field \<Rightarrow> string" where
  "status_text (Member st) = order_status_value st"
| "status_text (Text s) = s"

text \<open>\<open>OrderStatus(text)\<close>, as pydantic does when a row is read back.\<close>

definition parse_status :: "string \<Rightarrow> order_status option" where
  "parse_status s = find (\<lambda>st. order_status_value st = s) all_order_statuses"

lemma parse_status_value [simp]: "parse_status (order_status_value st) = Some st"
  by (cases st) (simp_all add: parse_status_def all_order_statuses_def)

datatype payment_event_kind = PE_SUCCESS | PE_FAILED | PE_USER_DROPPED | PE_REFUND | PE_UNKNOWN

fun payment_event_kind_value :: "payment_event_kind \<Rightarrow> string" where
  "payment_event_kind_value PE_SUCCESS = ''payment_success''"
| "payment_event_kind_value PE_FAILED = ''payment_failed''"
| "payment_event_kind_value PE_USER_DROPPED = ''payment_user_dropped''"
| "payment_event_kind_value PE_REFUND = ''refund''"
| "payment_event_kind_value PE_UNKNOWN = ''unknown''"

datatype reconciliation_failure =
  ORDER_NOT_FOUND | ORDER_MISMATCH | AMOUNT_MISMATCH | CURRENCY_MISMATCH | ORDER_ALREADY_PAID
| ORDER_EXPIRED

fun failure_value :: "reconciliation_failure \<Rightarrow> string" where
  "failure_value ORDER_NOT_FOUND = ''order_not_found''"
| "failure_value ORDER_MISMATCH = ''order_mismatch''"
| "failure_value AMOUNT_MISMATCH = ''amount_mismatch''"
| "failure_value CURRENCY_MISMATCH = ''currency_mismatch''"
| "failure_value ORDER_ALREADY_PAID = ''order_already_paid''"
| "failure_value ORDER_EXPIRED = ''order_expired''"

section \<open>Orders\<close>

record payment_order =
  po_order_ref :: ref
  po_conversation :: ref
  po_demo_id :: ref
  po_student_ref :: "ref option"
  po_amount_minor :: int
  po_currency :: string
  po_status :: status_field
  po_provider_order_id :: string
  po_payment_link :: string
  po_offer_policy_stamp :: string
  po_discount_percent :: int
  po_created_at :: instant
  po_expires_at :: instant
  po_paid_at :: "instant option"

definition payment_order_ok :: "payment_order \<Rightarrow> bool" where
  "payment_order_ok o' \<longleftrightarrow>
     length (po_order_ref o') \<le> 64 \<and> length (po_conversation o') \<le> 128 \<and>
     length (po_demo_id o') \<le> 64 \<and>
     (case po_student_ref o' of None \<Rightarrow> True | Some r \<Rightarrow> valid_ref r) \<and>
     1 \<le> po_amount_minor o' \<and> length (po_currency o') = 3 \<and>
     length (po_provider_order_id o') \<le> 128 \<and> length (po_payment_link o') \<le> 1024 \<and>
     length (po_offer_policy_stamp o') \<le> 96 \<and>
     0 \<le> po_discount_percent o' \<and> po_discount_percent o' \<le> 100 \<and>
     \<not> po_expires_at o' \<le> po_created_at o'"

definition from_offer ::
  "approved_offer \<Rightarrow> ref \<Rightarrow> instant \<Rightarrow> duration \<Rightarrow> py_error + payment_order" where
  "from_offer offer order_ref now ttl =
     (if \<not> offer_live offer now then Inl (ValueError ''expired offer'')
      else validated ''PaymentOrder'' payment_order_ok
        \<lparr>po_order_ref = order_ref, po_conversation = ao_conversation offer,
         po_demo_id = ao_demo_id offer, po_student_ref = ao_student_ref offer,
         po_amount_minor = ao_amount_minor offer, po_currency = ao_currency offer,
         po_status = Member OS_CREATED, po_provider_order_id = '''', po_payment_link = '''',
         po_offer_policy_stamp = ao_policy_stamp offer,
         po_discount_percent = ao_discount_percent offer, po_created_at = now,
         po_expires_at = now + ttl, po_paid_at = None\<rparr>)"

definition order_amount :: "payment_order \<Rightarrow> py_error + money" where
  "order_amount o' = make_money (po_amount_minor o') (po_currency o')"

text \<open>\<open>self.status in (PAID, CANCELLED)\<close> compares by equality.\<close>

definition settled :: "payment_order \<Rightarrow> bool" where
  "settled o' \<longleftrightarrow>
     status_text (po_status o') \<in> {order_status_value OS_PAID, order_status_value OS_CANCELLED}"

definition order_expired :: "payment_order \<Rightarrow> instant \<Rightarrow> bool" where
  "order_expired o' now \<longleftrightarrow> now \<ge> po_expires_at o'"

section \<open>Events\<close>

record payment_event =
  pe_provider_event_id :: string
  pe_kind :: payment_event_kind
  pe_order_ref :: ref
  pe_provider_order_id :: string
  pe_amount_minor :: int
  pe_currency :: string
  pe_provider_reference :: string
  pe_occurred_at :: instant
  pe_signature_verified :: bool
  pe_raw_digest :: string

definition payment_event_ok :: "payment_event \<Rightarrow> bool" where
  "payment_event_ok e \<longleftrightarrow>
     length (pe_provider_event_id e) \<le> 128 \<and> length (pe_order_ref e) \<le> 64 \<and>
     length (pe_provider_order_id e) \<le> 128 \<and> 0 \<le> pe_amount_minor e \<and>
     length (pe_currency e) = 3 \<and> length (pe_provider_reference e) \<le> 128 \<and>
     length (pe_raw_digest e) \<le> 64"

text \<open>\<open>PaymentEvent.reconcile\<close>, check by check; \<open>order.status is OrderStatus.PAID\<close> is identity.\<close>

definition reconcile ::
  "payment_event \<Rightarrow> payment_order option \<Rightarrow> instant \<Rightarrow> reconciliation_failure + unit" where
  "reconcile e order now =
     (if \<not> pe_signature_verified e then Inl ORDER_MISMATCH
      else case order of
        None \<Rightarrow> Inl ORDER_NOT_FOUND
      | Some o' \<Rightarrow>
          if po_order_ref o' \<noteq> pe_order_ref e then Inl ORDER_MISMATCH
          else if po_currency o' \<noteq> pe_currency e then Inl CURRENCY_MISMATCH
          else if po_amount_minor o' \<noteq> pe_amount_minor e then Inl AMOUNT_MISMATCH
          else if po_status o' = Member OS_PAID then Inl ORDER_ALREADY_PAID
          else if order_expired o' now \<and> pe_kind e = PE_SUCCESS then Inl ORDER_EXPIRED
          else Inr ())"

definition is_success :: "payment_event \<Rightarrow> bool" where
  "is_success e \<longleftrightarrow> pe_kind e = PE_SUCCESS \<and> pe_signature_verified e"

lemma reconcile_Inr_iff:
  "reconcile e order now = Inr () \<longleftrightarrow>
     (\<exists>o'. order = Some o' \<and> pe_signature_verified e \<and> po_order_ref o' = pe_order_ref e \<and>
        po_currency o' = pe_currency e \<and> po_amount_minor o' = pe_amount_minor e \<and>
        po_status o' \<noteq> Member OS_PAID \<and> (pe_kind e = PE_SUCCESS \<longrightarrow> now < po_expires_at o'))"
  by (auto simp: reconcile_def order_expired_def split: option.splits)

section \<open>Activations\<close>

record activation =
  ac_order_ref :: ref
  ac_conversation :: ref
  ac_key :: string
  ac_attempt :: int
  ac_succeeded :: bool
  ac_subscription_ref :: string
  ac_error_code :: string
  ac_attempted_at :: instant

definition activation_ok :: "activation \<Rightarrow> bool" where
  "activation_ok a \<longleftrightarrow>
     length (ac_order_ref a) \<le> 64 \<and> length (ac_conversation a) \<le> 128 \<and> length (ac_key a) \<le> 128 \<and>
     1 \<le> ac_attempt a \<and> length (ac_subscription_ref a) \<le> 128 \<and> length (ac_error_code a) \<le> 64 \<and>
     \<not> (ac_succeeded a \<and> ac_subscription_ref a = '''')"

end
