(* ===== verification/Commerce.thy ===== *)
theory Commerce
  imports Payments Claims
begin

text \<open>
  The commerce repositories: \<open>InMemoryCommerceRepository\<close> (storage/memory/commerce.py) and
  \<open>PgCommerceRepository\<close> (storage/postgres/repositories.py) with the constraints of its tables.
  The locale \<open>order_store\<close> is what the payment service relies on; both stores provide it.
  Generated row ids are left out.
\<close>

section \<open>The memory repository\<close>

record mem_commerce =
  mk_decisions :: "(ref, discount_decision) odict"
  mk_offer_log :: "(ref \<times> instant) list"
  mk_orders :: "(ref, payment_order) odict"
  mk_event_ids :: "string set"
  mk_events :: "payment_event list"
  mk_activations :: "(ref, activation) odict"

definition mem_commerce_init :: mem_commerce where
  "mem_commerce_init = \<lparr>mk_decisions = [], mk_offer_log = [], mk_orders = [], mk_event_ids = {},
     mk_events = [], mk_activations = []\<rparr>"

definition mem_save_decision :: "mem_commerce \<Rightarrow> discount_decision \<Rightarrow> mem_commerce" where
  "mem_save_decision s d =
     (let s1 = s\<lparr>mk_decisions := dict_set (mk_decisions s) (dd_demo_id d) d\<rparr>
      in case dd_student_ref d of
           None \<Rightarrow> s1
         | Some r \<Rightarrow> if dd_percent d > 0 \<and> r \<noteq> ''''
                     then s1\<lparr>mk_offer_log := mk_offer_log s1 @ [(r, decided_at d)]\<rparr> else s1)"

definition mem_load_decision :: "mem_commerce \<Rightarrow> ref \<Rightarrow> discount_decision option" where
  "mem_load_decision s demo = dict_get (mk_decisions s) demo"

definition mem_offers_since :: "mem_commerce \<Rightarrow> ref option \<Rightarrow> instant \<Rightarrow> nat" where
  "mem_offers_since s student since =
     (case student of
        None \<Rightarrow> 0
      | Some r \<Rightarrow> if r = '''' then 0
                  else length (filter (\<lambda>(q, at). q = r \<and> at \<ge> since) (mk_offer_log s)))"

definition mem_save_order :: "mem_commerce \<Rightarrow> payment_order \<Rightarrow> mem_commerce" where
  "mem_save_order s o' = s\<lparr>mk_orders := dict_set (mk_orders s) (po_order_ref o') o'\<rparr>"

definition mem_load_order :: "mem_commerce \<Rightarrow> ref \<Rightarrow> payment_order option" where
  "mem_load_order s r = dict_get (mk_orders s) r"

definition mem_order_for_conversation :: "mem_commerce \<Rightarrow> ref \<Rightarrow> payment_order option" where
  "mem_order_for_conversation s c =
     find (\<lambda>o'. po_conversation o' = c) (rev (dict_values (mk_orders s)))"

definition mem_record_event :: "mem_commerce \<Rightarrow> payment_event \<Rightarrow> instant \<Rightarrow> bool \<times> mem_commerce" where
  "mem_record_event s e now =
     (if pe_provider_event_id e \<in> mk_event_ids s then (False, s)
      else (True, s\<lparr>mk_event_ids := insert (pe_provider_event_id e) (mk_event_ids s),
                    mk_events := mk_events s @ [e]\<rparr>))"

definition mem_save_activation :: "mem_commerce \<Rightarrow> activation \<Rightarrow> py_error + mem_commerce" where
  "mem_save_activation s a =
     Inr (s\<lparr>mk_activations := dict_set (mk_activations s) (ac_order_ref a) a\<rparr>)"

definition mem_activation_for :: "mem_commerce \<Rightarrow> ref \<Rightarrow> activation option" where
  "mem_activation_for s r = dict_get (mk_activations s) r"

section \<open>The Postgres repository\<close>

record pg_commerce =
  pk_decisions :: "(ref, discount_decision) odict"
  pk_orders :: "(ref, payment_order) odict"
  pk_events :: "(string, payment_event \<times> instant) odict"
  pk_activations :: "activation list"

definition pg_commerce_init :: pg_commerce where
  "pg_commerce_init = \<lparr>pk_decisions = [], pk_orders = [], pk_events = [], pk_activations = []\<rparr>"

text \<open>\<open>INSERT ... ON CONFLICT (demo_id) DO UPDATE\<close> overwrites eight columns of the row.\<close>

definition upsert_decision :: "discount_decision option \<Rightarrow> discount_decision \<Rightarrow> discount_decision" where
  "upsert_decision old d =
     (case old of
        None \<Rightarrow> d
      | Some row \<Rightarrow>
          row\<lparr>dd_status := dd_status d, dd_band_name := dd_band_name d, dd_percent := dd_percent d,
              discount_minor := discount_minor d, payable_minor := payable_minor d,
              approved_by := approved_by d, dd_valid_until := dd_valid_until d,
              decided_at := decided_at d\<rparr>)"

text \<open>The CHECK constraints of \<open>dcc_discount_decisions\<close>.\<close>

definition decision_checks :: "discount_decision \<Rightarrow> bool" where
  "decision_checks d \<longleftrightarrow>
     dd_list_price_minor d - discount_minor d = payable_minor d \<and>
     (dd_status d \<noteq> DS_APPROVED \<or> payable_minor d \<ge> floor_minor d) \<and>
     dd_percent d \<ge> 0 \<and> dd_percent d \<le> 100"

definition pg_save_decision :: "pg_commerce \<Rightarrow> discount_decision \<Rightarrow> py_error + pg_commerce" where
  "pg_save_decision db d =
     (let row = upsert_decision (dict_get (pk_decisions db) (dd_demo_id d)) d
      in if decision_checks row
         then Inr (db\<lparr>pk_decisions := dict_set (pk_decisions db) (dd_demo_id d) row\<rparr>)
         else Inl (ValueError ''check_violation''))"

text \<open>Reading validates again.\<close>

definition pg_load_decision :: "pg_commerce \<Rightarrow> ref \<Rightarrow> py_error + discount_decision option" where
  "pg_load_decision db demo =
     (case dict_get (pk_decisions db) demo of
        None \<Rightarrow> Inr None
      | Some row \<Rightarrow> and_then (make_decision row) (\<lambda>d. Inr (Some d)))"

definition pg_offers_since :: "pg_commerce \<Rightarrow> ref option \<Rightarrow> instant \<Rightarrow> nat" where
  "pg_offers_since db student since =
     (case student of
        None \<Rightarrow> 0
      | Some r \<Rightarrow> if r = '''' then 0
                  else length (filter (\<lambda>d. dd_student_ref d = Some r \<and> dd_percent d > 0 \<and>
                                           decided_at d \<ge> since) (dict_values (pk_decisions db))))"

text \<open>The upsert of an order touches status, provider id, link and payment time only. The status
  column is text; a row read back is validated, so its status is an enum member again.\<close>

definition upsert_order :: "payment_order option \<Rightarrow> payment_order \<Rightarrow> payment_order" where
  "upsert_order old o' =
     (case old of
        None \<Rightarrow> o'
      | Some row \<Rightarrow> row\<lparr>po_status := po_status o', po_provider_order_id := po_provider_order_id o',
                        po_payment_link := po_payment_link o', po_paid_at := po_paid_at o'\<rparr>)"

definition as_column :: "payment_order \<Rightarrow> payment_order" where
  "as_column o' = o'\<lparr>po_status := Text (status_text (po_status o'))\<rparr>"

definition pg_save_order :: "pg_commerce \<Rightarrow> payment_order \<Rightarrow> pg_commerce" where
  "pg_save_order db o' =
     db\<lparr>pk_orders := dict_set (pk_orders db) (po_order_ref o')
          (as_column (upsert_order (dict_get (pk_orders db) (po_order_ref o')) o'))\<rparr>"

text \<open>\<open>PaymentOrder.model_validate(row)\<close>: the text must be a status and every field within its bounds. A row
  that does not validate makes the read raise; it is \<open>None\<close> here, and the invariant below rules it out.\<close>

definition order_from_row :: "payment_order \<Rightarrow> payment_order option" where
  "order_from_row row =
     (case parse_status (status_text (po_status row)) of
        None \<Rightarrow> None
      | Some st \<Rightarrow> if payment_order_ok (row\<lparr>po_status := Member st\<rparr>) then Some (row\<lparr>po_status := Member st\<rparr>) else None)"

lemma payment_order_ok_update [simp]:
  "payment_order_ok (o'\<lparr>po_status := st\<rparr>) = payment_order_ok o'" "payment_order_ok (o'\<lparr>po_paid_at := at\<rparr>) = payment_order_ok o'"
  by (simp_all add: payment_order_ok_def)

lemma order_from_row_Some:
  "order_from_row row = Some o' \<longleftrightarrow>
     (\<exists>st. parse_status (status_text (po_status row)) = Some st \<and> payment_order_ok row \<and> o' = row\<lparr>po_status := Member st\<rparr>)"
  by (auto simp: order_from_row_def split: option.splits)

definition pg_load_order :: "pg_commerce \<Rightarrow> ref \<Rightarrow> payment_order option" where
  "pg_load_order db r = Option.bind (dict_get (pk_orders db) r) order_from_row"

definition pg_order_for_conversation :: "pg_commerce \<Rightarrow> ref \<Rightarrow> payment_order option" where
  "pg_order_for_conversation db c =
     (case sort_key (\<lambda>o'. - po_created_at o')
             (filter (\<lambda>o'. po_conversation o' = c) (dict_values (pk_orders db))) of
        [] \<Rightarrow> None
      | row # _ \<Rightarrow> order_from_row row)"

definition pg_record_event :: "pg_commerce \<Rightarrow> payment_event \<Rightarrow> instant \<Rightarrow> bool \<times> pg_commerce" where
  "pg_record_event db e now =
     (case dict_get (pk_events db) (pe_provider_event_id e) of
        Some _ \<Rightarrow> (False, db)
      | None \<Rightarrow> (True, db\<lparr>pk_events := dict_set (pk_events db) (pe_provider_event_id e) (e, now)\<rparr>))"

text \<open>\<open>ON CONFLICT (order_ref, attempt) DO NOTHING\<close>; the partial index that allows one success per
  order makes a second one an error.\<close>

definition pg_save_activation :: "pg_commerce \<Rightarrow> activation \<Rightarrow> py_error + pg_commerce" where
  "pg_save_activation db a =
     (if \<exists>b\<in>set (pk_activations db). ac_order_ref b = ac_order_ref a \<and> ac_attempt b = ac_attempt a
      then Inr db
      else if ac_succeeded a \<and>
          (\<exists>b\<in>set (pk_activations db). ac_order_ref b = ac_order_ref a \<and> ac_succeeded b)
      then Inl (ValueError ''unique_violation'')
      else Inr (db\<lparr>pk_activations := pk_activations db @ [a]\<rparr>))"

definition pg_activation_for :: "pg_commerce \<Rightarrow> ref \<Rightarrow> activation option" where
  "pg_activation_for db r =
     (case sort_key (\<lambda>a. (if ac_succeeded a then 0 else 1 :: nat))
             (sort_key (\<lambda>a. - ac_attempt a)
               (filter (\<lambda>a. ac_order_ref a = r) (pk_activations db))) of
        [] \<Rightarrow> None
      | a # _ \<Rightarrow> Some a)"

section \<open>The contract of the payment service\<close>

text \<open>An order read back after it was saved is the one saved, up to how its status is held, when it
  was read from the store before (the service only ever saves a fresh order or a copy of a loaded
  one).\<close>

definition same_order :: "payment_order \<Rightarrow> payment_order \<Rightarrow> bool" where
  "same_order a b \<longleftrightarrow>
     a\<lparr>po_status := Text (status_text (po_status a))\<rparr> = b\<lparr>po_status := Text (status_text (po_status b))\<rparr>"

definition terms :: "payment_order \<Rightarrow> ref \<times> int \<times> string \<times> instant" where
  "terms a = (po_order_ref a, po_amount_minor a, po_currency a, po_expires_at a)"

lemma same_order_terms: "same_order a b \<Longrightarrow> terms a = terms b \<and> status_text (po_status a) = status_text (po_status b)"
  unfolding same_order_def terms_def by (cases a; cases b) simp

locale order_store =
  fixes load :: "'s \<Rightarrow> ref \<Rightarrow> payment_order option"
    and save :: "'s \<Rightarrow> payment_order \<Rightarrow> 's"
    and record_event :: "'s \<Rightarrow> payment_event \<Rightarrow> instant \<Rightarrow> bool \<times> 's"
    and seen_event :: "'s \<Rightarrow> string \<Rightarrow> bool"
    and inv :: "'s \<Rightarrow> bool"
    and fits :: "payment_order \<Rightarrow> bool"
  assumes load_ref: "inv s \<Longrightarrow> load s r = Some o' \<Longrightarrow> po_order_ref o' = r"
    and load_fits: "inv s \<Longrightarrow> load s r = Some o' \<Longrightarrow> fits (o'\<lparr>po_status := st, po_paid_at := at\<rparr>)"
    and save_inv: "inv s \<Longrightarrow> parse_status (status_text (po_status o')) \<noteq> None \<Longrightarrow> fits o' \<Longrightarrow> inv (save s o')"
    and save_own: "inv s \<Longrightarrow> load s (po_order_ref o') = Some p \<Longrightarrow> parse_status (status_text (po_status o')) \<noteq> None \<Longrightarrow>
          o' = p\<lparr>po_status := st, po_paid_at := at\<rparr> \<Longrightarrow>
          \<exists>q. load (save s o') (po_order_ref o') = Some q \<and> same_order q o'"
    and save_fresh: "inv s \<Longrightarrow> load s (po_order_ref o') = None \<Longrightarrow> parse_status (status_text (po_status o')) \<noteq> None \<Longrightarrow> fits o' \<Longrightarrow>
          \<exists>q. load (save s o') (po_order_ref o') = Some q \<and> same_order q o'"
    and save_other: "r \<noteq> po_order_ref o' \<Longrightarrow> load (save s o') r = load s r"
    and save_events: "seen_event (save s o') i = seen_event s i"
    and event_first: "fst (record_event s e now) \<longleftrightarrow> \<not> seen_event s (pe_provider_event_id e)"
    and event_seen: "seen_event (snd (record_event s e now)) i
          \<longleftrightarrow> seen_event s i \<or> i = pe_provider_event_id e"
    and event_again: "seen_event s (pe_provider_event_id e) \<Longrightarrow> snd (record_event s e now) = s"
    and event_orders: "load (snd (record_event s e now)) r = load s r"
    and event_inv: "inv s \<Longrightarrow> inv (snd (record_event s e now))"

definition mem_commerce_inv :: "mem_commerce \<Rightarrow> bool" where
  "mem_commerce_inv s \<longleftrightarrow> (\<forall>r o'. dict_get (mk_orders s) r = Some o' \<longrightarrow> po_order_ref o' = r)"

text \<open>Every row of the orders table reads back.\<close>

definition pg_commerce_inv :: "pg_commerce \<Rightarrow> bool" where
  "pg_commerce_inv db \<longleftrightarrow>
     (\<forall>r o'. dict_get (pk_orders db) r = Some o' \<longrightarrow>
        po_order_ref o' = r \<and> parse_status (status_text (po_status o')) \<noteq> None \<and> payment_order_ok o')"

lemma mem_commerce_frames [frame_simps]:
  "mk_orders (snd (mem_record_event s e now)) = mk_orders s"
  by (simp add: mem_record_event_def)

interpretation mem_events: single_winner
  "\<lambda>s i. mem_record_event s (e\<lparr>pe_provider_event_id := i\<rparr>) now" "\<lambda>s i. i \<in> mk_event_ids s"
  by unfold_locales (auto simp: mem_record_event_def)

interpretation pg_events: single_winner
  "\<lambda>db i. pg_record_event db (e\<lparr>pe_provider_event_id := i\<rparr>) now"
  "\<lambda>db i. dict_get (pk_events db) i \<noteq> None"
  by unfold_locales (auto simp: pg_record_event_def split: option.splits)

lemma mem_save_load: "mem_load_order (mem_save_order s o') r = (if r = po_order_ref o' then Some o' else mem_load_order s r)"
  by (auto simp: mem_load_order_def mem_save_order_def)

lemma same_order_refl [simp]: "same_order o' o'"
  by (simp add: same_order_def)

interpretation mem_orders: order_store mem_load_order mem_save_order mem_record_event
  "\<lambda>s i. i \<in> mk_event_ids s" mem_commerce_inv "\<lambda>_. True"
proof unfold_locales
  fix s and o' p :: payment_order and st at
  show "\<exists>q. mem_load_order (mem_save_order s o') (po_order_ref o') = Some q \<and> same_order q o'"
    by (simp add: mem_save_load)
  show "\<exists>q. mem_load_order (mem_save_order s o') (po_order_ref o') = Some q \<and> same_order q o'"
    by (simp add: mem_save_load)
qed (auto simp: mem_load_order_def mem_save_order_def mem_record_event_def mem_commerce_inv_def)

lemma parsed_text: "parse_status t = Some n \<Longrightarrow> order_status_value n = t"
  by (auto simp: parse_status_def dest: find_Some_in)

lemma pg_save_fresh:
  assumes "dict_get (pk_orders db) (po_order_ref o') = None"
    and "parse_status (status_text (po_status o')) \<noteq> None" and "payment_order_ok o'"
  shows "\<exists>q. pg_load_order (pg_save_order db o') (po_order_ref o') = Some q \<and> same_order q o'"
  using assms parsed_text
  by (auto simp: pg_load_order_def pg_save_order_def as_column_def upsert_order_def
      order_from_row_def same_order_def)

lemma pg_save_own:
  assumes "pg_load_order db (po_order_ref o') = Some p" and "parse_status (status_text (po_status o')) \<noteq> None"
    and "o' = p\<lparr>po_status := st, po_paid_at := at\<rparr>"
  shows "\<exists>q. pg_load_order (pg_save_order db o') (po_order_ref o') = Some q \<and> same_order q o'"
proof -
  obtain row st' where row: "dict_get (pk_orders db) (po_order_ref o') = Some row" "p = row\<lparr>po_status := Member st'\<rparr>"
      "payment_order_ok row"
    using assms(1) by (auto simp: pg_load_order_def order_from_row_Some bind_eq_Some_conv)
  obtain n where n: "parse_status (status_text (po_status o')) = Some n" using assms(2) by blast
  have "order_status_value n = status_text (po_status o')"
    using n by (auto simp: parse_status_def dest: find_Some_in)
  then show ?thesis
    using row n assms(3)
    by (simp add: pg_load_order_def pg_save_order_def as_column_def upsert_order_def
        order_from_row_def same_order_def)
qed

interpretation pg_orders: order_store pg_load_order pg_save_order pg_record_event
  "\<lambda>db i. dict_get (pk_events db) i \<noteq> None" pg_commerce_inv payment_order_ok
proof unfold_locales
  fix s and o' p :: payment_order and st at
  show "pg_commerce_inv s \<Longrightarrow> pg_load_order s (po_order_ref o') = Some p \<Longrightarrow>
      parse_status (status_text (po_status o')) \<noteq> None \<Longrightarrow>
      o' = p\<lparr>po_status := st, po_paid_at := at\<rparr> \<Longrightarrow>
      \<exists>q. pg_load_order (pg_save_order s o') (po_order_ref o') = Some q \<and> same_order q o'"
    by (rule pg_save_own)
next
  fix s and o' :: payment_order
  assume inv: "pg_commerce_inv s" and none: "pg_load_order s (po_order_ref o') = None"
    and ok: "parse_status (status_text (po_status o')) \<noteq> None" "payment_order_ok o'"
  have "dict_get (pk_orders s) (po_order_ref o') = None"
    using inv none by (cases "dict_get (pk_orders s) (po_order_ref o')")
      (simp, fastforce simp: pg_commerce_inv_def pg_load_order_def order_from_row_def)
  then show "\<exists>q. pg_load_order (pg_save_order s o') (po_order_ref o') = Some q \<and> same_order q o'"
    using ok by (rule pg_save_fresh)
next
  fix s and o' :: payment_order
  assume "pg_commerce_inv s" and "parse_status (status_text (po_status o')) \<noteq> None" and "payment_order_ok o'"
  then show "pg_commerce_inv (pg_save_order s o')"
    by (auto simp: pg_commerce_inv_def pg_save_order_def as_column_def upsert_order_def payment_order_ok_def split: option.splits)
qed (auto simp: pg_load_order_def pg_save_order_def pg_record_event_def pg_commerce_inv_def
    order_from_row_Some bind_eq_Some_conv split: option.splits)

section \<open>The contract of the activation attempts\<close>

text \<open>The attempt that comes after what is on record: the first one, or one more than a failed one.\<close>

definition next_attempt :: "activation option \<Rightarrow> activation \<Rightarrow> bool" where
  "next_attempt previous a \<longleftrightarrow>
     (case previous of None \<Rightarrow> ac_attempt a = 1 | Some p \<Rightarrow> \<not> ac_succeeded p \<and> ac_attempt a = ac_attempt p + 1)"

locale activation_store =
  fixes activation_for :: "'s \<Rightarrow> ref \<Rightarrow> activation option"
    and save_activation :: "'s \<Rightarrow> activation \<Rightarrow> py_error + 's"
  assumes next_is_kept: "next_attempt (activation_for s (ac_order_ref a)) a \<Longrightarrow>
    \<exists>s'. save_activation s a = Inr s' \<and> activation_for s' (ac_order_ref a) = Some a"

interpretation mem_attempts: activation_store mem_activation_for mem_save_activation
  by unfold_locales (simp add: mem_activation_for_def mem_save_activation_def)

lemma insort_key_first: "\<forall>y\<in>set ys. f a \<le> f y \<Longrightarrow> insort_key f a ys = a # ys"
  by (cases ys) simp_all

lemma sort_key_newest: "\<forall>x\<in>set xs. f a < f x \<Longrightarrow> sort_key f (xs @ [a]) = a # sort_key f xs"
  by (induction xs) auto

text \<open>The answer is the successful attempt, else the latest.\<close>

lemma pg_activation_for_None: "pg_activation_for db r = None \<longleftrightarrow> (\<forall>b\<in>set (pk_activations db). ac_order_ref b \<noteq> r)"
proof -
  have "pg_activation_for db r = None \<longleftrightarrow> set (filter (\<lambda>b. ac_order_ref b = r) (pk_activations db)) = {}"
    by (simp only: pg_activation_for_def set_sort [symmetric] split: list.split)
      (metis list.distinct(1) option.distinct(1) set_empty set_sort)
  then show ?thesis by (auto simp: filter_empty_conv)
qed

lemma pg_activation_for_latest:
  assumes "pg_activation_for db r = Some p" and "\<not> ac_succeeded p" and "b \<in> set (pk_activations db)" and "ac_order_ref b = r"
  shows "\<not> ac_succeeded b \<and> ac_attempt b \<le> ac_attempt p"
proof -
  let ?f = "\<lambda>a. if ac_succeeded a then 0 else 1 :: nat" and ?g = "\<lambda>a. - ac_attempt a"
  let ?rows = "filter (\<lambda>a. ac_order_ref a = r) (pk_activations db)"
  obtain rest where s: "sort_key ?f (sort_key ?g ?rows) = p # rest"
    using assms(1) by (auto simp: pg_activation_for_def split: list.splits)
  have mem: "set (p # rest) = set ?rows" by (metis s set_sort)
  have "sorted (map ?f (p # rest))" by (metis s sorted_sort_key)
  then have none: "\<forall>y\<in>set (p # rest). \<not> ac_succeeded y" using assms(2) by auto
  have "sort_key ?f (sort_key ?g ?rows) = sort_key ?g ?rows"
  proof (rule sort_key_id_if_sorted)
    have "\<forall>y\<in>set (sort_key ?g ?rows). ?f y = 1" unfolding set_sort mem [symmetric] using none by simp
    then have "map ?f (sort_key ?g ?rows) = replicate (length (sort_key ?g ?rows)) 1"
      by (simp only: map_replicate_const [symmetric] cong: map_cong)
    then show "sorted (map ?f (sort_key ?g ?rows))" by (simp only: sorted_replicate)
  qed
  then have "sorted (map ?g (p # rest))" by (metis s sorted_sort_key)
  then have "\<forall>y\<in>set (p # rest). \<not> ac_succeeded y \<and> ac_attempt y \<le> ac_attempt p" using none by simp
  moreover have "b \<in> set (p # rest)" unfolding mem using assms(3,4) by simp
  ultimately show ?thesis by blast
qed

interpretation pg_attempts: activation_store pg_activation_for pg_save_activation
proof
  fix db :: pg_commerce and a :: activation
  let ?r = "ac_order_ref a"
  let ?f = "\<lambda>a. if ac_succeeded a then 0 else 1 :: nat" and ?g = "\<lambda>a. - ac_attempt a"
  let ?rows = "filter (\<lambda>b. ac_order_ref b = ?r) (pk_activations db)"
  assume nx: "next_attempt (pg_activation_for db ?r) a"
  have older: "\<forall>b\<in>set ?rows. \<not> ac_succeeded b \<and> ac_attempt b < ac_attempt a"
  proof (cases "pg_activation_for db ?r")
    case None
    then show ?thesis by (auto simp: pg_activation_for_None)
  next
    case (Some p)
    then show ?thesis using nx pg_activation_for_latest [OF Some] by (fastforce simp: next_attempt_def)
  qed
  then have saved: "pg_save_activation db a = Inr (db\<lparr>pk_activations := pk_activations db @ [a]\<rparr>)"
    by (fastforce simp: pg_save_activation_def)
  have "sort_key ?g (?rows @ [a]) = a # sort_key ?g ?rows" using older by (intro sort_key_newest) simp
  moreover have "sort_key ?f (a # sort_key ?g ?rows) = a # sort_key ?f (sort_key ?g ?rows)"
    using older by (simp add: insort_key_first)
  ultimately have "pg_activation_for (db\<lparr>pk_activations := pk_activations db @ [a]\<rparr>) ?r = Some a"
    by (simp add: pg_activation_for_def)
  with saved show "\<exists>db'. pg_save_activation db a = Inr db' \<and> pg_activation_for db' ?r = Some a" by blast
qed

section \<open>Decisions in Postgres\<close>

lemma pg_first_decision:
  assumes "decision_ok d" and "dict_get (pk_decisions db) (dd_demo_id d) = None"
  shows "\<exists>db'. pg_save_decision db d = Inr db' \<and> pg_load_decision db' (dd_demo_id d) = Inr (Some d)"
  using assms by (auto simp: pg_save_decision_def upsert_decision_def pg_load_decision_def
      decision_checks_def decision_ok_def arithmetic_consistent_def decision_fields_ok_def
      make_decision_def validated_def)

text \<open>A demo decided once and decided again. The upsert leaves the list price, the floor and the
  human-approval flag of the first decision in the row. If the plan's price has changed, saving the
  second decision breaks the table's own arithmetic check and raises; if the first decision had been
  escalated, an automatic approval is stored but can never be read back, because the row then says
  that a human must have signed it.\<close>

theorem pg_second_decision_is_lost:
  assumes "decision_ok d" and "decision_ok d'" and "dd_demo_id d' = dd_demo_id d"
    and "dict_get (pk_decisions db) (dd_demo_id d) = None" and "pg_save_decision db d = Inr db'"
  shows "(dd_list_price_minor d' \<noteq> dd_list_price_minor d \<longrightarrow> raises (pg_save_decision db' d')) \<and>
    (requires_human_approval d \<and> dd_status d' = DS_APPROVED \<and> approved_by d' = '''' \<longrightarrow>
       (\<forall>db''. pg_save_decision db' d' = Inr db'' \<longrightarrow> raises (pg_load_decision db'' (dd_demo_id d))))"
proof -
  have db': "dict_get (pk_decisions db') (dd_demo_id d) = Some d"
    using assms(4,5) by (auto simp: pg_save_decision_def upsert_decision_def Let_def split: if_splits)
  have "payable_minor d' = dd_list_price_minor d' - discount_minor d'"
    using assms(2) by (simp add: decision_ok_def arithmetic_consistent_def)
  then show ?thesis
    using db' assms(3)
    by (auto simp: pg_save_decision_def pg_load_decision_def upsert_decision_def decision_checks_def
        make_decision_def validated_def decision_ok_def arithmetic_consistent_def)
qed

definition sample_decision :: "int \<Rightarrow> bool \<Rightarrow> discount_decision" where
  "sample_decision price human =
     \<lparr>dd_conversation = ''conv-1'', dd_demo_id = ''demo-1'', dd_student_ref = None,
      dd_status = (if human then DS_ESCALATED else DS_APPROVED), dd_band_name = '''', dd_percent = 0,
      dd_list_price_minor = price, discount_minor = 0, payable_minor = price, floor_minor = 70,
      dd_currency = ''INR'', dd_triggers = [], dd_conditions = [], dd_reason_code = DENIAL_NONE,
      requires_human_approval = human, approved_by = '''', dd_policy_stamp = ''discount@v1#a'',
      dd_valid_until = None, decided_at = 0\<rparr>"

theorem pg_second_decision_is_lost_witness:
  "\<exists>db. pg_save_decision pg_commerce_init (sample_decision 100 True) = Inr db \<and>
     raises (pg_save_decision db (sample_decision 120 False)) \<and>
     (\<exists>db'. pg_save_decision db (sample_decision 100 False) = Inr db' \<and>
        raises (pg_load_decision db' ''demo-1''))"
proof -
  have ok: "decision_ok (sample_decision 100 True)" "decision_ok (sample_decision 120 False)"
    "decision_ok (sample_decision 100 False)"
    by code_simp+
  have id: "dd_demo_id (sample_decision p h) = ''demo-1''" for p h by (simp add: sample_decision_def)
  have none: "dict_get (pk_decisions pg_commerce_init) (dd_demo_id (sample_decision 100 True)) = None"
    by (simp add: pg_commerce_init_def)
  have "case pg_save_decision pg_commerce_init (sample_decision 100 True) of Inl _ \<Rightarrow> False
      | Inr db \<Rightarrow> \<not> raises (pg_save_decision db (sample_decision 100 False))"
    by code_simp
  then obtain db db' where db: "pg_save_decision pg_commerce_init (sample_decision 100 True) = Inr db"
      "pg_save_decision db (sample_decision 100 False) = Inr db'"
    by (auto simp: not_raises_iff split: sum.splits)
  show ?thesis
    using pg_second_decision_is_lost [OF ok(1,2) _ none db(1)]
      pg_second_decision_is_lost [OF ok(1,3) _ none db(1)] db id
    by (auto simp: sample_decision_def)
qed

end
