(* ===== verification/PaidTransition.thy ===== *)
theory PaidTransition
  imports Commerce Discounts Urls Ports
begin

text \<open>
  capabilities/paid_transition/service.py: order creation, webhook acceptance and activation. The
  repository, injected in the code, is passed as its operations. The payment provider and the
  subscription gateway are not under src/: each call's answer is an argument (a classified error or
  the fields the code reads), and so are SHA-256 (\<open>sha256\<close>, in hexadecimal) and fresh order
  references. Every operation returns the calls it made to the outside, so that "at most once" is a
  statement about the result.
\<close>

definition MAX_ACTIVATION_ATTEMPTS :: int where "MAX_ACTIVATION_ATTEMPTS = 3"

text \<open>\<open>idempotency_key\<close> of security/signatures.py: 48 digits of the hash of the joined parts.\<close>

definition idempotency_key :: "(string \<Rightarrow> string) \<Rightarrow> string option list \<Rightarrow> string" where
  "idempotency_key sha256 parts =
     take 48 (sha256 (join [CHR 0x1F] (map (\<lambda>p. case p of None \<Rightarrow> '''' | Some s \<Rightarrow> s) parts)))"

section \<open>Orders\<close>

record order_result =
  or_order :: "payment_order option"
  or_link :: string
  or_failed :: bool
  or_reason :: string

definition order_failed :: "string \<Rightarrow> order_result" where
  "order_failed why = \<lparr>or_order = None, or_link = '''', or_failed = True, or_reason = why\<rparr>"

definition order_done :: "payment_order \<Rightarrow> string \<Rightarrow> order_result" where
  "order_done o' link = \<lparr>or_order = Some o', or_link = link, or_failed = False, or_reason = ''''\<rparr>"

text \<open>The provider's answer: its payment link and order id, when it sends them.\<close>

type_synonym created = "string option \<times> string option"

definition text_or_empty :: "string option \<Rightarrow> string" where
  "text_or_empty x = (case x of None \<Rightarrow> '''' | Some s \<Rightarrow> s)"

definition new_order ::
  "('s \<Rightarrow> payment_order \<Rightarrow> 's) \<Rightarrow> ip_book \<Rightarrow> (payment_order \<Rightarrow> provider_error + created)
     \<Rightarrow> 's \<Rightarrow> payment_order \<Rightarrow> (py_error + order_result) \<times> 's" where
  "new_order save ips provider s order =
     (case provider order of
        Inl exc \<Rightarrow>
          (Inr (order_failed (''provider_error:'' @
             (if px_code exc = '''' then ''unknown'' else px_code exc))), s)
      | Inr (raw_link, provider_id) \<Rightarrow>
          (case validate ips (text_or_empty raw_link) CASHFREE_LINK_POLICY of
             Inl (UrlRejected _) \<Rightarrow> (Inr (order_failed ''unsafe_payment_link''), s)
           | Inl UrlValueError \<Rightarrow> (Inl (ValueError ''invalid url''), s)
           | Inr link \<Rightarrow>
               let stored = order\<lparr>po_provider_order_id := text_or_empty provider_id,
                                  po_payment_link := link\<rparr>
               in (Inr (order_done stored link), save s stored)))"

definition create_order ::
  "('s \<Rightarrow> ref \<Rightarrow> payment_order option) \<Rightarrow> ('s \<Rightarrow> payment_order \<Rightarrow> 's) \<Rightarrow> ip_book
     \<Rightarrow> (payment_order \<Rightarrow> provider_error + created) \<Rightarrow> 's \<Rightarrow> approved_offer \<Rightarrow> ref \<Rightarrow> instant \<Rightarrow> duration
     \<Rightarrow> (py_error + order_result) \<times> 's \<times> payment_order list" where
  "create_order order_for save ips provider s offer new_ref now ttl =
     (let fresh =
        (case from_offer offer new_ref now ttl of
           Inl e \<Rightarrow> (Inl e, s, [])
         | Inr order \<Rightarrow>
             (let (res, s') = new_order save ips provider s order in (res, s', [order])))
      in case order_for s (ao_conversation offer) of
           None \<Rightarrow> fresh
         | Some existing \<Rightarrow>
             if \<not> settled existing \<and> \<not> order_expired existing now
             then (Inr (order_done existing (po_payment_link existing)), s, [])
             else fresh)"

section \<open>Webhooks\<close>

record webhook_result =
  wh_accepted :: bool
  wh_duplicate :: bool
  wh_order :: "payment_order option"
  wh_reason :: string

definition should_activate :: "webhook_result \<Rightarrow> bool" where
  "should_activate w \<longleftrightarrow> wh_accepted w \<and> \<not> wh_duplicate w \<and> wh_order w \<noteq> None"

definition webhook_refused :: "string \<Rightarrow> webhook_result" where
  "webhook_refused why = \<lparr>wh_accepted = False, wh_duplicate = False, wh_order = None, wh_reason = why\<rparr>"

definition accept_webhook ::
  "('s \<Rightarrow> ref \<Rightarrow> payment_order option) \<Rightarrow> ('s \<Rightarrow> payment_order \<Rightarrow> 's)
     \<Rightarrow> ('s \<Rightarrow> payment_event \<Rightarrow> instant \<Rightarrow> bool \<times> 's) \<Rightarrow> 's \<Rightarrow> payment_event \<Rightarrow> instant
     \<Rightarrow> webhook_result \<times> 's" where
  "accept_webhook load save record s event now =
     (if \<not> pe_signature_verified event then (webhook_refused ''unverified_event'', s)
      else
        let (first_time, s1) = record s event now
        in if \<not> first_time
           then (\<lparr>wh_accepted = True, wh_duplicate = True, wh_order = None,
                  wh_reason = ''duplicate_event''\<rparr>, s1)
           else
             let order = load s1 (pe_order_ref event)
             in case (reconcile event order now, order) of
                  (Inl failure, _) \<Rightarrow> (webhook_refused (failure_value failure), s1)
                | (Inr _, None) \<Rightarrow> (webhook_refused (failure_value ORDER_NOT_FOUND), s1)
                | (Inr _, Some o') \<Rightarrow>
                    if \<not> is_success event
                    then (\<lparr>wh_accepted = True, wh_duplicate = False, wh_order = Some o',
                           wh_reason = payment_event_kind_value (pe_kind event)\<rparr>,
                          save s1 (o'\<lparr>po_status := Text ''failed''\<rparr>))
                    else let paid = o'\<lparr>po_status := Text ''paid'', po_paid_at := Some (pe_occurred_at event)\<rparr>
                         in (\<lparr>wh_accepted = True, wh_duplicate = False, wh_order = Some paid,
                              wh_reason = ''''\<rparr>, save s1 paid))"

section \<open>Activation\<close>

record activation_result =
  ar_activation :: activation
  ar_needs_human :: bool

definition failed_activation ::
  "payment_order \<Rightarrow> string \<Rightarrow> int \<Rightarrow> string \<Rightarrow> instant \<Rightarrow> activation" where
  "failed_activation order key attempt code now =
     \<lparr>ac_order_ref = po_order_ref order, ac_conversation = po_conversation order, ac_key = key,
      ac_attempt = attempt, ac_succeeded = False, ac_subscription_ref = '''', ac_error_code = code,
      ac_attempted_at = now\<rparr>"

text \<open>Build, save, answer; building validates and saving may raise.\<close>

definition conclude ::
  "('s \<Rightarrow> activation \<Rightarrow> py_error + 's) \<Rightarrow> 's \<Rightarrow> activation \<Rightarrow> bool
     \<Rightarrow> (py_error + activation_result) \<times> 's" where
  "conclude save_activation s a needs_human =
     (case validated ''SubscriptionActivation'' activation_ok a of
        Inl e \<Rightarrow> (Inl e, s)
      | Inr a' \<Rightarrow>
          (case save_activation s a' of
             Inl e \<Rightarrow> (Inl e, s)
           | Inr s' \<Rightarrow> (Inr \<lparr>ar_activation = a', ar_needs_human = needs_human\<rparr>, s')))"

text \<open>\<open>idempotency_key("activation", order_ref, conversation_ref)\<close>: the same for every attempt.\<close>

definition activation_key :: "(string \<Rightarrow> string) \<Rightarrow> payment_order \<Rightarrow> string" where
  "activation_key sha256 order =
     idempotency_key sha256 [Some ''activation'', Some (po_order_ref order), Some (po_conversation order)]"

definition attempt_activation ::
  "('s \<Rightarrow> activation \<Rightarrow> py_error + 's) \<Rightarrow> (string \<Rightarrow> string) \<Rightarrow> (string \<Rightarrow> provider_error + string option)
     \<Rightarrow> 's \<Rightarrow> payment_order \<Rightarrow> instant \<Rightarrow> int \<Rightarrow> (py_error + activation_result) \<times> 's \<times> string list" where
  "attempt_activation save_activation sha256 gateway s order now attempt =
     (let key = activation_key sha256 order;
          (res, s') =
            (case gateway key of
               Inl exc \<Rightarrow>
                 conclude save_activation s
                   (failed_activation order key attempt
                      (take 64 (if px_code exc = '''' then px_class exc else px_code exc)) now)
                   (attempt \<ge> MAX_ACTIVATION_ATTEMPTS \<or> \<not> px_retryable exc)
             | Inr subscription \<Rightarrow>
                 if text_or_empty subscription = ''''
                 then conclude save_activation s
                        (failed_activation order key attempt ''no_subscription_ref'' now) True
                 else conclude save_activation s
                        ((failed_activation order key attempt '''' now)
                           \<lparr>ac_succeeded := True, ac_subscription_ref := text_or_empty subscription\<rparr>)
                        False)
      in (res, s', [key]))"

definition activate ::
  "('s \<Rightarrow> ref \<Rightarrow> activation option) \<Rightarrow> ('s \<Rightarrow> activation \<Rightarrow> py_error + 's) \<Rightarrow> (string \<Rightarrow> string)
     \<Rightarrow> (string \<Rightarrow> provider_error + string option) \<Rightarrow> 's \<Rightarrow> payment_order \<Rightarrow> instant
     \<Rightarrow> (py_error + activation_result) \<times> 's \<times> string list" where
  "activate activation_for save_activation sha256 gateway s order now =
     (let previous = activation_for s (po_order_ref order)
      in case previous of
           Some p \<Rightarrow>
             if ac_succeeded p then (Inr \<lparr>ar_activation = p, ar_needs_human = False\<rparr>, s, [])
             else attempt_activation save_activation sha256 gateway s order now (ac_attempt p + 1)
         | None \<Rightarrow> attempt_activation save_activation sha256 gateway s order now 1)"

definition onboarding_key :: "(string \<Rightarrow> string) \<Rightarrow> payment_order \<Rightarrow> string \<Rightarrow> string" where
  "onboarding_key sha256 order subscription_ref =
     idempotency_key sha256 [Some ''onboarding'', Some (po_order_ref order), Some subscription_ref]"

section \<open>Webhooks over any store\<close>

context order_store
begin

lemma load_copy_fits: "inv s \<Longrightarrow> load s r = Some p \<Longrightarrow> fits (p\<lparr>po_status := st\<rparr>)"
  using load_fits [where s = s and r = r and o' = p and st = st and at = "po_paid_at p"] by simp

lemma accept_webhook_inv:
  assumes "inv s"
  shows "inv (snd (accept_webhook load save record_event s e now))"
  using assms event_inv [OF assms, of e now]
  by (auto simp: accept_webhook_def Let_def split_beta parse_status_def all_order_statuses_def
      intro!: save_inv intro: load_fits load_copy_fits split: sum.splits option.splits)

text \<open>What one webhook may do to the orders.\<close>

lemma accept_webhook_effect:
  assumes "inv s" and "accept_webhook load save record_event s e now = (w, s')"
    and "load s' r = Some o'" and "load s' r \<noteq> load s r"
  shows "\<exists>p. load s r = Some p \<and> r = pe_order_ref e \<and> pe_signature_verified e \<and>
    \<not> seen_event s (pe_provider_event_id e) \<and> reconcile e (Some p) now = Inr () \<and>
    same_order o' (if is_success e then p\<lparr>po_status := Text ''paid'', po_paid_at := Some (pe_occurred_at e)\<rparr>
      else p\<lparr>po_status := Text ''failed''\<rparr>)"
proof -
  let ?s1 = "snd (record_event s e now)"
  have inv1: "inv ?s1" using event_inv [OF assms(1)] .
  have r1: "load ?s1 r = load s r" by (rule event_orders)
  have ver: "pe_signature_verified e" "fst (record_event s e now)"
    using assms(2,4) r1 by (auto simp: accept_webhook_def Let_def split_beta split: if_splits)
  obtain p where p: "load ?s1 (pe_order_ref e) = Some p" "reconcile e (Some p) now = Inr ()"
    using assms(2,4) ver r1
    by (auto simp: accept_webhook_def Let_def split_beta split: sum.splits option.splits if_splits)
  define q where "q = (if is_success e
      then p\<lparr>po_status := Text ''paid'', po_paid_at := Some (pe_occurred_at e)\<rparr>
      else p\<lparr>po_status := Text ''failed''\<rparr>)"
  have s': "s' = save ?s1 q"
    using assms(2) ver p by (auto simp: accept_webhook_def Let_def split_beta q_def)
  have ref: "po_order_ref p = pe_order_ref e" using load_ref [OF inv1 p(1)] .
  have qref: "po_order_ref q = pe_order_ref e" using ref by (simp add: q_def)
  have here: "r = pe_order_ref e"
    using assms(4) save_other [of r q ?s1] qref r1 unfolding s' by (cases "r = pe_order_ref e") auto
  have ok: "parse_status (status_text (po_status q)) \<noteq> None"
    by (simp add: q_def parse_status_def all_order_statuses_def)
  have "\<exists>st at. q = p\<lparr>po_status := st, po_paid_at := at\<rparr>"
    by (cases p) (auto simp: q_def)
  then obtain st at where "q = p\<lparr>po_status := st, po_paid_at := at\<rparr>" by blast
  then obtain q' where q': "load (save ?s1 q) (po_order_ref q) = Some q'" "same_order q' q"
    using save_own [OF inv1 _ ok] p(1) qref by metis
  have "o' = q'" using assms(3) q'(1) here qref s' by simp
  then have "same_order o' q" using q'(2) by simp
  then show ?thesis
    using p here r1 ver event_first [of s e now]
    by (intro exI [of _ p]) (simp add: q_def split: if_splits)
qed

text \<open>A second delivery of an event changes nothing.\<close>

lemma replay_is_noop:
  assumes "pe_signature_verified e" and "seen_event s (pe_provider_event_id e)"
  shows "accept_webhook load save record_event s e now =
    (\<lparr>wh_accepted = True, wh_duplicate = True, wh_order = None, wh_reason = ''duplicate_event''\<rparr>, s)"
  using assms event_first [of s e now] event_again [of s e now]
  by (simp add: accept_webhook_def Let_def split_beta)

lemma seen_after:
  assumes "pe_signature_verified e"
  shows "seen_event (snd (accept_webhook load save record_event s e now)) (pe_provider_event_id e)"
  using assms event_seen [of s e now "pe_provider_event_id e"]
  by (auto simp: accept_webhook_def Let_def split_beta save_events split: sum.splits option.splits)

end

section \<open>What the payment path guarantees\<close>

definition mem_webhook :: "mem_commerce \<Rightarrow> payment_event \<Rightarrow> instant \<Rightarrow> webhook_result \<times> mem_commerce" where
  "mem_webhook = accept_webhook mem_load_order mem_save_order mem_record_event"

definition pg_webhook :: "pg_commerce \<Rightarrow> payment_event \<Rightarrow> instant \<Rightarrow> webhook_result \<times> pg_commerce" where
  "pg_webhook = accept_webhook pg_load_order pg_save_order pg_record_event"

lemma pg_webhook_inv: "pg_commerce_inv db \<Longrightarrow> pg_commerce_inv (snd (pg_webhook db e now))"
  unfolding pg_webhook_def by (rule pg_orders.accept_webhook_inv)

definition sample_order :: payment_order where
  "sample_order = \<lparr>po_order_ref = ''ord-1'', po_conversation = ''conv-1'', po_demo_id = ''demo-1'',
     po_student_ref = None, po_amount_minor = 108000, po_currency = ''INR'',
     po_status = Member OS_CREATED, po_provider_order_id = '''', po_payment_link = '''',
     po_offer_policy_stamp = ''discount@v1#a'', po_discount_percent = 10, po_created_at = 0,
     po_expires_at = DEFAULT_ORDER_TTL, po_paid_at = None\<rparr>"

definition sample_payment :: "string \<Rightarrow> payment_event_kind \<Rightarrow> payment_event" where
  "sample_payment i kind = \<lparr>pe_provider_event_id = i, pe_kind = kind, pe_order_ref = ''ord-1'',
     pe_provider_order_id = '''', pe_amount_minor = 108000, pe_currency = ''INR'',
     pe_provider_reference = '''', pe_occurred_at = 5, pe_signature_verified = True,
     pe_raw_digest = ''''\<rparr>"

definition sample_mem :: mem_commerce where
  "sample_mem = mem_save_order mem_commerce_init sample_order"

definition sample_pg :: pg_commerce where
  "sample_pg = pg_save_order pg_commerce_init sample_order"

lemma sample_inv: "mem_commerce_inv sample_mem" "pg_commerce_inv sample_pg"
  by (simp_all add: mem_commerce_inv_def sample_mem_def mem_save_order_def mem_commerce_init_def
      payment_order_ok_def DEFAULT_ORDER_TTL_def hours_def minutes_def seconds_def pg_commerce_inv_def sample_pg_def pg_save_order_def pg_commerce_init_def as_column_def
      upsert_order_def sample_order_def parse_status_def all_order_statuses_def)

text \<open>What justifies that order \<open>p\<close>, filed under \<open>r\<close>, became \<open>q\<close> by event \<open>e\<close>.\<close>

definition settles :: "payment_event \<Rightarrow> instant \<Rightarrow> ref \<Rightarrow> payment_order \<Rightarrow> payment_order \<Rightarrow> bool" where
  "settles e now r p q \<longleftrightarrow>
     pe_signature_verified e \<and> pe_kind e = PE_SUCCESS \<and> r = pe_order_ref e \<and>
     po_order_ref p = r \<and> po_amount_minor p = pe_amount_minor e \<and> po_currency p = pe_currency e \<and>
     now < po_expires_at p \<and>
     same_order q (p\<lparr>po_status := Text ''paid'', po_paid_at := Some (pe_occurred_at e)\<rparr>)"

lemma settles_by_reconcile:
  assumes "reconcile e (Some p) now = Inr ()" and "r = pe_order_ref e" and "is_success e"
    and "same_order q (p\<lparr>po_status := Text ''paid'', po_paid_at := Some (pe_occurred_at e)\<rparr>)"
  shows "settles e now r p q"
  using assms by (auto simp: settles_def reconcile_Inr_iff is_success_def)

text \<open>(C15) An order becomes paid only by a webhook that settles it. In either store, if handling an
  event leaves an order with the status "paid" that it did not have, then the event was signed, had
  never been recorded, reports a success, names this order, its exact amount and its currency, and
  came before the order expired; and the order is the one on file with its status and its time of payment
  changed and every other field, link, provider's id, conversation and student included, as it was.\<close>

theorem paid_only_by_matching_event:
  shows "(mem_commerce_inv s \<and> mem_webhook s e now = (w, s') \<and> mem_load_order s' r = Some o' \<and>
      mem_load_order s r \<noteq> Some o' \<and> status_text (po_status o') = ''paid'' \<longrightarrow>
      pe_provider_event_id e \<notin> mk_event_ids s \<and>
      (\<exists>p. mem_load_order s r = Some p \<and> settles e now r p o')) \<and>
    (pg_commerce_inv db \<and> pg_webhook db e now = (w, db') \<and> pg_load_order db' r = Some o' \<and>
      pg_load_order db r \<noteq> Some o' \<and> status_text (po_status o') = ''paid'' \<longrightarrow>
      dict_get (pk_events db) (pe_provider_event_id e) = None \<and>
      (\<exists>p. pg_load_order db r = Some p \<and> settles e now r p o'))"
proof (intro conjI impI; elim conjE)
  assume A: "mem_commerce_inv s" "mem_webhook s e now = (w, s')" "mem_load_order s' r = Some o'"
    "mem_load_order s r \<noteq> Some o'" "status_text (po_status o') = ''paid''"
  obtain p where p: "mem_load_order s r = Some p" "r = pe_order_ref e"
      "pe_provider_event_id e \<notin> mk_event_ids s" "reconcile e (Some p) now = Inr ()"
      "same_order o' (if is_success e then p\<lparr>po_status := Text ''paid'', po_paid_at := Some (pe_occurred_at e)\<rparr>
        else p\<lparr>po_status := Text ''failed''\<rparr>)"
    using mem_orders.accept_webhook_effect [OF A(1) A(2) [unfolded mem_webhook_def] A(3)] A(3,4) by auto
  have success: "is_success e" using same_order_terms [OF p(5)] A(5) by (simp split: if_splits)
  show "pe_provider_event_id e \<notin> mk_event_ids s" by (fact p)
  show "\<exists>p. mem_load_order s r = Some p \<and> settles e now r p o'"
    using p success settles_by_reconcile by auto
next
  assume A: "pg_commerce_inv db" "pg_webhook db e now = (w, db')" "pg_load_order db' r = Some o'"
    "pg_load_order db r \<noteq> Some o'" "status_text (po_status o') = ''paid''"
  have ne: "pg_load_order db' r \<noteq> pg_load_order db r" using A(3,4) by simp
  from pg_orders.accept_webhook_effect [OF A(1) A(2) [unfolded pg_webhook_def] A(3) ne]
  obtain p where p: "pg_load_order db r = Some p" "r = pe_order_ref e"
      "\<not> dict_get (pk_events db) (pe_provider_event_id e) \<noteq> None" "reconcile e (Some p) now = Inr ()"
      "same_order o' (if is_success e then p\<lparr>po_status := Text ''paid'', po_paid_at := Some (pe_occurred_at e)\<rparr>
        else p\<lparr>po_status := Text ''failed''\<rparr>)"
    by blast
  have "is_success e" using same_order_terms [OF p(5)] A(5) by (simp split: if_splits)
  with p show "\<exists>p. pg_load_order db r = Some p \<and> settles e now r p o'"
    using settles_by_reconcile by auto
  show "dict_get (pk_events db) (pe_provider_event_id e) = None" using p(3) by blast
qed

theorem paid_only_by_matching_event_witness:
  "\<exists>p q. mem_load_order (snd (mem_webhook sample_mem (sample_payment ''ev-1'' PE_SUCCESS) 7)) ''ord-1''
      = Some q \<and> status_text (po_status q) = ''paid'' \<and> po_amount_minor p = 108000 \<and>
     settles (sample_payment ''ev-1'' PE_SUCCESS) 7 ''ord-1'' p q"
proof -
  let ?e = "sample_payment ''ev-1'' PE_SUCCESS"
  let ?o = "sample_order\<lparr>po_status := Text ''paid'', po_paid_at := Some 5\<rparr>"
  have m: "mem_load_order (snd (mem_webhook sample_mem ?e 7)) ''ord-1'' = Some ?o"
    "mem_load_order sample_mem ''ord-1'' = Some sample_order" "sample_order \<noteq> ?o"
    "status_text (po_status ?o) = ''paid''"
    by code_simp+
  obtain w s' where ms: "mem_webhook sample_mem ?e 7 = (w, s')" by (cases "mem_webhook sample_mem ?e 7")
  have "settles ?e 7 ''ord-1'' sample_order ?o"
    using paid_only_by_matching_event [THEN conjunct1, rule_format,
        of sample_mem ?e 7 w s' "''ord-1''" ?o] sample_inv(1) ms m
    by auto
  then show ?thesis using m by (intro exI [of _ sample_order] exI [of _ ?o]) (simp add: sample_order_def)
qed

text \<open>Replays are harmless: once a signed event has been handled, delivering it again any number
  of times, at any later instants, changes neither store and is answered as an accepted
  duplicate that activates nothing.\<close>

theorem replayed_webhook_changes_nothing:
  assumes "pe_signature_verified e"
  shows "mem_webhook (snd (mem_webhook s e now)) e later =
      (\<lparr>wh_accepted = True, wh_duplicate = True, wh_order = None, wh_reason = ''duplicate_event''\<rparr>,
       snd (mem_webhook s e now)) \<and>
    foldl (\<lambda>s t. snd (mem_webhook s e t)) (snd (mem_webhook s e now)) ts = snd (mem_webhook s e now) \<and>
    pg_webhook (snd (pg_webhook db e now)) e later =
      (\<lparr>wh_accepted = True, wh_duplicate = True, wh_order = None, wh_reason = ''duplicate_event''\<rparr>,
       snd (pg_webhook db e now)) \<and>
    foldl (\<lambda>db t. snd (pg_webhook db e t)) (snd (pg_webhook db e now)) ts = snd (pg_webhook db e now)"
proof -
  note m = mem_orders.replay_is_noop [OF assms mem_orders.seen_after [OF assms], folded mem_webhook_def]
    and p = pg_orders.replay_is_noop [OF assms pg_orders.seen_after [OF assms], folded pg_webhook_def]
  have "foldl (\<lambda>s t. snd (mem_webhook s e t)) (snd (mem_webhook s e now)) ts = snd (mem_webhook s e now)"
    by (induction ts) (simp_all add: m)
  moreover have "foldl (\<lambda>db t. snd (pg_webhook db e t)) (snd (pg_webhook db e now)) ts
      = snd (pg_webhook db e now)"
    by (induction ts) (simp_all add: p)
  ultimately show ?thesis using m p by simp
qed

theorem replayed_webhook_changes_nothing_witness:
  "wh_duplicate (fst (pg_webhook (snd (pg_webhook sample_pg (sample_payment ''ev-1'' PE_SUCCESS) 7))
     (sample_payment ''ev-1'' PE_SUCCESS) 9))"
  using replayed_webhook_changes_nothing [of "sample_payment ''ev-1'' PE_SUCCESS" sample_mem 7 9 "[]" sample_pg]
  by (simp add: sample_payment_def)

text \<open>A paid order in Postgres stays as it is, whatever is delivered.\<close>

lemma pg_paid_stays:
  assumes "pg_commerce_inv db" and "pg_load_order db r = Some o'" and "po_status o' = Member OS_PAID"
  shows "pg_load_order (snd (pg_webhook db e now)) r = Some o' \<and>
    (pe_order_ref e = r \<longrightarrow> \<not> should_activate (fst (pg_webhook db e now)))"
proof
  obtain w db' where W: "pg_webhook db e now = (w, db')" by (cases "pg_webhook db e now")
  have refused: "reconcile e (Some o') now \<noteq> Inr ()" using assms(3) by (simp add: reconcile_Inr_iff)
  show "pg_load_order (snd (pg_webhook db e now)) r = Some o'"
  proof (rule ccontr)
    assume ne: "\<not> ?thesis"
    obtain q where "pg_load_order db' r = Some q"
    proof (cases "pg_load_order db' r")
      case None
      have "dict_get (pk_orders db') r \<noteq> None"
        using W assms(2)
        by (auto simp: pg_webhook_def accept_webhook_def Let_def split_beta pg_record_event_def
            pg_save_order_def pg_load_order_def bind_eq_Some_conv
            split: sum.splits option.splits if_splits)
      moreover have "pg_commerce_inv db'" using pg_webhook_inv [OF assms(1), of e now] W by simp
      ultimately show ?thesis using None
        by (fastforce simp: pg_commerce_inv_def pg_load_order_def order_from_row_def)
    qed simp
    then show False
      using pg_orders.accept_webhook_effect [OF assms(1) W [unfolded pg_webhook_def], of r q] ne W
        assms(2) refused by auto
  qed
  show "pe_order_ref e = r \<longrightarrow> \<not> should_activate (fst (pg_webhook db e now))"
  proof (intro impI notI)
    assume r: "pe_order_ref e = r" and act: "should_activate (fst (pg_webhook db e now))"
    have "pg_load_order (snd (pg_record_event db e now)) (pe_order_ref e) = Some o'"
      using pg_orders.event_orders assms(2) r by simp
    then show False
      using act refused
      by (auto simp: pg_webhook_def accept_webhook_def Let_def split_beta should_activate_def
          webhook_refused_def split: sum.splits if_splits)
  qed
qed

definition pg_webhooks :: "pg_commerce \<Rightarrow> (payment_event \<times> instant) list \<Rightarrow> pg_commerce" where
  "pg_webhooks db es = foldl (\<lambda>db (e, t). snd (pg_webhook db e t)) db es"

text \<open>(C20) In Postgres an order is paid at most once: after the status has become paid, no sequence
  of deliveries, whatever their ids, kinds and amounts, changes the order again, and no later event
  about it is answered in a way that would activate a subscription.\<close>

theorem pg_order_is_paid_once:
  assumes "pg_commerce_inv db" and "pg_load_order db r = Some o'" and "po_status o' = Member OS_PAID"
  shows "pg_load_order (pg_webhooks db es) r = Some o' \<and>
    (pe_order_ref e = r \<longrightarrow> \<not> should_activate (fst (pg_webhook (pg_webhooks db es) e now)))"
proof -
  have "pg_load_order (pg_webhooks db es) r = Some o' \<and> pg_commerce_inv (pg_webhooks db es)"
    using assms
  proof (induction es arbitrary: db)
    case (Cons x es)
    obtain e t where x: "x = (e, t)" by (cases x)
    show ?case
      using Cons.IH [of "snd (pg_webhook db e t)"] pg_paid_stays [OF Cons.prems, of e t]
        pg_webhook_inv [OF Cons.prems(1), of e t] Cons.prems(3)
      by (simp add: pg_webhooks_def x)
  qed (simp add: pg_webhooks_def)
  then show ?thesis using pg_paid_stays [of "pg_webhooks db es" r o' e now] assms(3) by blast
qed

theorem pg_order_is_paid_once_witness:
  "let db = snd (pg_webhook sample_pg (sample_payment ''ev-1'' PE_SUCCESS) 7)
   in \<not> should_activate (fst (pg_webhook (pg_webhooks db [(sample_payment ''ev-2'' PE_FAILED, 8)])
        (sample_payment ''ev-3'' PE_SUCCESS) 9))"
proof -
  let ?db = "snd (pg_webhook sample_pg (sample_payment ''ev-1'' PE_SUCCESS) 7)"
  let ?q = "sample_order\<lparr>po_status := Member OS_PAID, po_paid_at := Some 5\<rparr>"
  have "pg_load_order ?db ''ord-1'' = Some ?q" by code_simp
  from pg_order_is_paid_once [OF pg_webhook_inv [OF sample_inv(2)] this,
      of "[(sample_payment ''ev-2'' PE_FAILED, 8)]" "sample_payment ''ev-3'' PE_SUCCESS" 9]
  show ?thesis by (simp add: Let_def) (simp add: sample_payment_def)
qed

text \<open>The memory store does not have that: the service writes the status as a plain string, the
  already-paid check compares by identity, so a second success with another event id is accepted and
  would activate again, and a late failure turns a paid order into a failed one.\<close>

theorem mem_paid_order_is_reopened:
  "let s = snd (mem_webhook sample_mem (sample_payment ''ev-1'' PE_SUCCESS) 7);
       again = mem_webhook s (sample_payment ''ev-2'' PE_SUCCESS) 8;
       late = mem_webhook s (sample_payment ''ev-3'' PE_FAILED) 9
   in map_option (status_text \<circ> po_status) (mem_load_order s ''ord-1'') = Some ''paid'' \<and>
      should_activate (fst again) \<and>
      map_option (status_text \<circ> po_status) (mem_load_order (snd late) ''ord-1'') = Some ''failed''"
  by code_simp

text \<open>A payment that failed is reported as one to activate: for a signed, new event that is not
  a success but matches an unpaid order, the result of either store says \<open>should_activate\<close>.\<close>

theorem failed_payment_says_activate:
  assumes "pe_signature_verified e" and "pe_kind e \<noteq> PE_SUCCESS"
    and "pe_provider_event_id e \<notin> mk_event_ids s" and "mem_load_order s (pe_order_ref e) = Some o'"
    and "reconcile e (Some o') now = Inr ()"
  shows "should_activate (fst (mem_webhook s e now)) \<and>
    mem_load_order (snd (mem_webhook s e now)) (po_order_ref o') = Some (o'\<lparr>po_status := Text ''failed''\<rparr>)"
  using assms
  by (simp add: mem_webhook_def accept_webhook_def mem_record_event_def is_success_def
      should_activate_def mem_load_order_def mem_save_order_def)

theorem failed_payment_says_activate_witness:
  "should_activate (fst (mem_webhook sample_mem (sample_payment ''ev-1'' PE_FAILED) 7))"
proof -
  have "reconcile (sample_payment ''ev-1'' PE_FAILED) (Some sample_order) 7 = Inr ()" by code_simp
  then show ?thesis
    using failed_payment_says_activate [of "sample_payment ''ev-1'' PE_FAILED" sample_mem sample_order 7]
    by (simp add: sample_payment_def sample_mem_def mem_save_order_def mem_commerce_init_def
        mem_load_order_def sample_order_def)
qed

section \<open>Orders carry the engine's price\<close>

lemma from_offer_InrD:
  "from_offer offer r now ttl = Inr o' \<Longrightarrow>
     po_amount_minor o' = ao_amount_minor offer \<and> po_currency o' = ao_currency offer \<and>
     po_order_ref o' = r \<and> po_conversation o' = ao_conversation offer \<and> offer_live offer now \<and>
     po_created_at o' = now \<and> po_expires_at o' = now + ttl \<and> po_status o' = Member OS_CREATED"
  by (auto simp: from_offer_def split: if_splits)

lemma new_order_stores:
  assumes "new_order save ip6 provider s order = (Inr res, s')" and "or_order res = Some o'"
  shows "s' = save s o' \<and> or_link res = po_payment_link o' \<and>
    allowed_link ip6 (po_payment_link o') CASHFREE_LINK_POLICY \<and>
    o' = order\<lparr>po_provider_order_id := po_provider_order_id o', po_payment_link := po_payment_link o'\<rparr>"
proof -
  obtain raw pid where prov: "provider order = Inr (raw, pid)"
    using assms by (auto simp: new_order_def order_failed_def split: sum.splits)
  obtain link where val: "validate ip6 (text_or_empty raw) CASHFREE_LINK_POLICY = Inr link"
    using assms prov by (auto simp: new_order_def order_failed_def split: sum.splits url_error.splits)
  have "allowed_link ip6 link CASHFREE_LINK_POLICY"
    using val validate_returns [OF val] by (simp add: allowed_link_iff)
  then show ?thesis
    using assms prov val by (auto simp: new_order_def Let_def order_done_def)
qed

lemma create_order_cases:
  assumes "create_order order_for save ip6 provider s offer nref now ttl = (Inr res, s', calls)"
    and "or_order res = Some o'"
  obtains (reused) "order_for s (ao_conversation offer) = Some o'" "\<not> settled o'"
      "\<not> order_expired o' now" "s' = s" "calls = []"
  | (fresh) order where "from_offer offer nref now ttl = Inr order" "calls = [order]"
      "new_order save ip6 provider s order = (Inr res, s')"
      "case order_for s (ao_conversation offer) of None \<Rightarrow> True
       | Some ex \<Rightarrow> settled ex \<or> order_expired ex now"
  using assms
  by (auto simp: create_order_def Let_def order_done_def
      split: option.splits sum.splits if_splits prod.splits)

text \<open>(C14) From the engine to the payment link. Take an offer approved from a decision of the discount engine,
  or from one of its decisions that a human signed. If the conversation already has an order that is neither settled
  nor expired, that order is handed back with its own amount and link, nothing is stored and the provider is
  not asked. In every other case, with no order or after a settled or expired one, the new order carries exactly the
  payable amount of that decision: at least the policy's floor, at most the list price, at least one minor unit; it
  is the order that is stored, its link is on Cashfree's payment hosts over https, and the
  provider was asked once, for that amount.\<close>

theorem charged_amount_is_the_engines:
  assumes "engine_decision p d" and "approve d t = Inr offer"
    and "create_order order_for save ip6 provider s offer nref now ttl = (Inr res, s', calls)"
    and "or_order res = Some o'"
  shows "if \<exists>ex. order_for s (ao_conversation offer) = Some ex \<and> \<not> settled ex \<and> \<not> order_expired ex now
    then order_for s (ao_conversation offer) = Some o' \<and> or_link res = po_payment_link o' \<and> s' = s \<and> calls = []
    else po_amount_minor o' = payable_minor d \<and> floor_minor d \<le> po_amount_minor o' \<and>
      po_amount_minor o' \<le> dd_list_price_minor d \<and> 1 \<le> po_amount_minor o' \<and> dd_status d \<noteq> DS_ESCALATED \<and>
      po_order_ref o' = nref \<and> po_conversation o' = ao_conversation offer \<and> po_expires_at o' = now + ttl \<and>
      or_link res = po_payment_link o' \<and> allowed_link ip6 (or_link res) CASHFREE_LINK_POLICY \<and>
      s' = save s o' \<and> map po_amount_minor calls = [payable_minor d]"
  using assms(3,4)
proof (cases rule: create_order_cases)
  case reused
  then show ?thesis using assms(3,4) by (auto simp: create_order_def order_done_def Let_def)
next
  case (fresh order)
  note st = new_order_stores [OF fresh(3) assms(4)]
  then have "po_amount_minor o' = po_amount_minor order \<and> po_order_ref o' = po_order_ref order \<and>
      po_conversation o' = po_conversation order \<and> po_expires_at o' = po_expires_at order"
    by (metis payment_order.select_convs payment_order.surjective payment_order.update_convs(8,9))
  then show ?thesis
    using st fresh(2,4) from_offer_InrD [OF fresh(1)] approve_InrD [OF assms(2)]
      engine_decision_priced [OF assms(1)]
    by (auto split: option.splits)
qed

definition sample_provider :: "payment_order \<Rightarrow> provider_error + created" where
  "sample_provider o' = Inr (Some ''https://payments.cashfree.com/links/a1'', Some ''cf-1'')"

definition sample_engine_decision :: "py_error + discount_decision" where
  "sample_engine_decision = evaluate sample_policy ''conv-1'' ''demo-1'' None (sample_quote ''INR'')
     (Some (sample_analysis [sample_objection PRICE EXPLICIT])) OUTCOME_POSITIVE 0 0 0 True"

definition sample_create :: "approved_offer \<Rightarrow>
    (py_error + order_result) \<times> mem_commerce \<times> payment_order list" where
  "sample_create offer = create_order mem_order_for_conversation mem_save_order no_ip6
     sample_provider mem_commerce_init offer ''ord-1'' 0 DEFAULT_ORDER_TTL"

theorem charged_amount_is_the_engines_witness:
  "\<exists>d offer res s' calls. sample_engine_decision = Inr d \<and> payable_minor d = 108000 \<and>
     approve d 0 = Inr offer \<and> sample_create offer = (Inr res, s', calls) \<and>
     map po_amount_minor calls = [payable_minor d] \<and> floor_minor d \<le> payable_minor d"
proof -
  have "case sample_engine_decision of Inl _ \<Rightarrow> False | Inr d \<Rightarrow> payable_minor d = 108000 \<and>
     (case approve d 0 of Inl _ \<Rightarrow> False | Inr offer \<Rightarrow>
       (case sample_create offer of (Inl _, _) \<Rightarrow> False | (Inr res, _) \<Rightarrow> or_order res \<noteq> None))"
    by code_simp
  then obtain d offer res s' calls o' where d: "sample_engine_decision = Inr d" "payable_minor d = 108000"
      and offer: "approve d 0 = Inr offer"
      and c: "sample_create offer = (Inr res, s', calls)" "or_order res = Some o'"
    by (auto split: sum.splits prod.splits)
  have ed: "engine_decision sample_policy d"
    by (rule engine [OF sample_input_ok d(1) [unfolded sample_engine_decision_def]])
  have none: "mem_order_for_conversation mem_commerce_init (ao_conversation offer) = None"
    by (simp add: mem_order_for_conversation_def mem_commerce_init_def dict_values_def)
  show ?thesis
    using charged_amount_is_the_engines [OF ed offer c(1) [unfolded sample_create_def] c(2)]
      none d offer c(1)
    by (intro exI conjI) (auto simp: sample_create_def)
qed

section \<open>Activation\<close>

text \<open>One try with the gateway's answers and the clock, and successive tries on one order; all calls made.\<close>

context activation_store
begin

lemma attempt_is_kept:
  assumes "next_attempt (activation_for s (po_order_ref order)) (failed_activation order key n code now)"
    and "conclude save_activation s a human = (Inr r, s')"
    and "ac_order_ref a = po_order_ref order" and "ac_attempt a = n"
  shows "activation_for s' (po_order_ref order) = Some (ar_activation r)"
proof -
  have "next_attempt (activation_for s (ac_order_ref a)) a"
    using assms(1,3,4) by (simp add: next_attempt_def failed_activation_def split: option.splits)
  from next_is_kept [OF this] show ?thesis
    using assms(2,3) by (auto simp: conclude_def split: sum.splits)
qed

lemma activate_result_stored:
  assumes "activate activation_for save_activation sha256 gateway s order now = (Inr r, s', calls)"
  shows "activation_for s' (po_order_ref order) = Some (ar_activation r)"
proof -
  have tried: "activation_for s' (po_order_ref order) = Some (ar_activation r)"
    if "next_attempt (activation_for s (po_order_ref order)) (failed_activation order key n '''' now)"
      and "attempt_activation save_activation sha256 gateway s order now n = (Inr r, s', calls)" for key n
  proof -
    have "\<exists>a human. conclude save_activation s a human = (Inr r, s') \<and> ac_order_ref a = po_order_ref order \<and> ac_attempt a = n"
      using that(2) by (auto simp: attempt_activation_def Let_def failed_activation_def split: prod.splits sum.splits if_splits)
    then show ?thesis using attempt_is_kept [OF that(1)] by blast
  qed
  show ?thesis
  proof (cases "activation_for s (po_order_ref order)")
    case None
    then show ?thesis
      using assms by (intro tried [of "''''" 1]) (simp_all add: activate_def next_attempt_def failed_activation_def)
  next
    case (Some p)
    show ?thesis
    proof (cases "ac_succeeded p")
      case True
      then show ?thesis using assms Some by (auto simp: activate_def)
    next
      case False
      then show ?thesis
        using assms Some
        by (intro tried [of "''''" "ac_attempt p + 1"]) (simp_all add: activate_def next_attempt_def failed_activation_def)
    qed
  qed
qed

end

fun activations ::
  "('s \<Rightarrow> ref \<Rightarrow> activation option) \<Rightarrow> ('s \<Rightarrow> activation \<Rightarrow> py_error + 's) \<Rightarrow> (string \<Rightarrow> string) \<Rightarrow> 's \<Rightarrow> payment_order
     \<Rightarrow> ((string \<Rightarrow> provider_error + string option) \<times> instant) list
     \<Rightarrow> (py_error + activation_result) list \<times> 's \<times> string list" where
  "activations activation_for save sha256 s order [] = ([], s, [])"
| "activations activation_for save sha256 s order ((gateway, now) # gs) =
     (let (r, s1, calls) = activate activation_for save sha256 gateway s order now;
          (rs, s2, more) = activations activation_for save sha256 s1 order gs
      in (r # rs, s2, calls @ more))"

lemma activate_calls_key:
  "set (snd (snd (activate activation_for save sha256 gateway s order now))) \<subseteq> {activation_key sha256 order}"
  by (auto simp: activate_def attempt_activation_def Let_def split_beta split: option.splits)

lemma activate_after_success:
  assumes "activation_for s (po_order_ref order) = Some a" and "ac_succeeded a"
  shows "activate activation_for save sha256 gateway s order now = (Inr \<lparr>ar_activation = a, ar_needs_human = False\<rparr>, s, [])"
  using assms by (simp add: activate_def)

lemma activations_after_success:
  assumes "activation_for s (po_order_ref order) = Some a" and "ac_succeeded a"
  shows "activations activation_for save sha256 s order gs
    = (replicate (length gs) (Inr \<lparr>ar_activation = a, ar_needs_human = False\<rparr>), s, [])"
  by (induction gs) (auto simp: activate_after_success [where activation_for = activation_for, OF assms])

lemma activations_key:
  "set (snd (snd (activations activation_for save sha256 s order gs))) \<subseteq> {activation_key sha256 order}"
proof (induction gs arbitrary: s)
  case (Cons g gs)
  show ?case
    using Cons.IH activate_calls_key [of activation_for save sha256 "fst g" s order "snd g"]
    by (cases g) (fastforce simp: Let_def split_beta)
qed simp

lemma activations_append:
  "activations activation_for save sha256 s order (gs @ hs) =
     (let (rs, s1, calls) = activations activation_for save sha256 s order gs;
          (qs, s2, more) = activations activation_for save sha256 s1 order hs
      in (rs @ qs, s2, calls @ more))"
  by (induction gs arbitrary: s) (auto simp: Let_def split_beta)

context activation_store
begin

lemma last_success_is_stored:
  assumes "activations activation_for save_activation sha256 s order gs = (rs, s', calls)" and "rs \<noteq> []" and "last rs = Inr r"
  shows "activation_for s' (po_order_ref order) = Some (ar_activation r)"
  using assms
proof (induction gs arbitrary: rs calls rule: rev_induct)
  case (snoc g gs)
  obtain gateway now where g: "g = (gateway, now)" by (cases g)
  obtain rs1 s1 c1 where 1: "activations activation_for save_activation sha256 s order gs = (rs1, s1, c1)"
    using prod_cases3 by blast
  obtain r2 s2 c2 where 2: "activate activation_for save_activation sha256 gateway s1 order now = (r2, s2, c2)"
    using prod_cases3 by blast
  then show ?case
    using snoc.prems activate_result_stored [of sha256 gateway s1 order now r s2 c2]
    by (auto simp: activations_append 1 g Let_def)
qed simp

theorem activations_idempotent:
  assumes "activations activation_for save_activation sha256 s order gs = (rs, s', calls)"
  shows "set calls \<subseteq> {activation_key sha256 order}"
    and "rs \<noteq> [] \<Longrightarrow> last rs = Inr r \<Longrightarrow> ac_succeeded (ar_activation r) \<Longrightarrow>
      activations activation_for save_activation sha256 s order (gs @ hs)
        = (rs @ replicate (length hs) (Inr \<lparr>ar_activation = ar_activation r, ar_needs_human = False\<rparr>), s', calls)"
proof -
  show "set calls \<subseteq> {activation_key sha256 order}"
    using activations_key [of activation_for save_activation sha256 s order gs] assms by simp
  assume "rs \<noteq> []" "last rs = Inr r" "ac_succeeded (ar_activation r)"
  then show "activations activation_for save_activation sha256 s order (gs @ hs)
      = (rs @ replicate (length hs) (Inr \<lparr>ar_activation = ar_activation r, ar_needs_human = False\<rparr>), s', calls)"
    using assms last_success_is_stored [OF assms]
    by (simp add: activations_append activations_after_success [where activation_for = activation_for])
qed

end

text \<open>(C21) One payment activates at most one subscription, in the memory store and in Postgres. Every call of every
  try on an order presents the gateway with the same idempotency key; and once a try has succeeded, all later
  tries, whatever the gateway would answer, return that activation without calling it and leave the store alone.\<close>

theorem activation_is_idempotent:
  "(activations mem_activation_for mem_save_activation sha256 s order gs = (rs, s', calls) \<longrightarrow>
      set calls \<subseteq> {activation_key sha256 order} \<and>
      (rs \<noteq> [] \<and> last rs = Inr r \<and> ac_succeeded (ar_activation r) \<longrightarrow>
        activations mem_activation_for mem_save_activation sha256 s order (gs @ hs)
          = (rs @ replicate (length hs) (Inr \<lparr>ar_activation = ar_activation r, ar_needs_human = False\<rparr>), s', calls))) \<and>
   (activations pg_activation_for pg_save_activation sha256 db order gs = (qs, db', calls') \<longrightarrow>
      set calls' \<subseteq> {activation_key sha256 order} \<and>
      (qs \<noteq> [] \<and> last qs = Inr q \<and> ac_succeeded (ar_activation q) \<longrightarrow>
        activations pg_activation_for pg_save_activation sha256 db order (gs @ hs)
          = (qs @ replicate (length hs) (Inr \<lparr>ar_activation = ar_activation q, ar_needs_human = False\<rparr>), db', calls')))"
  by (intro conjI impI; (elim conjE)?; erule mem_attempts.activations_idempotent pg_attempts.activations_idempotent; assumption)

definition two_tries :: "((string \<Rightarrow> provider_error + string option) \<times> instant) list" where
  "two_tries = [(\<lambda>_. Inl \<lparr>px_provider = ''nxtutors'', px_code = '''', px_class = ''ProviderTimeout'', px_retryable = True\<rparr>, 1),
     (\<lambda>_. Inr (Some ''sub-1''), 2)]"

theorem activation_is_idempotent_witness:
  "snd (snd (activations pg_activation_for pg_save_activation (\<lambda>x. x) pg_commerce_init sample_order
     (two_tries @ [(\<lambda>_. Inr (Some ''sub-2''), 3)]))) = replicate 2 (activation_key (\<lambda>x. x) sample_order)"
proof -
  obtain qs db' calls where m: "activations pg_activation_for pg_save_activation (\<lambda>x. x) pg_commerce_init sample_order two_tries
      = (qs, db', calls)"
    using prod_cases3 by blast
  have "(case activations pg_activation_for pg_save_activation (\<lambda>x. x) pg_commerce_init sample_order two_tries of (qs, db', calls) \<Rightarrow>
      qs \<noteq> [] \<and> (case last qs of Inl _ \<Rightarrow> False | Inr r \<Rightarrow> ac_succeeded (ar_activation r)) \<and> length calls = 2)"
    by code_simp
  then obtain r where r: "qs \<noteq> []" "last qs = Inr r" "ac_succeeded (ar_activation r)" "length calls = 2"
    using m by (auto split: sum.splits)
  note A = activation_is_idempotent [THEN conjunct2, rule_format, OF m, of r "[(\<lambda>_. Inr (Some ''sub-2''), 3)]"]
  have "calls = replicate 2 (activation_key (\<lambda>x. x) sample_order)"
    using A r(4) by (intro replicate_eqI) auto
  then show ?thesis using A r by simp
qed

text \<open>A failure after the money was taken reaches a human: when a try answers with a failed
  activation, it asks for a human exactly when the gateway said it may not be retried, gave no
  subscription, or this was the third try or later; and it never asks for one on success.\<close>

theorem exhausted_activation_needs_human:
  assumes "activate mem_activation_for mem_save_activation sha256 gateway s order now = (Inr r, s', calls)" and "calls \<noteq> []"
  shows "ac_attempt (ar_activation r)
      = (case mem_activation_for s (po_order_ref order) of None \<Rightarrow> 1 | Some p \<Rightarrow> ac_attempt p + 1) \<and>
    ar_needs_human r = (case gateway (activation_key sha256 order) of
        Inl exc \<Rightarrow> ac_attempt (ar_activation r) \<ge> 3 \<or> \<not> px_retryable exc
      | Inr sub \<Rightarrow> text_or_empty sub = '''') \<and>
    (ar_needs_human r \<longrightarrow> \<not> ac_succeeded (ar_activation r))"
  using assms
  by (auto simp: activate_def attempt_activation_def conclude_def Let_def
      split_beta failed_activation_def MAX_ACTIVATION_ATTEMPTS_def mem_save_activation_def
      split: option.splits sum.splits if_splits)

theorem exhausted_activation_needs_human_witness:
  "\<exists>r s' calls. activate mem_activation_for mem_save_activation (\<lambda>x. x) (\<lambda>_. Inr None) mem_commerce_init sample_order 1 = (Inr r, s', calls) \<and>
     ar_needs_human r"
proof -
  let ?m = "activate mem_activation_for mem_save_activation (\<lambda>x. x) (\<lambda>_. Inr None) mem_commerce_init sample_order 1"
  have "(case ?m of (Inl _, _) \<Rightarrow> False | (Inr r, s', calls) \<Rightarrow> calls \<noteq> [])" by code_simp
  then obtain r s' calls where m: "?m = (Inr r, s', calls)" "calls \<noteq> []"
    by (cases ?m; cases "fst ?m") auto
  show ?thesis
    using exhausted_activation_needs_human [OF m] m by (simp add: text_or_empty_def)
qed

end
