(* ===== verification/Reminders.thy ===== *)
theory Reminders
  imports Demos
begin

text \<open>
  domain/reminders.py, capabilities/reminders/service.py, the reminder policy of config/policies.py, and
  the reminder repositories of storage/memory/demos.py and storage/postgres/repositories.py.

  The IANA rules of a zone are not under src/: a zone gives the wall clock at an instant and the instant
  of a wall clock, both in microseconds, as \<open>astimezone\<close> does. ULIDs are an argument: \<open>new_id k\<close> is the
  identifier of the k-th reminder of a plan.
\<close>

record zone_rules =
  wall_clock :: "instant \<Rightarrow> int"
  from_wall :: "int \<Rightarrow> instant"

definition local_hour :: "int \<Rightarrow> int" where
  "local_hour wall = wall mod days 1 div hours 1"

definition zone_of :: "(string \<Rightarrow> zone_rules option) \<Rightarrow> string \<Rightarrow> slot_error + zone_rules" where
  "zone_of zones name = (case zones name of None \<Rightarrow> Inl (UnknownTimezone name) | Some z \<Rightarrow> Inr z)"

section \<open>Reminders\<close>

datatype reminder_status = RS_PENDING | RS_SENT | RS_CANCELLED | RS_SUPPRESSED | RS_FAILED

fun reminder_status_value :: "reminder_status \<Rightarrow> string" where
  "reminder_status_value RS_PENDING = ''pending''"
| "reminder_status_value RS_SENT = ''sent''"
| "reminder_status_value RS_CANCELLED = ''cancelled''"
| "reminder_status_value RS_SUPPRESSED = ''suppressed''"
| "reminder_status_value RS_FAILED = ''failed''"

fun party_value :: "party \<Rightarrow> string" where
  "party_value PARTY_STUDENT = ''student''"
| "party_value PARTY_TUTOR = ''tutor''"
| "party_value PARTY_BOTH = ''both''"

record scheduled_reminder =
  rm_reminder_id :: ref
  rm_demo_id :: ref
  rm_conversation :: ref
  rm_demo_revision :: int
  rm_label :: string
  rm_audience :: party
  rm_recipient :: ref
  rm_template :: string
  rm_channel :: string
  rm_fire_at :: instant
  rm_demo_starts_at :: instant
  rm_status :: reminder_status
  rm_attempts :: int
  rm_sent_at :: "instant option"
  rm_suppression_reason :: string

definition reminder_ok :: "scheduled_reminder \<Rightarrow> bool" where
  "reminder_ok r \<longleftrightarrow>
     length (rm_reminder_id r) \<le> 64 \<and> length (rm_demo_id r) \<le> 64 \<and> length (rm_conversation r) \<le> 128 \<and>
     1 \<le> rm_demo_revision r \<and> length (rm_label r) \<le> 32 \<and> length (rm_recipient r) \<le> 128 \<and>
     length (rm_template r) \<le> 64 \<and> length (rm_channel r) \<le> 32 \<and>
     0 \<le> rm_attempts r \<and> rm_attempts r \<le> 5 \<and> length (rm_suppression_reason r) \<le> 64"

definition reminder_key :: "scheduled_reminder \<Rightarrow> string" where
  "reminder_key r = ''rem:'' @ rm_demo_id r @ '':'' @ show_nat (nat (rm_demo_revision r)) @ '':'' @ rm_label r
     @ '':'' @ party_value (rm_audience r)"

definition obsolete_for :: "scheduled_reminder \<Rightarrow> int \<Rightarrow> bool" where
  "obsolete_for r revision \<longleftrightarrow> rm_demo_revision r < revision"

definition reminder_due :: "scheduled_reminder \<Rightarrow> instant \<Rightarrow> bool" where
  "reminder_due r now \<longleftrightarrow> rm_status r = RS_PENDING \<and> now \<ge> rm_fire_at r"

definition overdue :: "scheduled_reminder \<Rightarrow> instant \<Rightarrow> duration \<Rightarrow> bool" where
  "overdue r now tolerance \<longleftrightarrow> now > rm_fire_at r + tolerance"

definition quiet_hour :: "int \<Rightarrow> int \<Rightarrow> int \<Rightarrow> bool" where
  "quiet_hour hour start_hour end_hour \<longleftrightarrow>
     (if start_hour = end_hour then False
      else if start_hour < end_hour then start_hour \<le> hour \<and> hour < end_hour
      else hour \<ge> start_hour \<or> hour < end_hour)"

definition in_quiet_hours :: "zone_rules \<Rightarrow> instant \<Rightarrow> int \<Rightarrow> int \<Rightarrow> bool" where
  "in_quiet_hours z moment start_hour end_hour \<longleftrightarrow> quiet_hour (local_hour (wall_clock z moment)) start_hour end_hour"

definition defer_past_quiet_hours ::
  "zone_rules \<Rightarrow> instant \<Rightarrow> int \<Rightarrow> int \<Rightarrow> int \<Rightarrow> instant \<Rightarrow> instant option" where
  "defer_past_quiet_hours z fire_at start_hour end_hour defer_to_hour demo_starts_at =
     (if \<not> in_quiet_hours z fire_at start_hour end_hour then Some fire_at
      else let local = wall_clock z fire_at;
               same_day = local - local mod days 1 + hours defer_to_hour;
               candidate = (if same_day \<le> local then same_day + days 1 else same_day);
               deferred = from_wall z candidate
           in if deferred \<ge> demo_starts_at then None else Some deferred)"

section \<open>The policy\<close>

datatype offset_audience = AUD_STUDENT | AUD_TUTOR | AUD_BOTH

record reminder_offset =
  ro_label :: string
  ro_minutes_before :: int
  ro_audience :: offset_audience
  ro_template :: string
  ro_channel :: string

record reminder_policy =
  rp_offsets :: "reminder_offset list"
  rp_max_per_demo :: int
  rp_max_per_identity_per_day :: int
  rp_quiet_start :: int
  rp_quiet_end :: int
  rp_defer_to_hour :: int
  rp_silence_escalation :: int
  rp_risk_threshold :: rat

definition offset_ok :: "reminder_offset \<Rightarrow> bool" where
  "offset_ok f \<longleftrightarrow> length (ro_label f) \<le> 32 \<and> 1 \<le> ro_minutes_before f \<and> ro_minutes_before f \<le> 20160 \<and>
     length (ro_template f) \<le> 64 \<and> ro_channel f \<in> {''whatsapp'', ''email'', ''whatsapp_then_email''}"

definition reminder_policy_ok :: "reminder_policy \<Rightarrow> bool" where
  "reminder_policy_ok p \<longleftrightarrow>
     (\<forall>f\<in>set (rp_offsets p). offset_ok f) \<and>
     1 \<le> rp_max_per_demo p \<and> rp_max_per_demo p \<le> 20 \<and>
     1 \<le> rp_max_per_identity_per_day p \<and> rp_max_per_identity_per_day p \<le> 50 \<and>
     0 \<le> rp_quiet_start p \<and> rp_quiet_start p \<le> 23 \<and> 0 \<le> rp_quiet_end p \<and> rp_quiet_end p \<le> 23 \<and>
     0 \<le> rp_defer_to_hour p \<and> rp_defer_to_hour p \<le> 23 \<and>
     5 \<le> rp_silence_escalation p \<and> rp_silence_escalation p \<le> 1440 \<and>
     0 \<le> rp_risk_threshold p \<and> rp_risk_threshold p \<le> 1 \<and>
     rp_offsets p \<noteq> [] \<and> distinct (map ro_label (rp_offsets p)) \<and>
     \<not> int (length (rp_offsets p)) > rp_max_per_demo p"

section \<open>Planning\<close>

fun audiences :: "offset_audience \<Rightarrow> party list" where
  "audiences AUD_BOTH = [PARTY_STUDENT, PARTY_TUTOR]"
| "audiences AUD_STUDENT = [PARTY_STUDENT]"
| "audiences AUD_TUTOR = [PARTY_TUTOR]"

type_synonym planned_row = "reminder_offset \<times> party \<times> demo_attendee \<times> instant"

definition recipients :: "demo \<Rightarrow> reminder_offset \<Rightarrow> instant \<Rightarrow> planned_row list" where
  "recipients d f fire =
     concat (map (\<lambda>p. case attendee d p of None \<Rightarrow> [] | Some a \<Rightarrow> [(f, p, a, fire)]) (audiences (ro_audience f)))"

fun plan_offsets ::
  "(string \<Rightarrow> zone_rules option) \<Rightarrow> reminder_policy \<Rightarrow> instant \<Rightarrow> demo \<Rightarrow> time_slot \<Rightarrow> reminder_offset list
   \<Rightarrow> slot_error + planned_row list" where
  "plan_offsets zones p now d s [] = Inr []"
| "plan_offsets zones p now d s (f # fs) =
     (let fire_at = starts_at s - minutes (ro_minutes_before f)
      in if fire_at \<le> now then plan_offsets zones p now d s fs
         else and_then (zone_of zones (timezone s)) (\<lambda>z.
           case defer_past_quiet_hours z fire_at (rp_quiet_start p) (rp_quiet_end p) (rp_defer_to_hour p) (starts_at s) of
             None \<Rightarrow> plan_offsets zones p now d s fs
           | Some fire \<Rightarrow> and_then (plan_offsets zones p now d s fs) (\<lambda>rows. Inr (recipients d f fire @ rows))))"

definition reminder_for :: "(nat \<Rightarrow> ref) \<Rightarrow> demo \<Rightarrow> time_slot \<Rightarrow> nat \<Rightarrow> planned_row \<Rightarrow> scheduled_reminder" where
  "reminder_for new_id d s k row =
     (case row of (f, p, a, fire) \<Rightarrow>
       \<lparr>rm_reminder_id = new_id k, rm_demo_id = dm_demo_id d, rm_conversation = dm_conversation d,
        rm_demo_revision = dm_revision d, rm_label = ro_label f, rm_audience = p, rm_recipient = da_ref a,
        rm_template = ro_template f, rm_channel = ro_channel f, rm_fire_at = fire, rm_demo_starts_at = starts_at s,
        rm_status = RS_PENDING, rm_attempts = 0, rm_sent_at = None, rm_suppression_reason = []\<rparr>)"

definition numbered :: "(nat \<Rightarrow> ref) \<Rightarrow> demo \<Rightarrow> time_slot \<Rightarrow> planned_row list \<Rightarrow> scheduled_reminder list" where
  "numbered new_id d s rows = map (\<lambda>(k, row). reminder_for new_id d s k row) (enumerate 0 rows)"

definition plan ::
  "(string \<Rightarrow> zone_rules option) \<Rightarrow> (nat \<Rightarrow> ref) \<Rightarrow> reminder_policy \<Rightarrow> instant \<Rightarrow> demo
   \<Rightarrow> slot_error + scheduled_reminder list" where
  "plan zones new_id p now d =
     (case dm_slot d of
        None \<Rightarrow> Inr []
      | Some s \<Rightarrow>
          if demo_cancelled d then Inr []
          else and_then (plan_offsets zones p now d s (rp_offsets p)) (\<lambda>rows.
            if list_all reminder_ok (numbered new_id d s rows)
              then Inr (take (nat (rp_max_per_demo p)) (numbered new_id d s rows))
              else Inl (FieldInvalid ''ScheduledReminder'')))"

definition to_message :: "scheduled_reminder \<Rightarrow> demo \<Rightarrow> string \<Rightarrow> string list \<Rightarrow> instant \<Rightarrow> py_error + outbound_message" where
  "to_message r d lang variables now =
     make_message
       \<lparr>om_conversation = rm_conversation r, om_recipient = rm_recipient r, om_audience = rm_audience r,
        om_kind = MK_REMINDER, om_language = dm_language d, om_body = [], om_buttons = [],
        om_template = Some \<lparr>template_name = rm_template r, template_language = lang, template_variables = variables\<rparr>,
        om_key = reminder_key r, om_demo_id = Some (dm_demo_id d), om_trace_id = [],
        om_expires_at = (case dm_slot d of None \<Rightarrow> None
                         | Some s \<Rightarrow> Some (min (rm_fire_at r + minutes 20) (starts_at s))),
        om_created_at = now\<rparr>"

definition obsolete :: "scheduled_reminder \<Rightarrow> demo \<Rightarrow> instant \<Rightarrow> string option" where
  "obsolete r d now =
     (if demo_cancelled d then Some ''demo_cancelled''
      else if obsolete_for r (dm_revision d) then Some ''superseded_by_reschedule''
      else if overdue r now (minutes 10) then Some ''reminder_overdue''
      else if (case dm_slot d of None \<Rightarrow> False | Some s \<Rightarrow> now \<ge> starts_at s) then Some ''demo_already_started''
      else None)"

section \<open>The risk of a no-show\<close>

record risk_assessment =
  nr_score :: rat
  nr_band :: string
  nr_signals :: "string list"

definition risk_signals ::
  "reminder_policy \<Rightarrow> instant \<Rightarrow> demo \<Rightarrow> int \<Rightarrow> int \<Rightarrow> int \<Rightarrow> rat option \<Rightarrow> (rat \<times> string) list" where
  "risk_signals p now d sent acknowledged reschedules silent_minutes =
     (if sent \<noteq> 0 \<and> acknowledged = 0 then [(35 / 100, ''no_reminder_acknowledged'')] else []) @
     (if reschedules \<ge> 2 then [(25 / 100, ''repeated_reschedules'')]
      else if reschedules = 1 then [(10 / 100, ''rescheduled_once'')] else []) @
     (case silent_minutes of
        None \<Rightarrow> []
      | Some m \<Rightarrow> if m > 60 * 48 then [(30 / 100, ''silent_48h'')]
                  else if m > of_int (rp_silence_escalation p) then [(15 / 100, ''silent_since_last_reminder'')]
                  else []) @
     (case dm_slot d of
        None \<Rightarrow> []
      | Some s \<Rightarrow> if starts_at s - now > days 7 then [(10 / 100, ''booked_far_ahead'')] else [])"

definition no_show_risk ::
  "reminder_policy \<Rightarrow> instant \<Rightarrow> demo \<Rightarrow> int \<Rightarrow> int \<Rightarrow> int \<Rightarrow> rat option \<Rightarrow> risk_assessment" where
  "no_show_risk p now d sent acknowledged reschedules silent_minutes =
     (let sigs = risk_signals p now d sent acknowledged reschedules silent_minutes;
          score = min 1 (sum_list (map fst sigs));
          threshold = rp_risk_threshold p
      in \<lparr>nr_score = score,
          nr_band = (if score \<ge> threshold then ''high'' else if score \<ge> threshold / 2 then ''medium'' else ''low''),
          nr_signals = map snd sigs\<rparr>)"

definition should_escalate :: "reminder_policy \<Rightarrow> risk_assessment \<Rightarrow> bool" where
  "should_escalate p r \<longleftrightarrow> nr_score r \<ge> rp_risk_threshold p"

definition daily_cap_reached :: "reminder_policy \<Rightarrow> int \<Rightarrow> bool" where
  "daily_cap_reached p sends_today \<longleftrightarrow> sends_today \<ge> rp_max_per_identity_per_day p"

section \<open>The repositories\<close>

type_synonym reminder_rows = "(ref, scheduled_reminder) odict"

definition cancel_pending :: "ref \<Rightarrow> scheduled_reminder \<Rightarrow> scheduled_reminder" where
  "cancel_pending demo r =
     (if rm_demo_id r = demo \<and> rm_status r = RS_PENDING then r\<lparr>rm_status := RS_CANCELLED\<rparr> else r)"

definition is_pending :: "ref \<Rightarrow> scheduled_reminder \<Rightarrow> bool" where
  "is_pending demo r \<longleftrightarrow> rm_demo_id r = demo \<and> rm_status r = RS_PENDING"

definition mem_replace_for_demo :: "reminder_rows \<Rightarrow> ref \<Rightarrow> scheduled_reminder list \<Rightarrow> reminder_rows" where
  "mem_replace_for_demo rows demo reminders =
     foldl (\<lambda>d r. dict_set d (rm_reminder_id r) r) (dict_map_values (\<lambda>_. cancel_pending demo) rows) reminders"

definition mem_due :: "reminder_rows \<Rightarrow> instant \<Rightarrow> nat \<Rightarrow> scheduled_reminder list" where
  "mem_due rows now limit = take limit (filter (\<lambda>r. reminder_due r now) (dict_values rows))"

definition mark_row :: "reminder_status \<Rightarrow> instant \<Rightarrow> string \<Rightarrow> scheduled_reminder \<Rightarrow> scheduled_reminder" where
  "mark_row status now detail r =
     r\<lparr>rm_status := status, rm_sent_at := (if status = RS_SENT then Some now else rm_sent_at r),
       rm_attempts := rm_attempts r + 1, rm_suppression_reason := take 64 detail\<rparr>"

definition mem_mark :: "reminder_rows \<Rightarrow> ref \<Rightarrow> reminder_status \<Rightarrow> instant \<Rightarrow> string \<Rightarrow> reminder_rows" where
  "mem_mark rows i status now detail =
     (case dict_get rows i of None \<Rightarrow> rows | Some r \<Rightarrow> dict_set rows i (mark_row status now detail r))"

definition mem_cancel_for_demo :: "reminder_rows \<Rightarrow> ref \<Rightarrow> reminder_rows \<times> nat" where
  "mem_cancel_for_demo rows demo =
     (dict_map_values (\<lambda>_. cancel_pending demo) rows, length (filter (is_pending demo) (dict_values rows)))"

definition mem_sent_count :: "reminder_rows \<Rightarrow> ref \<Rightarrow> nat" where
  "mem_sent_count rows demo =
     length (filter (\<lambda>r. rm_demo_id r = demo \<and> rm_status r = RS_SENT) (dict_values rows))"

text \<open>The table \<open>dcc_demo_reminders\<close> with its primary key and the unique index on demo, revision, label and
  audience; the insert does nothing on a conflict with that index and fails on the primary key.\<close>

type_synonym pg_reminders = "scheduled_reminder list"

definition ladder_place :: "scheduled_reminder \<Rightarrow> ref \<times> int \<times> string \<times> party" where
  "ladder_place r = (rm_demo_id r, rm_demo_revision r, rm_label r, rm_audience r)"

fun pg_insert_reminders :: "pg_reminders \<Rightarrow> scheduled_reminder list \<Rightarrow> pg_reminders option" where
  "pg_insert_reminders db [] = Some db"
| "pg_insert_reminders db (r # rs) =
     (if ladder_place r \<in> ladder_place ` set db then pg_insert_reminders db rs
      else if rm_reminder_id r \<in> rm_reminder_id ` set db then None
      else pg_insert_reminders (db @ [r\<lparr>rm_status := RS_PENDING, rm_attempts := 0, rm_sent_at := None,
                                        rm_suppression_reason := []\<rparr>]) rs)"

text \<open>One transaction: if an insert fails nothing is changed.\<close>

definition pg_replace_for_demo :: "pg_reminders \<Rightarrow> ref \<Rightarrow> scheduled_reminder list \<Rightarrow> pg_reminders option" where
  "pg_replace_for_demo db demo reminders = pg_insert_reminders (map (cancel_pending demo) db) reminders"

definition pg_due :: "pg_reminders \<Rightarrow> instant \<Rightarrow> nat \<Rightarrow> scheduled_reminder list" where
  "pg_due db now limit =
     take limit (sort_key rm_fire_at (filter (\<lambda>r. rm_status r = RS_PENDING \<and> rm_fire_at r \<le> now) db))"

definition pg_mark :: "pg_reminders \<Rightarrow> ref \<Rightarrow> reminder_status \<Rightarrow> instant \<Rightarrow> string \<Rightarrow> pg_reminders" where
  "pg_mark db i status now detail = map (\<lambda>r. if rm_reminder_id r = i then mark_row status now detail r else r) db"

definition pg_cancel_for_demo :: "pg_reminders \<Rightarrow> ref \<Rightarrow> pg_reminders \<times> nat" where
  "pg_cancel_for_demo db demo = (map (cancel_pending demo) db, length (filter (is_pending demo) db))"

definition pg_sent_count :: "pg_reminders \<Rightarrow> ref \<Rightarrow> nat" where
  "pg_sent_count db demo = length (filter (\<lambda>r. rm_demo_id r = demo \<and> rm_status r = RS_SENT) db)"

section \<open>What a plan contains\<close>

text \<open>The quiet window as an arc of the clock, wherever midnight falls.\<close>

lemma quiet_hour_arc:
  assumes "0 \<le> h" "h < 24" "0 \<le> s" "s < 24" "0 \<le> e" "e < 24"
  shows "quiet_hour h s e \<longleftrightarrow> (h - s) mod 24 < (e - s) mod 24"
proof -
  have m: "x mod 24 = (if 0 \<le> x then x else x + 24)" if "-24 < x" "x < 24" for x :: int
  proof (cases "0 \<le> x")
    case False
    then have "(x + 24) mod 24 = x + 24" using that by (intro mod_pos_pos_trivial) simp_all
    then show ?thesis using False by simp
  qed (use that in simp)
  show ?thesis using assms by (simp add: m quiet_hour_def)
qed

definition fixed_offset :: "zone_rules \<Rightarrow> duration \<Rightarrow> bool" where
  "fixed_offset z u \<longleftrightarrow> (\<forall>t. wall_clock z t = t + u) \<and> (\<forall>w. from_wall z w = w - u)"

lemma local_hour_of:
  assumes "0 \<le> h" "h < 24"
  shows "local_hour (x - x mod days 1 + hours h) = h"
proof -
  have "(x - x mod days 1 + hours h) mod days 1 = hours h mod days 1"
    by (metis add.commute add_diff_cancel_right' minus_mod_eq_mult_div mod_mult_self2 diff_add_cancel)
  also have "\<dots> = hours h" using assms by (simp add: duration_defs)
  finally show ?thesis by (simp add: local_hour_def duration_defs)
qed

lemma local_hour_next_day: "local_hour (x + days 1) = local_hour x"
  by (simp add: local_hour_def)

text \<open>When a reminder that is due at a given instant fires: then, or, if that is in quiet hours, the next
  time the zone's clock shows the hour of deferral.\<close>

definition fires_for :: "zone_rules \<Rightarrow> reminder_policy \<Rightarrow> instant \<Rightarrow> instant \<Rightarrow> bool" where
  "fires_for z p due fire \<longleftrightarrow>
     (if in_quiet_hours z due (rp_quiet_start p) (rp_quiet_end p)
      then due < fire \<and> fire \<le> due + days 1 \<and> wall_clock z fire mod days 1 = hours (rp_defer_to_hour p)
      else fire = due)"

lemma same_time_of_day:
  fixes a b :: int
  assumes "a mod days 1 = b mod days 1" and "l < a" "a \<le> l + days 1" "l < b" "b \<le> l + days 1"
  shows "a = b"
proof -
  obtain k where k: "a - b = days 1 * k" using assms(1) by (metis mod_eq_dvd_iff dvd_def)
  then have "- days 1 < days 1 * k" "days 1 * k < days 1" using assms(2-5) by linarith+
  moreover have "0 < days 1" by (simp add: duration_defs)
  ultimately have "- 1 < k" "k < 1"
    using mult_less_cancel_left_pos [of "days 1" "- 1" k] mult_less_cancel_left_pos [of "days 1" k 1] by simp_all
  then have "k = 0" by simp
  then show ?thesis using k by simp
qed

lemma deferred_iff:
  assumes z: "fixed_offset z u" and h: "0 \<le> rp_defer_to_hour p" "rp_defer_to_hour p < 24" and before_start: "t < start"
  shows "defer_past_quiet_hours z t (rp_quiet_start p) (rp_quiet_end p) (rp_defer_to_hour p) start = Some t' \<longleftrightarrow>
    fires_for z p t t' \<and> t' < start"
proof (cases "in_quiet_hours z t (rp_quiet_start p) (rp_quiet_end p)")
  case True
  define same where "same = t + u - (t + u) mod days 1 + hours (rp_defer_to_hour p)"
  define cand where "cand = (if same \<le> t + u then same + days 1 else same)"
  define m where "m = (t + u) mod days 1"
  have "0 \<le> m" "m < days 1" by (simp_all add: m_def duration_defs)
  moreover have hh: "0 \<le> hours (rp_defer_to_hour p)" "hours (rp_defer_to_hour p) < days 1"
    using h by (simp_all add: duration_defs)
  ultimately have cand: "t + u < cand" "cand \<le> t + u + days 1" unfolding cand_def same_def m_def [symmetric] by auto
  have "same mod days 1 = hours (rp_defer_to_hour p) mod days 1"
    unfolding same_def by (metis add.commute add_diff_cancel_right' minus_mod_eq_mult_div mod_mult_self2 diff_add_cancel)
  then have clock: "cand mod days 1 = hours (rp_defer_to_hour p)"
    using hh by (simp add: cand_def)
  have "fires_for z p t t' \<longleftrightarrow> t' = cand - u"
    using True z cand clock same_time_of_day [of "t' + u" cand "t + u"]
    by (auto simp: fires_for_def fixed_offset_def)
  moreover have "defer_past_quiet_hours z t (rp_quiet_start p) (rp_quiet_end p) (rp_defer_to_hour p) start =
      (if cand - u \<ge> start then None else Some (cand - u))"
    using True z by (simp add: defer_past_quiet_hours_def Let_def fixed_offset_def same_def cand_def)
  ultimately show ?thesis by auto
next
  case False
  then show ?thesis using before_start by (auto simp: defer_past_quiet_hours_def fires_for_def)
qed

lemma fires_for_calm:
  assumes "fires_for z p due fire" and "0 \<le> rp_defer_to_hour p" "rp_defer_to_hour p < 24"
    and "\<not> quiet_hour (rp_defer_to_hour p) (rp_quiet_start p) (rp_quiet_end p)"
  shows "\<not> in_quiet_hours z fire (rp_quiet_start p) (rp_quiet_end p)"
proof (cases "in_quiet_hours z due (rp_quiet_start p) (rp_quiet_end p)")
  case True
  then have "wall_clock z fire mod days 1 = hours (rp_defer_to_hour p)" using assms(1) by (simp add: fires_for_def)
  then have "local_hour (wall_clock z fire) = rp_defer_to_hour p" by (simp add: local_hour_def duration_defs)
  then show ?thesis using assms(4) by (simp add: in_quiet_hours_def)
qed (use assms(1) in \<open>simp add: fires_for_def\<close>)

definition due_at :: "time_slot \<Rightarrow> reminder_offset \<Rightarrow> instant" where
  "due_at s f = starts_at s - minutes (ro_minutes_before f)"

definition row_timely :: "zone_rules \<Rightarrow> reminder_policy \<Rightarrow> instant \<Rightarrow> demo \<Rightarrow> time_slot \<Rightarrow> planned_row \<Rightarrow> bool" where
  "row_timely z p now d s row \<longleftrightarrow>
     (case row of (f, party, a, fire) \<Rightarrow>
        party \<in> set (audiences (ro_audience f)) \<and> attendee d party = Some a \<and> now < due_at s f \<and>
        fires_for z p (due_at s f) fire \<and> fire < starts_at s)"

definition row_place :: "planned_row \<Rightarrow> string \<times> party" where
  "row_place row = (ro_label (fst row), fst (snd row))"

lemma in_recipients:
  "row \<in> set (recipients d f fire) \<longleftrightarrow>
     (\<exists>p a. row = (f, p, a, fire) \<and> p \<in> set (audiences (ro_audience f)) \<and> attendee d p = Some a)"
  by (auto simp: recipients_def split: option.splits)

lemma plan_offsets_timely:
  assumes z: "zones (timezone s) = Some z" "fixed_offset z u" and p: "reminder_policy_ok p"
    and fs: "set fs \<subseteq> set (rp_offsets p)"
  shows "\<exists>rows. plan_offsets zones p now d s fs = Inr rows \<and>
    (\<forall>row. row \<in> set rows \<longleftrightarrow> fst row \<in> set fs \<and> row_timely z p now d s row) \<and>
    (distinct (map ro_label fs) \<longrightarrow> distinct (map row_place rows))"
  using fs
proof (induction fs)
  case (Cons f fs)
  obtain rows where rows: "plan_offsets zones p now d s fs = Inr rows"
    "\<forall>row. row \<in> set rows \<longleftrightarrow> fst row \<in> set fs \<and> row_timely z p now d s row"
    "distinct (map ro_label fs) \<longrightarrow> distinct (map row_place rows)"
    using Cons by auto
  have f: "1 \<le> ro_minutes_before f" "f \<in> set (rp_offsets p)"
    and h: "0 \<le> rp_defer_to_hour p" "rp_defer_to_hour p < 24"
    using p Cons.prems by (auto simp: reminder_policy_ok_def offset_ok_def)
  have earlier: "due_at s f < starts_at s" using f by (simp add: due_at_def duration_defs)
  note fires = deferred_iff [OF z(2) h earlier]
  have parties: "distinct (map row_place (recipients d f fire))" for fire
    by (cases "ro_audience f") (auto simp: recipients_def row_place_def split: option.split)
  let ?late = "due_at s f \<le> now"
  let ?defer = "defer_past_quiet_hours z (due_at s f) (rp_quiet_start p) (rp_quiet_end p) (rp_defer_to_hour p) (starts_at s)"
  have step: "plan_offsets zones p now d s (f # fs) =
      Inr ((if ?late then [] else case ?defer of None \<Rightarrow> [] | Some fire \<Rightarrow> recipients d f fire) @ rows)"
    using rows(1) z(1) by (simp add: Let_def zone_of_def due_at_def split: option.split)
  have first: "row \<in> set (if ?late then [] else case ?defer of None \<Rightarrow> [] | Some fire \<Rightarrow> recipients d f fire) \<longleftrightarrow>
      fst row = f \<and> row_timely z p now d s row" for row
  proof -
    obtain f' party a fire where row: "row = (f', party, a, fire)" by (metis prod_cases4)
    show ?thesis
    proof (cases ?defer)
      case None
      then show ?thesis using fires [of fire] by (auto simp: row row_timely_def)
    next
      case (Some t)
      then have "(t = fire) \<longleftrightarrow> fires_for z p (due_at s f) fire \<and> fire < starts_at s" using fires [of fire] by simp
      then show ?thesis using Some by (auto simp: row row_timely_def in_recipients)
    qed
  qed
  let ?new = "if ?late then [] else case ?defer of None \<Rightarrow> [] | Some fire \<Rightarrow> recipients d f fire"
  have "distinct (map row_place (?new @ rows))" if "distinct (map ro_label (f # fs))"
  proof -
    have "ro_label f \<noteq> ro_label (fst r)" if "r \<in> set rows" for r
      using \<open>distinct (map ro_label (f # fs))\<close> that rows(2) by (metis distinct.simps(2) image_eqI list.set_map list.simps(9))
    then have "row_place r \<noteq> row_place r'" if "r \<in> set ?new" "r' \<in> set rows" for r r'
      using that first [of r] by (simp add: row_place_def)
    then have "row_place ` set ?new \<inter> row_place ` set rows = {}" by blast
    moreover have "distinct (map row_place ?new)" using parties by (simp split: option.split)
    ultimately show ?thesis using that rows(3) by (simp only: map_append distinct_append list.set_map) simp
  qed
  then show ?case using step first rows(2) by auto
qed simp

lemma reminder_for_simps [simp]:
  "rm_fire_at (reminder_for n d s k row) = snd (snd (snd row))"
  "rm_label (reminder_for n d s k row) = ro_label (fst row)"
  "rm_audience (reminder_for n d s k row) = fst (snd row)"
  "rm_recipient (reminder_for n d s k row) = da_ref (fst (snd (snd row)))"
  "rm_demo_id (reminder_for n d s k row) = dm_demo_id d"
  "rm_demo_revision (reminder_for n d s k row) = dm_revision d"
  "rm_status (reminder_for n d s k row) = RS_PENDING"
  "rm_reminder_id (reminder_for n d s k row) = n k"
  by (simp_all add: reminder_for_def split: prod.split)

lemma planned_nth:
  "map (\<lambda>(k, row). g k row) (enumerate 0 rows) = map (\<lambda>k. g k (rows ! k)) [0..<length rows]"
  by (rule nth_equalityI) (simp_all add: nth_enumerate_eq)

lemma distinct_planned:
  "distinct (map f rows) \<Longrightarrow> distinct (map (\<lambda>k. f (rows ! k)) [0..<length rows])"
  by (metis map_nth map_map o_def map_cong)

definition attendees_ok :: "demo \<Rightarrow> bool" where
  "attendees_ok d \<longleftrightarrow> (\<forall>a\<in>set (dm_attendees d). length (da_ref a) \<le> 128)"

definition planned_well :: "zone_rules \<Rightarrow> reminder_policy \<Rightarrow> instant \<Rightarrow> demo \<Rightarrow> time_slot \<Rightarrow> scheduled_reminder \<Rightarrow> bool" where
  "planned_well z p now d s r \<longleftrightarrow>
     rm_demo_id r = dm_demo_id d \<and> rm_demo_revision r = dm_revision d \<and> rm_status r = RS_PENDING \<and>
     rm_fire_at r < starts_at s \<and>
     (\<not> quiet_hour (rp_defer_to_hour p) (rp_quiet_start p) (rp_quiet_end p) \<longrightarrow>
       \<not> in_quiet_hours z (rm_fire_at r) (rp_quiet_start p) (rp_quiet_end p)) \<and>
     (\<exists>f\<in>set (rp_offsets p). rm_label r = ro_label f \<and> rm_template r = ro_template f \<and>
        rm_audience r \<in> set (audiences (ro_audience f)) \<and>
        map_option da_ref (attendee d (rm_audience r)) = Some (rm_recipient r) \<and>
        now < due_at s f \<and> fires_for z p (due_at s f) (rm_fire_at r))"

text \<open>(C31) The reminder ladder is timely and complete. Take a demo that has a slot and is not cancelled and whose
  fields and attendee references are valid, a valid policy, and a zone whose offset from UTC never changes.
  Planning does not raise. Every planned reminder is for the demo's revision and is addressed to the
  attendee of one of the parties its offset names; it comes from an offset that is still ahead, and fires
  before the demo, exactly at that offset, or, if that is in quiet hours, the next time the clock of the
  slot's zone shows the hour of deferral; so it is not in quiet hours unless the policy defers to a quiet
  hour. No audience gets a label twice and the plan keeps to the policy's ceiling. Unless it reached the
  ceiling, no reminder is missing: each offset still ahead that fires before the demo has its reminder for
  each attendee it names.\<close>

theorem reminder_plan_is_timely:
  assumes "dm_slot d = Some s" and "\<not> demo_cancelled d" and "zones (timezone s) = Some z" and "fixed_offset z u"
    and "reminder_policy_ok p" and "demo_ok d" and "attendees_ok d" and "\<forall>k. length (new_id k) \<le> 64"
  shows "\<exists>rs. plan zones new_id p now d = Inr rs \<and> (\<forall>r\<in>set rs. planned_well z p now d s r) \<and>
    distinct (map (\<lambda>r. (rm_label r, rm_audience r)) rs) \<and> int (length rs) \<le> rp_max_per_demo p \<and>
    (int (length rs) = rp_max_per_demo p \<or>
     (\<forall>f\<in>set (rp_offsets p). \<forall>party\<in>set (audiences (ro_audience f)). \<forall>a fire.
        attendee d party = Some a \<and> now < due_at s f \<and> fires_for z p (due_at s f) fire \<and> fire < starts_at s
        \<longrightarrow> (\<exists>r\<in>set rs. rm_label r = ro_label f \<and> rm_audience r = party \<and> rm_recipient r = da_ref a \<and> rm_fire_at r = fire)))"
proof -
  obtain rows where rows: "plan_offsets zones p now d s (rp_offsets p) = Inr rows"
    "\<forall>row. row \<in> set rows \<longleftrightarrow> fst row \<in> set (rp_offsets p) \<and> row_timely z p now d s row"
    "distinct (map row_place rows)"
    using plan_offsets_timely [where zones = zones and s = s, OF assms(3-5), of "rp_offsets p" now d] assms(5)
    by (auto simp: reminder_policy_ok_def)
  define planned where "planned = map (\<lambda>k. reminder_for new_id d s k (rows ! k)) [0..<length rows]"
  have planned: "numbered new_id d s rows = planned"
    by (simp only: numbered_def planned_nth planned_def)
  have h: "0 \<le> rp_defer_to_hour p" "rp_defer_to_hour p < 24" using assms(5) by (simp_all add: reminder_policy_ok_def)
  have well: "planned_well z p now d s r \<and> reminder_ok r" if "r \<in> set planned" for r
  proof -
    obtain k where k: "k < length rows" "r = reminder_for new_id d s k (rows ! k)" using \<open>r \<in> set planned\<close> by (auto simp: planned_def)
    obtain f party a fire where row: "rows ! k = (f, party, a, fire)" by (metis prod_cases4)
    have timely: "row_timely z p now d s (f, party, a, fire)" "f \<in> set (rp_offsets p)" using rows(2) k(1) row by (metis nth_mem fst_conv)+
    have "reminder_ok r"
      using timely assms(5-8) k(2) row
      by (auto simp: row_timely_def reminder_ok_def reminder_for_def demo_ok_def attendees_ok_def
          reminder_policy_ok_def offset_ok_def attendee_def dest!: find_Some_in)
    moreover have "planned_well z p now d s r"
      unfolding planned_well_def
      using timely k(2) row fires_for_calm [OF _ h, of z "due_at s f" fire]
      by (auto simp: row_timely_def reminder_for_def intro!: bexI [of _ f])
    ultimately show ?thesis by blast
  qed
  have full: "\<exists>r\<in>set planned. rm_label r = ro_label f \<and> rm_audience r = party \<and> rm_recipient r = da_ref a \<and> rm_fire_at r = fire"
    if "f \<in> set (rp_offsets p)" "row_timely z p now d s (f, party, a, fire)" for f party a fire
  proof -
    have "(f, party, a, fire) \<in> set rows" using rows(2) that by simp
    then obtain k where "k < length rows" "rows ! k = (f, party, a, fire)" by (auto simp: in_set_conv_nth)
    then show ?thesis by (intro bexI [of _ "reminder_for new_id d s k (rows ! k)"]) (auto simp: planned_def intro!: image_eqI [of _ _ k])
  qed
  have "plan zones new_id p now d = Inr (take (nat (rp_max_per_demo p)) planned)"
    using assms(1,2) rows(1) well by (simp add: plan_def planned list_all_iff)
  moreover have "distinct (map (\<lambda>r. (rm_label r, rm_audience r)) planned)"
    using distinct_planned [OF rows(3)] by (simp add: planned_def o_def row_place_def)
  moreover have "int (length (take (nat (rp_max_per_demo p)) planned)) = rp_max_per_demo p \<or>
      take (nat (rp_max_per_demo p)) planned = planned"
    using assms(5) by (auto simp: reminder_policy_ok_def)
  ultimately show ?thesis
    using well full assms(5) by (auto simp: reminder_policy_ok_def row_timely_def take_map [symmetric] dest: in_set_takeD)
qed

section \<open>One ladder at a time\<close>

lemma cancel_pending_simps [simp]:
  "rm_reminder_id (cancel_pending d r) = rm_reminder_id r" "ladder_place (cancel_pending d r) = ladder_place r"
  "\<not> is_pending d (cancel_pending d r)"
  by (simp_all add: cancel_pending_def ladder_place_def is_pending_def)

definition mem_pending :: "reminder_rows \<Rightarrow> ref \<Rightarrow> scheduled_reminder list" where
  "mem_pending rows demo = filter (is_pending demo) (dict_values rows)"

lemma dict_sets_fresh:
  assumes "distinct (map g rs)" and "\<forall>r\<in>set rs. g r \<notin> set (dict_keys d)"
  shows "foldl (\<lambda>d r. dict_set d (g r) r) d rs = d @ map (\<lambda>r. (g r, r)) rs"
  using assms
proof (induction rs arbitrary: d)
  case (Cons r rs)
  have "dict_set d (g r) r = d @ [(g r, r)]" using Cons.prems by (simp add: dict_set_fresh)
  moreover have "\<forall>x\<in>set rs. g x \<noteq> g r" using Cons.prems(1) by (metis distinct.simps(2) image_eqI list.set_map list.simps(9))
  then have "foldl (\<lambda>d r. dict_set d (g r) r) (d @ [(g r, r)]) rs = (d @ [(g r, r)]) @ map (\<lambda>r. (g r, r)) rs"
    by (intro Cons.IH) (use Cons.prems in \<open>simp_all add: dict_keys_def\<close>)
  ultimately show ?case by simp
qed simp

lemma distinct_from: "f ` A \<inter> f ` B = {} \<Longrightarrow> \<forall>x\<in>A. f x \<notin> f ` B"
  by blast

lemma pg_insert_fresh:
  assumes "distinct (map ladder_place rs)" and "ladder_place ` set rs \<inter> ladder_place ` set db = {}"
    and "distinct (map rm_reminder_id rs)" and "rm_reminder_id ` set rs \<inter> rm_reminder_id ` set db = {}"
    and "\<forall>r\<in>set rs. rm_status r = RS_PENDING \<and> rm_attempts r = 0 \<and> rm_sent_at r = None \<and> rm_suppression_reason r = []"
  shows "pg_insert_reminders db rs = Some (db @ rs)"
  using assms(1,3,5) distinct_from [OF assms(2)] distinct_from [OF assms(4)]
proof (induction rs arbitrary: db)
  case (Cons r rs)
  have same: "r\<lparr>rm_status := RS_PENDING, rm_attempts := 0, rm_sent_at := None, rm_suppression_reason := []\<rparr> = r"
    using Cons.prems(3) by simp
  have "ladder_place r \<notin> ladder_place ` set rs" "rm_reminder_id r \<notin> rm_reminder_id ` set rs"
    using Cons.prems(1,2) by simp_all
  then have "\<forall>x\<in>set rs. ladder_place x \<noteq> ladder_place r" "\<forall>x\<in>set rs. rm_reminder_id x \<noteq> rm_reminder_id r"
    by (metis imageI)+
  then have "pg_insert_reminders (db @ [r]) rs = Some ((db @ [r]) @ rs)"
    by (intro Cons.IH) (use Cons.prems in simp_all)
  then show ?case using Cons.prems(4,5) by (simp add: same)
qed simp

text \<open>What \<open>plan\<close> returns for a demo and revision of which no row exists yet.\<close>

definition new_ladder :: "scheduled_reminder list \<Rightarrow> ref \<Rightarrow> scheduled_reminder list \<Rightarrow> bool" where
  "new_ladder old demo rs \<longleftrightarrow>
     distinct (map ladder_place rs) \<and> ladder_place ` set rs \<inter> ladder_place ` set old = {} \<and>
     distinct (map rm_reminder_id rs) \<and> rm_reminder_id ` set rs \<inter> rm_reminder_id ` set old = {} \<and>
     (\<forall>r\<in>set rs. is_pending demo r \<and> rm_attempts r = 0 \<and> rm_sent_at r = None \<and> rm_suppression_reason r = [])"

definition untouched :: "ref \<Rightarrow> scheduled_reminder \<Rightarrow> bool" where
  "untouched demo r \<longleftrightarrow> rm_demo_id r \<noteq> demo \<or> rm_status r = RS_SENT"

lemma filter_cancelled:
  "filter (untouched demo) (map (cancel_pending demo) xs) = filter (untouched demo) xs"
  "filter (is_pending demo) (map (cancel_pending demo) xs) = []"
  by (induction xs) (auto simp: cancel_pending_def untouched_def is_pending_def)

lemma places_cancelled:
  "ladder_place ` set (map (cancel_pending demo) xs) = ladder_place ` set xs"
  "rm_reminder_id ` set (map (cancel_pending demo) xs) = rm_reminder_id ` set xs"
  by (simp_all add: image_image)

lemma pg_replace_new:
  assumes "new_ladder db demo rs"
  shows "pg_replace_for_demo db demo rs = Some (map (cancel_pending demo) db @ rs)"
proof -
  have "\<forall>r\<in>set rs. rm_status r = RS_PENDING \<and> rm_attempts r = 0 \<and> rm_sent_at r = None \<and> rm_suppression_reason r = []"
    using assms by (simp add: new_ladder_def is_pending_def)
  then show ?thesis
    unfolding pg_replace_for_demo_def
    by (intro pg_insert_fresh) (use assms in \<open>simp_all only: new_ladder_def places_cancelled\<close>)
qed

text \<open>A plan is such a ladder, when the identifiers are fresh and the demo was not planned at this revision.\<close>

lemma plan_offsets_places:
  assumes "plan_offsets zones p now d s fs = Inr rows" and "distinct (map ro_label fs)"
  shows "distinct (map row_place rows) \<and> fst ` set rows \<subseteq> set fs"
  using assms
proof (induction fs arbitrary: rows)
  case (Cons f fs)
  obtain new rest where rows: "rows = new @ rest" "plan_offsets zones p now d s fs = Inr rest"
    "new = [] \<or> (\<exists>fire. new = recipients d f fire)"
  proof (cases "starts_at s - minutes (ro_minutes_before f) \<le> now")
    case True
    then show thesis using Cons.prems(1) that [of "[]" rows] by (simp add: Let_def)
  next
    case False
    then show thesis
      using Cons.prems(1) that [of "[]" rows] that
      by (simp add: Let_def zone_of_def split: option.splits) blast
  qed
  have rest: "distinct (map row_place rest)" "fst ` set rest \<subseteq> set fs" using Cons.IH [OF rows(2)] Cons.prems(2) by simp_all
  have new: "distinct (map row_place new)" "fst ` set new \<subseteq> {f}"
    using rows(3) by (cases "ro_audience f"; auto simp: recipients_def row_place_def split: option.split)+
  have "row_place r \<noteq> row_place r'" if "r \<in> set new" "r' \<in> set rest" for r r'
  proof -
    have "fst r = f" "fst r' \<in> set fs" using that new(2) rest(2) by blast+
    then have "ro_label (fst r) \<noteq> ro_label (fst r')"
      using Cons.prems(2) by (metis distinct.simps(2) image_eqI list.set_map list.simps(9))
    then show ?thesis by (simp add: row_place_def)
  qed
  then have "row_place ` set new \<inter> row_place ` set rest = {}" by blast
  then show ?case
    unfolding rows(1) using new rest
    by (simp only: map_append distinct_append set_append list.set_map image_Un list.set) blast
qed simp

lemma plan_is_new_ladder:
  assumes "plan zones new_id p now d = Inr rs" and "reminder_policy_ok p" and "inj new_id"
    and "\<forall>r\<in>set old. rm_reminder_id r \<notin> range new_id \<and> (rm_demo_id r, rm_demo_revision r) \<noteq> (dm_demo_id d, dm_revision d)"
  shows "new_ladder old (dm_demo_id d) rs"
proof (cases "rs = []")
  case False
  then obtain s rows where rows: "plan_offsets zones p now d s (rp_offsets p) = Inr rows"
      "rs = take (nat (rp_max_per_demo p)) (numbered new_id d s rows)"
    using assms(1) by (auto simp: plan_def split: option.splits if_splits)
  define planned where "planned = map (\<lambda>k. reminder_for new_id d s k (rows ! k)) [0..<length rows]"
  have rs: "rs = take (nat (rp_max_per_demo p)) planned"
    by (simp only: rows(2) numbered_def planned_nth planned_def)
  have "distinct (map row_place rows)"
    using plan_offsets_places [OF rows(1)] assms(2) by (simp add: reminder_policy_ok_def)
  then have "distinct (map (\<lambda>r. (rm_label r, rm_audience r)) planned)"
    using distinct_planned [of row_place] by (simp add: planned_def o_def row_place_def)
  moreover have "inj_on ladder_place (set planned) \<longleftrightarrow> inj_on (\<lambda>r. (rm_label r, rm_audience r)) (set planned)"
    by (auto simp: planned_def inj_on_def ladder_place_def)
  ultimately have places: "distinct (map ladder_place planned)" by (simp add: distinct_map)
  have ids: "distinct (map rm_reminder_id planned)"
    using assms(3) by (simp add: planned_def o_def distinct_map inj_on_def inj_def)
  have each: "is_pending (dm_demo_id d) r \<and> rm_demo_revision r = dm_revision d \<and> rm_demo_id r = dm_demo_id d \<and>
      rm_reminder_id r \<in> range new_id \<and> rm_attempts r = 0 \<and> rm_sent_at r = None \<and> rm_suppression_reason r = []"
    if "r \<in> set rs" for r
  proof -
    have "r \<in> set planned" using that unfolding rs by (rule in_set_takeD)
    then obtain k where "r = reminder_for new_id d s k (rows ! k)" by (auto simp: planned_def)
    then show ?thesis by (simp add: is_pending_def) (simp add: reminder_for_def split: prod.splits)
  qed
  have "ladder_place r \<noteq> ladder_place r' \<and> rm_reminder_id r \<noteq> rm_reminder_id r'"
    if "r \<in> set rs" "r' \<in> set old" for r r'
    using each [OF that(1)] bspec [OF assms(4) that(2)] by (metis ladder_place_def prod.inject)
  then have "ladder_place ` set rs \<inter> ladder_place ` set old = {}" "rm_reminder_id ` set rs \<inter> rm_reminder_id ` set old = {}"
    by blast+
  then show ?thesis
    using places ids each by (simp add: new_ladder_def rs take_map [symmetric])
qed (simp add: new_ladder_def)

text \<open>(C33) A demo that is moved has one ladder. Take any plan of a demo whose revision was not planned before, made
  under a valid policy with identifiers not used before. Writing it leaves as pending rows of the demo
  exactly that plan, however many ladders earlier revisions wrote, in both stores; and no row of another
  demo, and no row already sent, is touched.\<close>

theorem reschedule_leaves_one_ladder:
  assumes "plan zones new_id p now d = Inr rs" and "reminder_policy_ok p" and "inj new_id"
    and "dict_ok rows" and "\<forall>(k, r)\<in>set rows. k = rm_reminder_id r"
    and "\<forall>r\<in>set (dict_values rows) \<union> set db. rm_reminder_id r \<notin> range new_id \<and>
           (rm_demo_id r, rm_demo_revision r) \<noteq> (dm_demo_id d, dm_revision d)"
  shows "mem_pending (mem_replace_for_demo rows (dm_demo_id d) rs) (dm_demo_id d) = rs \<and>
    filter (untouched (dm_demo_id d)) (dict_values (mem_replace_for_demo rows (dm_demo_id d) rs))
      = filter (untouched (dm_demo_id d)) (dict_values rows) \<and>
    (\<exists>db'. pg_replace_for_demo db (dm_demo_id d) rs = Some db' \<and> filter (is_pending (dm_demo_id d)) db' = rs \<and>
       filter (untouched (dm_demo_id d)) db' = filter (untouched (dm_demo_id d)) db)"
proof -
  let ?demo = "dm_demo_id d"
  have mem: "new_ladder (dict_values rows) ?demo rs" and pg: "new_ladder db ?demo rs"
    using plan_is_new_ladder [OF assms(1-3)] assms(6) by auto
  have new: "filter (is_pending ?demo) rs = rs" "filter (untouched ?demo) rs = []"
    using mem by (auto simp: new_ladder_def is_pending_def untouched_def filter_id_conv filter_empty_conv)
  have keys: "set (dict_keys rows) = rm_reminder_id ` set (dict_values rows)"
    using assms(5) by (force simp: dict_keys_def dict_values_def)
  have "mem_replace_for_demo rows ?demo rs =
      dict_map_values (\<lambda>_. cancel_pending ?demo) rows @ map (\<lambda>r. (rm_reminder_id r, r)) rs"
    unfolding mem_replace_for_demo_def
    by (rule dict_sets_fresh) (use mem keys distinct_from in \<open>auto simp: new_ladder_def\<close>)
  then have "dict_values (mem_replace_for_demo rows ?demo rs) = map (cancel_pending ?demo) (dict_values rows) @ rs"
    by (simp add: dict_values_def dict_map_values_def o_def split_def)
  moreover have "pg_replace_for_demo db ?demo rs = Some (map (cancel_pending ?demo) db @ rs)"
    by (rule pg_replace_new [OF pg])
  ultimately show ?thesis by (simp add: mem_pending_def filter_cancelled new del: map_map)
qed

text \<open>Running the command twice loses every reminder. The commands are meant to be safe to run again, and in
  memory the second run leaves its own ladder pending. In Postgres it cancels the first ladder and then
  inserts nothing, because the cancelled rows still hold their places in the unique index: the demo is
  left without a pending reminder.\<close>

theorem pg_rerun_loses_the_ladder:
  assumes "new_ladder db demo rs" and "map ladder_place rs' = map ladder_place rs" and "\<forall>r\<in>set rs'. is_pending demo r"
    and "pg_replace_for_demo db demo rs = Some db1"
  shows "\<exists>db2. pg_replace_for_demo db1 demo rs' = Some db2 \<and> filter (is_pending demo) db2 = []"
proof -
  have db1: "db1 = map (cancel_pending demo) db @ rs"
    using assms(4) pg_replace_new [OF assms(1)] by simp
  have "ladder_place ` set rs' = ladder_place ` set rs" using assms(2) by (metis list.set_map)
  then have "ladder_place ` set rs' \<subseteq> ladder_place ` set (map (cancel_pending demo) db1)"
    by (simp only: places_cancelled db1 set_append image_Un) blast
  then have "pg_insert_reminders (map (cancel_pending demo) db1) rs' = Some (map (cancel_pending demo) db1)"
    by (induction rs') auto
  then show ?thesis by (simp add: pg_replace_for_demo_def filter_empty_conv)
qed

section \<open>Concrete instances\<close>

definition IST :: zone_rules where
  "IST = \<lparr>wall_clock = (\<lambda>t. t + minutes 330), from_wall = (\<lambda>w. w - minutes 330)\<rparr>"

definition only_ist :: "string \<Rightarrow> zone_rules option" where
  "only_ist name = (if name = ''Asia/Kolkata'' then Some IST else None)"

text \<open>config/policies/reminder.v1.yaml.\<close>

definition shipped_offset :: "string \<Rightarrow> int \<Rightarrow> reminder_offset" where
  "shipped_offset label mins = \<lparr>ro_label = label, ro_minutes_before = mins, ro_audience = AUD_BOTH,
     ro_template = ''demo_reminder_'' @ label, ro_channel = ''whatsapp''\<rparr>"

definition shipped_reminders :: reminder_policy where
  "shipped_reminders =
     \<lparr>rp_offsets = [shipped_offset ''t24h'' 1440, shipped_offset ''t2h'' 120, shipped_offset ''t15m'' 15],
      rp_max_per_demo = 6, rp_max_per_identity_per_day = 8, rp_quiet_start = 21, rp_quiet_end = 8,
      rp_defer_to_hour = 8, rp_silence_escalation = 120, rp_risk_threshold = 7 / 10\<rparr>"

definition evening_slot :: time_slot where
  "evening_slot = \<lparr>starts_at = days 3 + hours 12, duration_minutes = 45, timezone = ''Asia/Kolkata''\<rparr>"

definition sample_attendee :: "party \<Rightarrow> ref \<Rightarrow> demo_attendee" where
  "sample_attendee p r = \<lparr>da_party = p, da_ref = r, da_display_name = [], da_contacts = [], da_invite_consent = False\<rparr>"

definition sample_demo :: demo where
  "sample_demo =
     \<lparr>dm_demo_id = ''dmo_1'', dm_conversation = ''conv'', dm_request_id = ''req'', dm_student_ref = None,
      dm_tutor_ref = Some ''tut_a'', dm_region = None, dm_mode = ONLINE, dm_language = LANG_EN,
      dm_slot = Some evening_slot, dm_calendar_event_id = Some ''evt'', dm_meet_url = None,
      dm_location_label = None,
      dm_attendees = [sample_attendee PARTY_STUDENT ''conv'', sample_attendee PARTY_TUTOR ''tut_a''],
      dm_outcome = no_outcome, dm_created_at = 0, dm_updated_at = 0, dm_revision = 1, dm_cancelled_at = None,
      dm_cancellation_reason = []\<rparr>"

lemmas sample_defs = sample_demo_def evening_slot_def sample_attendee_def

definition ids :: "string \<Rightarrow> nat \<Rightarrow> ref" where
  "ids tag k = tag @ (if k < 10 then show_nat k else ''x'')"

lemma ids_length: "length (ids tag k) = length tag + 1"
  by (simp add: ids_def show_nat.simps)

definition ladder :: "string \<Rightarrow> demo \<Rightarrow> scheduled_reminder list" where
  "ladder tag d = (case plan only_ist (ids tag) shipped_reminders 0 d of Inl _ \<Rightarrow> [] | Inr rs \<Rightarrow> rs)"

theorem reminder_plan_is_timely_witness:
  "\<exists>rs. plan only_ist (ids ''rmd_'') shipped_reminders 0 sample_demo = Inr rs \<and>
     list_all (planned_well IST shipped_reminders 0 sample_demo evening_slot) rs"
proof -
  have "reminder_policy_ok shipped_reminders"
    by (simp add: reminder_policy_ok_def shipped_reminders_def shipped_offset_def offset_ok_def)
  moreover have "dm_slot sample_demo = Some evening_slot" "\<not> demo_cancelled sample_demo"
    "only_ist (timezone evening_slot) = Some IST" "fixed_offset IST (minutes 330)" "attendees_ok sample_demo"
    by (simp_all add: sample_defs demo_cancelled_def only_ist_def fixed_offset_def IST_def attendees_ok_def)
  moreover have "demo_ok sample_demo"
    by (simp add: demo_ok_def sample_defs opt_ref_ok_def valid_ref_def ref_char_def at_most_def coherent_def truthy_text_def)
  ultimately show ?thesis
    using reminder_plan_is_timely
      [of sample_demo evening_slot only_ist IST "minutes 330" shipped_reminders "ids ''rmd_''" 0]
    by (auto simp: ids_length list_all_iff)
qed

lemma sample_ladder:
  "map (\<lambda>r. (rm_label r, rm_audience r, rm_fire_at r)) (ladder ''a'' sample_demo) =
     [(''t24h'', PARTY_STUDENT, days 2 + hours 12), (''t24h'', PARTY_TUTOR, days 2 + hours 12),
      (''t2h'', PARTY_STUDENT, days 3 + hours 10), (''t2h'', PARTY_TUTOR, days 3 + hours 10),
      (''t15m'', PARTY_STUDENT, days 3 + hours 12 - minutes 15), (''t15m'', PARTY_TUTOR, days 3 + hours 12 - minutes 15)]"
  by code_simp

lemma sample_new: "new_ladder [] ''dmo_1'' (ladder ''a'' sample_demo)"
  unfolding new_ladder_def is_pending_def by code_simp

definition fresh_ids :: "nat \<Rightarrow> ref" where
  "fresh_ids k = ''rmd_'' @ replicate k CHR ''x''"

lemma sample_move:
  "\<not> raises (plan only_ist fresh_ids shipped_reminders 0 (with_slot sample_demo evening_slot 0))"
  "list_all (\<lambda>r. hd (rm_reminder_id r) = CHR ''a'' \<and> rm_demo_revision r = 1) (ladder ''a'' sample_demo)"
  "dm_revision (with_slot sample_demo evening_slot 0) = 2" "dm_demo_id (with_slot sample_demo evening_slot 0) = ''dmo_1''"
  "length (ladder ''a'' sample_demo) = 6"
  by code_simp+

text \<open>The sample demo is moved after its first ladder was written.\<close>

theorem reschedule_leaves_one_ladder_witness:
  "\<exists>rs db. plan only_ist fresh_ids shipped_reminders 0 (with_slot sample_demo evening_slot 0) = Inr rs \<and>
     pg_replace_for_demo (ladder ''a'' sample_demo) ''dmo_1'' rs = Some db \<and>
     filter (is_pending ''dmo_1'') db = rs \<and> length (ladder ''a'' sample_demo) = 6"
proof -
  let ?d = "with_slot sample_demo evening_slot 0"
  obtain rs where rs: "plan only_ist fresh_ids shipped_reminders 0 ?d = Inr rs"
    using sample_move(1) by (cases "plan only_ist fresh_ids shipped_reminders 0 ?d") auto
  have "inj fresh_ids" by (rule injI) (metis fresh_ids_def append_same_eq length_replicate same_append_eq)
  moreover have "\<forall>r\<in>set (ladder ''a'' sample_demo). rm_reminder_id r \<notin> range fresh_ids \<and>
      (rm_demo_id r, rm_demo_revision r) \<noteq> (dm_demo_id ?d, dm_revision ?d)"
    using sample_move(2,3) by (auto simp: list_all_iff fresh_ids_def)
  moreover have "reminder_policy_ok shipped_reminders"
    by (simp add: reminder_policy_ok_def shipped_reminders_def shipped_offset_def offset_ok_def)
  ultimately show ?thesis
    using reschedule_leaves_one_ladder [OF rs, of "[]" "ladder ''a'' sample_demo"] rs sample_move(4,5)
    by (auto simp: dict_values_def)
qed

definition sent_all :: "scheduled_reminder list \<Rightarrow> reminder_rows \<Rightarrow> reminder_rows" where
  "sent_all rs rows = foldl (\<lambda>d r. mem_mark d (rm_reminder_id r) RS_SENT (rm_fire_at r) []) rows rs"

definition relived :: "reminder_rows \<Rightarrow> scheduled_reminder list \<Rightarrow> reminder_rows" where
  "relived rows rs = sent_all rs (mem_replace_for_demo rows ''dmo_1'' rs)"

text \<open>The ceiling is per ladder. The shipped policy describes its six reminders as the ceiling per demo
  and audience across reschedules, so that a parent who moves a demo does not get several complete
  ladders. The ceiling cuts each plan separately: a demo that is moved twice after its ladders were
  sent has sent the parent nine.\<close>

theorem reminder_ceiling_is_per_ladder:
  "let moved = with_slot sample_demo evening_slot 0; again = with_slot moved evening_slot 0;
       rows = relived (relived (relived [] (ladder ''a'' sample_demo)) (ladder ''b'' moved)) (ladder ''c'' again)
   in rp_max_per_demo shipped_reminders = 6 \<and> mem_sent_count rows ''dmo_1'' = 18 \<and>
      length (filter (\<lambda>r. rm_audience r = PARTY_STUDENT) (dict_values rows)) = 9"
  by code_simp

end
