(* ===== verification/HoldStores.thy ===== *)
theory HoldStores
  imports Slots
begin

text \<open>
  The two repositories behind a slot hold: \<open>InMemorySlotRepository\<close>
  (storage/memory/demos.py) and \<open>PgSlotRepository\<close> (storage/postgres/repositories.py), with
  the contract both keep stated as the locale \<open>hold_store\<close> and interpreted on both.

  The asyncio lock and the database statement make every operation here one atomic step. The
  Postgres table is the list of its rows; the partial unique index and the primary key of
  migrations/0001_dcc_schema.sql are what \<open>INSERT\<close> tests.
\<close>

section \<open>The contract of a hold store\<close>

locale hold_store =
  fixes place :: "'s \<Rightarrow> slot_hold \<Rightarrow> (slot_conflict + slot_hold) \<times> 's"
    and load :: "'s \<Rightarrow> ref \<Rightarrow> slot_hold option"
    and inv :: "instant \<Rightarrow> 's \<Rightarrow> bool"
  assumes inv_later: "inv t s \<Longrightarrow> t \<le> t' \<Longrightarrow> inv t' s"
    and place_inv: "inv t s \<Longrightarrow> t \<le> hold_created h \<Longrightarrow> hold_status h = HOLD_ACTIVE \<Longrightarrow>
          inv (hold_created h) (snd (place s h))"
    and place_stores: "place s h = (Inr g, s') \<Longrightarrow> hold_status h = HOLD_ACTIVE \<Longrightarrow>
          g = h \<and> load s' i = (if i = hold_id h then Some h else load s i)"
    and place_refused: "place s h = (Inl e, s') \<Longrightarrow> s' = s"
    and place_excludes: "inv t s \<Longrightarrow> t \<le> hold_created h \<Longrightarrow> load s i = Some g \<Longrightarrow>
          hold_live (hold_created h) g \<Longrightarrow> conflict_key g = conflict_key h \<Longrightarrow> i \<noteq> hold_id h \<Longrightarrow>
          place s h = (Inl (SlotConflict (hold_tutor h) (starts_at (hold_slot h)) i), s)"
    and inv_exclusive: "inv t s \<Longrightarrow> load s i = Some g \<Longrightarrow> load s j = Some g' \<Longrightarrow>
          hold_live t g \<Longrightarrow> hold_live t g' \<Longrightarrow> conflict_key g = conflict_key g' \<Longrightarrow> i = j"
begin

text \<open>Two callers race for one slot: if the first wins, the second is refused while the first
  hold lives, and is told which hold won.\<close>

lemma race_second_refused:
  assumes "inv t s" and "t \<le> hold_created h" and "hold_status h = HOLD_ACTIVE"
    and first: "place s h = (Inr h', s')"
    and "hold_created h \<le> hold_created g" and "hold_created g < hold_expires h"
    and "conflict_key g = conflict_key h" and "hold_id g \<noteq> hold_id h"
  shows "place s' g =
    (Inl (SlotConflict (hold_tutor g) (starts_at (hold_slot g)) (hold_id h)), s')"
proof (rule place_excludes)
  show "inv (hold_created h) s'"
    using place_inv [OF assms(1-3)] first by simp
  show "load s' (hold_id h) = Some h"
    using place_stores [OF first assms(3)] by simp
  show "hold_live (hold_created g) h"
    using assms by (simp add: hold_live_def)
qed (use assms in auto)

text \<open>A sequence of claims in clock order keeps the exclusion.\<close>

fun place_seq :: "'s \<Rightarrow> slot_hold list \<Rightarrow> 's" where
  "place_seq s [] = s"
| "place_seq s (h # hs) = place_seq (snd (place s h)) hs"

lemma place_seq_inv:
  assumes "inv t s" and "sorted (t # map hold_created hs)"
    and "\<forall>h\<in>set hs. hold_status h = HOLD_ACTIVE" and "\<forall>h\<in>set hs. hold_created h \<le> u" and "t \<le> u"
  shows "inv u (place_seq s hs)"
  using assms
proof (induction hs arbitrary: s t)
  case Nil
  then show ?case using inv_later by auto
next
  case (Cons h hs)
  have "inv (hold_created h) (snd (place s h))"
    using place_inv [of t s h] Cons.prems by simp
  then show ?case
    using Cons.IH [of "hold_created h" "snd (place s h)"] Cons.prems by simp
qed

lemma place_seq_exclusive:
  assumes "inv t s" and "sorted (t # map hold_created hs)"
    and "\<forall>h\<in>set hs. hold_status h = HOLD_ACTIVE" and "\<forall>h\<in>set hs. hold_created h \<le> u" and "t \<le> u"
    and "load (place_seq s hs) i = Some g" and "load (place_seq s hs) j = Some g'"
    and "hold_live u g" and "hold_live u g'" and "conflict_key g = conflict_key g'"
  shows "i = j"
  using inv_exclusive [OF place_seq_inv [OF assms(1-5)] assms(6-10)] .

end

section \<open>InMemorySlotRepository\<close>

record mem_slots =
  ms_holds :: "(ref, slot_hold) odict"
  ms_claimed :: "(slot_key, ref) odict"

definition mem_slots_init :: mem_slots where
  "mem_slots_init = \<lparr>ms_holds = [], ms_claimed = []\<rparr>"

definition mem_claim_blocks :: "mem_slots \<Rightarrow> slot_hold \<Rightarrow> ref option" where
  "mem_claim_blocks s hold =
     (case dict_get (ms_claimed s) (conflict_key hold) of
        None \<Rightarrow> None
      | Some own \<Rightarrow>
          if own \<noteq> hold_id hold
          then (case dict_get (ms_holds s) own of
                  None \<Rightarrow> None
                | Some existing \<Rightarrow>
                    if hold_live (hold_created hold) existing then Some own else None)
          else None)"

definition mem_place_hold :: "mem_slots \<Rightarrow> slot_hold \<Rightarrow> (slot_conflict + slot_hold) \<times> mem_slots" where
  "mem_place_hold s hold =
     (case mem_claim_blocks s hold of
        Some own \<Rightarrow>
          (Inl (SlotConflict (hold_tutor hold) (starts_at (hold_slot hold)) own), s)
      | None \<Rightarrow>
          (Inr hold,
           s\<lparr>ms_claimed := dict_set (ms_claimed s) (conflict_key hold) (hold_id hold),
             ms_holds := dict_set (ms_holds s) (hold_id hold) hold\<rparr>))"

definition mem_load_hold :: "mem_slots \<Rightarrow> ref \<Rightarrow> slot_hold option" where
  "mem_load_hold s hid = dict_get (ms_holds s) hid"

definition mem_active_hold_for :: "mem_slots \<Rightarrow> ref \<Rightarrow> instant \<Rightarrow> slot_hold option" where
  "mem_active_hold_for s conv now =
     find (\<lambda>h. hold_conversation h = conv \<and> hold_live now h) (rev (dict_values (ms_holds s)))"

definition mem_set_status :: "mem_slots \<Rightarrow> ref \<Rightarrow> hold_status \<Rightarrow> mem_slots" where
  "mem_set_status s hid status =
     (case dict_get (ms_holds s) hid of
        None \<Rightarrow> s
      | Some hold \<Rightarrow>
          (let s1 = s\<lparr>ms_holds := dict_set (ms_holds s) hid (hold\<lparr>hold_status := status\<rparr>)\<rparr>
           in if status \<in> {HOLD_RELEASED, HOLD_EXPIRED}
              then s1\<lparr>ms_claimed := dict_pop (ms_claimed s1) (conflict_key hold)\<rparr>
              else s1))"

definition mem_release :: "mem_slots \<Rightarrow> ref \<Rightarrow> mem_slots" where
  "mem_release s hid = mem_set_status s hid HOLD_RELEASED"

definition mem_confirm :: "mem_slots \<Rightarrow> ref \<Rightarrow> mem_slots" where
  "mem_confirm s hid = mem_set_status s hid HOLD_CONFIRMED"

text \<open>The loop of \<open>expire_due\<close> runs over a copy of the items.\<close>

fun mem_expire_loop ::
  "instant \<Rightarrow> (ref \<times> slot_hold) list \<Rightarrow> mem_slots \<Rightarrow> slot_hold list \<times> mem_slots" where
  "mem_expire_loop now [] s = ([], s)"
| "mem_expire_loop now ((hid, hold) # items) s =
     (if hold_expired now hold
      then (let updated = hold\<lparr>hold_status := HOLD_EXPIRED\<rparr>;
                r = mem_expire_loop now items
                      (s\<lparr>ms_holds := dict_set (ms_holds s) hid updated,
                         ms_claimed := dict_pop (ms_claimed s) (conflict_key hold)\<rparr>)
            in (updated # fst r, snd r))
      else mem_expire_loop now items s)"

definition mem_expire_due :: "mem_slots \<Rightarrow> instant \<Rightarrow> slot_hold list \<times> mem_slots" where
  "mem_expire_due s now = mem_expire_loop now (ms_holds s) s"

text \<open>The invariant the exclusion rests on: a hold that is live owns the claim on its key, and
  the dictionary files each hold under its own id.\<close>

definition mem_slots_inv :: "instant \<Rightarrow> mem_slots \<Rightarrow> bool" where
  "mem_slots_inv t s \<longleftrightarrow>
     (\<forall>i h. dict_get (ms_holds s) i = Some h \<longrightarrow>
        hold_id h = i \<and>
        (hold_live t h \<longrightarrow> dict_get (ms_claimed s) (conflict_key h) = Some i))"

lemma mem_slots_invD:
  "mem_slots_inv t s \<Longrightarrow> dict_get (ms_holds s) i = Some h \<Longrightarrow> hold_live t h \<Longrightarrow>
   dict_get (ms_claimed s) (conflict_key h) = Some i"
  by (simp add: mem_slots_inv_def)

lemma mem_slots_inv_init [inv_intros]: "mem_slots_inv t mem_slots_init"
  by (simp add: mem_slots_inv_def mem_slots_init_def)

lemma mem_slots_inv_later: "mem_slots_inv t s \<Longrightarrow> t \<le> t' \<Longrightarrow> mem_slots_inv t' s"
  unfolding mem_slots_inv_def by (meson hold_live_mono)

lemma mem_claim_blocks_live:
  assumes "mem_slots_inv t s" and "t \<le> hold_created h" and "dict_get (ms_holds s) i = Some g"
    and "hold_live (hold_created h) g" and "conflict_key g = conflict_key h" and "i \<noteq> hold_id h"
  shows "mem_claim_blocks s h = Some i"
  using mem_slots_invD [OF assms(1,3)] hold_live_mono [OF assms(4,2)] assms
  by (simp add: mem_claim_blocks_def)

lemma mem_place_inv:
  assumes "mem_slots_inv t s" and "t \<le> hold_created h"
  shows "mem_slots_inv (hold_created h) (snd (mem_place_hold s h))"
proof (cases "mem_claim_blocks s h")
  case None
  have "dict_get (ms_claimed s) (conflict_key g) = Some i \<and> conflict_key g \<noteq> conflict_key h"
    if "dict_get (ms_holds s) i = Some g" and "hold_live (hold_created h) g" and "i \<noteq> hold_id h"
    for i g
    using mem_claim_blocks_live [OF assms that(1,2) _ that(3)] None
      mem_slots_invD [OF assms(1) that(1)] hold_live_mono [OF that(2) assms(2)] by auto
  note others = this
  show ?thesis
    unfolding mem_slots_inv_def
  proof (intro allI impI)
    fix i g
    assume g: "dict_get (ms_holds (snd (mem_place_hold s h))) i = Some g"
    show "hold_id g = i \<and> (hold_live (hold_created h) g \<longrightarrow>
        dict_get (ms_claimed (snd (mem_place_hold s h))) (conflict_key g) = Some i)"
      using g others [of i g] assms(1) None
      by (cases "i = hold_id h") (auto simp: mem_slots_inv_def mem_place_hold_def)
  qed
qed (use mem_slots_inv_later [OF assms] in \<open>simp add: mem_place_hold_def\<close>)

interpretation mem: hold_store mem_place_hold mem_load_hold mem_slots_inv
proof
  show "mem_slots_inv t s \<Longrightarrow> t \<le> t' \<Longrightarrow> mem_slots_inv t' s" for t t' s
    by (rule mem_slots_inv_later)
  show "mem_slots_inv t s \<Longrightarrow> t \<le> hold_created h \<Longrightarrow> hold_status h = HOLD_ACTIVE \<Longrightarrow>
      mem_slots_inv (hold_created h) (snd (mem_place_hold s h))" for t s h
    by (rule mem_place_inv)
  show "mem_place_hold s h = (Inr g, s') \<Longrightarrow> hold_status h = HOLD_ACTIVE \<Longrightarrow>
      g = h \<and> mem_load_hold s' i = (if i = hold_id h then Some h else mem_load_hold s i)"
    for s h g s' i
    by (auto simp: mem_place_hold_def mem_load_hold_def split: option.splits)
  show "mem_place_hold s h = (Inl e, s') \<Longrightarrow> s' = s" for s h e s'
    by (auto simp: mem_place_hold_def split: option.splits)
  show "mem_slots_inv t s \<Longrightarrow> t \<le> hold_created h \<Longrightarrow> mem_load_hold s i = Some g \<Longrightarrow>
      hold_live (hold_created h) g \<Longrightarrow> conflict_key g = conflict_key h \<Longrightarrow> i \<noteq> hold_id h \<Longrightarrow>
      mem_place_hold s h = (Inl (SlotConflict (hold_tutor h) (starts_at (hold_slot h)) i), s)"
    for t s h i g
    using mem_claim_blocks_live [of t s h i g] by (simp add: mem_place_hold_def mem_load_hold_def)
  show "mem_slots_inv t s \<Longrightarrow> mem_load_hold s i = Some g \<Longrightarrow> mem_load_hold s j = Some g' \<Longrightarrow>
      hold_live t g \<Longrightarrow> hold_live t g' \<Longrightarrow> conflict_key g = conflict_key g' \<Longrightarrow> i = j"
    for t s i g j g'
    using mem_slots_invD [of t s i g] mem_slots_invD [of t s j g'] by (simp add: mem_load_hold_def)
qed

text \<open>Confirming keeps the claim; releasing keeps the invariant when the hold still owns it.\<close>

lemma mem_confirm_inv [inv_intros]: "mem_slots_inv t s \<Longrightarrow> mem_slots_inv t (mem_confirm s hid)"
  by (auto simp: mem_slots_inv_def mem_confirm_def mem_set_status_def hold_live_def conflict_key_def
      split: option.splits)

lemma mem_release_inv:
  assumes "mem_slots_inv t s" and "dict_get (ms_holds s) hid = Some h" and "hold_live t h"
  shows "mem_slots_inv t (mem_release s hid)"
proof -
  have own: "dict_get (ms_claimed s) (conflict_key h) = Some hid"
    using mem_slots_invD [OF assms] .
  have "dict_get (ms_claimed (mem_release s hid)) (conflict_key g) = Some i"
    if "dict_get (ms_holds s) i = Some g" and "hold_live t g" and "i \<noteq> hid" for i g
    using mem_slots_invD [OF assms(1) that(1,2)] own that(3) assms(2)
    by (auto simp: mem_release_def mem_set_status_def Let_def)
  then show ?thesis
    using assms(1,2) unfolding mem_slots_inv_def
    by (auto simp: mem_release_def mem_set_status_def hold_live_def Let_def split: if_splits)
qed

section \<open>PgSlotRepository\<close>

record hold_row =
  hr_hold :: slot_hold
  hr_key :: slot_key
  hr_resolved :: "instant option"

type_synonym pg_slots = "hold_row list"

definition row_active :: "hold_row \<Rightarrow> bool" where
  "row_active r \<longleftrightarrow> hold_status (hr_hold r) = HOLD_ACTIVE"

text \<open>The outcome of \<open>INSERT ... ON CONFLICT (conflict_key) WHERE status = 'active' DO NOTHING\<close>:
  the arbiter index is tested first and makes the statement do nothing; the primary key is the
  other unique constraint, and violating it is an error.\<close>

datatype insert_outcome = Inserted | DidNothing | UniqueViolation

definition pg_insert_hold :: "pg_slots \<Rightarrow> hold_row \<Rightarrow> insert_outcome \<times> pg_slots" where
  "pg_insert_hold db row =
     (if \<exists>r\<in>set db. row_active r \<and> hr_key r = hr_key row then (DidNothing, db)
      else if \<exists>r\<in>set db. hold_id (hr_hold r) = hold_id (hr_hold row) then (UniqueViolation, db)
      else (Inserted, db @ [row]))"

definition pg_place_hold :: "pg_slots \<Rightarrow> slot_hold \<Rightarrow> (slot_conflict + slot_hold) \<times> pg_slots" where
  "pg_place_hold db hold =
     (case pg_insert_hold db \<lparr>hr_hold = hold\<lparr>hold_status := HOLD_ACTIVE\<rparr>,
                              hr_key = conflict_key hold, hr_resolved = None\<rparr> of
        (UniqueViolation, db') \<Rightarrow>
          (Inl (SlotConflict (hold_tutor hold) (starts_at (hold_slot hold)) ''''), db')
      | (DidNothing, db') \<Rightarrow>
          (Inl (SlotConflict (hold_tutor hold) (starts_at (hold_slot hold))
             (case find (\<lambda>r. hr_key r = conflict_key hold \<and> row_active r) db' of
                None \<Rightarrow> ''''
              | Some existing \<Rightarrow> hold_id (hr_hold existing))), db')
      | (Inserted, db') \<Rightarrow> (Inr hold, db'))"

definition pg_load_hold :: "pg_slots \<Rightarrow> ref \<Rightarrow> slot_hold option" where
  "pg_load_hold db hid = map_option hr_hold (find (\<lambda>r. hold_id (hr_hold r) = hid) db)"

text \<open>\<open>ORDER BY created_at DESC LIMIT 1\<close>; rows created at one instant come in table order.\<close>

definition pg_active_hold_for :: "pg_slots \<Rightarrow> ref \<Rightarrow> instant \<Rightarrow> slot_hold option" where
  "pg_active_hold_for db conv now =
     (case sort_key (\<lambda>r. - hold_created (hr_hold r))
             (filter (\<lambda>r. hold_conversation (hr_hold r) = conv \<and> row_active r \<and>
                          hold_expires (hr_hold r) > now) db) of
        [] \<Rightarrow> None
      | r # _ \<Rightarrow> Some (hr_hold r))"

definition resolve_row :: "hold_status \<Rightarrow> instant \<Rightarrow> hold_row \<Rightarrow> hold_row" where
  "resolve_row status now r =
     r\<lparr>hr_hold := (hr_hold r)\<lparr>hold_status := status\<rparr>, hr_resolved := Some now\<rparr>"

definition pg_set_status :: "pg_slots \<Rightarrow> ref \<Rightarrow> hold_status \<Rightarrow> instant \<Rightarrow> pg_slots" where
  "pg_set_status db hid status now =
     map (\<lambda>r. if hold_id (hr_hold r) = hid \<and> row_active r then resolve_row status now r else r) db"

definition pg_release :: "pg_slots \<Rightarrow> ref \<Rightarrow> instant \<Rightarrow> pg_slots" where
  "pg_release db hid now = pg_set_status db hid HOLD_RELEASED now"

definition pg_confirm :: "pg_slots \<Rightarrow> ref \<Rightarrow> instant \<Rightarrow> pg_slots" where
  "pg_confirm db hid now = pg_set_status db hid HOLD_CONFIRMED now"

definition pg_expire_due :: "pg_slots \<Rightarrow> instant \<Rightarrow> slot_hold list \<times> pg_slots" where
  "pg_expire_due db now =
     (let due = (\<lambda>r. row_active r \<and> hold_expires (hr_hold r) \<le> now)
      in (map (hr_hold \<circ> resolve_row HOLD_EXPIRED now) (filter due db),
          map (\<lambda>r. if due r then resolve_row HOLD_EXPIRED now r else r) db))"

text \<open>What the two unique constraints and the generated column keep true of the table.\<close>

definition pg_slots_inv :: "pg_slots \<Rightarrow> bool" where
  "pg_slots_inv db \<longleftrightarrow>
     distinct (map (hold_id \<circ> hr_hold) db) \<and>
     distinct (map hr_key (filter row_active db)) \<and>
     (\<forall>r\<in>set db. hr_key r = conflict_key (hr_hold r))"

lemma row_active_resolve [simp]:
  "row_active (resolve_row st now r) \<longleftrightarrow> st = HOLD_ACTIVE"
  by (simp add: row_active_def resolve_row_def)

lemma resolve_row_frame [frame_simps, simp]:
  "hr_key (resolve_row st now r) = hr_key r"
  "hold_id (hr_hold (resolve_row st now r)) = hold_id (hr_hold r)"
  "conflict_key (hr_hold (resolve_row st now r)) = conflict_key (hr_hold r)"
  by (simp_all add: resolve_row_def conflict_key_def)

lemma pg_inv_update:
  assumes "pg_slots_inv db" and "st \<noteq> HOLD_ACTIVE"
  shows "pg_slots_inv (map (\<lambda>r. if P r then resolve_row st now r else r) db)"
proof -
  let ?f = "\<lambda>r. if P r then resolve_row st now r else r"
  have ids: "map (hold_id \<circ> hr_hold) (map ?f db) = map (hold_id \<circ> hr_hold) db"
    by (simp add: map_eq_conv)
  have "map hr_key (filter row_active (map ?f db))
      = map hr_key (filter (\<lambda>r. row_active r \<and> \<not> P r) db)"
    using assms(2) by (induction db) auto
  moreover have "distinct (map hr_key (filter (\<lambda>r. row_active r \<and> \<not> P r) db))"
    using assms(1) distinct_map_filter [of hr_key "filter row_active db" "\<lambda>r. \<not> P r"]
    by (simp add: pg_slots_inv_def conj_commute)
  ultimately show ?thesis
    using assms(1) unfolding pg_slots_inv_def ids by auto
qed

lemma pg_set_status_inv [inv_intros]:
  "pg_slots_inv db \<Longrightarrow> st \<noteq> HOLD_ACTIVE \<Longrightarrow> pg_slots_inv (pg_set_status db hid st now)"
  unfolding pg_set_status_def by (rule pg_inv_update)

lemma pg_expire_due_inv [inv_intros]: "pg_slots_inv db \<Longrightarrow> pg_slots_inv (snd (pg_expire_due db now))"
  by (simp add: pg_expire_due_def Let_def pg_inv_update)

lemma pg_place_inv [inv_intros]: "pg_slots_inv db \<Longrightarrow> pg_slots_inv (snd (pg_place_hold db h))"
  by (auto simp: pg_place_hold_def pg_insert_hold_def pg_slots_inv_def row_active_def
      conflict_key_def)

lemma pg_load_iff:
  assumes "pg_slots_inv db"
  shows "pg_load_hold db i = Some g \<longleftrightarrow> (\<exists>r\<in>set db. hr_hold r = g \<and> hold_id g = i)"
proof
  assume "pg_load_hold db i = Some g"
  then show "\<exists>r\<in>set db. hr_hold r = g \<and> hold_id g = i"
    by (auto simp: pg_load_hold_def dest!: find_Some_in)
next
  assume "\<exists>r\<in>set db. hr_hold r = g \<and> hold_id g = i"
  then obtain r where r: "r \<in> set db" "hr_hold r = g" "hold_id g = i" by blast
  then obtain q where q: "find (\<lambda>r. hold_id (hr_hold r) = i) db = Some q"
    using find_None_iff' [of "\<lambda>r. hold_id (hr_hold r) = i" db] by (cases "find (\<lambda>r. hold_id (hr_hold r) = i) db") auto
  have "q = r"
    using assms r find_Some_in [OF q]
    by (auto simp: pg_slots_inv_def distinct_map inj_on_def)
  then show "pg_load_hold db i = Some g" using q r by (simp add: pg_load_hold_def)
qed

lemma pg_active_unique:
  assumes "pg_slots_inv db" and "r \<in> set db" and "q \<in> set db"
    and "row_active r" and "row_active q" and "hr_key r = hr_key q"
  shows "r = q"
  using assms by (auto simp: pg_slots_inv_def distinct_map inj_on_def)

interpretation pg: hold_store pg_place_hold pg_load_hold "\<lambda>t. pg_slots_inv"
proof
  show "pg_slots_inv s \<Longrightarrow> t \<le> t' \<Longrightarrow> pg_slots_inv s" for s and t t' :: instant .
  show "pg_slots_inv s \<Longrightarrow> t \<le> hold_created h \<Longrightarrow> hold_status h = HOLD_ACTIVE \<Longrightarrow>
      pg_slots_inv (snd (pg_place_hold s h))" for t s h
    by (rule pg_place_inv)
  show "pg_place_hold s h = (Inr g, s') \<Longrightarrow> hold_status h = HOLD_ACTIVE \<Longrightarrow>
      g = h \<and> pg_load_hold s' i = (if i = hold_id h then Some h else pg_load_hold s i)"
    for s h g s' i
    by (auto simp: pg_place_hold_def pg_insert_hold_def pg_load_hold_def find_append find_None_iff'
        split: if_splits option.splits dest!: find_Some_in)
  show "pg_place_hold s h = (Inl e, s') \<Longrightarrow> s' = s" for s h e s'
    by (auto simp: pg_place_hold_def pg_insert_hold_def split: if_splits)
  show "pg_place_hold s h = (Inl (SlotConflict (hold_tutor h) (starts_at (hold_slot h)) i), s)"
    if inv: "pg_slots_inv s" and load: "pg_load_hold s i = Some g"
      and live: "hold_live (hold_created h) g" and key: "conflict_key g = conflict_key h"
    for t :: instant and s h i g
  proof -
    obtain r where r: "r \<in> set s" "hr_hold r = g" "hold_id g = i"
      using load pg_load_iff [OF inv] by blast
    have act: "row_active r" "hr_key r = conflict_key h"
      using r live key inv by (auto simp: row_active_def hold_live_def pg_slots_inv_def)
    obtain q where q: "find (\<lambda>r. hr_key r = conflict_key h \<and> row_active r) s = Some q"
      using r act find_None_iff' [of "\<lambda>r. hr_key r = conflict_key h \<and> row_active r" s]
      by (cases "find (\<lambda>r. hr_key r = conflict_key h \<and> row_active r) s") auto
    have "q = r"
      using pg_active_unique [OF inv, of q r] find_Some_in [OF q] r act by simp
    moreover have "\<exists>r\<in>set s. row_active r \<and> hr_key r = conflict_key h" using r act by blast
    ultimately show ?thesis
      using q r by (simp add: pg_place_hold_def pg_insert_hold_def)
  qed
  show "i = j" if inv: "pg_slots_inv s" and loads: "pg_load_hold s i = Some g" "pg_load_hold s j = Some g'"
      and "hold_live t g" "hold_live t g'" "conflict_key g = conflict_key g'" for t s i g j g'
  proof -
    obtain r q where rq: "r \<in> set s" "hr_hold r = g" "hold_id g = i"
        "q \<in> set s" "hr_hold q = g'" "hold_id g' = j"
      using loads pg_load_iff [OF inv] by meson
    then have "row_active r" "row_active q" "hr_key r = hr_key q"
      using that by (auto simp: row_active_def hold_live_def pg_slots_inv_def)
    then show "i = j" using pg_active_unique [OF inv] rq by blast
  qed
qed

section \<open>What the two stores guarantee\<close>

text \<open>The operations a process performs on a store; each is one atomic step.\<close>

datatype slot_op =
    OpPlace slot_hold
  | OpRelease ref instant
  | OpConfirm ref instant
  | OpExpire instant

fun pg_slot_step :: "pg_slots \<Rightarrow> slot_op \<Rightarrow> pg_slots" where
  "pg_slot_step db (OpPlace h) = snd (pg_place_hold db h)"
| "pg_slot_step db (OpRelease i now) = pg_release db i now"
| "pg_slot_step db (OpConfirm i now) = pg_confirm db i now"
| "pg_slot_step db (OpExpire now) = snd (pg_expire_due db now)"

fun mem_slot_step :: "mem_slots \<Rightarrow> slot_op \<Rightarrow> mem_slots" where
  "mem_slot_step s (OpPlace h) = snd (mem_place_hold s h)"
| "mem_slot_step s (OpRelease i now) = mem_release s i"
| "mem_slot_step s (OpConfirm i now) = mem_confirm s i"
| "mem_slot_step s (OpExpire now) = snd (mem_expire_due s now)"

lemma pg_slot_step_inv [inv_intros]: "pg_slots_inv db \<Longrightarrow> pg_slots_inv (pg_slot_step db op)"
  by (cases op) (simp_all add: pg_place_inv pg_expire_due_inv pg_set_status_inv pg_release_def
      pg_confirm_def)

lemma pg_slot_run_inv: "pg_slots_inv db \<Longrightarrow> pg_slots_inv (foldl pg_slot_step db ops)"
  by (induction ops arbitrary: db) (simp_all add: pg_slot_step_inv)

text \<open>(C17) Postgres: after any sequence of placements, releases, confirmations and sweeps, in any
  order and at any clock readings, two loadable holds that are live on one tutor and one minute
  are the same hold.\<close>

theorem pg_holds_are_exclusive:
  assumes "db = foldl pg_slot_step [] ops"
    and "pg_load_hold db i = Some g" and "pg_load_hold db j = Some g'"
    and "hold_live t g" and "hold_live t g'" and "conflict_key g = conflict_key g'"
  shows "i = j"
proof (rule pg.inv_exclusive)
  show "pg_slots_inv db"
    unfolding assms(1) by (rule pg_slot_run_inv) (simp add: pg_slots_inv_def)
qed (fact assms)+

definition sample_slot :: time_slot where
  "sample_slot = \<lparr>starts_at = days 1, duration_minutes = 45, timezone = ''Asia/Kolkata''\<rparr>"

definition sample_hold :: "ref \<Rightarrow> instant \<Rightarrow> slot_hold" where
  "sample_hold hid now =
     \<lparr>hold_id = hid, hold_conversation = ''conv'', hold_tutor = ''tutor-1'',
       hold_slot = sample_slot, hold_mode = ONLINE, hold_status = HOLD_ACTIVE,
       hold_created = now, hold_expires = now + DEFAULT_HOLD_TTL\<rparr>"

lemmas sample_defs = sample_hold_def sample_slot_def conflict_key_def hold_live_def hold_expired_def
  slot_consts

theorem pg_holds_are_exclusive_witness:
  "pg_load_hold (foldl pg_slot_step [] [OpPlace (sample_hold ''a'' 0), OpPlace (sample_hold ''b'' 5)])
     ''b'' \<noteq> Some (sample_hold ''b'' 5)"
  using pg_holds_are_exclusive
    [of "foldl pg_slot_step [] [OpPlace (sample_hold ''a'' 0), OpPlace (sample_hold ''b'' 5)]"
        "[OpPlace (sample_hold ''a'' 0), OpPlace (sample_hold ''b'' 5)]"
        "''a''" "sample_hold ''a'' 0" "''b''" "sample_hold ''b'' 5" 7]
  by (simp add: pg_place_hold_def pg_insert_hold_def row_active_def pg_load_hold_def sample_defs)

text \<open>(C18) Two callers race for one tutor and minute. In either store the first placement wins and
  the second, made while the first hold lives, is refused with the id of the winner and changes
  nothing.\<close>

theorem hold_race_has_one_winner:
  assumes "hold_status h = HOLD_ACTIVE" and "conflict_key g = conflict_key h"
    and "hold_id g \<noteq> hold_id h"
    and "hold_created h \<le> hold_created g" and "hold_created g < hold_expires h"
    and "mem_slots_inv t s" and "t \<le> hold_created h" and "mem_place_hold s h = (Inr h', s')"
    and "pg_slots_inv db" and "pg_place_hold db h = (Inr h', db')"
  shows "mem_place_hold s' g =
      (Inl (SlotConflict (hold_tutor g) (starts_at (hold_slot g)) (hold_id h)), s') \<and>
    pg_place_hold db' g =
      (Inl (SlotConflict (hold_tutor g) (starts_at (hold_slot g)) (hold_id h)), db')"
  using mem.race_second_refused [of t s h h' s' g]
    pg.race_second_refused [of db "hold_created h" h h' db' g] assms
  by simp_all

theorem hold_race_has_one_winner_witness:
  "mem_place_hold (snd (mem_place_hold mem_slots_init (sample_hold ''a'' 0))) (sample_hold ''b'' 5)
     = (Inl (SlotConflict ''tutor-1'' (days 1) ''a''),
        snd (mem_place_hold mem_slots_init (sample_hold ''a'' 0)))"
  using hold_race_has_one_winner
    [of "sample_hold ''a'' 0" "sample_hold ''b'' 5" 0 mem_slots_init "sample_hold ''a'' 0"
        "snd (mem_place_hold mem_slots_init (sample_hold ''a'' 0))" "[]"
        "snd (pg_place_hold [] (sample_hold ''a'' 0))"]
  by (simp add: mem_slots_inv_init mem_place_hold_def mem_claim_blocks_def pg_slots_inv_def
      pg_place_hold_def pg_insert_hold_def) (simp add: sample_defs mem_slots_init_def)

text \<open>Memory: placements in clock order never leave two live holds on one tutor and
  minute.\<close>

theorem mem_holds_are_exclusive:
  assumes "sorted (map hold_created hs)" and "\<forall>h\<in>set hs. hold_status h = HOLD_ACTIVE"
    and "\<forall>h\<in>set hs. 0 \<le> hold_created h \<and> hold_created h \<le> u" and "0 \<le> u"
    and "s = foldl mem_slot_step mem_slots_init (map OpPlace hs)"
    and "mem_load_hold s i = Some g" and "mem_load_hold s j = Some g'"
    and "hold_live u g" and "hold_live u g'" and "conflict_key g = conflict_key g'"
  shows "i = j"
proof -
  have "foldl mem_slot_step s0 (map OpPlace hs) = mem.place_seq s0 hs" for s0
    by (induction hs arbitrary: s0) simp_all
  then show ?thesis
    using mem.place_seq_exclusive [of 0 mem_slots_init hs u i g j g'] assms
    by (auto simp: mem_slots_inv_init)
qed

theorem mem_holds_are_exclusive_witness:
  "mem_load_hold (foldl mem_slot_step mem_slots_init
     (map OpPlace [sample_hold ''a'' 0, sample_hold ''b'' (minutes 30), sample_hold ''c'' (minutes 31)]))
     ''c'' \<noteq> Some (sample_hold ''c'' (minutes 31))"
  using mem_holds_are_exclusive
    [of "[sample_hold ''a'' 0, sample_hold ''b'' (minutes 30), sample_hold ''c'' (minutes 31)]"
        "minutes 40"
        "foldl mem_slot_step mem_slots_init (map OpPlace
           [sample_hold ''a'' 0, sample_hold ''b'' (minutes 30), sample_hold ''c'' (minutes 31)])"
        "''b''" "sample_hold ''b'' (minutes 30)" "''c''" "sample_hold ''c'' (minutes 31)"]
  by (simp add: mem_place_hold_def mem_claim_blocks_def mem_load_hold_def mem_slots_init_def
      sample_defs)

text \<open>What the loop of the sweep leaves: no claim on the key of a lapsed hold, and the other holds as they were.\<close>

lemma expire_loop_claims:
  "dict_get (ms_claimed s) k = None \<or> (\<exists>(i, h)\<in>set items. hold_expired now h \<and> conflict_key h = k) \<Longrightarrow>
   dict_get (ms_claimed (snd (mem_expire_loop now items s))) k = None"
  by (induction now items s rule: mem_expire_loop.induct) (auto simp: Let_def split: if_splits)

lemma expire_loop_holds:
  "\<forall>(j, h)\<in>set items. j = i \<longrightarrow> \<not> hold_expired now h \<Longrightarrow>
   dict_get (ms_holds (snd (mem_expire_loop now items s))) i = dict_get (ms_holds s) i"
  by (induction now items s rule: mem_expire_loop.induct) (auto simp: Let_def split: if_splits)

lemma pg_expire_keeps_live:
  assumes "pg_slots_inv db" and "pg_load_hold db i = Some b" and "hold_live now b"
  shows "pg_load_hold (snd (pg_expire_due db now)) i = Some b"
proof -
  obtain r where r: "r \<in> set db" "hr_hold r = b" "hold_id b = i" using assms(2) pg_load_iff [OF assms(1)] by blast
  then have "r \<in> set (snd (pg_expire_due db now))"
    using assms(3) by (force simp: pg_expire_due_def Let_def hold_live_def)
  then show ?thesis using r pg_load_iff [OF pg_expire_due_inv [OF assms(1)]] by blast
qed

text \<open>(C28) The sweep of the memory store pops the claim on a key whoever owns it. If a lapsed hold is still on
  file when its slot has been taken again, sweeping frees the slot under the live hold: any third placement on that
  tutor and minute then succeeds, and both holds are on file, live. In Postgres, whatever the table holds, the same
  sweep leaves the live hold its slot and the third placement is refused in its favour.\<close>

theorem mem_stale_sweep_double_holds:
  assumes "dict_ok (ms_holds s)"
    and "mem_load_hold s old = Some a" and "hold_expired now a"
    and "mem_load_hold s i = Some b" and "hold_live (hold_created c) b" and "conflict_key a = conflict_key b"
    and "conflict_key c = conflict_key b" and "hold_id c \<noteq> i" and "now \<le> hold_created c"
  shows "fst (mem_place_hold (snd (mem_expire_due s now)) c) = Inr c \<and>
    mem_load_hold (snd (mem_place_hold (snd (mem_expire_due s now)) c)) i = Some b \<and>
    mem_load_hold (snd (mem_place_hold (snd (mem_expire_due s now)) c)) (hold_id c) = Some c \<and>
    (pg_slots_inv db \<and> pg_load_hold db i = Some b \<longrightarrow>
       pg_place_hold (snd (pg_expire_due db now)) c =
         (Inl (SlotConflict (hold_tutor c) (starts_at (hold_slot c)) i), snd (pg_expire_due db now)))"
proof (intro conjI impI)
  let ?s = "snd (mem_expire_due s now)"
  have live: "hold_live now b" using hold_live_mono [OF assms(5,9)] .
  have "(old, a) \<in> set (ms_holds s)" using assms(2) by (auto simp: mem_load_hold_def dest: dict_get_in)
  then have free: "dict_get (ms_claimed ?s) (conflict_key c) = None"
    unfolding mem_expire_due_def using assms(3,6,7) by (intro expire_loop_claims) auto
  have "\<forall>(j, h)\<in>set (ms_holds s). j = i \<longrightarrow> \<not> hold_expired now h"
    using assms(4) live in_dict_get [OF assms(1)]
    by (fastforce simp: mem_load_hold_def hold_live_def hold_expired_def)
  then have kept: "mem_load_hold ?s i = Some b"
    using assms(4) by (simp add: mem_load_hold_def mem_expire_due_def expire_loop_holds)
  show "fst (mem_place_hold ?s c) = Inr c" "mem_load_hold (snd (mem_place_hold ?s c)) (hold_id c) = Some c"
    "mem_load_hold (snd (mem_place_hold ?s c)) i = Some b"
    using free kept assms(8) by (simp_all add: mem_place_hold_def mem_claim_blocks_def mem_load_hold_def)
next
  let ?db = "snd (pg_expire_due db now)"
  assume pg: "pg_slots_inv db \<and> pg_load_hold db i = Some b"
  have "pg_load_hold ?db i = Some b"
    using pg hold_live_mono [OF assms(5,9)] pg_expire_keeps_live by blast
  moreover have "pg_slots_inv ?db" using pg pg_expire_due_inv by blast
  ultimately show "pg_place_hold ?db c = (Inl (SlotConflict (hold_tutor c) (starts_at (hold_slot c)) i), ?db)"
    using pg.place_excludes [of ?db "hold_created c" c i b] assms(5,7,8) by simp
qed

theorem mem_stale_sweep_double_holds_witness:
  "let s = foldl mem_slot_step mem_slots_init [OpPlace (sample_hold ''a'' 0), OpPlace (sample_hold ''b'' (minutes 21))];
       s' = snd (mem_place_hold (snd (mem_expire_due s (minutes 22))) (sample_hold ''c'' (minutes 23)))
   in map_option (hold_live (minutes 23)) (mem_load_hold s' ''b'') = Some True \<and>
      map_option (hold_live (minutes 23)) (mem_load_hold s' ''c'') = Some True"
proof -
  let ?s = "foldl mem_slot_step mem_slots_init [OpPlace (sample_hold ''a'' 0), OpPlace (sample_hold ''b'' (minutes 21))]"
  have "dict_ok (ms_holds ?s)" "mem_load_hold ?s ''a'' = Some (sample_hold ''a'' 0)"
    "hold_expired (minutes 22) (sample_hold ''a'' 0)" "mem_load_hold ?s ''b'' = Some (sample_hold ''b'' (minutes 21))"
    "hold_live (hold_created (sample_hold ''c'' (minutes 23))) (sample_hold ''b'' (minutes 21))"
    "conflict_key (sample_hold ''a'' 0) = conflict_key (sample_hold ''b'' (minutes 21))"
    "conflict_key (sample_hold ''c'' (minutes 23)) = conflict_key (sample_hold ''b'' (minutes 21))"
    "hold_id (sample_hold ''c'' (minutes 23)) \<noteq> ''b''" "minutes 22 \<le> hold_created (sample_hold ''c'' (minutes 23))"
    by code_simp+
  note A = mem_stale_sweep_double_holds [OF this, of "[]"]
  have "hold_live (minutes 23) (sample_hold ''b'' (minutes 21))" "hold_live (minutes 23) (sample_hold ''c'' (minutes 23))"
    "hold_id (sample_hold ''c'' (minutes 23)) = ''c''"
    by code_simp+
  then show ?thesis using A by (simp add: Let_def del: foldl_Cons)
qed

text \<open>A confirmed hold does not keep its slot: in both stores the exclusion is over active
  holds only, so once the first hold is confirmed a second caller can hold the same tutor and
  minute.\<close>

theorem confirmed_hold_does_not_block:
  assumes "hold_id g \<noteq> hold_id h" and "conflict_key g = conflict_key h"
    and "hold_status h = HOLD_ACTIVE"
  shows "fst (mem_place_hold (mem_confirm (snd (mem_place_hold mem_slots_init h)) (hold_id h)) g)
      = Inr g \<and>
    fst (pg_place_hold (pg_confirm (snd (pg_place_hold [] h)) (hold_id h) now) g) = Inr g"
  using assms
  by (simp_all add: mem_place_hold_def mem_claim_blocks_def mem_confirm_def mem_set_status_def
      mem_slots_init_def hold_live_def Let_def pg_place_hold_def pg_insert_hold_def pg_confirm_def
      pg_set_status_def row_active_def resolve_row_def)

theorem confirmed_hold_does_not_block_witness:
  "fst (mem_place_hold (mem_confirm (snd (mem_place_hold mem_slots_init (sample_hold ''a'' 0)))
      ''a'') (sample_hold ''b'' 5)) = Inr (sample_hold ''b'' 5)"
  using confirmed_hold_does_not_block [of "sample_hold ''b'' 5" "sample_hold ''a'' 0"]
  by (simp add: sample_defs)

end
