(* ===== verification/Rounding.thy ===== *)
theory Rounding
  imports Complex_Main
begin

text \<open>
  Python's \<open>round\<close> on exact rationals, half to even, as both packages use it for scores.
\<close>

definition round_half_even :: "rat \<Rightarrow> int" where
  "round_half_even q =
     (let f = \<lfloor>q\<rfloor>; d = q - of_int f
      in if d < 1 / 2 then f else if d > 1 / 2 then f + 1 else if even f then f else f + 1)"

lemma round_half_even_near: "\<bar>q - of_int (round_half_even q)\<bar> \<le> 1 / 2"
  using floor_correct [of q] by (simp add: round_half_even_def Let_def)

definition round4 :: "rat \<Rightarrow> rat" where
  "round4 q = of_int (round_half_even (q * 10000)) / 10000"

lemma round4_unit:
  assumes "0 \<le> q" and "q \<le> 1"
  shows "0 \<le> round4 q \<and> round4 q \<le> 1"
proof -
  let ?r = "round_half_even (q * 10000)"
  have "- (1 / 2) \<le> rat_of_int ?r" "rat_of_int ?r \<le> 10000 + 1 / 2"
    using round_half_even_near [of "q * 10000"] assms by linarith+
  then have "0 \<le> ?r" "?r \<le> 10000" by linarith+
  then show ?thesis by (simp add: round4_def)
qed

end
