(* ===== verification/Scheduling.thy ===== *)
theory Scheduling
  imports Reminders HoldStores Urls Ports Rounding "HOL-Library.Product_Lexorder" "HOL-Library.Multiset"
begin

text \<open>
  capabilities/scheduling: ranking the free slots of a tutor, holding one, and turning a hold into one
  calendar event, over the in-memory slot and demo repositories. The calendar and the gateway are not
  under src/: each operation takes what they answer, and the calls made to the calendar are recorded.
  Scores are exact rationals.
\<close>

section \<open>Ranking\<close>

definition PREFERENCE_DECAY :: duration where "PREFERENCE_DECAY = days 3"
definition SOONER_HORIZON :: duration where "SOONER_HORIZON = days 14"
definition SEARCH_HORIZON :: duration where "SEARCH_HORIZON = days 14"
definition PREFERRED_HOURS :: "int set" where "PREFERRED_HOURS = {16, 17, 18, 19, 20}"

text \<open>The first of January 1970 was a Thursday.\<close>

definition local_weekday :: "int \<Rightarrow> int" where
  "local_weekday wall = (wall div days 1 + 3) mod 7"

definition ratio :: "duration \<Rightarrow> duration \<Rightarrow> rat" where
  "ratio a b = of_int a / of_int b"

definition slot_score :: "zone_rules \<Rightarrow> time_slot option \<Rightarrow> instant \<Rightarrow> time_slot \<Rightarrow> rat \<times> string list" where
  "slot_score z preferred now s =
     (let (preference, codes1) =
            (case preferred of
               None \<Rightarrow> (1 / 2, [])
             | Some p \<Rightarrow>
                 let distance = \<bar>starts_at s - starts_at p\<bar>
                 in (max 0 (1 - ratio distance PREFERENCE_DECAY),
                     if distance \<le> minutes 30 then [''matches_requested_time'']
                     else if distance \<le> hours 4 then [''near_requested_time''] else []));
          lead = starts_at s - now;
          sooner = max 0 (1 - ratio lead SOONER_HORIZON);
          codes2 = (if lead \<le> days 1 then [''available_tomorrow''] else []);
          wall = wall_clock z (starts_at s);
          after_school = local_hour wall \<in> PREFERRED_HOURS;
          daypart = (if after_school then 1 else 35 / 100);
          codes3 = (if after_school then [''after_school_hours''] else []);
          weekday = (if local_weekday wall < 5 then 1 else 7 / 10);
          total = 1 / 2 * preference + 1 / 4 * sooner + 15 / 100 * daypart + 1 / 10 * weekday
      in (min 1 (max 0 total), codes1 @ codes2 @ codes3))"

record slot_proposal =
  pr_slot :: time_slot
  pr_rank :: int
  pr_score :: rat
  pr_reason_codes :: "string list"

definition proposal_ok :: "slot_proposal \<Rightarrow> bool" where
  "proposal_ok p \<longleftrightarrow> 1 \<le> pr_rank p \<and> pr_rank p \<le> 5 \<and> 0 \<le> pr_score p \<and> pr_score p \<le> 1 \<and> slot_ok (pr_slot p)"

definition renormalised :: "int \<Rightarrow> string \<Rightarrow> time_slot \<Rightarrow> time_slot" where
  "renormalised dur zone s = \<lparr>starts_at = starts_at s, duration_minutes = dur, timezone = zone\<rparr>"

definition rank_key :: "zone_rules \<Rightarrow> time_slot option \<Rightarrow> instant \<Rightarrow> time_slot \<Rightarrow> rat \<times> int" where
  "rank_key z preferred now s = (- fst (slot_score z preferred now s), starts_at s)"

text \<open>Every slot is rebuilt with the duration and the zone asked for, which raises on a bad duration or an
  unknown zone.\<close>

definition rank_slots ::
  "(string \<Rightarrow> zone_rules option) \<Rightarrow> time_slot list \<Rightarrow> time_slot option \<Rightarrow> string \<Rightarrow> int \<Rightarrow> instant \<Rightarrow> nat
   \<Rightarrow> slot_error + slot_proposal list" where
  "rank_slots zones available preferred zone dur now limit =
     (if available = [] then Inr []
      else and_then (make_slot (\<lambda>n. case zones n of None \<Rightarrow> False | Some _ \<Rightarrow> True) (starts_at (hd available)) dur zone) (\<lambda>_.
        and_then (zone_of zones zone) (\<lambda>z.
          Inr (map (\<lambda>(i, s). \<lparr>pr_slot = s, pr_rank = int i, pr_score = round4 (fst (slot_score z preferred now s)),
                              pr_reason_codes = snd (slot_score z preferred now s)\<rparr>)
                (enumerate 1 (take limit (sort_key (rank_key z preferred now) (map (renormalised dur zone) available))))))))"

section \<open>The capability\<close>

record event_request =
  er_summary :: string
  er_description :: string
  er_slot :: time_slot
  er_attendee_emails :: "string list"
  er_with_conference :: bool
  er_conference_request_id :: string
  er_location :: "string option"

record created_event =
  ce_event_id :: "string option"
  ce_meet_url :: "string option"

datatype calendar_call = CreateEvent event_request | PatchEvent string time_slot | CancelEvent string

text \<open>What the gateway and the calendar answer to the calls of one operation.\<close>

record sched_ports =
  sq_availability :: "ref \<Rightarrow> instant \<Rightarrow> instant \<Rightarrow> provider_error + time_slot list"
  sq_create :: "event_request \<Rightarrow> provider_error + created_event"
  sq_patch :: "string \<Rightarrow> time_slot \<Rightarrow> provider_error option"
  sq_cancel :: "string \<Rightarrow> provider_error option"

record sched_world =
  sw_slots :: mem_slots
  sw_demos :: mem_demos
  sw_calendar :: "calendar_call list"
  sw_degraded :: "string list"

datatype sched_raise = ProviderRaised provider_error | UrlRaised | SlotRaised slot_error

record proposal_result =
  pp_proposals :: "slot_proposal list"
  pp_degraded :: "string list"
  pp_reason :: string

definition propose ::
  "(string \<Rightarrow> zone_rules option) \<Rightarrow> sched_ports \<Rightarrow> ref \<Rightarrow> time_slot option \<Rightarrow> string \<Rightarrow> int \<Rightarrow> nat \<Rightarrow> instant
   \<Rightarrow> slot_error + proposal_result" where
  "propose zones q tutor preferred zone dur limit now =
     (case sq_availability q tutor now (now + SEARCH_HORIZON) of
        Inl _ \<Rightarrow> Inr \<lparr>pp_proposals = [], pp_degraded = [''tutor_availability''], pp_reason = ''availability_unknown''\<rparr>
      | Inr available \<Rightarrow>
          let bookable = filter (\<lambda>s. bookable_from s now = None) available
          in if bookable = [] then Inr \<lparr>pp_proposals = [], pp_degraded = [], pp_reason = ''no_available_slots''\<rparr>
             else and_then (rank_slots zones bookable preferred zone dur now limit) (\<lambda>ranked.
               Inr \<lparr>pp_proposals = ranked, pp_degraded = [], pp_reason = []\<rparr>))"

definition sched_hold ::
  "ref \<Rightarrow> ref \<Rightarrow> ref \<Rightarrow> time_slot \<Rightarrow> demo_mode \<Rightarrow> duration \<Rightarrow> instant \<Rightarrow> sched_world
   \<Rightarrow> (slot_error + slot_hold option) \<times> sched_world" where
  "sched_hold hid conversation tutor slot mode ttl now w =
     (case new_hold hid conversation tutor slot mode now ttl of
        Inl e \<Rightarrow> (Inl e, w)
      | Inr candidate \<Rightarrow>
          (case mem_place_hold (sw_slots w) candidate of
             (Inl _, _) \<Rightarrow> (Inr None, w)
           | (Inr h, s) \<Rightarrow> (Inr (Some h), w\<lparr>sw_slots := s\<rparr>)))"

definition sched_release :: "ref \<Rightarrow> sched_world \<Rightarrow> sched_world" where
  "sched_release hid w = w\<lparr>sw_slots := mem_release (sw_slots w) hid\<rparr>"

record booking_result =
  bk_demo :: "demo option"
  bk_calendar_event_id :: string
  bk_meet_url :: string
  bk_failed :: bool
  bk_failure_reason :: string
  bk_needs_compensation :: bool

definition booking_failed :: "string \<Rightarrow> bool \<Rightarrow> booking_result" where
  "booking_failed why compensate =
     \<lparr>bk_demo = None, bk_calendar_event_id = [], bk_meet_url = [], bk_failed = True, bk_failure_reason = why,
      bk_needs_compensation = compensate\<rparr>"

definition booked :: "demo \<Rightarrow> string \<Rightarrow> string \<Rightarrow> booking_result" where
  "booked d event meet =
     \<lparr>bk_demo = Some d, bk_calendar_event_id = event, bk_meet_url = meet, bk_failed = False,
      bk_failure_reason = [], bk_needs_compensation = False\<rparr>"

definition revalidate :: "sched_ports \<Rightarrow> slot_hold \<Rightarrow> sched_world \<Rightarrow> bool \<times> sched_world" where
  "revalidate q h w =
     (case sq_availability q (hold_tutor h) (starts_at (hold_slot h) - minutes 1) (ends_at (hold_slot h) + minutes 1) of
        Inl _ \<Rightarrow> (True, w\<lparr>sw_degraded := sw_degraded w @ [''availability_revalidation'']\<rparr>)
      | Inr available \<Rightarrow> (list_ex (\<lambda>s. overlaps s (hold_slot h)) available, w))"

definition or_empty :: "string option \<Rightarrow> string" where
  "or_empty v = (case v of None \<Rightarrow> [] | Some s \<Rightarrow> s)"

definition verified_meet_url :: "ip_book \<Rightarrow> created_event \<Rightarrow> sched_raise + string" where
  "verified_meet_url book e =
     (let raw = or_empty (ce_meet_url e)
      in if raw = [] then Inr []
         else case validate book raw MEET_POLICY of
                Inr url \<Rightarrow> Inr url
              | Inl (UrlRejected _) \<Rightarrow> Inr []
              | Inl UrlValueError \<Rightarrow> Inl UrlRaised)"

definition call_calendar :: "calendar_call \<Rightarrow> sched_world \<Rightarrow> sched_world" where
  "call_calendar c w = w\<lparr>sw_calendar := sw_calendar w @ [c]\<rparr>"

definition confirm_booking :: "demo \<Rightarrow> slot_hold \<Rightarrow> string \<Rightarrow> string \<Rightarrow> instant \<Rightarrow> sched_world
    \<Rightarrow> (sched_raise + booking_result) \<times> sched_world" where
  "confirm_booking d h event meet now w =
     (let d' = d\<lparr>dm_slot := Some (hold_slot h), dm_tutor_ref := Some (hold_tutor h),
                 dm_calendar_event_id := Some event, dm_meet_url := (if meet = [] then None else Some meet),
                 dm_updated_at := now\<rparr>
      in (Inr (booked d' event meet),
          w\<lparr>sw_slots := mem_confirm (sw_slots w) (hold_id h), sw_demos := save_demo (sw_demos w) d'\<rparr>))"

definition request_for ::
  "demo \<Rightarrow> slot_hold \<Rightarrow> string option \<Rightarrow> string option \<Rightarrow> string \<Rightarrow> string \<Rightarrow> string \<Rightarrow> event_request" where
  "request_for d h tutor_email student_email summary description request_id =
     \<lparr>er_summary = summary, er_description = description, er_slot = hold_slot h,
      er_attendee_emails = filter (\<lambda>s. s \<noteq> []) (map or_empty [tutor_email, student_email]),
      er_with_conference = (dm_mode d = ONLINE), er_conference_request_id = request_id,
      er_location = (if dm_mode d = ONLINE then None else dm_location_label d)\<rparr>"

definition book ::
  "ip_book \<Rightarrow> sched_ports \<Rightarrow> demo \<Rightarrow> slot_hold \<Rightarrow> string option \<Rightarrow> string option \<Rightarrow> string \<Rightarrow> string \<Rightarrow> string \<Rightarrow> instant
   \<Rightarrow> sched_world \<Rightarrow> (sched_raise + booking_result) \<times> sched_world" where
  "book ips q d h tutor_email student_email summary description request_id now w =
     (if \<not> hold_live now h then (Inr (booking_failed ''hold_expired'' False), w)
      else let (free, w1) = revalidate q h w
      in if \<not> free then (Inr (booking_failed ''tutor_no_longer_available'' True), w1)
      else let request = request_for d h tutor_email student_email summary description request_id;
               w2 = call_calendar (CreateEvent request) w1
      in case sq_create q request of
           Inl e \<Rightarrow>
             (Inr (booking_failed (''calendar_error:'' @ (if px_code e = [] then ''unknown'' else px_code e)) True), w2)
         | Inr created \<Rightarrow>
             let event = or_empty (ce_event_id created)
             in if event = [] then (Inr (booking_failed ''calendar_event_id_missing'' True), w2)
                else if dm_mode d \<noteq> ONLINE then confirm_booking d h event [] now w2
                else (case verified_meet_url ips created of
                  Inl r \<Rightarrow> (Inl r, w2)
                | Inr [] \<Rightarrow>
                    let w3 = call_calendar (CancelEvent event) w2
                    in (case sq_cancel q event of
                          Some e \<Rightarrow> (Inl (ProviderRaised e), w3)
                        | None \<Rightarrow> (Inr (booking_failed ''meet_link_missing'' True), w3))
                | Inr (c # meet) \<Rightarrow> confirm_booking d h event (c # meet) now w2))"

definition reschedule :: "sched_ports \<Rightarrow> demo \<Rightarrow> time_slot \<Rightarrow> instant \<Rightarrow> sched_world \<Rightarrow> booking_result \<times> sched_world" where
  "reschedule q d slot now w =
     (let event = or_empty (dm_calendar_event_id d)
      in if event = [] then (booking_failed ''no_event_to_reschedule'' False, w)
         else let w1 = call_calendar (PatchEvent event slot) w
              in case sq_patch q event slot of
                   Some e \<Rightarrow> (booking_failed (''calendar_patch_failed:'' @ px_code e) False, w1)
                 | None \<Rightarrow>
                     let moved = with_slot d slot now
                     in (booked moved event (or_empty (dm_meet_url d)), w1\<lparr>sw_demos := save_demo (sw_demos w1) moved\<rparr>))"

definition cancel_demo :: "sched_ports \<Rightarrow> demo \<Rightarrow> string \<Rightarrow> instant \<Rightarrow> sched_world \<Rightarrow> demo \<times> sched_world" where
  "cancel_demo q d reason now w =
     (let event = or_empty (dm_calendar_event_id d);
          w1 = (if event = [] then w else call_calendar (CancelEvent event) w);
          d' = d\<lparr>dm_cancelled_at := Some now, dm_cancellation_reason := take 120 reason, dm_updated_at := now\<rparr>
      in (d', w1\<lparr>sw_demos := save_demo (sw_demos w1) d'\<rparr>))"

section \<open>Proposals\<close>

lemma ratio_range: "0 < b \<Longrightarrow> 0 \<le> a \<Longrightarrow> 0 \<le> ratio a b"
  by (simp add: ratio_def)

lemma slot_score_range: "0 \<le> fst (slot_score z p now s) \<and> fst (slot_score z p now s) \<le> 1"
  by (simp add: slot_score_def Let_def split: prod.split)

text \<open>The best free times are proposed. Ranking never raises for a known zone and a legal duration. It
  proposes as many slots as asked for or as are free, numbered from one, each starting when the tutor is
  free and scored between 0 and 1; and no free time that is left out scores more than one proposed, or
  as much and earlier.\<close>

theorem best_slots_are_proposed:
  assumes "zones zone = Some z" and "15 \<le> dur" and "dur \<le> 180" and "limit \<le> 5"
  shows "\<exists>ps. rank_slots zones available preferred zone dur now limit = Inr ps \<and>
    length ps = min limit (length available) \<and> map pr_rank ps = map (\<lambda>k. int k + 1) [0..<length ps] \<and>
    (\<forall>p\<in>set ps. proposal_ok p \<and> (\<exists>a\<in>set available. pr_slot p = renormalised dur zone a)) \<and>
    sorted (map (rank_key z preferred now \<circ> pr_slot) ps) \<and>
    (\<forall>a\<in>#mset (map (renormalised dur zone) available) - mset (map pr_slot ps). \<forall>p\<in>set ps.
       rank_key z preferred now (pr_slot p) \<le> rank_key z preferred now a)"
proof (cases "available = []")
  case True
  then show ?thesis by (simp add: rank_slots_def)
next
  case False
  define key where "key = rank_key z preferred now"
  define all where "all = sort_key key (map (renormalised dur zone) available)"
  define ps where "ps = map (\<lambda>(i, s). \<lparr>pr_slot = s, pr_rank = int i, pr_score = round4 (fst (slot_score z preferred now s)),
      pr_reason_codes = snd (slot_score z preferred now s)\<rparr>) (enumerate 1 (take limit all))"
  have ps: "rank_slots zones available preferred zone dur now limit = Inr ps"
    using assms False by (simp add: rank_slots_def make_slot_def resolve_timezone_def zone_of_def ps_def all_def key_def)
  have len: "length ps = min limit (length available)" by (simp add: ps_def all_def min.commute)
  have slots: "map pr_slot ps = take limit all"
    by (rule nth_equalityI) (simp_all add: ps_def nth_enumerate_eq)
  have "map pr_rank ps = map (\<lambda>k. int k + 1) [0..<length ps]"
    by (rule nth_equalityI) (simp_all add: ps_def nth_enumerate_eq)
  moreover have "proposal_ok p \<and> (\<exists>a\<in>set available. pr_slot p = renormalised dur zone a)" if member: "p \<in> set ps" for p
  proof -
    obtain row where row: "row \<in> set (enumerate 1 (take limit all))"
      "p = (\<lambda>(i, s). \<lparr>pr_slot = s, pr_rank = int i, pr_score = round4 (fst (slot_score z preferred now s)),
        pr_reason_codes = snd (slot_score z preferred now s)\<rparr>) row"
      using member unfolding ps_def set_map by (rule imageE)
    obtain i s where "row = (i, s)" by fastforce
    then have i: "(i, s) \<in> set (enumerate 1 (take limit all))"
      and p: "pr_slot p = s" "pr_rank p = int i" "pr_score p = round4 (fst (slot_score z preferred now s))"
      using row by simp_all
    have "1 \<le> i" "i \<le> limit" "s \<in> set all"
      using i by (auto simp: in_set_enumerate_eq dest: nth_mem)
    moreover from this obtain a where "a \<in> set available" "s = renormalised dur zone a" by (auto simp: all_def)
    ultimately show ?thesis
      using assms round4_unit slot_score_range by (auto simp: p proposal_ok_def slot_ok_def renormalised_def)
  qed
  moreover have "sorted (map key all)" by (simp add: all_def)
  then have "sorted (map key (take limit all) @ map key (drop limit all))"
    by (metis append_take_drop_id map_append)
  then have sorted: "sorted (map key (take limit all))" "\<forall>x\<in>set (take limit all). \<forall>y\<in>set (drop limit all). key x \<le> key y"
    by (simp_all add: sorted_append)
  have "mset (map (renormalised dur zone) available) - mset (map pr_slot ps) = mset (drop limit all)"
    unfolding slots by (metis add_diff_cancel_left' all_def append_take_drop_id mset_append mset_sort)
  then have "\<forall>a\<in>#mset (map (renormalised dur zone) available) - mset (map pr_slot ps). \<forall>p\<in>set ps. key (pr_slot p) \<le> key a"
    using sorted(2) slots by (metis (no_types, lifting) imageI list.set_map set_mset_mset)
  moreover have "sorted (map (key \<circ> pr_slot) ps)" using sorted(1) unfolding slots [symmetric] by simp
  ultimately show ?thesis using ps len unfolding key_def by blast
qed

section \<open>Booking\<close>

definition created_ids :: "sched_ports \<Rightarrow> calendar_call list \<Rightarrow> string list" where
  "created_ids q calls =
     concat (map (\<lambda>c. case c of CreateEvent r \<Rightarrow>
                    (case sq_create q r of Inr e \<Rightarrow> if or_empty (ce_event_id e) = [] then [] else [or_empty (ce_event_id e)]
                     | Inl _ \<Rightarrow> []) | _ \<Rightarrow> []) calls)"

definition cancelled_ids :: "calendar_call list \<Rightarrow> string list" where
  "cancelled_ids calls = concat (map (\<lambda>c. case c of CancelEvent e \<Rightarrow> [e] | _ \<Rightarrow> []) calls)"

lemmas calendar_defs = created_ids_def cancelled_ids_def call_calendar_def

lemma revalidate_frame [simp, frame_simps]:
  "sw_calendar (snd (revalidate q h w)) = sw_calendar w" "sw_slots (snd (revalidate q h w)) = sw_slots w"
  "sw_demos (snd (revalidate q h w)) = sw_demos w"
  by (simp_all add: revalidate_def split: sum.split)

text \<open>An accepted conference link is the link the calendar gave, and is one of Google Meet's.\<close>

lemma verified_meet_url_InrD:
  assumes "verified_meet_url ips e = Inr url" and "url \<noteq> []"
  shows "validate ips url MEET_POLICY = Inr url \<and> ce_meet_url e = Some url"
proof -
  have "validate ips (or_empty (ce_meet_url e)) MEET_POLICY = Inr url"
    using assms by (auto simp: verified_meet_url_def Let_def split: if_splits sum.splits url_error.splits)
  moreover from this have "url = or_empty (ce_meet_url e)" by (rule validate_returns)
  ultimately show ?thesis using assms(2) by (auto simp: or_empty_def split: option.splits)
qed

lemma confirm_booking_result:
  "confirm_booking d h event meet now w = (r, w') \<Longrightarrow>
   \<exists>d'. r = Inr (booked d' event meet) \<and> sw_demos w' = save_demo (sw_demos w) d' \<and> sw_calendar w' = sw_calendar w \<and>
     sw_slots w' = mem_confirm (sw_slots w) (hold_id h) \<and>
     d' = d\<lparr>dm_slot := Some (hold_slot h), dm_tutor_ref := Some (hold_tutor h), dm_calendar_event_id := Some event,
            dm_meet_url := (if meet = [] then None else Some meet), dm_updated_at := now\<rparr>"
  by (auto simp: confirm_booking_def Let_def)


section \<open>Free means overlapping\<close>

definition ten_minutes :: time_slot where
  "ten_minutes = \<lparr>starts_at = hours 12, duration_minutes = 15, timezone = ''Asia/Kolkata''\<rparr>"

definition short_free :: sched_ports where
  "short_free = \<lparr>sq_availability = (\<lambda>_ _ _. Inr [ten_minutes]),
     sq_create = (\<lambda>_. Inr \<lparr>ce_event_id = Some ''evt_1'', ce_meet_url = Some ''https://meet.google.com/abc''\<rparr>),
     sq_patch = (\<lambda>_ _. None), sq_cancel = (\<lambda>_. None)\<rparr>"

definition empty_world :: sched_world where
  "empty_world = \<lparr>sw_slots = mem_slots_init, sw_demos = no_demos, sw_calendar = [], sw_degraded = []\<rparr>"

definition offered_slot :: time_slot where
  "offered_slot = \<lparr>starts_at = hours 12, duration_minutes = 45, timezone = ''Asia/Kolkata''\<rparr>"

definition offered_hold :: slot_hold where
  "offered_hold = \<lparr>hold_id = ''hold_1'', hold_conversation = ''conv'', hold_tutor = ''tut_a'', hold_slot = offered_slot,
     hold_mode = ONLINE, hold_status = HOLD_ACTIVE, hold_created = 0, hold_expires = minutes 20\<rparr>"

lemma still_free_iff:
  assumes "slot_ok (hold_slot h)" and "\<forall>s\<in>set free. slot_ok s"
    and "sq_availability q (hold_tutor h) (starts_at (hold_slot h) - minutes 1) (ends_at (hold_slot h) + minutes 1) = Inr free"
  shows "fst (revalidate q h w) \<longleftrightarrow>
    (\<exists>s\<in>set free. \<exists>t. starts_at s \<le> t \<and> t < ends_at s \<and> starts_at (hold_slot h) \<le> t \<and> t < ends_at (hold_slot h))"
  using assms by (auto simp: revalidate_def list_ex_iff overlaps_iff_shared_instant)

lemma short_offer:
  "map_sum (\<lambda>_. ()) (map pr_slot \<circ> pp_proposals) (propose only_ist short_free ''tut_a'' None ''Asia/Kolkata'' 45 3 0) = Inr [offered_slot]"
  by (simp add: propose_def short_free_def ten_minutes_def bookable_from_def slot_consts rank_slots_def only_ist_def
      make_slot_def resolve_timezone_def zone_of_def renormalised_def offered_slot_def enumerate_eq_zip)

lemma short_booking:
  "map_sum (\<lambda>_. ()) (map_option dm_slot \<circ> bk_demo)
     (fst (book no_ip6 short_free sample_demo offered_hold None None [] [] ''req'' 0 empty_world)) = Inr (Some (Some offered_slot))"
  by code_simp

text \<open>Free means overlapping. The check before a booking is described as asking whether the tutor is free
  for exactly the slot; it holds exactly when any free interval shares an instant with it (still_free_iff). And ranking
  gives every free interval the length asked for: a tutor free for fifteen minutes is offered for
  forty-five, is found still free for all of them, and is booked.\<close>

theorem free_for_a_moment_is_free:
  "ends_at ten_minutes < ends_at offered_slot \<and>
   map_sum (\<lambda>_. ()) (map pr_slot \<circ> pp_proposals) (propose only_ist short_free ''tut_a'' None ''Asia/Kolkata'' 45 3 0) = Inr [offered_slot] \<and>
   fst (revalidate short_free offered_hold empty_world) \<and>
   map_sum (\<lambda>_. ()) (map_option dm_slot \<circ> bk_demo)
     (fst (book no_ip6 short_free sample_demo offered_hold None None [] [] ''req'' 0 empty_world)) = Inr (Some (Some offered_slot))"
proof (intro conjI)
  show "ends_at ten_minutes < ends_at offered_slot" by code_simp
  show "fst (revalidate short_free offered_hold empty_world)"
    by code_simp
qed (rule short_offer short_booking)+

section \<open>Every stored demo stays valid\<close>

datatype sched_op =
    Hold ref ref ref time_slot demo_mode duration instant
  | Release ref
  | Book sched_ports ip_book ref ref instant
  | Move sched_ports ref time_slot instant
  | CancelDemo sched_ports ref string instant

text \<open>The operations as the commands call them: the demo is the conversation's, the hold is looked up.\<close>

fun sched_step :: "sched_world \<Rightarrow> sched_op \<Rightarrow> sched_world" where
  "sched_step w (Hold hid conv tutor slot mode ttl now) = snd (sched_hold hid conv tutor slot mode ttl now w)"
| "sched_step w (Release hid) = sched_release hid w"
| "sched_step w (Book q ips conv hid now) =
     (case (for_conversation (sw_demos w) conv, mem_load_hold (sw_slots w) hid) of
        (Some d, Some h) \<Rightarrow> snd (book ips q d h None None [] [] [] now w)
      | _ \<Rightarrow> w)"
| "sched_step w (Move q conv slot now) =
     (case for_conversation (sw_demos w) conv of None \<Rightarrow> w | Some d \<Rightarrow> snd (reschedule q d slot now w))"
| "sched_step w (CancelDemo q conv reason now) =
     (case for_conversation (sw_demos w) conv of None \<Rightarrow> w | Some d \<Rightarrow> snd (cancel_demo q d reason now w))"

text \<open>What the validator would say of everything stored, if it were asked again.\<close>

definition demos_valid :: "mem_demos \<Rightarrow> bool" where
  "demos_valid ds \<longleftrightarrow> (\<forall>d\<in>set (dict_values (md_demos ds)). demo_ok d)"

definition holds_valid :: "mem_slots \<Rightarrow> bool" where
  "holds_valid s \<longleftrightarrow> (\<forall>hid h. mem_load_hold s hid = Some h \<longrightarrow> valid_ref (hold_tutor h))"

definition stores_valid :: "sched_world \<Rightarrow> bool" where
  "stores_valid w \<longleftrightarrow> demos_valid (sw_demos w) \<and> holds_valid (sw_slots w)"

text \<open>A calendar whose ids and links fit the fields of a demo.\<close>

definition fitting_calendar :: "sched_ports \<Rightarrow> bool" where
  "fitting_calendar q \<longleftrightarrow>
     (\<forall>request e. sq_create q request = Inr e \<longrightarrow> at_most 256 (ce_event_id e) \<and> at_most 512 (ce_meet_url e))"

fun op_fits :: "sched_op \<Rightarrow> bool" where
  "op_fits (Book q ips conv hid now) = fitting_calendar q"
| "op_fits _ = True"

lemma save_valid: "demos_valid ds \<Longrightarrow> demo_ok d \<Longrightarrow> demos_valid (save_demo ds d)"
  using saved_demos [of ds d] by (auto simp: demos_valid_def)

lemma found_valid: "demos_valid ds \<Longrightarrow> for_conversation ds conv = Some d \<Longrightarrow> demo_ok d"
  by (auto simp: demos_valid_def dest: for_conversation_SomeD)

lemma set_status_valid: "holds_valid s \<Longrightarrow> holds_valid (mem_set_status s hid st)"
  by (auto simp: holds_valid_def mem_load_hold_def mem_set_status_def Let_def split: option.split)

lemma place_valid: "holds_valid s \<Longrightarrow> valid_ref (hold_tutor h) \<Longrightarrow> holds_valid (snd (mem_place_hold s h))"
  by (auto simp: holds_valid_def mem_load_hold_def mem_place_hold_def split: option.split)

lemma sched_hold_valid: "stores_valid w \<Longrightarrow> stores_valid (snd (sched_hold hid conv tutor slot mode ttl now w))"
proof -
  assume w: "stores_valid w"
  have placed: "holds_valid s'" if "new_hold hid conv tutor slot mode now ttl = Inr c" "mem_place_hold (sw_slots w) c = (r, s')" for c r s'
    using place_valid [of "sw_slots w" c] w that by (auto simp: stores_valid_def new_hold_def split: if_splits)
  show ?thesis
    using w by (auto simp: sched_hold_def stores_valid_def split: sum.split prod.split dest: placed)
qed

text \<open>What a booking stores, when it stores something.\<close>

lemma book_stores:
  assumes "book ips q d h te se summary description rid now w = (r, w')"
  shows "(sw_demos w' = sw_demos w \<and> sw_slots w' = sw_slots w) \<or>
    (\<exists>request created meet. sq_create q request = Inr created \<and> or_empty (ce_event_id created) \<noteq> [] \<and>
       (meet = [] \<or> dm_mode d = ONLINE \<and> ce_meet_url created = Some meet) \<and>
       sw_slots w' = mem_confirm (sw_slots w) (hold_id h) \<and>
       sw_demos w' = save_demo (sw_demos w) (d\<lparr>dm_slot := Some (hold_slot h), dm_tutor_ref := Some (hold_tutor h),
         dm_calendar_event_id := Some (or_empty (ce_event_id created)),
         dm_meet_url := (if meet = [] then None else Some meet), dm_updated_at := now\<rparr>))"
proof -
  obtain free w1 where w1: "revalidate q h w = (free, w1)" by fastforce
  have frame: "sw_demos w1 = sw_demos w" "sw_slots w1 = sw_slots w" using revalidate_frame [of q h w] by (simp_all add: w1)
  have kept: "sw_demos (call_calendar c w2) = sw_demos w2" "sw_slots (call_calendar c w2) = sw_slots w2" for c w2
    by (simp_all add: call_calendar_def)
  let ?request = "request_for d h te se summary description rid"
  have "w' \<in> {w, w1} \<or> (\<exists>c c'. w' \<in> {call_calendar c w1, call_calendar c' (call_calendar c w1)}) \<or>
    (\<exists>created c meet. sq_create q ?request = Inr created \<and> or_empty (ce_event_id created) \<noteq> [] \<and>
       (meet = [] \<or> dm_mode d = ONLINE \<and> ce_meet_url created = Some meet) \<and>
       confirm_booking d h (or_empty (ce_event_id created)) meet now (call_calendar c w1) = (r, w'))"
  proof (cases "hold_live now h \<and> free")
    case False
    then show ?thesis using assms by (auto simp: book_def w1 split: if_splits)
  next
    case live: True
    show ?thesis
    proof (cases "sq_create q ?request")
      case (Inl e)
      then show ?thesis using assms live by (auto simp: book_def w1 Let_def)
    next
      case (Inr created)
      show ?thesis
      proof (cases "or_empty (ce_event_id created) = [] \<or> dm_mode d \<noteq> ONLINE")
        case True
        then show ?thesis using assms live Inr by (auto simp: book_def w1 Let_def split: if_splits)
      next
        case False
        then show ?thesis
          using assms live Inr verified_meet_url_InrD [of ips created]
          by (auto simp: book_def w1 Let_def split: sum.splits list.splits option.splits)
      qed
    qed
  qed
  then consider "w' \<in> {w, w1} \<or> (\<exists>c c'. w' \<in> {call_calendar c w1, call_calendar c' (call_calendar c w1)})"
    | created c meet where "sq_create q ?request = Inr created" "or_empty (ce_event_id created) \<noteq> []"
       "meet = [] \<or> dm_mode d = ONLINE \<and> ce_meet_url created = Some meet"
       "confirm_booking d h (or_empty (ce_event_id created)) meet now (call_calendar c w1) = (r, w')"
    by blast
  then show ?thesis
  proof cases
    case 1
    then show ?thesis by (auto simp: frame kept)
  next
    case 2
    have "sw_slots w' = mem_confirm (sw_slots w) (hold_id h)"
      "sw_demos w' = save_demo (sw_demos w) (d\<lparr>dm_slot := Some (hold_slot h), dm_tutor_ref := Some (hold_tutor h),
         dm_calendar_event_id := Some (or_empty (ce_event_id created)),
         dm_meet_url := (if meet = [] then None else Some meet), dm_updated_at := now\<rparr>)"
      using confirm_booking_result [OF 2(4)] frame kept [of c w1] by (elim exE conjE; simp)+
    then show ?thesis using 2 by blast
  qed
qed

lemma book_valid:
  assumes "stores_valid w" and "demo_ok d" and "valid_ref (hold_tutor h)" and "fitting_calendar q"
  shows "stores_valid (snd (book ips q d h te se summary description rid now w))"
proof -
  obtain r w' where b: "book ips q d h te se summary description rid now w = (r, w')" by fastforce
  have "demos_valid (sw_demos w') \<and> holds_valid (sw_slots w')"
  proof -
    from book_stores [OF b] consider "sw_demos w' = sw_demos w" "sw_slots w' = sw_slots w"
      | request created meet where "sq_create q request = Inr created" "or_empty (ce_event_id created) \<noteq> []"
        "meet = [] \<or> dm_mode d = ONLINE \<and> ce_meet_url created = Some meet"
        "sw_slots w' = mem_confirm (sw_slots w) (hold_id h)"
        "sw_demos w' = save_demo (sw_demos w) (d\<lparr>dm_slot := Some (hold_slot h), dm_tutor_ref := Some (hold_tutor h),
         dm_calendar_event_id := Some (or_empty (ce_event_id created)),
         dm_meet_url := (if meet = [] then None else Some meet), dm_updated_at := now\<rparr>)"
      by blast
    then show ?thesis
  proof cases
    case 1
    then show ?thesis using assms(1) by (simp add: stores_valid_def)
  next
    case (2 request created meet)
    note c = 2(1,2) and meet = 2(3) and slots = 2(4) and demos = 2(5)
    have fits: "at_most 256 (ce_event_id created)" "at_most 512 (ce_meet_url created)"
      using assms(4) c(1) by (simp_all add: fitting_calendar_def)
    have "length (or_empty (ce_event_id created)) \<le> 256" using fits(1) by (simp add: at_most_def or_empty_def split: option.splits)
    moreover have "length meet \<le> 512" using fits(2) meet by (auto simp: at_most_def)
    ultimately have "demo_ok (d\<lparr>dm_slot := Some (hold_slot h), dm_tutor_ref := Some (hold_tutor h),
         dm_calendar_event_id := Some (or_empty (ce_event_id created)),
         dm_meet_url := (if meet = [] then None else Some meet), dm_updated_at := now\<rparr>)"
      using assms(2,3) c(2) meet by (auto simp: demo_ok_def coherent_def truthy_text_def opt_ref_ok_def at_most_def)
    then show ?thesis
      using assms(1) save_valid set_status_valid unfolding demos slots stores_valid_def mem_confirm_def by blast
    qed
  qed
  then show ?thesis by (simp add: b stores_valid_def)
qed

lemma reschedule_valid:
  assumes "stores_valid w" and "demo_ok d"
  shows "stores_valid (snd (reschedule q d slot now w))"
proof -
  have "demo_ok (with_slot d slot now)" using assms(2) by (simp add: with_slot_def demo_ok_def coherent_def)
  then show ?thesis
    using assms(1) save_valid by (auto simp: reschedule_def stores_valid_def call_calendar_def Let_def split: option.split)
qed

lemma cancel_valid:
  assumes "stores_valid w" and "demo_ok d"
  shows "stores_valid (snd (cancel_demo q d reason now w))"
proof -
  have "demo_ok (d\<lparr>dm_cancelled_at := Some now, dm_cancellation_reason := take 120 reason, dm_updated_at := now\<rparr>)"
    using assms(2) by (simp add: demo_ok_def coherent_def)
  then show ?thesis
    using assms(1) save_valid by (auto simp: cancel_demo_def stores_valid_def call_calendar_def Let_def)
qed

text \<open>(C23) Every stored demo stays one its validator accepts. Copies of a demo skip the validator, and still: whatever
  holds, releases, bookings, moves and cancellations are made for whatever conversations, with whatever answers of the
  gateway, and of a calendar whose event ids and links fit the fields of a demo (256 and 512 characters), every stored demo
  passes it, bounds and coherence alike: references and revision, the length of the reason for a cancellation, no
  conference link at home and none without an event; and every hold names a valid tutor.\<close>

theorem stored_demos_stay_valid:
  assumes "stores_valid w" and "\<forall>op\<in>set ops. op_fits op"
  shows "stores_valid (foldl sched_step w ops)"
  using assms
proof (induction ops arbitrary: w)
  case (Cons op ops)
  have demo: "demo_ok d" if "for_conversation (sw_demos w) conv = Some d" for conv d
    using Cons.prems(1) found_valid that by (auto simp: stores_valid_def)
  have hold: "valid_ref (hold_tutor h)" if "mem_load_hold (sw_slots w) hid = Some h" for hid h
    using Cons.prems(1) that by (auto simp: stores_valid_def holds_valid_def)
  have "stores_valid (sched_step w op)"
  proof (cases op)
    case (Hold hid conv tutor slot mode ttl now)
    then show ?thesis using sched_hold_valid Cons.prems(1) by simp
  next
    case (Release hid)
    then show ?thesis
      using Cons.prems(1) set_status_valid by (simp add: sched_release_def stores_valid_def mem_release_def)
  next
    case (Book q ips conv hid now)
    then show ?thesis
      using Cons.prems book_valid demo hold by (auto split: option.split)
  next
    case (Move q conv slot now)
    then show ?thesis using Cons.prems(1) reschedule_valid demo by (auto split: option.split)
  next
    case (CancelDemo q conv reason now)
    then show ?thesis using Cons.prems(1) cancel_valid demo by (auto split: option.split)
  qed
  then show ?case using Cons by simp
qed simp

section \<open>Concrete instances\<close>

lemma sample_booking:
  "fst (book no_ip6 short_free sample_demo offered_hold None None [] [] ''req'' 0 empty_world) =
     Inr (booked (sample_demo\<lparr>dm_slot := Some offered_slot, dm_calendar_event_id := Some ''evt_1'',
                     dm_meet_url := Some ''https://meet.google.com/abc''\<rparr>)
           ''evt_1'' ''https://meet.google.com/abc'')"
  by code_simp


theorem stored_demos_stay_valid_witness:
  "stores_valid (foldl sched_step (empty_world\<lparr>sw_demos := save_demo no_demos sample_demo\<rparr>)
     [Hold ''hold_1'' ''conv'' ''tut_a'' offered_slot ONLINE (minutes 20) 0, Book short_free no_ip6 ''conv'' ''hold_1'' 0,
      Move short_free ''conv'' offered_slot 0, CancelDemo short_free ''conv'' ''parent'' 1])"
proof (rule stored_demos_stay_valid)
  have "demo_ok sample_demo" by code_simp
  then have "demos_valid (save_demo no_demos sample_demo)"
    by (intro save_valid) (simp_all add: demos_valid_def no_demos_def dict_values_def)
  then show "stores_valid (empty_world\<lparr>sw_demos := save_demo no_demos sample_demo\<rparr>)"
    by (simp add: stores_valid_def empty_world_def holds_valid_def mem_load_hold_def mem_slots_init_def)
  have "fitting_calendar short_free" by (simp add: fitting_calendar_def short_free_def at_most_def)
  then show "\<forall>op\<in>set [Hold ''hold_1'' ''conv'' ''tut_a'' offered_slot ONLINE (minutes 20) 0, Book short_free no_ip6 ''conv'' ''hold_1'' 0,
      Move short_free ''conv'' offered_slot 0, CancelDemo short_free ''conv'' ''parent'' 1]. op_fits op"
    by simp
qed

text \<open>The bound on the calendar is needed: an event id of more than 256 characters is stored, unchecked, in the demo.\<close>

definition wordy_calendar :: sched_ports where
  "wordy_calendar = short_free\<lparr>sq_create := (\<lambda>_. Inr \<lparr>ce_event_id = Some (replicate 300 (CHR ''a'')),
     ce_meet_url = Some ''https://meet.google.com/abc''\<rparr>)\<rparr>"

theorem long_event_id_is_stored:
  "map_sum (\<lambda>_. ()) (map_option demo_ok \<circ> bk_demo)
     (fst (book no_ip6 wordy_calendar sample_demo offered_hold None None [] [] ''req'' 0 empty_world)) = Inr (Some False)"
  by code_simp

end
