(* ===== verification/Turns.thy ===== *)
theory Turns
  imports Inbound Conversations DeliveryStores Outbound PaidTransition Scheduling TutorMatch Objections
begin

text \<open>
  What one turn works on: orchestration/context.py. The world is the in-memory repositories of
  storage/memory with what has been handed to the outside (calendar, sender, scheduler); the services are
  what answers from outside or is text: the gateway, the matcher, the model behind the objections, the
  composer's strings. A turn carries the facts, the queued messages and the world; an action of a
  command either raises, naming the exception's class, or gives an outcome, and keeps what it did to
  the turn in both cases.
\<close>

section \<open>The world\<close>

record human_case =
  hc_case_id :: ref
  hc_conversation :: ref
  hc_state :: string
  hc_reason :: string
  hc_demo_id :: "fact_value option"
  hc_opened_at :: instant

record audit_row =
  au_conversation :: ref
  au_event :: string
  au_state :: string
  au_trigger :: string
  au_actor :: string
  au_reason :: string
  au_occurred_at :: instant

record job =
  jb_name :: string
  jb_fire_at :: instant
  jb_payload :: "(string \<times> string) list"

record 'c world =
  wd_convs :: mem_convs
  wd_idem :: "unit mem_idem"
  wd_outbox :: "fact_value mem_outbox"
  wd_sending :: "(mem_log, 'c) sending"
  wd_sched :: sched_world
  wd_reminders :: reminder_rows
  wd_commerce :: mem_commerce
  wd_objections :: "(ref, objection_analysis) odict"
  wd_forecasts :: "(ref, string) odict"
  wd_quality :: "(ref \<times> string) list"
  wd_cases :: "human_case list"
  wd_audit :: "audit_row list"
  wd_jobs :: "job list"
  wd_paid_calls :: "string list"
  wd_seq :: nat

section \<open>The services\<close>

record calendar_guest =
  cg_role :: string
  cg_response :: "string option"

record observed_event =
  ob_guests :: "calendar_guest list"
  ob_participants :: "int option"
  ob_duration :: "int option"

record 'c services =
  sv_sha256 :: "string \<Rightarrow> string"
  sv_fresh :: "string \<Rightarrow> nat \<Rightarrow> ref"
  sv_repr :: "(string \<times> fact_value) list \<Rightarrow> string"
  sv_str :: "payload_value \<Rightarrow> string"
  sv_error_text :: "py_error \<Rightarrow> string"
  sv_identity :: "string \<Rightarrow> ref \<Rightarrow> provider_error + ref option"
  sv_match :: "match_request \<Rightarrow> provider_error + match_result"
  sv_sched :: sched_ports
  sv_zones :: "string \<Rightarrow> zone_rules option"
  sv_event :: "string \<Rightarrow> provider_error + observed_event"
  sv_tutor_email :: "ref \<Rightarrow> provider_error + string option"
  sv_extract :: "demo \<Rightarrow> string \<Rightarrow> instant \<Rightarrow> objection_analysis"
  sv_forecast :: "demo \<Rightarrow> objection_analysis \<Rightarrow> payload \<Rightarrow> string"
  sv_quality :: "demo \<Rightarrow> objection_analysis \<Rightarrow> payload \<Rightarrow> string"
  sv_order :: "payment_order \<Rightarrow> provider_error + created"
  sv_activate :: "string \<Rightarrow> provider_error + string option"
  sv_reminders :: reminder_policy
  sv_boundary :: "'c boundary"
  sv_directory :: contacts
  sv_sender :: sender
  sv_ttl_seconds :: int
  sv_scheduling_on :: bool
  sv_reminders_on :: bool
  sv_payments_on :: bool
  vo_ask :: "string \<Rightarrow> string"
  vo_options :: "match_candidate list \<Rightarrow> string"
  vo_slots :: "slot_proposal list \<Rightarrow> string"
  vo_confirmation :: "demo \<Rightarrow> string"
  vo_cancellation :: "demo option \<Rightarrow> string"
  vo_payment :: "approved_offer \<Rightarrow> string \<Rightarrow> string"
  vo_welcome :: string
  vo_followup :: "demo \<Rightarrow> objection_analysis option \<Rightarrow> approved_offer option \<Rightarrow> payload \<Rightarrow> string"
  vo_summary :: "demo \<Rightarrow> string"
  vo_description :: "demo \<Rightarrow> string"
  vo_template :: "message_kind \<Rightarrow> demo option \<Rightarrow> template_binding option"
  vo_tutor_template :: "demo \<Rightarrow> template_binding option"
  vo_expired_template :: "demo \<Rightarrow> template_binding option"

section \<open>The turn\<close>

record 'c turn =
  tn_conversation :: ref
  tn_trace :: ref
  tn_now :: instant
  tn_snapshot :: snapshot
  tn_ownership :: ownership
  tn_trigger :: "trigger option"
  tn_causation :: "ref option"
  tn_facts :: facts
  tn_outbox :: "outbound_message list"
  tn_degraded :: "string list"
  tn_world :: "'c world"

record command_outcome =
  co_failed :: bool
  co_reason :: string
  co_reply :: "string option"
  co_transfer :: "owner option"

definition went_well :: command_outcome where
  "went_well = \<lparr>co_failed = False, co_reason = '''', co_reply = None, co_transfer = None\<rparr>"

definition gone_wrong :: "string \<Rightarrow> command_outcome" where
  "gone_wrong why = \<lparr>co_failed = True, co_reason = why, co_reply = None, co_transfer = None\<rparr>"

definition replied :: "string \<Rightarrow> command_outcome" where
  "replied txt = \<lparr>co_failed = False, co_reason = '''', co_reply = Some txt, co_transfer = None\<rparr>"

text \<open>An action raises the class of an exception or returns, and changes the turn either way.\<close>

type_synonym ('a, 'c) act = "'c turn \<Rightarrow> (string + 'a) \<times> 'c turn"

definition give :: "'a \<Rightarrow> ('a, 'c) act" where
  "give x t = (Inr x, t)"

definition throw :: "string \<Rightarrow> ('a, 'c) act" where
  "throw e t = (Inl e, t)"

definition and_do :: "('a, 'c) act \<Rightarrow> ('a \<Rightarrow> ('b, 'c) act) \<Rightarrow> ('b, 'c) act" where
  "and_do m k t = (case m t of (Inl e, t') \<Rightarrow> (Inl e, t') | (Inr x, t') \<Rightarrow> k x t')"

definition change :: "('c turn \<Rightarrow> 'c turn) \<Rightarrow> (unit, 'c) act" where
  "change f t = (Inr (), f t)"

definition in_world :: "('c world \<Rightarrow> 'c world) \<Rightarrow> 'c turn \<Rightarrow> 'c turn" where
  "in_world f t = t\<lparr>tn_world := f (tn_world t)\<rparr>"

definition set_fact :: "string \<Rightarrow> fact_value \<Rightarrow> 'c turn \<Rightarrow> 'c turn" where
  "set_fact k v t = t\<lparr>tn_facts := (tn_facts t)(k \<mapsto> v)\<rparr>"

definition degrade :: "string \<Rightarrow> 'c turn \<Rightarrow> 'c turn" where
  "degrade why t = t\<lparr>tn_degraded := tn_degraded t @ [why]\<rparr>"

definition fact_opt :: "ref option \<Rightarrow> fact_value" where
  "fact_opt v = (case v of None \<Rightarrow> FNone | Some s \<Rightarrow> FStr s)"

text \<open>\<open>str(facts.get(name) or "")\<close>; the code keeps texts and None under the names it is used with.\<close>

definition text_fact :: "facts \<Rightarrow> string \<Rightarrow> string" where
  "text_fact f name = (case f name of Some (FStr s) \<Rightarrow> s | _ \<Rightarrow> '''')"

definition text_payload :: "'c services \<Rightarrow> payload \<Rightarrow> string \<Rightarrow> string" where
  "text_payload sv p name =
     (case p name of
        None \<Rightarrow> ''''
      | Some (PFact (FStr s)) \<Rightarrow> s
      | Some (PFact v) \<Rightarrow> if truthy v then sv_str sv (PFact v) else ''''
      | Some (PSlot s) \<Rightarrow> sv_str sv (PSlot s))"

section \<open>Assembling the facts\<close>

definition wd_demos :: "'c world \<Rightarrow> mem_demos" where
  "wd_demos w = sw_demos (wd_sched w)"

definition wd_slots :: "'c world \<Rightarrow> mem_slots" where
  "wd_slots w = sw_slots (wd_sched w)"

definition if_known :: "string \<Rightarrow> ref option \<Rightarrow> facts \<Rightarrow> facts" where
  "if_known k v f = (case v of None \<Rightarrow> f | Some s \<Rightarrow> f(k \<mapsto> FStr s))"

definition missing_requirements :: "demo_request option \<Rightarrow> string list" where
  "missing_requirements r = (case r of None \<Rightarrow> [''service''] | Some q \<Rightarrow> missing (dr_requirement q))"

definition demo_facts :: "'c world \<Rightarrow> ref \<Rightarrow> instant \<Rightarrow> facts \<Rightarrow> facts" where
  "demo_facts w c now f =
     (let d = for_conversation (wd_demos w) c; hold = mem_active_hold_for (wd_slots w) c now;
          cs = load_candidates (wd_demos w) c;
          f1 = f(''has_demo'' \<mapsto> FBool (d \<noteq> None),
                 ''missing_requirements'' \<mapsto> FStrs (missing_requirements (request_for_conversation (wd_demos w) c)),
                 ''has_candidates'' \<mapsto> FBool (cs \<noteq> []),
                 ''candidate_count'' \<mapsto> FInt (int (length cs)),
                 ''hold_id'' \<mapsto> fact_opt (map_option hold_id hold),
                 ''hold_expired'' \<mapsto> FBool (case hold of None \<Rightarrow> False | Some h \<Rightarrow> hold_expired now h))
      in if_known ''tutor_ref'' (Option.bind d dm_tutor_ref)
           (if_known ''calendar_event_id'' (Option.bind d dm_calendar_event_id)
             (if_known ''demo_id'' (map_option dm_demo_id d) f1)))"

definition selection_fact :: "'c world \<Rightarrow> ref \<Rightarrow> facts \<Rightarrow> facts" where
  "selection_fact w c f =
     (let selected = text_fact f ''tutor_ref''
      in f(''tutor_in_snapshot'' \<mapsto>
             FBool (selected \<noteq> '''' \<and> list_ex (\<lambda>cd. mc_tutor_ref cd = selected) (load_candidates (wd_demos w) c))))"

definition commerce_facts :: "'c world \<Rightarrow> ref \<Rightarrow> facts \<Rightarrow> facts" where
  "commerce_facts w c f =
     (let decision = Option.bind (for_conversation (wd_demos w) c) (\<lambda>d. mem_load_decision (wd_commerce w) (dm_demo_id d));
          f1 = f(''approved_quote'' \<mapsto> FBool (case decision of None \<Rightarrow> False | Some d \<Rightarrow> dd_status d \<noteq> DS_ESCALATED))
      in case mem_order_for_conversation (wd_commerce w) c of
           None \<Rightarrow> f1
         | Some o' \<Rightarrow>
             if_known ''subscription_ref'' (map_option ac_subscription_ref (mem_activation_for (wd_commerce w) (po_order_ref o')))
               (f1(''order_ref'' \<mapsto> FStr (po_order_ref o'))))"

definition assemble_facts :: "'c world \<Rightarrow> ref \<Rightarrow> instant \<Rightarrow> facts \<Rightarrow> facts" where
  "assemble_facts w c now persisted =
     commerce_facts w c (selection_fact w c (demo_facts w c now persisted))"

end
