(* ===== verification/Commands.thy ===== *)
theory Commands
  imports Turns
begin

text \<open>
  The commands of a turn: orchestration/commands.py. A command does its work in the world and queues the
  messages it wants to send; nothing here reaches the sender. \<open>execute\<close> dispatches as the table of
  \<open>CommandExecutor\<close> does. The diagnostic \<open>data\<close> of an outcome is left out.
\<close>

section \<open>Helpers\<close>

definition show_int :: "int \<Rightarrow> string" where
  "show_int n = (if n < 0 then ''-'' @ show_nat (nat (- n)) else show_nat (nat n))"

fun language_value :: "language \<Rightarrow> string" where
  "language_value LANG_EN = ''en''"
| "language_value LANG_HI = ''hi''"
| "language_value LANG_HINGLISH = ''hinglish''"

definition fresh :: "'c services \<Rightarrow> string \<Rightarrow> (ref, 'c) act" where
  "fresh sv kind t =
     (Inr (sv_fresh sv kind (wd_seq (tn_world t))), in_world (\<lambda>w. w\<lparr>wd_seq := wd_seq w + 1\<rparr>) t)"

definition key_of :: "'c services \<Rightarrow> string list \<Rightarrow> string" where
  "key_of sv parts = idempotency_key (sv_sha256 sv) (map Some parts)"

definition own_demo :: "'c turn \<Rightarrow> demo option" where
  "own_demo t = for_conversation (wd_demos (tn_world t)) (tn_conversation t)"

definition own_request :: "'c turn \<Rightarrow> demo_request option" where
  "own_request t = request_for_conversation (wd_demos (tn_world t)) (tn_conversation t)"

definition own_candidates :: "'c turn \<Rightarrow> match_candidate list" where
  "own_candidates t = load_candidates (wd_demos (tn_world t)) (tn_conversation t)"

definition on_demos :: "(mem_demos \<Rightarrow> mem_demos) \<Rightarrow> 'c world \<Rightarrow> 'c world" where
  "on_demos f w = w\<lparr>wd_sched := (wd_sched w)\<lparr>sw_demos := f (sw_demos (wd_sched w))\<rparr>\<rparr>"

definition emit_event :: "'c services \<Rightarrow> string \<Rightarrow> (string \<times> fact_value) list \<Rightarrow> (unit, 'c) act" where
  "emit_event sv event body =
     and_do (fresh sv ''ulid'') (\<lambda>ulid. \<lambda>t.
       change (in_world (\<lambda>w. w\<lparr>wd_outbox :=
         snd (mem_enqueue ulid event ((''conversation_ref'', FStr (tn_conversation t)) # body) (tn_now t) (wd_outbox w)
           (key_of sv [''outbox'', tn_conversation t, event, sv_repr sv body]))\<rparr>)) t)"

text \<open>Building a message validates it; queueing it is the only way to be heard.\<close>

definition queue :: "outbound_message \<Rightarrow> (unit, 'c) act" where
  "queue m =
     (case make_message m of
        Inl _ \<Rightarrow> throw ''ValidationError''
      | Inr m' \<Rightarrow> change (\<lambda>t. t\<lparr>tn_outbox := tn_outbox t @ [m']\<rparr>))"

definition or_else :: "ref option \<Rightarrow> ref option \<Rightarrow> ref option" where
  "or_else a b = (if truthy_text a then a else b)"

definition message_for ::
  "'c services \<Rightarrow> 'c turn \<Rightarrow> message_kind \<Rightarrow> string \<Rightarrow> string list \<Rightarrow> button list \<Rightarrow> ref option \<Rightarrow> demo option \<Rightarrow> outbound_message" where
  "message_for sv t kind body key_parts buttons demo d =
     (let binding = vo_template sv kind d
      in \<lparr>om_conversation = tn_conversation t, om_recipient = tn_conversation t, om_audience = PARTY_STUDENT,
          om_kind = kind, om_language = LANG_EN, om_body = body,
          om_buttons = (if binding \<noteq> None then [] else buttons), om_template = binding,
          om_key = key_of sv (tn_conversation t # key_parts),
          om_demo_id = or_else demo (Option.bind (tn_facts t ''demo_id'') as_ref),
          om_trace_id = tn_trace t, om_expires_at = None, om_created_at = tn_now t\<rparr>)"

definition say ::
  "'c services \<Rightarrow> message_kind \<Rightarrow> string \<Rightarrow> string list \<Rightarrow> button list \<Rightarrow> ref option \<Rightarrow> demo option \<Rightarrow> (command_outcome, 'c) act" where
  "say sv kind body key_parts buttons demo d t =
     and_do (queue (message_for sv t kind body key_parts buttons demo d)) (\<lambda>_. give (replied body)) t"

definition to_tutor ::
  "'c services \<Rightarrow> 'c turn \<Rightarrow> demo \<Rightarrow> demo_attendee \<Rightarrow> template_binding \<Rightarrow> string \<Rightarrow> outbound_message" where
  "to_tutor sv t d tutor binding purpose =
     \<lparr>om_conversation = tn_conversation t, om_recipient = da_ref tutor, om_audience = PARTY_TUTOR,
      om_kind = MK_TUTOR_REQUEST, om_language = dm_language d, om_body = '''', om_buttons = [],
      om_template = Some binding, om_key = key_of sv [purpose, dm_demo_id d, show_int (dm_revision d)],
      om_demo_id = Some (dm_demo_id d), om_trace_id = tn_trace t, om_expires_at = None, om_created_at = tn_now t\<rparr>"

definition schedule_job :: "string \<Rightarrow> instant \<Rightarrow> (string \<times> string) list \<Rightarrow> (unit, 'c) act" where
  "schedule_job name at_time body =
     change (in_world (\<lambda>w. w\<lparr>wd_jobs :=
       filter (\<lambda>j. jb_name j \<noteq> name) (wd_jobs w) @ [\<lparr>jb_name = name, jb_fire_at = at_time, jb_payload = body\<rparr>]\<rparr>))"

text \<open>What a raise inside the scheduling capability is called.\<close>

definition raise_name :: "sched_raise \<Rightarrow> string" where
  "raise_name r = (case r of ProviderRaised _ \<Rightarrow> ''ProviderError'' | UrlRaised \<Rightarrow> ''ValueError'' | SlotRaised _ \<Rightarrow> ''ValidationError'')"

definition on_sched :: "(sched_world \<Rightarrow> 'a \<times> sched_world) \<Rightarrow> ('a, 'c) act" where
  "on_sched f t = (let (r, s) = f (wd_sched (tn_world t)) in (Inr r, in_world (\<lambda>w. w\<lparr>wd_sched := s\<rparr>) t))"

section \<open>Intake\<close>

definition resolve_identity :: "'c services \<Rightarrow> payload \<Rightarrow> (command_outcome, 'c) act" where
  "resolve_identity sv p t =
     (case sv_identity sv (text_payload sv p ''phone_hash'') (tn_conversation t) of
        Inl e \<Rightarrow> and_do (change (degrade (''identity:'' @ (if px_code e = '''' then ''unavailable'' else px_code e))))
                   (\<lambda>_. give went_well) t
      | Inr student \<Rightarrow> and_do (change (set_fact ''student_ref'' (fact_opt student))) (\<lambda>_. give went_well) t)"

definition ask_requirements :: "'c services \<Rightarrow> (command_outcome, 'c) act" where
  "ask_requirements sv t =
     (case missing_requirements (own_request t) of
        [] \<Rightarrow> give went_well t
      | first # rest \<Rightarrow>
          say sv MK_QUESTION (vo_ask sv first) [''ask'', first, show_nat (length rest + 1)] [] None None t)"

section \<open>Finding a tutor\<close>

definition request_of :: "'c turn \<Rightarrow> demo_request \<Rightarrow> ref list \<Rightarrow> match_request" where
  "request_of t r exclude =
     (let q = dr_requirement r
      in \<lparr>mr_trace_id = tn_trace t, mr_correlation_id = tn_conversation t, mr_causation_id = tn_causation t,
          mr_conversation = tn_conversation t, mr_student_ref = dr_student_ref r,
          mr_subject = text_or_empty (nd_subject q), mr_student_class = text_or_empty (nd_student_class q),
          mr_board = text_or_empty (nd_board q),
          mr_mode = (case nd_mode q of None \<Rightarrow> ONLINE | Some m \<Rightarrow> m),
          mr_region = nd_region q, mr_locality = nd_locality q, mr_timezone = nd_timezone q,
          mr_language = Some (language_value (nd_language q)), mr_exclude = exclude, mr_limit = int MAX_OPTIONS,
          mr_return_only = True\<rparr>)"

definition request_match :: "'c services \<Rightarrow> bool \<Rightarrow> (command_outcome, 'c) act" where
  "request_match sv exclude_seen t =
     (case own_request t of
        None \<Rightarrow> give (gone_wrong ''requirements_incomplete'') t
      | Some r \<Rightarrow>
          if \<not> complete_requirement (dr_requirement r) then give (gone_wrong ''requirements_incomplete'') t
          else
            let q = request_of t r (if exclude_seen then map mc_tutor_ref (own_candidates t) else [])
            in if \<not> match_request_ok q then throw ''ValidationError'' t
               else case sv_match sv q of
                 Inl e \<Rightarrow> and_do (change (degrade (''tutor_match:'' @ (if px_code e = '''' then ''unavailable'' else px_code e))))
                            (\<lambda>_. give (gone_wrong ''tutor_match_unavailable'')) t
               | Inr result \<Rightarrow>
                   if validate_for_presentation (tn_now t) result \<noteq> []
                   then and_do (change (set_fact ''has_candidates'' (FBool False))) (\<lambda>_. give went_well) t
                   else
                     let shown = presentable result
                     in and_do (change (in_world (on_demos (\<lambda>s.
                          save_candidates s (tn_conversation t) (ms_match_session_id result) shown))))
                        (\<lambda>_. and_do (change (set_fact ''match_session_id'' (FStr (ms_match_session_id result)) \<circ>
                                             set_fact ''has_candidates'' (FBool (shown \<noteq> []))))
                          (\<lambda>_. give went_well)) t)"

definition button_title_for :: "match_candidate \<Rightarrow> string" where
  "button_title_for c = take 20 (show_int (mc_rank c) @ ''. '' @ mc_name c)"

definition present_options :: "'c services \<Rightarrow> (command_outcome, 'c) act" where
  "present_options sv t =
     (case own_candidates t of
        [] \<Rightarrow> give (gone_wrong ''no_candidates'') t
      | c # cs \<Rightarrow>
          say sv MK_TUTOR_OPTIONS (vo_options sv (c # cs))
            [''options'', text_fact (tn_facts t) ''match_session_id'']
            (map (\<lambda>c. \<lparr>reply_id = ''tutor:'' @ show_int (mc_rank c), button_title = button_title_for c\<rparr>) (c # cs)) None None t)"

section \<open>Scheduling\<close>

definition preferred_slot :: "payload \<Rightarrow> time_slot option" where
  "preferred_slot p = (case p ''preferred_slot'' of Some (PSlot s) \<Rightarrow> Some s | _ \<Rightarrow> None)"

definition propose_slots :: "'c services \<Rightarrow> payload \<Rightarrow> (command_outcome, 'c) act" where
  "propose_slots sv p t =
     (let tutor = text_fact (tn_facts t) ''tutor_ref'';
          zone = (case own_request t of None \<Rightarrow> ''Asia/Kolkata'' | Some r \<Rightarrow> nd_timezone (dr_requirement r))
      in if \<not> sv_scheduling_on sv then give (gone_wrong ''scheduling_disabled'') t
         else if tutor = '''' then give (gone_wrong ''no_tutor_selected'') t
         else case propose (sv_zones sv) (sv_sched sv) tutor (preferred_slot p) zone 45 3 (tn_now t) of
           Inl _ \<Rightarrow> throw ''ValidationError'' t
         | Inr r \<Rightarrow>
             and_do (change (\<lambda>t. t\<lparr>tn_degraded := tn_degraded t @ pp_degraded r\<rparr>)) (\<lambda>_.
               if pp_proposals r = []
               then give (gone_wrong (if pp_reason r = '''' then ''no_slots'' else pp_reason r))
               else say sv MK_SLOT_PROPOSAL (vo_slots sv (pp_proposals r))
                      [''slots'', tutor, show_nat (length (pp_proposals r))]
                      (map (\<lambda>x. \<lparr>reply_id = ''slot:'' @ show_int (pr_rank x),
                                  button_title = ''Option '' @ show_int (pr_rank x)\<rparr>) (pp_proposals r)) None None) t)"

definition new_demo :: "ref \<Rightarrow> 'c turn \<Rightarrow> ref \<Rightarrow> demo_mode \<Rightarrow> demo" where
  "new_demo did t tutor mode =
     \<lparr>dm_demo_id = did, dm_conversation = tn_conversation t,
      dm_request_id = (case own_request t of None \<Rightarrow> tn_conversation t | Some r \<Rightarrow> dr_request_id r),
      dm_student_ref = Option.bind (own_request t) dr_student_ref, dm_tutor_ref = Some tutor,
      dm_region = Option.bind (own_request t) dr_region, dm_mode = mode,
      dm_language = (case own_request t of None \<Rightarrow> LANG_EN | Some r \<Rightarrow> dr_language r),
      dm_slot = None, dm_calendar_event_id = None, dm_meet_url = None, dm_location_label = None,
      dm_attendees = [\<lparr>da_party = PARTY_STUDENT, da_ref = tn_conversation t, da_display_name = '''', da_contacts = [], da_invite_consent = False\<rparr>,
                      \<lparr>da_party = PARTY_TUTOR, da_ref = tutor, da_display_name = '''', da_contacts = [], da_invite_consent = False\<rparr>],
      dm_outcome = no_outcome, dm_created_at = tn_now t, dm_updated_at = tn_now t, dm_revision = 1,
      dm_cancelled_at = None, dm_cancellation_reason = ''''\<rparr>"

definition ensure_demo :: "'c services \<Rightarrow> ref \<Rightarrow> demo_mode \<Rightarrow> (unit, 'c) act" where
  "ensure_demo sv tutor mode t =
     (case own_demo t of
        Some d \<Rightarrow> change (in_world (on_demos (\<lambda>s. save_demo s (d\<lparr>dm_tutor_ref := Some tutor, dm_updated_at := tn_now t\<rparr>)))) t
      | None \<Rightarrow>
          and_do (fresh sv ''dmo'') (\<lambda>did.
            case make_demo (new_demo did t tutor mode) of
              Inl _ \<Rightarrow> throw ''ValidationError''
            | Inr d \<Rightarrow> and_do (change (in_world (on_demos (\<lambda>s. save_demo s d))))
                         (\<lambda>_. change (set_fact ''demo_id'' (FStr did)))) t)"

definition place_hold :: "'c services \<Rightarrow> payload \<Rightarrow> (command_outcome, 'c) act" where
  "place_hold sv p t =
     (let tutor = text_fact (tn_facts t) ''tutor_ref''
      in case p ''slot'' of
           Some (PSlot slot) \<Rightarrow>
             if tutor = '''' then give (gone_wrong ''slot_or_tutor_missing'') t
             else if \<not> truthy (case tn_facts t ''tutor_in_snapshot'' of None \<Rightarrow> FNone | Some v \<Rightarrow> v)
               then give (gone_wrong ''tutor_not_in_presented_candidates'') t
             else
               let mode = (case Option.bind (own_request t) (nd_mode \<circ> dr_requirement) of None \<Rightarrow> ONLINE | Some m \<Rightarrow> m)
               in and_do (fresh sv ''hold'') (\<lambda>hid.
                    and_do (on_sched (sched_hold hid (tn_conversation t) tutor slot mode DEFAULT_HOLD_TTL (tn_now t))) (\<lambda>r.
                      case r of
                        Inl _ \<Rightarrow> throw ''ValidationError''
                      | Inr None \<Rightarrow> give (gone_wrong ''slot_taken'')
                      | Inr (Some h) \<Rightarrow>
                          and_do (ensure_demo sv tutor mode) (\<lambda>_.
                          and_do (change (set_fact ''hold_expired'' (FBool False) \<circ> set_fact ''hold_id'' (FStr (hold_id h)))) (\<lambda>_.
                          and_do (emit_event sv ''demo.slot_held'' [(''hold_id'', FStr (hold_id h))]) (\<lambda>_.
                            give went_well))))) t
         | _ \<Rightarrow> give (gone_wrong ''slot_or_tutor_missing'') t)"

definition release_hold :: "(command_outcome, 'c) act" where
  "release_hold t =
     (let hold = text_fact (tn_facts t) ''hold_id''
      in if hold = '''' then give went_well t
         else and_do (on_sched (\<lambda>s. ((), sched_release hold s))) (\<lambda>_.
              and_do (change (set_fact ''hold_id'' FNone)) (\<lambda>_. give went_well)) t)"

definition request_tutor_confirmation :: "'c services \<Rightarrow> (command_outcome, 'c) act" where
  "request_tutor_confirmation sv t =
     (case own_demo t of
        None \<Rightarrow> give (gone_wrong ''no_demo_or_hold'') t
      | Some d \<Rightarrow>
          if text_fact (tn_facts t) ''hold_id'' = '''' then give (gone_wrong ''no_demo_or_hold'') t
          else case (if dm_slot d = None then None else vo_tutor_template sv d) of
            None \<Rightarrow> and_do (change (degrade ''tutor_confirmation_template_unavailable'')) (\<lambda>_. give went_well) t
          | Some binding \<Rightarrow>
              (case attendee d PARTY_TUTOR of
                 None \<Rightarrow> give (gone_wrong ''no_tutor_contact'') t
               | Some tutor \<Rightarrow>
                   and_do (queue (to_tutor sv t d tutor binding ''tutor_req'')) (\<lambda>_.
                   and_do (schedule_job (''tutor-expiry-'' @ dm_demo_id d @ ''-'' @ show_int (dm_revision d))
                            (tn_now t + minutes 20)
                            [(''conversation_ref'', tn_conversation t), (''trigger'', ''tutor_request_expired''),
                             (''demo_id'', dm_demo_id d)]) (\<lambda>_.
                     give went_well)) t))"

definition notify_request_expired :: "'c services \<Rightarrow> (unit, 'c) act" where
  "notify_request_expired sv t =
     (if tn_trigger t \<noteq> Some TUTOR_REQUEST_EXPIRED then give () t
      else case own_demo t of
        None \<Rightarrow> give () t
      | Some d \<Rightarrow>
          (case attendee d PARTY_TUTOR of
             None \<Rightarrow> give () t
           | Some tutor \<Rightarrow>
               (case vo_expired_template sv d of
                  None \<Rightarrow> change (degrade ''tutor_request_expired_template_unavailable'') t
                | Some binding \<Rightarrow> queue (to_tutor sv t d tutor binding ''tutor_expired'') t)))"

definition try_fallback :: "'c services \<Rightarrow> (command_outcome, 'c) act" where
  "try_fallback sv =
     and_do (notify_request_expired sv) (\<lambda>_. and_do release_hold (\<lambda>_. request_match sv True))"

section \<open>The calendar\<close>

definition invite_emails :: "'c services \<Rightarrow> demo \<Rightarrow> string option \<times> string option" where
  "invite_emails sv d =
     ((case dm_tutor_ref d of
         None \<Rightarrow> None
       | Some r \<Rightarrow> if r = '''' then None else (case sv_tutor_email sv r of Inl _ \<Rightarrow> None | Inr e \<Rightarrow> e)),
      (case attendee d PARTY_STUDENT of
         None \<Rightarrow> None
       | Some s \<Rightarrow> if da_invite_consent s then map_option ct_ref (contact_for s VIA_EMAIL) else None))"

definition scheduled_body :: "demo \<Rightarrow> string \<Rightarrow> (string \<times> fact_value) list" where
  "scheduled_body d iso_start =
     (''demo_id'', FStr (dm_demo_id d)) # (if dm_slot d = None then [] else [(''starts_at'', FStr iso_start)])"

definition booking_facts :: "booking_result \<Rightarrow> demo \<Rightarrow> 'c turn \<Rightarrow> 'c turn" where
  "booking_facts b d =
     set_fact ''meet_url'' (FStr (bk_meet_url b)) \<circ> set_fact ''demo_id'' (FStr (dm_demo_id d)) \<circ>
     set_fact ''calendar_event_id'' (FStr (bk_calendar_event_id b))"

definition patch_event :: "'c services \<Rightarrow> demo \<Rightarrow> slot_hold \<Rightarrow> (command_outcome, 'c) act" where
  "patch_event sv d hold t =
     and_do (on_sched (reschedule (sv_sched sv) d (hold_slot hold) (tn_now t))) (\<lambda>r.
       case (if bk_failed r then None else bk_demo r) of
         None \<Rightarrow> give (gone_wrong (bk_failure_reason r))
       | Some d' \<Rightarrow>
           and_do (on_sched (\<lambda>s. ((), s\<lparr>sw_slots := mem_confirm (sw_slots s) (hold_id hold)\<rparr>))) (\<lambda>_.
           and_do (change (booking_facts r d')) (\<lambda>_.
           and_do (emit_event sv ''demo.rescheduled''
                    [(''demo_id'', FStr (dm_demo_id d')), (''revision'', FInt (dm_revision d'))]) (\<lambda>_.
             give went_well)))) t"

text \<open>The text of the start time in the event is the services' (\<open>sv_repr\<close>): the key only has to depend on it.\<close>

definition iso_text :: "'c services \<Rightarrow> demo \<Rightarrow> string" where
  "iso_text sv d = (case dm_slot d of None \<Rightarrow> '''' | Some s \<Rightarrow> sv_str sv (PSlot s))"

definition create_event :: "'c services \<Rightarrow> (command_outcome, 'c) act" where
  "create_event sv t =
     (let hold_ref = text_fact (tn_facts t) ''hold_id'';
          hold = (if hold_ref = '''' then None else mem_load_hold (wd_slots (tn_world t)) hold_ref)
      in case (own_demo t, hold) of
           (Some d, Some h) \<Rightarrow>
             if truthy_text (dm_calendar_event_id d) then patch_event sv d h t
             else
               let (tutor_email, student_email) = invite_emails sv d
               in and_do (fresh sv ''req'') (\<lambda>rid.
                  and_do (on_sched (book (bd_ips (sv_boundary sv)) (sv_sched sv) d h tutor_email student_email
                            (vo_summary sv d) (vo_description sv d) rid (tn_now t))) (\<lambda>r.
                    case r of
                      Inl e \<Rightarrow> throw (raise_name e)
                    | Inr b \<Rightarrow>
                        (case (if bk_failed b then None else bk_demo b) of
                           None \<Rightarrow> give (gone_wrong (bk_failure_reason b))
                         | Some d' \<Rightarrow>
                             and_do (change (booking_facts b d')) (\<lambda>_.
                             and_do (emit_event sv ''demo.scheduled'' (scheduled_body d' (iso_text sv d'))) (\<lambda>_.
                               give went_well))))) t
         | _ \<Rightarrow> give (gone_wrong ''no_demo_or_hold'') t)"

definition cancel_event :: "'c services \<Rightarrow> payload \<Rightarrow> (command_outcome, 'c) act" where
  "cancel_event sv p t =
     (case own_demo t of
        None \<Rightarrow> give went_well t
      | Some d \<Rightarrow>
          let reason = text_payload sv p ''reason''
          in and_do (on_sched (cancel_demo (sv_sched sv) d (if reason = '''' then ''cancelled'' else reason) (tn_now t)))
               (\<lambda>_. give went_well) t)"

definition send_confirmation :: "'c services \<Rightarrow> (command_outcome, 'c) act" where
  "send_confirmation sv t =
     (case own_demo t of
        None \<Rightarrow> give (gone_wrong ''no_scheduled_demo'') t
      | Some d \<Rightarrow>
          if dm_slot d = None then give (gone_wrong ''no_scheduled_demo'') t
          else say sv MK_CONFIRMATION (vo_confirmation sv d)
                 [''confirm'', dm_demo_id d, show_int (dm_revision d)] [] (Some (dm_demo_id d)) (Some d) t)"

section \<open>Reminders\<close>

fun schedule_all :: "demo \<Rightarrow> scheduled_reminder list \<Rightarrow> (unit, 'c) act" where
  "schedule_all d [] = give ()"
| "schedule_all d (r # rs) =
     and_do (schedule_job (''reminder-'' @ rm_reminder_id r) (rm_fire_at r)
              [(''reminder_id'', rm_reminder_id r), (''demo_id'', dm_demo_id d)])
       (\<lambda>_. schedule_all d rs)"

definition schedule_reminders :: "'c services \<Rightarrow> (command_outcome, 'c) act" where
  "schedule_reminders sv t =
     (case own_demo t of
        None \<Rightarrow> give went_well t
      | Some d \<Rightarrow>
          if \<not> sv_reminders_on sv then give went_well t
          else case plan (sv_zones sv) (\<lambda>k. sv_fresh sv ''rmd'' (wd_seq (tn_world t) + k)) (sv_reminders sv) (tn_now t) d of
            Inl e \<Rightarrow> throw (case e of UnknownTimezone _ \<Rightarrow> ''ValueError'' | _ \<Rightarrow> ''ValidationError'') t
          | Inr planned \<Rightarrow>
              and_do (change (in_world (\<lambda>w. w\<lparr>wd_seq := wd_seq w + length planned,
                        wd_reminders := mem_replace_for_demo (wd_reminders w) (dm_demo_id d) planned\<rparr>))) (\<lambda>_.
              and_do (schedule_all d planned) (\<lambda>_. give went_well)) t)"

definition cancel_reminders :: "(command_outcome, 'c) act" where
  "cancel_reminders t =
     (let demo = text_fact (tn_facts t) ''demo_id''
      in if demo = '''' then give went_well t
         else and_do (change (in_world (\<lambda>w. w\<lparr>wd_reminders := fst (mem_cancel_for_demo (wd_reminders w) demo)\<rparr>)))
                (\<lambda>_. give went_well) t)"

section \<open>The outcome\<close>

definition responded :: "string \<Rightarrow> calendar_guest list \<Rightarrow> bool option" where
  "responded role guests =
     (case find (\<lambda>g. cg_role g = role) guests of
        None \<Rightarrow> None
      | Some g \<Rightarrow> if cg_response g = Some ''accepted'' then Some True
                  else if cg_response g = Some ''declined'' then Some False else None)"

definition attendance_from_calendar :: "observed_event \<Rightarrow> outcome_record" where
  "attendance_from_calendar e =
     (let (tutor, student, source) =
        (case ob_participants e of
           None \<Rightarrow>
             let tu = responded ''tutor'' (ob_guests e); st = responded ''student'' (ob_guests e)
             in (tu, st, if tu = None \<and> st = None then NO_SIGNAL else CALENDAR_RESPONSE)
         | Some n \<Rightarrow>
             (if n = 0 then (Some False, Some False, MEET_PARTICIPATION)
              else if n = 1 then (None, None, MEET_PARTICIPATION)
              else (Some True, Some True, MEET_PARTICIPATION)))
      in no_outcome\<lparr>oc_outcome :=
             (if student = Some True \<and> tutor = Some True then OUTCOME_NEUTRAL
              else if student = Some False \<or> tutor = Some False then OUTCOME_NOT_HELD else OUTCOME_UNKNOWN),
           oc_student_attended := student, oc_tutor_attended := tutor, oc_evidence_source := source,
           oc_duration_minutes := ob_duration e\<rparr>)"

definition outcome_ok :: "outcome_record \<Rightarrow> bool" where
  "outcome_ok o' \<longleftrightarrow> length (oc_recorded_by o') \<le> 64 \<and> length (oc_notes o') \<le> 1000 \<and>
     (case oc_duration_minutes o' of None \<Rightarrow> True | Some n \<Rightarrow> 0 \<le> n \<and> n \<le> 600)"

definition capture_outcome :: "'c services \<Rightarrow> (command_outcome, 'c) act" where
  "capture_outcome sv t =
     (case own_demo t of
        None \<Rightarrow> give went_well t
      | Some d \<Rightarrow>
          if \<not> truthy_text (dm_calendar_event_id d) then give went_well t
          else case sv_event sv (the (dm_calendar_event_id d)) of
            Inl _ \<Rightarrow> and_do (change (degrade ''calendar_outcome_unavailable'')) (\<lambda>_. give went_well) t
          | Inr e \<Rightarrow>
              let evidence = attendance_from_calendar e
              in if \<not> outcome_ok evidence then throw ''ValidationError'' t
                 else and_do (change (set_fact ''grace_period_elapsed'' (FBool (outcome_due d (tn_now t))) \<circ>
                                      set_fact ''evidence_source'' (FStr (signal_value (oc_evidence_source evidence))))) (\<lambda>_.
                      and_do (change (in_world (on_demos (\<lambda>s.
                        save_demo s (d\<lparr>dm_outcome := evidence, dm_updated_at := tn_now t\<rparr>))))) (\<lambda>_.
                        give went_well)) t)"

definition post_demo_analysis :: "'c services \<Rightarrow> payload \<Rightarrow> (command_outcome, 'c) act" where
  "post_demo_analysis sv p t =
     (case own_demo t of
        None \<Rightarrow> give went_well t
      | Some d \<Rightarrow>
          let a = sv_extract sv d (text_payload sv p ''transcript'') (tn_now t)
          in and_do (change (in_world (\<lambda>w. w\<lparr>wd_objections := dict_set (wd_objections w) (oa_demo_id a) a,
                       wd_forecasts := dict_set (wd_forecasts w) (dm_demo_id d) (sv_forecast sv d a p),
                       wd_quality := wd_quality w @ [(dm_demo_id d, sv_quality sv d a p)]\<rparr>))) (\<lambda>_.
             and_do (emit_event sv ''demo.objections_extracted'' [(''demo_id'', FStr (dm_demo_id d))]) (\<lambda>_.
               give went_well)) t)"

definition send_followup :: "'c services \<Rightarrow> payload \<Rightarrow> (command_outcome, 'c) act" where
  "send_followup sv p t =
     (case own_demo t of
        None \<Rightarrow> give went_well t
      | Some d \<Rightarrow>
          let decision = mem_load_decision (wd_commerce (tn_world t)) (dm_demo_id d);
              offered = (case decision of
                None \<Rightarrow> None
              | Some x \<Rightarrow> if dd_percent x > 0 then (case approve x (tn_now t) of Inl _ \<Rightarrow> None | Inr off \<Rightarrow> Some off) else None)
          in say sv MK_FOLLOWUP
               (vo_followup sv d (dict_get (wd_objections (tn_world t)) (dm_demo_id d)) offered p)
               [''followup'', dm_demo_id d, show_int (dm_revision d)] [] (Some (dm_demo_id d)) (Some d) t)"

section \<open>Commerce\<close>

definition create_payment_order :: "'c services \<Rightarrow> (command_outcome, 'c) act" where
  "create_payment_order sv t =
     (let d = own_demo t; decision = Option.bind d (\<lambda>x. mem_load_decision (wd_commerce (tn_world t)) (dm_demo_id x))
      in if \<not> sv_payments_on sv then give (gone_wrong ''payments_disabled'') t
         else case (d, decision) of
           (Some dm, Some x) \<Rightarrow>
             (case approve x (tn_now t) of
                Inl e \<Rightarrow> give (gone_wrong (take 120 (sv_error_text sv e))) t
              | Inr off \<Rightarrow>
                  and_do (fresh sv ''ord'') (\<lambda>ord t1.
                    let (res, s, calls) =
                      create_order mem_order_for_conversation mem_save_order (bd_ips (sv_boundary sv)) (sv_order sv)
                        (wd_commerce (tn_world t1)) off ord (tn_now t1) DEFAULT_ORDER_TTL;
                      t2 = in_world (\<lambda>w. w\<lparr>wd_commerce := s\<rparr>) t1
                    in case res of
                      Inl _ \<Rightarrow> throw ''ValidationError'' t2
                    | Inr r \<Rightarrow>
                        (case (if or_failed r then None else or_order r) of
                           None \<Rightarrow> give (gone_wrong (or_reason r)) t2
                         | Some o' \<Rightarrow>
                             and_do (say sv MK_PAYMENT_LINK (vo_payment sv off (or_link r))
                                      [''pay'', po_order_ref o'] [] (Some (dm_demo_id dm)) None) (\<lambda>said.
                             and_do (emit_event sv ''demo.payment_requested'' [(''order_ref'', FStr (po_order_ref o'))]) (\<lambda>_.
                               give said)) t2)) t)
         | _ \<Rightarrow> give (gone_wrong ''no_approved_offer'') t)"

definition activate_subscription :: "'c services \<Rightarrow> payload \<Rightarrow> (command_outcome, 'c) act" where
  "activate_subscription sv p t =
     (let named = text_fact (tn_facts t) ''order_ref'';
          order_ref = (if named = '''' then text_payload sv p ''order_ref'' else named)
      in case (if order_ref = '''' then None else mem_load_order (wd_commerce (tn_world t)) order_ref) of
           None \<Rightarrow> give (gone_wrong ''order_not_found'') t
         | Some o' \<Rightarrow>
             let (res, s, calls) = activate mem_activation_for mem_save_activation (sv_sha256 sv) (sv_activate sv)
                                     (wd_commerce (tn_world t)) o' (tn_now t);
                 t1 = in_world (\<lambda>w. w\<lparr>wd_commerce := s, wd_paid_calls := wd_paid_calls w @ calls\<rparr>) t
             in case res of
                  Inl _ \<Rightarrow> throw ''ValidationError'' t1
                | Inr r \<Rightarrow>
                    if \<not> ac_succeeded (ar_activation r)
                    then give \<lparr>co_failed = ar_needs_human r,
                               co_reason = (if ac_error_code (ar_activation r) = '''' then ''activation_failed''
                                            else ac_error_code (ar_activation r)),
                               co_reply = None, co_transfer = None\<rparr> t1
                    else and_do (change (set_fact ''subscription_ref'' (FStr (ac_subscription_ref (ar_activation r))))) (\<lambda>_.
                         and_do (emit_event sv ''subscription.activated'' [(''order_ref'', FStr (po_order_ref o'))]) (\<lambda>_.
                           give went_well)) t1)"

definition handoff_onboarding :: "'c services \<Rightarrow> (command_outcome, 'c) act" where
  "handoff_onboarding sv t =
     (let sub = text_fact (tn_facts t) ''subscription_ref''; ord = text_fact (tn_facts t) ''order_ref'';
          (won, idem) = mem_idem_claim (wd_idem (tn_world t)) (''handoff'', key_of sv [''onboarding'', ord, sub])
                          (tn_now t) (sv_ttl_seconds sv)
      in if sub = '''' then give (gone_wrong ''no_subscription_ref'') t
         else if \<not> won then give went_well (in_world (\<lambda>w. w\<lparr>wd_idem := idem\<rparr>) t)
         else and_do (emit_event sv ''onboarding.requested'' [(''subscription_ref'', FStr sub), (''order_ref'', FStr ord)])
                (\<lambda>_. give went_well) (in_world (\<lambda>w. w\<lparr>wd_idem := idem\<rparr>) t))"

definition send_welcome :: "'c services \<Rightarrow> (command_outcome, 'c) act" where
  "send_welcome sv t =
     and_do (say sv MK_WELCOME (vo_welcome sv) [''welcome'', text_fact (tn_facts t) ''subscription_ref''] [] None None)
       (\<lambda>said. give (said\<lparr>co_transfer := Some ONBOARDING\<rparr>)) t"

section \<open>Exceptions\<close>

definition raise_human_case :: "'c services \<Rightarrow> payload \<Rightarrow> (command_outcome, 'c) act" where
  "raise_human_case sv p t =
     (let reason = text_payload sv p ''reason''
      in and_do (fresh sv ''hc'') (\<lambda>cid.
         and_do (change (in_world (\<lambda>w. w\<lparr>wd_cases := wd_cases w @
                  [\<lparr>hc_case_id = cid, hc_conversation = tn_conversation t, hc_state = state_value (sn_state (tn_snapshot t)),
                    hc_reason = (if reason = '''' then ''escalated'' else reason),
                    hc_demo_id = tn_facts t ''demo_id'', hc_opened_at = tn_now t\<rparr>]\<rparr>))) (\<lambda>_.
         and_do (emit_event sv ''conversation.human_handoff_raised'' [(''case_id'', FStr cid)]) (\<lambda>_.
           give went_well))) t)"

definition notify_cancellation :: "'c services \<Rightarrow> (command_outcome, 'c) act" where
  "notify_cancellation sv t =
     (let d = own_demo t
      in and_do (say sv MK_CANCELLATION (vo_cancellation sv d)
                  [''cancel'', (case d of None \<Rightarrow> tn_conversation t | Some x \<Rightarrow> dm_demo_id x)] [] None d) (\<lambda>said.
         and_do (emit_event sv ''demo.cancelled'' [(''demo_id'', fact_opt (map_option dm_demo_id d))]) (\<lambda>_.
           give said)) t)"

section \<open>The table\<close>

fun execute :: "'c services \<Rightarrow> command \<Rightarrow> payload \<Rightarrow> (command_outcome, 'c) act" where
  "execute sv NONE p = give went_well"
| "execute sv RESOLVE_IDENTITY p = resolve_identity sv p"
| "execute sv ASK_MISSING_REQUIREMENTS p = ask_requirements sv"
| "execute sv REQUEST_TUTOR_MATCH p =
     request_match sv (case p ''exclude_seen'' of Some (PFact v) \<Rightarrow> truthy v | Some (PSlot _) \<Rightarrow> True | None \<Rightarrow> False)"
| "execute sv PRESENT_TUTOR_OPTIONS p = present_options sv"
| "execute sv PROPOSE_SLOTS p = propose_slots sv p"
| "execute sv PLACE_SLOT_HOLD p = place_hold sv p"
| "execute sv RELEASE_SLOT_HOLD p = release_hold"
| "execute sv REQUEST_TUTOR_CONFIRMATION p = request_tutor_confirmation sv"
| "execute sv TRY_FALLBACK_TUTOR p = try_fallback sv"
| "execute sv CREATE_CALENDAR_EVENT p = create_event sv"
| "execute sv CANCEL_CALENDAR_EVENT p = cancel_event sv p"
| "execute sv SEND_CONFIRMATION p = send_confirmation sv"
| "execute sv SCHEDULE_REMINDERS p = schedule_reminders sv"
| "execute sv CANCEL_REMINDERS p = cancel_reminders"
| "execute sv CAPTURE_OUTCOME p = capture_outcome sv"
| "execute sv RUN_POST_DEMO_ANALYSIS p = post_demo_analysis sv p"
| "execute sv command.SEND_FOLLOWUP p = send_followup sv p"
| "execute sv CREATE_PAYMENT_ORDER p = create_payment_order sv"
| "execute sv ACTIVATE_SUBSCRIPTION p = activate_subscription sv p"
| "execute sv HANDOFF_TO_ONBOARDING p = handoff_onboarding sv"
| "execute sv SEND_WELCOME p = send_welcome sv"
| "execute sv RAISE_HUMAN_CASE p = raise_human_case sv p"
| "execute sv NOTIFY_CANCELLATION p = notify_cancellation sv"

end
