(* ===== verification/CommandFrames.thy ===== *)
theory CommandFrames
  imports Commands
begin

text \<open>
  What commands leave alone. No command moves the conversation, changes its owner or reaches the sender:
  it works on the other stores, sets facts and appends well-formed messages for this conversation to the
  queue. And the facts it sets are few, each set by few commands.
\<close>

section \<open>What every action of a command is made of\<close>

text \<open>The facts a command may set.\<close>

fun written_facts :: "command \<Rightarrow> string set" where
  "written_facts RESOLVE_IDENTITY = {''student_ref''}"
| "written_facts REQUEST_TUTOR_MATCH = {''has_candidates'', ''match_session_id''}"
| "written_facts TRY_FALLBACK_TUTOR = {''has_candidates'', ''match_session_id'', ''hold_id''}"
| "written_facts PLACE_SLOT_HOLD = {''hold_id'', ''hold_expired'', ''demo_id''}"
| "written_facts RELEASE_SLOT_HOLD = {''hold_id''}"
| "written_facts CREATE_CALENDAR_EVENT = {''calendar_event_id'', ''demo_id'', ''meet_url''}"
| "written_facts CAPTURE_OUTCOME = {''evidence_source'', ''grace_period_elapsed''}"
| "written_facts ACTIVATE_SUBSCRIPTION = {''subscription_ref''}"
| "written_facts _ = {}"

text \<open>The kinds of message a command may queue.\<close>

fun spoken_kinds :: "command \<Rightarrow> message_kind set" where
  "spoken_kinds ASK_MISSING_REQUIREMENTS = {MK_QUESTION}"
| "spoken_kinds PRESENT_TUTOR_OPTIONS = {MK_TUTOR_OPTIONS}"
| "spoken_kinds PROPOSE_SLOTS = {MK_SLOT_PROPOSAL}"
| "spoken_kinds REQUEST_TUTOR_CONFIRMATION = {MK_TUTOR_REQUEST}"
| "spoken_kinds TRY_FALLBACK_TUTOR = {MK_TUTOR_REQUEST}"
| "spoken_kinds SEND_CONFIRMATION = {MK_CONFIRMATION}"
| "spoken_kinds command.SEND_FOLLOWUP = {MK_FOLLOWUP}"
| "spoken_kinds CREATE_PAYMENT_ORDER = {MK_PAYMENT_LINK}"
| "spoken_kinds SEND_WELCOME = {MK_WELCOME}"
| "spoken_kinds NOTIFY_CANCELLATION = {MK_CANCELLATION}"
| "spoken_kinds _ = {}"

text \<open>The events a command may write to the outbox.\<close>

fun emitted_events :: "command \<Rightarrow> string set" where
  "emitted_events PLACE_SLOT_HOLD = {''demo.slot_held''}"
| "emitted_events CREATE_CALENDAR_EVENT = {''demo.scheduled'', ''demo.rescheduled''}"
| "emitted_events RUN_POST_DEMO_ANALYSIS = {''demo.objections_extracted''}"
| "emitted_events CREATE_PAYMENT_ORDER = {''demo.payment_requested''}"
| "emitted_events ACTIVATE_SUBSCRIPTION = {''subscription.activated''}"
| "emitted_events HANDOFF_TO_ONBOARDING = {''onboarding.requested''}"
| "emitted_events RAISE_HUMAN_CASE = {''conversation.human_handoff_raised''}"
| "emitted_events NOTIFY_CANCELLATION = {''demo.cancelled''}"
| "emitted_events _ = {}"

text \<open>The keys claimed for events, which commands leave alone.\<close>

definition inbound_claim :: "'c world \<Rightarrow> string \<Rightarrow> instant option" where
  "inbound_claim w key = dict_get (mi_claims (wd_idem w)) (''inbound'', key)"

definition kept :: "'c world \<Rightarrow> 'c world \<Rightarrow> bool" where
  "kept w w' \<longleftrightarrow> wd_convs w' = wd_convs w \<and> wd_sending w' = wd_sending w \<and> inbound_claim w' = inbound_claim w"

lemma on_demos_frame [simp]:
  "wd_convs (on_demos f w) = wd_convs w" "wd_sending (on_demos f w) = wd_sending w" "wd_idem (on_demos f w) = wd_idem w"
  by (simp_all add: on_demos_def)

lemma kept_simps [simp]:
  "kept w w" "kept w (w\<lparr>wd_seq := n\<rparr>)" "kept w (w\<lparr>wd_outbox := ob\<rparr>)" "kept w (w\<lparr>wd_jobs := js\<rparr>)"
  "kept w (w\<lparr>wd_sched := ss\<rparr>)" "kept w (on_demos f w)" "kept w (w\<lparr>wd_reminders := rs\<rparr>)"
  "kept w (w\<lparr>wd_commerce := cm\<rparr>)" "kept w (w\<lparr>wd_cases := cs\<rparr>)"
  "kept w (w\<lparr>wd_seq := n, wd_reminders := rs\<rparr>)" "kept w (w\<lparr>wd_commerce := cm, wd_paid_calls := pc\<rparr>)"
  "kept w (w\<lparr>wd_objections := oa, wd_forecasts := fc, wd_quality := ql\<rparr>)"
  by (simp_all add: kept_def inbound_claim_def fun_eq_iff)

lemma kept_handoff [simp]:
  "kept w (w\<lparr>wd_idem := snd (mem_idem_claim (wd_idem w) (''handoff'', key) now ttl)\<rparr>)"
  by (auto simp: kept_def inbound_claim_def mem_idem_claim_def Let_def fun_eq_iff split: option.split)

text \<open>The same, with the outbox of events as it was.\<close>

definition quiet_world :: "'c world \<Rightarrow> 'c world \<Rightarrow> bool" where
  "quiet_world w w' \<longleftrightarrow> kept w w' \<and> wd_outbox w' = wd_outbox w"

lemma quiet_world_simps [simp]:
  "quiet_world w w" "quiet_world w (w\<lparr>wd_seq := n\<rparr>)" "quiet_world w (w\<lparr>wd_jobs := js\<rparr>)"
  "quiet_world w (w\<lparr>wd_sched := ss\<rparr>)" "quiet_world w (on_demos f w)" "quiet_world w (w\<lparr>wd_reminders := rs\<rparr>)"
  "quiet_world w (w\<lparr>wd_commerce := cm\<rparr>)" "quiet_world w (w\<lparr>wd_cases := cs\<rparr>)"
  "quiet_world w (w\<lparr>wd_seq := n, wd_reminders := rs\<rparr>)" "quiet_world w (w\<lparr>wd_commerce := cm, wd_paid_calls := pc\<rparr>)"
  "quiet_world w (w\<lparr>wd_objections := oa, wd_forecasts := fc, wd_quality := ql\<rparr>)"
  "quiet_world w (w\<lparr>wd_idem := snd (mem_idem_claim (wd_idem w) (''handoff'', key) now ttl)\<rparr>)"
  by (simp_all add: quiet_world_def on_demos_def)

lemma to_tutor_simps [simp]:
  "om_conversation (to_tutor sv t d a b p) = tn_conversation t" "om_kind (to_tutor sv t d a b p) = MK_TUTOR_REQUEST"
  by (simp_all add: to_tutor_def)

text \<open>A preorder on turns that allows setting the facts \<open>K\<close>, noting a degradation, changing the stores a
  command may change, queueing a well-formed message of a kind in \<open>M\<close> and writing an event of \<open>E\<close> to the outbox. A
  command stays within it if its facts, its kinds and its events do.\<close>

locale command_frame =
  fixes R :: "'c turn \<Rightarrow> 'c turn \<Rightarrow> bool" and K :: "string set" and M :: "message_kind set" and E :: "string set"
  assumes refl [simp]: "R t t"
    and trans: "R t t' \<Longrightarrow> R t' t'' \<Longrightarrow> R t t''"
    and fact_step: "k \<in> K \<Longrightarrow> R t (set_fact k v t)"
    and degraded_step: "R t (t\<lparr>tn_degraded := ds\<rparr>)"
    and world_step: "quiet_world (tn_world t) (f (tn_world t)) \<Longrightarrow> R t (in_world f t)"
    and event_step: "ev \<in> E \<Longrightarrow>
          R t (in_world (\<lambda>w. w\<lparr>wd_outbox := snd (mem_enqueue ulid ev body now (wd_outbox w) key)\<rparr>) t)"
    and queue_step: "message_ok m \<Longrightarrow> om_conversation m = tn_conversation t \<Longrightarrow> om_kind m \<in> M \<Longrightarrow>
          R t (t\<lparr>tn_outbox := tn_outbox t @ [m]\<rparr>)"
begin

definition quiet :: "('a, 'c) act \<Rightarrow> bool" where
  "quiet m \<longleftrightarrow> (\<forall>t. R t (snd (m t)))"

lemma quietI: "(\<And>t. R t (snd (m t))) \<Longrightarrow> quiet m"
  by (simp add: quiet_def)

lemma quiet_and_do: "R t (snd (m t')) \<Longrightarrow> (\<And>x. quiet (k x)) \<Longrightarrow> R t (snd (and_do m k t'))"
  unfolding and_do_def quiet_def by (auto split: prod.split sum.split intro: trans)

lemma quiet_fact: "R t t' \<Longrightarrow> k \<in> K \<Longrightarrow> R t (set_fact k v t')"
  using trans fact_step by blast

lemma quiet_degraded: "R t t' \<Longrightarrow> R t (t'\<lparr>tn_degraded := ds\<rparr>)"
  using trans degraded_step by blast

lemma quiet_degrade: "R t t' \<Longrightarrow> R t (degrade why t')"
  unfolding degrade_def by (rule quiet_degraded)

lemma quiet_worlds: "R t t' \<Longrightarrow> quiet_world (tn_world t') (f (tn_world t')) \<Longrightarrow> R t (in_world f t')"
  using trans world_step by blast

lemma quiet_give [simp]: "R t (snd (give x t')) \<longleftrightarrow> R t t'"
  and quiet_throw [simp]: "R t (snd (throw e t')) \<longleftrightarrow> R t t'"
  by (simp_all add: give_def throw_def)

lemma quiet_change: "R t (f t') \<Longrightarrow> R t (snd (change f t'))"
  by (simp add: change_def)

lemma quiet_fresh [simp]: "R t (snd (fresh sv kind t))"
  by (simp add: fresh_def world_step)

lemma quiet_on_sched [simp]: "R t (snd (on_sched f t))"
  by (simp add: on_sched_def world_step split: prod.split)

lemma quiet_job [simp]: "R t (snd (schedule_job name at_time body t))"
  by (simp add: schedule_job_def change_def world_step)

lemma quiet_queue: "om_conversation m = tn_conversation t \<Longrightarrow> om_kind m \<in> M \<Longrightarrow> R t (snd (queue m t))"
  by (auto simp: queue_def make_message_def change_def throw_def split: sum.split intro: queue_step)

lemma quiet_say: "kind \<in> M \<Longrightarrow> R t (snd (say sv kind body ks bs d dm t))"
  unfolding say_def
  by (rule quiet_and_do) (auto intro!: quiet_queue quietI simp: message_for_def Let_def)

lemma quiet_emit: "ev \<in> E \<Longrightarrow> R t (snd (emit_event sv ev body t))"
  unfolding emit_event_def
  by (rule quiet_and_do) (auto intro!: quietI quiet_change event_step)

lemma quiet_after:
  "R t t' \<Longrightarrow> kind \<in> M \<Longrightarrow> R t (snd (say sv kind body ks bs d dm t'))" "R t t' \<Longrightarrow> ev \<in> E \<Longrightarrow> R t (snd (emit_event sv ev evb t'))"
  using trans quiet_say quiet_emit by blast+

lemmas quieting = quiet_after quietI quiet_and_do quiet_change quiet_fact quiet_degrade quiet_degraded quiet_worlds quiet_queue

section \<open>The commands\<close>

lemma quiet_release_hold: "{''hold_id''} \<subseteq> K \<Longrightarrow> R t (snd (release_hold t))"
  unfolding release_hold_def Let_def by (auto intro!: quieting)

lemma quiet_request_match: "{''has_candidates'', ''match_session_id''} \<subseteq> K \<Longrightarrow> R t (snd (request_match sv b t))"
  unfolding request_match_def Let_def by (auto split: option.split sum.split intro!: quieting)

lemma quiet_notify_request_expired: "MK_TUTOR_REQUEST \<in> M \<Longrightarrow> R t (snd (notify_request_expired sv t))"
  unfolding notify_request_expired_def by (auto split: option.split intro!: quieting)

lemma quiet_try_fallback: "MK_TUTOR_REQUEST \<in> M \<Longrightarrow> {''has_candidates'', ''match_session_id'', ''hold_id''} \<subseteq> K \<Longrightarrow> R t (snd (try_fallback sv t))"
  unfolding try_fallback_def
  by (intro quieting quiet_notify_request_expired quiet_release_hold quiet_request_match) auto

lemma quiet_resolve_identity: "{''student_ref''} \<subseteq> K \<Longrightarrow> R t (snd (resolve_identity sv p t))"
  unfolding resolve_identity_def by (auto split: sum.split intro!: quieting)

lemma quiet_ask_requirements: "MK_QUESTION \<in> M \<Longrightarrow> R t (snd (ask_requirements sv t))"
  unfolding ask_requirements_def by (auto split: list.split intro!: quieting)

lemma quiet_present_options: "MK_TUTOR_OPTIONS \<in> M \<Longrightarrow> R t (snd (present_options sv t))"
  unfolding present_options_def by (auto split: list.split intro!: quieting)

lemma quiet_propose_slots: "MK_SLOT_PROPOSAL \<in> M \<Longrightarrow> R t (snd (propose_slots sv p t))"
  unfolding propose_slots_def Let_def by (auto split: sum.split intro!: quieting)

lemma quiet_ensure_demo: "{''demo_id''} \<subseteq> K \<Longrightarrow> R t (snd (ensure_demo sv tutor mode t))"
  unfolding ensure_demo_def by (auto split: option.split sum.split intro!: quieting)

lemma quiet_place_hold: "{''demo.slot_held''} \<subseteq> E \<Longrightarrow> {''hold_id'', ''hold_expired'', ''demo_id''} \<subseteq> K \<Longrightarrow> R t (snd (place_hold sv p t))"
  unfolding place_hold_def Let_def
  by (auto split: option.split payload_value.split sum.split intro!: quieting quiet_ensure_demo)

lemma quiet_request_tutor_confirmation: "MK_TUTOR_REQUEST \<in> M \<Longrightarrow> R t (snd (request_tutor_confirmation sv t))"
  unfolding request_tutor_confirmation_def by (auto split: option.split intro!: quieting)

lemma quiet_patch_event: "{''demo.rescheduled''} \<subseteq> E \<Longrightarrow> {''calendar_event_id'', ''demo_id'', ''meet_url''} \<subseteq> K \<Longrightarrow> R t (snd (patch_event sv d h t))"
  unfolding patch_event_def booking_facts_def by (auto split: option.split intro!: quieting)

lemma quiet_create_event: "{''demo.scheduled'', ''demo.rescheduled''} \<subseteq> E \<Longrightarrow> {''calendar_event_id'', ''demo_id'', ''meet_url''} \<subseteq> K \<Longrightarrow> R t (snd (create_event sv t))"
  unfolding create_event_def Let_def booking_facts_def
  by (auto split: option.split prod.split sum.split intro!: quieting quiet_patch_event)

lemma quiet_cancel_event: "R t (snd (cancel_event sv p t))"
  unfolding cancel_event_def Let_def by (auto split: option.split intro!: quieting)

lemma quiet_send_confirmation: "MK_CONFIRMATION \<in> M \<Longrightarrow> R t (snd (send_confirmation sv t))"
  unfolding send_confirmation_def by (auto split: option.split intro!: quieting)

lemma quiet_schedule_all: "quiet (schedule_all d rs)"
  by (induction rs) (auto intro!: quieting simp: quiet_def)

lemma quiet_schedule_reminders: "R t (snd (schedule_reminders sv t))"
  unfolding schedule_reminders_def
  by (auto split: option.split sum.split intro!: quiet_and_do quiet_change quiet_worlds quietI
      intro: quiet_schedule_all [unfolded quiet_def, rule_format])

lemma quiet_cancel_reminders: "R t (snd (cancel_reminders t))"
  unfolding cancel_reminders_def Let_def by (auto intro!: quieting)

lemma quiet_capture_outcome: "{''evidence_source'', ''grace_period_elapsed''} \<subseteq> K \<Longrightarrow> R t (snd (capture_outcome sv t))"
  unfolding capture_outcome_def Let_def by (auto split: option.split sum.split intro!: quieting)

lemma quiet_post_demo_analysis: "{''demo.objections_extracted''} \<subseteq> E \<Longrightarrow> R t (snd (post_demo_analysis sv p t))"
  unfolding post_demo_analysis_def Let_def by (auto split: option.split intro!: quieting)

lemma quiet_send_followup: "MK_FOLLOWUP \<in> M \<Longrightarrow> R t (snd (send_followup sv p t))"
  unfolding send_followup_def Let_def by (auto split: option.split intro!: quieting)

lemma quiet_create_payment_order: "{''demo.payment_requested''} \<subseteq> E \<Longrightarrow> MK_PAYMENT_LINK \<in> M \<Longrightarrow> R t (snd (create_payment_order sv t))"
  unfolding create_payment_order_def Let_def
  by (auto split: option.split sum.split prod.split intro!: quieting)

lemma quiet_activate_subscription: "{''subscription.activated''} \<subseteq> E \<Longrightarrow> {''subscription_ref''} \<subseteq> K \<Longrightarrow> R t (snd (activate_subscription sv p t))"
  unfolding activate_subscription_def Let_def
  by (auto split: option.split sum.split prod.split intro!: quieting)

lemma quiet_handoff_onboarding: "{''onboarding.requested''} \<subseteq> E \<Longrightarrow> R t (snd (handoff_onboarding sv t))"
  unfolding handoff_onboarding_def Let_def case_prod_beta
  by (auto intro!: quieting)

lemma quiet_send_welcome: "MK_WELCOME \<in> M \<Longrightarrow> R t (snd (send_welcome sv t))"
  unfolding send_welcome_def by (auto intro!: quieting)

lemma quiet_raise_human_case: "{''conversation.human_handoff_raised''} \<subseteq> E \<Longrightarrow> R t (snd (raise_human_case sv p t))"
  unfolding raise_human_case_def Let_def by (auto intro!: quieting)

lemma quiet_notify_cancellation: "{''demo.cancelled''} \<subseteq> E \<Longrightarrow> MK_CANCELLATION \<in> M \<Longrightarrow> R t (snd (notify_cancellation sv t))"
  unfolding notify_cancellation_def Let_def by (auto intro!: quieting)

lemmas quiet_commands =
  quiet_release_hold quiet_request_match quiet_try_fallback quiet_resolve_identity quiet_ask_requirements
  quiet_present_options quiet_propose_slots quiet_place_hold quiet_request_tutor_confirmation quiet_create_event
  quiet_cancel_event quiet_send_confirmation quiet_schedule_reminders quiet_cancel_reminders quiet_capture_outcome
  quiet_post_demo_analysis quiet_send_followup quiet_create_payment_order quiet_activate_subscription
  quiet_handoff_onboarding quiet_send_welcome quiet_raise_human_case quiet_notify_cancellation

theorem execute_stays:
  "written_facts c \<subseteq> K \<Longrightarrow> spoken_kinds c \<subseteq> M \<Longrightarrow> emitted_events c \<subseteq> E \<Longrightarrow> R t (snd (execute sv c p t))"
  by (cases c) (simp_all add: quiet_commands)

end

section \<open>Four frames\<close>

definition follows :: "'c turn \<Rightarrow> 'c turn \<Rightarrow> bool" where
  "follows t t' \<longleftrightarrow>
     tn_conversation t' = tn_conversation t \<and> tn_now t' = tn_now t \<and> tn_snapshot t' = tn_snapshot t \<and>
     tn_ownership t' = tn_ownership t \<and> tn_trigger t' = tn_trigger t \<and>
     kept (tn_world t) (tn_world t') \<and>
     (\<exists>ms. tn_outbox t' = tn_outbox t @ ms \<and> (\<forall>m\<in>set ms. message_ok m \<and> om_conversation m = tn_conversation t))"

interpretation following: command_frame follows UNIV UNIV UNIV
proof
  fix t t' t'' :: "'c turn"
  assume "follows t t'" and "follows t' t''"
  then show "follows t t''" unfolding follows_def kept_def by (elim conjE exE) (force simp: ball_Un)
qed (auto simp: follows_def set_fact_def in_world_def quiet_world_def)

definition same_facts :: "string set \<Rightarrow> 'c turn \<Rightarrow> 'c turn \<Rightarrow> bool" where
  "same_facts K t t' \<longleftrightarrow> (\<forall>k. k \<notin> K \<longrightarrow> tn_facts t' k = tn_facts t k)"

interpretation unwritten: command_frame "same_facts K" K UNIV UNIV
  by unfold_locales (auto simp: same_facts_def set_fact_def in_world_def)

lemma execute_facts: "k \<notin> written_facts c \<Longrightarrow> tn_facts (snd (execute sv c p t)) k = tn_facts t k"
  using unwritten.execute_stays [of c "written_facts c" t sv p] by (simp add: same_facts_def)

definition speaks_only :: "message_kind set \<Rightarrow> 'c turn \<Rightarrow> 'c turn \<Rightarrow> bool" where
  "speaks_only M t t' \<longleftrightarrow> (\<exists>ms. tn_outbox t' = tn_outbox t @ ms \<and> om_kind ` set ms \<subseteq> M)"

interpretation speaking: command_frame "speaks_only M" UNIV M UNIV
proof
  fix t t' t'' :: "'c turn"
  assume "speaks_only M t t'" and "speaks_only M t' t''"
  then show "speaks_only M t t''" unfolding speaks_only_def by force
qed (auto simp: speaks_only_def set_fact_def in_world_def)

lemma execute_speaks: "speaks_only (spoken_kinds c) t (snd (execute sv c p t))"
  by (rule speaking.execute_stays) simp_all

text \<open>The events added to the outbox: of the kinds \<open>E\<close>, not yet published, about this conversation.\<close>

definition emits_only :: "string set \<Rightarrow> 'c turn \<Rightarrow> 'c turn \<Rightarrow> bool" where
  "emits_only E t t' \<longleftrightarrow>
     (\<exists>rows. mo_rows (wd_outbox (tn_world t')) = mo_rows (wd_outbox (tn_world t)) @ rows \<and>
        (\<forall>r\<in>set rows. ob_event r \<in> E \<and> ob_published_at r = None))"

interpretation emitting: command_frame "emits_only E" UNIV UNIV E
proof
  fix t t' t'' :: "'c turn"
  assume "emits_only E t t'" and "emits_only E t' t''"
  then show "emits_only E t t''" unfolding emits_only_def by (elim exE conjE) (force simp: ball_Un)
qed (auto simp: emits_only_def set_fact_def in_world_def quiet_world_def mem_enqueue_def)

text \<open>A command writes to the outbox only its own events, none of them published.\<close>

theorem commands_emit_their_events: "emits_only (emitted_events c) t (snd (execute sv c p t))"
  by (rule emitting.execute_stays) simp_all

lemma execute_follows: "follows t (snd (execute sv c p t))"
  by (rule following.execute_stays) simp_all


end
