(* ===== verification/CostControl.thy ===== *)
theory CostControl
  imports PyText
begin

text \<open>
  cost_control/budget.py: what a model may be asked for, the four ceilings of a conversation, the
  daily ceiling of the environment and the cost estimate. The rounded latency of a usage row is an
  argument; \<open>utilisation\<close>, a rounded float for a dashboard, is left out.
\<close>

datatype purpose =
  INTENT_CLASSIFICATION | REQUIREMENT_EXTRACTION | TIME_INTERPRETATION | OBJECTION_EXTRACTION
| MESSAGE_WORDING | SUMMARISATION

datatype tier = CLASSIFIER | EXTRACTION | REASONING

fun TIERS :: "purpose \<Rightarrow> tier" where
  "TIERS INTENT_CLASSIFICATION = CLASSIFIER"
| "TIERS REQUIREMENT_EXTRACTION = EXTRACTION"
| "TIERS TIME_INTERPRETATION = EXTRACTION"
| "TIERS MESSAGE_WORDING = EXTRACTION"
| "TIERS SUMMARISATION = EXTRACTION"
| "TIERS OBJECTION_EXTRACTION = REASONING"

definition FORBIDDEN_USES :: "string list" where
  "FORBIDDEN_USES =
     [''arithmetic'', ''state_transition'', ''availability'', ''payment_validation'',
      ''regional_aggregation'', ''discount_amount'', ''authorization'', ''tutor_eligibility'',
      ''no_show_determination'', ''duplicate_event'']"

datatype budget_error = ForbiddenModelUse string | BudgetExceeded string int int

definition assert_not_forbidden :: "string \<Rightarrow> budget_error + unit" where
  "assert_not_forbidden use =
     (if use \<in> set FORBIDDEN_USES then Inl (ForbiddenModelUse use) else Inr ())"

record budget =
  calls_per_turn :: int
  calls_per_conversation :: int
  reasoning_calls_per_conversation :: int
  tokens_per_conversation :: int

definition default_budget :: budget where
  "default_budget = \<lparr>calls_per_turn = 2, calls_per_conversation = 30,
     reasoning_calls_per_conversation = 3, tokens_per_conversation = 60000\<rparr>"

record usage_row =
  ur_conversation :: ref
  ur_purpose :: purpose
  ur_tier :: tier
  ur_model_ref :: string
  ur_prompt_version :: string
  ur_input_tokens :: int
  ur_output_tokens :: int
  ur_latency :: string
  ur_succeeded :: bool
  ur_fell_back :: bool

record usage =
  us_conversation :: ref
  calls_this_turn :: int
  calls_total :: int
  reasoning_calls :: int
  input_tokens :: int
  output_tokens :: int
  us_records :: "usage_row list"

definition total_tokens :: "usage \<Rightarrow> int" where
  "total_tokens u = input_tokens u + output_tokens u"

definition start_turn :: "usage \<Rightarrow> usage" where
  "start_turn u = u\<lparr>calls_this_turn := 0\<rparr>"

definition budget_check :: "budget \<Rightarrow> usage \<Rightarrow> purpose \<Rightarrow> budget_error + unit" where
  "budget_check b u p =
     (if calls_this_turn u \<ge> calls_per_turn b
        then Inl (BudgetExceeded ''calls_per_turn'' (calls_per_turn b) (calls_this_turn u))
      else if calls_total u \<ge> calls_per_conversation b
        then Inl (BudgetExceeded ''calls_per_conversation'' (calls_per_conversation b) (calls_total u))
      else if total_tokens u \<ge> tokens_per_conversation b
        then Inl (BudgetExceeded ''tokens_per_conversation'' (tokens_per_conversation b) (total_tokens u))
      else if TIERS p = REASONING \<and> reasoning_calls u \<ge> reasoning_calls_per_conversation b
        then Inl (BudgetExceeded ''reasoning_calls_per_conversation''
                    (reasoning_calls_per_conversation b) (reasoning_calls u))
      else Inr ())"

definition budget_record ::
  "usage \<Rightarrow> purpose \<Rightarrow> string \<Rightarrow> string \<Rightarrow> int \<Rightarrow> int \<Rightarrow> string \<Rightarrow> bool \<Rightarrow> bool \<Rightarrow> usage_row \<times> usage" where
  "budget_record u p model prompt it ot latency succeeded fell_back =
     (let row = \<lparr>ur_conversation = us_conversation u, ur_purpose = p, ur_tier = TIERS p, ur_model_ref = model, ur_prompt_version = prompt,
                 ur_input_tokens = it, ur_output_tokens = ot, ur_latency = latency,
                 ur_succeeded = succeeded, ur_fell_back = fell_back\<rparr>
      in (row, u\<lparr>calls_this_turn := calls_this_turn u + 1, calls_total := calls_total u + 1,
                 input_tokens := input_tokens u + it, output_tokens := output_tokens u + ot,
                 reasoning_calls := (if TIERS p = REASONING then reasoning_calls u + 1 else reasoning_calls u),
                 us_records := us_records u @ [row]\<rparr>))"

record remaining =
  rem_this_turn :: int
  rem_total :: int
  rem_reasoning :: int
  rem_tokens :: int

definition budget_remaining :: "budget \<Rightarrow> usage \<Rightarrow> remaining" where
  "budget_remaining b u =
     \<lparr>rem_this_turn = max 0 (calls_per_turn b - calls_this_turn u),
      rem_total = max 0 (calls_per_conversation b - calls_total u),
      rem_reasoning = max 0 (reasoning_calls_per_conversation b - reasoning_calls u),
      rem_tokens = max 0 (tokens_per_conversation b - total_tokens u)\<rparr>"

section \<open>The daily circuit\<close>

record daily_circuit =
  daily_ceiling :: int
  spent_micros :: int
  window_start :: "instant option"
  tripped :: bool

text \<open>\<open>(now - start).days\<close> is the floor of the difference in days.\<close>

definition spend :: "daily_circuit \<Rightarrow> int \<Rightarrow> instant \<Rightarrow> daily_circuit" where
  "spend d micros now =
     (let d1 = (if (case window_start d of None \<Rightarrow> True | Some s \<Rightarrow> (now - s) div days 1 \<ge> 1)
                then d\<lparr>window_start := Some now, spent_micros := 0, tripped := False\<rparr> else d);
          d2 = d1\<lparr>spent_micros := spent_micros d1 + micros\<rparr>
      in if spent_micros d2 \<ge> daily_ceiling d2 then d2\<lparr>tripped := True\<rparr> else d2)"

definition assert_open :: "daily_circuit \<Rightarrow> budget_error + unit" where
  "assert_open d =
     (if tripped d then Inl (BudgetExceeded ''daily_cost_circuit'' (daily_ceiling d) (spent_micros d))
      else Inr ())"

definition estimate_cost_micros :: "int \<Rightarrow> int \<Rightarrow> int \<Rightarrow> int \<Rightarrow> int" where
  "estimate_cost_micros it ot input_per_million output_per_million =
     (it * input_per_million + ot * output_per_million) div 1000000"

section \<open>The contract of the guard\<close>

text \<open>Only the tests use the guard: no call of a model under src/ is preceded by
  \<open>check\<close> or followed by \<open>record\<close>, so nothing is stated of the calls that are made. What the class offers
  is this: a usage that keeps its ceilings, and a call the guard lets through, give a recorded usage that
  keeps them; the tokens may exceed their ceiling by less than that call's, which are unknown before it.\<close>

definition fresh_usage :: "ref \<Rightarrow> usage" where
  "fresh_usage c = \<lparr>us_conversation = c, calls_this_turn = 0, calls_total = 0, reasoning_calls = 0,
     input_tokens = 0, output_tokens = 0, us_records = []\<rparr>"

definition within_budget :: "budget \<Rightarrow> int \<Rightarrow> usage \<Rightarrow> bool" where
  "within_budget b most u \<longleftrightarrow>
     calls_this_turn u \<le> calls_per_turn b \<and> calls_total u \<le> calls_per_conversation b \<and>
     reasoning_calls u \<le> reasoning_calls_per_conversation b \<and>
     total_tokens u < tokens_per_conversation b + most \<and>
     calls_total u = int (length (us_records u)) \<and>
     reasoning_calls u = int (length (filter (\<lambda>r. ur_tier r = REASONING) (us_records u))) \<and>
     total_tokens u = sum_list (map (\<lambda>r. ur_input_tokens r + ur_output_tokens r) (us_records u))"

theorem checked_call_stays_within:
  assumes "within_budget b most u" and "budget_check b u p = Inr ()" and "it + ot \<le> most"
  shows "within_budget b most (snd (budget_record u p model prompt it ot latency ok back))"
  using assms
  by (auto simp: within_budget_def total_tokens_def budget_record_def budget_check_def Let_def split: if_splits)

lemma new_turn_stays_within:
  assumes "within_budget b most u" and "0 \<le> calls_per_turn b"
  shows "within_budget b most (start_turn u)"
  using assms by (simp add: within_budget_def start_turn_def total_tokens_def)

text \<open>A tripped circuit refuses on any day: only a later spend starts a new window, and \<open>assert_open\<close> has no
  clock.\<close>

theorem tripped_until_spent:
  assumes "tripped d"
  shows "raises (assert_open d)" and "window_start d = Some s \<Longrightarrow> (now - s) div days 1 \<ge> 1 \<Longrightarrow> micros < daily_ceiling d \<Longrightarrow>
      \<not> raises (assert_open (spend d micros now))"
  using assms by (simp_all add: assert_open_def spend_def Let_def)

end
