(* ===== verification/Envelope.thy ===== *)
theory Envelope
  imports Ownership
begin

text \<open>
  contracts/envelope.py: the agent-to-agent envelope, the handoff graph and the loop
  protection that travels in the envelope. The clock and the fresh event id
  (\<open>datetime.now\<close>, \<open>uuid4\<close>) are arguments. A payload is a dict with values of any type.
\<close>

definition MAX_HOPS :: int where
  "MAX_HOPS = 6"

definition ALLOWED_EDGES :: "(agent_id \<times> agent_id) set" where
  "ALLOWED_EDGES =
     {(AG_LEAD_INTAKE, AG_DEMO_COMMAND_CENTER), (AG_TUTOR_MATCH, AG_DEMO_COMMAND_CENTER),
      (AG_DEMO_COMMAND_CENTER, AG_ONBOARDING), (AG_DEMO_COMMAND_CENTER, AG_HUMAN),
      (AG_DEMO_COMMAND_CENTER, AG_WEBSITE), (AG_DEMO_COMMAND_CENTER, AG_NOTIFICATION),
      (AG_DEMO_COMMAND_CENTER, AG_CHITRAGUPTA), (AG_DEMO_COMMAND_CENTER, AG_TUTOR_MATCH)}"

datatype envelope_error =
    EdgeNotAllowed agent_id agent_id
  | LoopDetected string "agent_id list"
  | SelfHandoff agent_id
  | HopRange int
  | TooLong string

definition assert_edge_allowed :: "agent_id \<Rightarrow> agent_id \<Rightarrow> envelope_error + unit" where
  "assert_edge_allowed src dst =
     (if (src, dst) \<notin> ALLOWED_EDGES then Inl (EdgeNotAllowed src dst) else Inr ())"

record 'v envelope =
  en_event_id :: ref
  en_trace_id :: ref
  en_causation_id :: "ref option"
  en_correlation_id :: ref
  source_agent :: agent_id
  destination_agent :: agent_id
  en_event_type :: string
  en_occurred_at :: instant
  en_expires_at :: "instant option"
  en_conversation_ref :: ref
  en_tenant_id :: string
  en_entities :: "(string \<times> ref) list"
  en_purpose :: string
  en_idempotency_key :: string
  hop_count :: int
  visited_agents :: "agent_id list"
  en_payload :: "(string, 'v) odict"

text \<open>The declared field lengths, checked before the validator, in the fields' order.\<close>

definition field_lengths :: "'v envelope \<Rightarrow> (string \<times> string \<times> nat) list" where
  "field_lengths e =
     [(''event_id'', en_event_id e, 128), (''trace_id'', en_trace_id e, 64),
      (''causation_id'', (case en_causation_id e of None \<Rightarrow> [] | Some c \<Rightarrow> c), 128),
      (''correlation_id'', en_correlation_id e, 128), (''event_type'', en_event_type e, 64),
      (''conversation_ref'', en_conversation_ref e, 128), (''tenant_id'', en_tenant_id e, 64),
      (''purpose'', en_purpose e, 64), (''idempotency_key'', en_idempotency_key e, 128)]"

text \<open>\<open>AgentEnvelopeV1(...)\<close>: the field constraints, then \<open>_validate_chain\<close>.\<close>

definition validate_envelope :: "'v envelope \<Rightarrow> envelope_error + 'v envelope" where
  "validate_envelope e =
     (case find (\<lambda>(_, value, limit). limit < length value) (field_lengths e) of
        Some (name, _, _) \<Rightarrow> Inl (TooLong name)
      | None \<Rightarrow>
          if hop_count e < 0 \<or> MAX_HOPS < hop_count e then Inl (HopRange (hop_count e))
          else if MAX_HOPS < hop_count e
            then Inl (LoopDetected ''hop budget exceeded'' (visited_agents e))
          else if source_agent e = destination_agent e then Inl (SelfHandoff (source_agent e))
          else Inr e)"

definition en_expired :: "'v envelope \<Rightarrow> instant \<Rightarrow> bool" where
  "en_expired e now = (case en_expires_at e of None \<Rightarrow> False | Some at \<Rightarrow> now \<ge> at)"

text \<open>\<open>next_hop\<close>: the loop check, the hop budget, the edge, then the new envelope.\<close>

definition next_hop ::
  "'v envelope \<Rightarrow> agent_id \<Rightarrow> string \<Rightarrow> (string, 'v) odict option \<Rightarrow> string option \<Rightarrow>
     ref \<Rightarrow> instant \<Rightarrow> envelope_error + 'v envelope" where
  "next_hop e dst event_type payload purpose fresh_id now =
     (let chain = visited_agents e @ [destination_agent e] in
      if dst \<in> set chain
        then Inl (LoopDetected (agent_value dst @ '' already appears in this chain'') chain)
      else if hop_count e + 1 > MAX_HOPS
        then Inl (LoopDetected ''hop budget exceeded'' chain)
      else and_then (assert_edge_allowed (destination_agent e) dst) (\<lambda>_.
        validate_envelope
          \<lparr>en_event_id = fresh_id, en_trace_id = en_trace_id e,
           en_causation_id = Some (en_event_id e), en_correlation_id = en_correlation_id e,
           source_agent = destination_agent e, destination_agent = dst,
           en_event_type = event_type, en_occurred_at = now, en_expires_at = None,
           en_conversation_ref = en_conversation_ref e, en_tenant_id = en_tenant_id e,
           en_entities = en_entities e,
           en_purpose = (case purpose of None \<Rightarrow> en_purpose e
                         | Some p \<Rightarrow> if p = [] then en_purpose e else p),
           en_idempotency_key = en_idempotency_key e @ '':'' @ agent_value dst,
           hop_count = hop_count e + 1, visited_agents = chain,
           en_payload = (case payload of None \<Rightarrow> [] | Some p \<Rightarrow> p)\<rparr>))"

definition root_envelope ::
  "ref \<Rightarrow> ref \<Rightarrow> ref \<Rightarrow> agent_id \<Rightarrow> agent_id \<Rightarrow> string \<Rightarrow> string \<Rightarrow> string \<Rightarrow>
     (string, 'v) odict option \<Rightarrow> (string \<times> ref) list \<Rightarrow> instant option \<Rightarrow> ref \<Rightarrow> instant \<Rightarrow>
     envelope_error + 'v envelope" where
  "root_envelope trace correlation conversation src dst event_type purpose key payload entities
     expires fresh_id now =
     and_then (assert_edge_allowed src dst) (\<lambda>_.
       validate_envelope
         \<lparr>en_event_id = fresh_id, en_trace_id = trace, en_causation_id = None,
          en_correlation_id = correlation, source_agent = src, destination_agent = dst,
          en_event_type = event_type, en_occurred_at = now, en_expires_at = expires,
          en_conversation_ref = conversation, en_tenant_id = ''nxtutors'',
          en_entities = entities, en_purpose = purpose, en_idempotency_key = key,
          hop_count = 0, visited_agents = [src],
          en_payload = (case payload of None \<Rightarrow> [] | Some p \<Rightarrow> p)\<rparr>)"

section \<open>Chains\<close>

text \<open>The envelopes that exist: a root, and what \<open>next_hop\<close> makes of one.\<close>

inductive in_chain :: "'v envelope \<Rightarrow> 'v envelope \<Rightarrow> bool" where
  root: "root_envelope tr co cv src dst et pu key pl en ex i now = Inr e \<Longrightarrow> in_chain e e"
| hop: "in_chain r e \<Longrightarrow> next_hop e dst et pl pu i now = Inr e' \<Longrightarrow> in_chain r e'"

lemma validate_envelope_Inr:
  "validate_envelope e = Inr e' \<Longrightarrow>
     e' = e \<and> 0 \<le> hop_count e \<and> hop_count e \<le> MAX_HOPS \<and> source_agent e \<noteq> destination_agent e \<and>
     length (en_idempotency_key e) \<le> 128"
  by (auto simp: validate_envelope_def field_lengths_def split: option.splits if_splits)

lemma edge_allowed [simp]: "assert_edge_allowed s d = Inr u \<longleftrightarrow> (s, d) \<in> ALLOWED_EDGES"
  by (auto simp: assert_edge_allowed_def)

definition chain_ok :: "'v envelope \<Rightarrow> bool" where
  "chain_ok e \<longleftrightarrow>
     distinct (visited_agents e @ [destination_agent e]) \<and>
     hop_count e = int (length (visited_agents e)) - 1 \<and>
     visited_agents e \<noteq> [] \<and> last (visited_agents e) = source_agent e \<and>
     (source_agent e, destination_agent e) \<in> ALLOWED_EDGES \<and>
     (2 \<le> length (visited_agents e) \<longrightarrow> source_agent e = AG_DEMO_COMMAND_CENTER)"

lemma edges_meet_at_demo:
  "(a, b) \<in> ALLOWED_EDGES \<Longrightarrow> (b, c) \<in> ALLOWED_EDGES \<Longrightarrow> c \<noteq> a \<Longrightarrow> b = AG_DEMO_COMMAND_CENTER"
  by (auto simp: ALLOWED_EDGES_def)

lemma no_self_edge: "(a, a) \<notin> ALLOWED_EDGES"
  by (auto simp: ALLOWED_EDGES_def)

lemma next_hop_chain_ok [inv_intros]:
  assumes "chain_ok e" and "next_hop e dst et pl pu i now = Inr e'"
  shows "chain_ok e'"
proof -
  let ?chain = "visited_agents e @ [destination_agent e]"
  have new: "dst \<notin> set ?chain" "(destination_agent e, dst) \<in> ALLOWED_EDGES"
    "visited_agents e' = ?chain" "source_agent e' = destination_agent e"
    "destination_agent e' = dst" "hop_count e' = hop_count e + 1"
    using assms(2) by (auto simp: next_hop_def Let_def split: if_splits dest!: validate_envelope_Inr)
  have "source_agent e \<in> set (visited_agents e)"
    using assms(1) by (metis chain_ok_def last_in_set)
  then have "destination_agent e = AG_DEMO_COMMAND_CENTER"
    using assms(1) new(1,2) edges_meet_at_demo [of "source_agent e" "destination_agent e" dst]
    by (auto simp: chain_ok_def)
  with assms(1) new show ?thesis by (auto simp: chain_ok_def)
qed

lemma in_chain_ok: "in_chain r e \<Longrightarrow> chain_ok e"
proof (induction rule: in_chain.induct)
  case (root tr co cv src dst et pu key pl en ex i now e)
  then show ?case
    using no_self_edge [of src]
    by (auto simp: root_envelope_def chain_ok_def dest!: validate_envelope_Inr)
next
  case (hop r e dst et pl pu i now e')
  then show ?case by (blast intro: next_hop_chain_ok)
qed

text \<open>
  (C24) Along every handoff chain, from a root envelope through any hops, no agent is
  visited twice, every hop follows an allowed edge, the hop counter is the number of
  agents visited less one, and the idempotency key stays within its column. Only the Demo
  agent can pass a chain on, so a chain ends after its second hop at the latest and the
  hop budget of six is never what stops it.
\<close>

theorem chains_never_loop:
  assumes "in_chain r e"
  shows "distinct (visited_agents e @ [destination_agent e]) \<and>
         (source_agent e, destination_agent e) \<in> ALLOWED_EDGES \<and>
         hop_count e = int (length (visited_agents e)) - 1 \<and> hop_count e \<le> 1 \<and>
         (hop_count e = 1 \<longrightarrow> raises (next_hop e dst et pl pu i now))"
proof -
  have ok: "chain_ok e" using assms by (rule in_chain_ok)
  have last_hop: "raises (next_hop e dst et pl pu i now)" if two: "2 \<le> length (visited_agents e)"
  proof (rule ccontr)
    assume "\<not> raises (next_hop e dst et pl pu i now)"
    then obtain e' where e': "next_hop e dst et pl pu i now = Inr e'"
      by (auto simp: not_raises_iff)
    have "source_agent e' = AG_DEMO_COMMAND_CENTER"
      using next_hop_chain_ok [OF ok e'] e' two
      by (auto simp: chain_ok_def next_hop_def Let_def split: if_splits dest!: validate_envelope_Inr)
    moreover have "source_agent e' = destination_agent e"
      using e' by (auto simp: next_hop_def Let_def split: if_splits dest!: validate_envelope_Inr)
    ultimately show False
      using ok two no_self_edge by (auto simp: chain_ok_def)
  qed
  have "length (visited_agents e) \<le> 2"
    using assms
  proof cases
    case (root tr co cv src dst et pu key pl en ex i now)
    then show ?thesis by (auto simp: root_envelope_def dest!: validate_envelope_Inr)
  next
    case (hop e0 dst et pl pu i now)
    note h = \<open>next_hop e0 dst et pl pu i now = Inr e\<close>
    have "\<not> 2 \<le> length (visited_agents e0)"
    proof
      assume two: "2 \<le> length (visited_agents e0)"
      have ok0: "chain_ok e0" using hop by (blast intro: in_chain_ok)
      have "source_agent e0 = AG_DEMO_COMMAND_CENTER" using ok0 two by (simp add: chain_ok_def)
      moreover have "source_agent e = destination_agent e0" "2 \<le> length (visited_agents e)"
        using h two by (auto simp: next_hop_def Let_def split: if_splits dest!: validate_envelope_Inr)
      ultimately show False
        using ok ok0 no_self_edge by (auto simp: chain_ok_def)
    qed
    then show ?thesis
      using h by (auto simp: next_hop_def Let_def split: if_splits dest!: validate_envelope_Inr)
  qed
  with ok last_hop show ?thesis by (auto simp: chain_ok_def)
qed

theorem chains_never_loop_witness:
  "\<exists>r e :: int envelope. in_chain r e \<and> hop_count e = 1 \<and>
     distinct (visited_agents e @ [destination_agent e])"
proof -
  obtain r :: "int envelope" where r: "root_envelope ''t'' ''c'' ''v'' AG_LEAD_INTAKE
      AG_DEMO_COMMAND_CENTER ''demo'' ''demo'' ''k'' None [] None ''e1'' 0 = Inr r"
      "visited_agents r = [AG_LEAD_INTAKE]" "destination_agent r = AG_DEMO_COMMAND_CENTER"
      "hop_count r = 0" "en_idempotency_key r = ''k''" "en_causation_id r = None"
      "field_lengths r = [(''event_id'', ''e1'', 128), (''trace_id'', ''t'', 64),
        (''causation_id'', [], 128), (''correlation_id'', ''c'', 128), (''event_type'', ''demo'', 64),
        (''conversation_ref'', ''v'', 128), (''tenant_id'', ''nxtutors'', 64),
        (''purpose'', ''demo'', 64), (''idempotency_key'', ''k'', 128)]"
    by (simp add: root_envelope_def validate_envelope_def field_lengths_def ALLOWED_EDGES_def
        MAX_HOPS_def)
  then obtain e where e: "next_hop r AG_TUTOR_MATCH ''match'' None None ''e2'' 1 = Inr e"
      "hop_count e = 1"
    by (auto simp: next_hop_def validate_envelope_def field_lengths_def ALLOWED_EDGES_def
        MAX_HOPS_def)
  have "in_chain r e" using in_chain.hop [OF in_chain.root [OF r(1)] e(1)] .
  from chains_never_loop [OF this] this e(2) show ?thesis by blast
qed

end
