(* ===== verification/Orchestrator.thy ===== *)
theory Orchestrator
  imports Commands
begin

text \<open>
  One event, one turn: orchestration/orchestrator.py over the in-memory repositories. \<open>handle\<close> claims
  the event's key, loads, assembles the facts, fires the machine, saves under the optimistic lock, runs
  the command and flushes the queued messages through the one boundary; a lost save is tried again.
  What other workers do between the load and a save is an argument (\<open>meanwhile\<close>), applied to the world
  before each of the two saves of an attempt. The clock is read once per turn.
\<close>

section \<open>Events and results\<close>

record turn_event =
  te_conversation :: ref
  te_trigger :: trigger
  te_actor :: actor
  te_event_id :: string
  te_payload :: payload
  te_trace :: ref
  te_causation :: "ref option"

record turn_result =
  rs_state :: demo_state
  rs_accepted :: bool
  rs_duplicate :: bool
  rs_rejected_reason :: string
  rs_command :: command
  rs_messages_sent :: nat
  rs_degraded :: "string list"
  rs_reply :: "string option"

definition plain_result :: "demo_state \<Rightarrow> turn_result" where
  "plain_result s = \<lparr>rs_state = s, rs_accepted = False, rs_duplicate = False, rs_rejected_reason = '''',
     rs_command = NONE, rs_messages_sent = 0, rs_degraded = [], rs_reply = None\<rparr>"

definition MAX_CONFLICT_RETRIES :: nat where "MAX_CONFLICT_RETRIES = 3"

text \<open>What leaves an attempt: a conflict, which is tried again, or another exception, which is not caught.\<close>

definition conflict_text :: "conflict \<Rightarrow> string" where
  "conflict_text e = (case e of ConcurrencyConflict c expected actual \<Rightarrow>
     ''conversation '' @ c @ '' moved from version '' @ show_int expected @ '' to '' @ show_int actual)"

datatype interruption = Conflicted conflict | Raised string

type_synonym 'c meanwhile = "nat \<Rightarrow> 'c world \<Rightarrow> 'c world"

section \<open>Facts from the payload\<close>

definition PAYLOAD_FACT_ALLOWLIST :: "string set" where
  "PAYLOAD_FACT_ALLOWLIST =
     {''signature_verified'', ''amount_matches_order'', ''order_belongs_to_conversation'',
      ''grace_period_elapsed'', ''evidence_source'', ''subscription_ref''}"

text \<open>A slot is an object and so true, and equal to no text a guard compares with.\<close>

fun as_fact :: "payload_value \<Rightarrow> fact_value" where
  "as_fact (PFact v) = v"
| "as_fact (PSlot _) = FBool True"

definition payload_facts :: "payload \<Rightarrow> facts" where
  "payload_facts p = (\<lambda>k. if k \<in> PAYLOAD_FACT_ALLOWLIST then map_option as_fact (p k) else None)"

definition selection_facts :: "'c services \<Rightarrow> payload \<Rightarrow> match_candidate list \<Rightarrow> facts \<Rightarrow> facts" where
  "selection_facts sv p cs f =
     (let sel = resolve_selection (text_payload sv p ''text'') cs
                  (let b = text_payload sv p ''button_id'' in if b = '''' then None else Some b)
      in f(''tutor_ref'' \<mapsto> fact_opt (map_option mc_tutor_ref (sel_candidate sel)),
           ''tutor_in_snapshot'' \<mapsto> FBool (sel_candidate sel \<noteq> None),
           ''selection_reason'' \<mapsto> FStr (sel_reason sel)))"

definition turn_facts :: "'c services \<Rightarrow> turn_event \<Rightarrow> instant \<Rightarrow> 'c world \<Rightarrow> facts" where
  "turn_facts sv e now w =
     (let c = te_conversation e;
          f = assemble_facts w c now (sn_facts (mem_load (wd_convs w) c)) ++ payload_facts (te_payload e)
      in if te_trigger e = TUTOR_CHOSEN
         then selection_facts sv (te_payload e) (load_candidates (wd_demos w) c) f else f)"

section \<open>Ownership\<close>

definition on_convs :: "(mem_convs \<Rightarrow> mem_convs) \<Rightarrow> 'c world \<Rightarrow> 'c world" where
  "on_convs f w = w\<lparr>wd_convs := f (wd_convs w)\<rparr>"

definition ensure_ownership ::
  "trigger \<Rightarrow> ownership \<Rightarrow> instant \<Rightarrow> 'c world \<Rightarrow> (string + ownership \<times> string list) \<times> 'c world" where
  "ensure_ownership tr ow now w =
     (if tr = HANDOFF_RECEIVED
      then (case acquire ow now None of
              Inl _ \<Rightarrow> (Inl ''OwnershipError'', w)
            | Inr taken \<Rightarrow> (Inr (taken, []), on_convs (\<lambda>s. mem_save_ownership s taken) w))
      else (Inr (ow, if ow_owner ow = SELF then [] else [''not_owner:'' @ owner_value (ow_owner ow)]), w))"

section \<open>Sending what was queued\<close>

fun send_outcome_value :: "send_outcome \<Rightarrow> string" where
  "send_outcome_value SENT = ''sent''"
| "send_outcome_value DUPLICATE = ''duplicate''"
| "send_outcome_value SUPPRESSED_NOT_OWNER = ''suppressed_not_owner''"
| "send_outcome_value SUPPRESSED_STATE = ''suppressed_state''"
| "send_outcome_value SUPPRESSED_OPT_OUT = ''suppressed_opt_out''"
| "send_outcome_value SUPPRESSED_QUIET_HOURS = ''suppressed_quiet_hours''"
| "send_outcome_value SUPPRESSED_RATE_LIMIT = ''suppressed_rate_limit''"
| "send_outcome_value SUPPRESSED_EXPIRED = ''suppressed_expired''"
| "send_outcome_value SUPPRESSED_NO_TEMPLATE = ''suppressed_no_template''"
| "send_outcome_value SUPPRESSED_GUARDRAIL = ''suppressed_guardrail''"
| "send_outcome_value SEND_FAILED = ''failed''"

definition reading_of :: "'c world \<Rightarrow> reading" where
  "reading_of w = \<lparr>rd_ownership = mem_load_ownership (wd_convs w), rd_snapshot = mem_load (wd_convs w),
     rd_last_inbound = mem_last_inbound_at (wd_convs w)\<rparr>"

definition send_one ::
  "'c services \<Rightarrow> instant \<Rightarrow> outbound_message \<Rightarrow> 'c world \<Rightarrow> (boundary_error + send_result) \<times> 'c world" where
  "send_one sv now m w =
     (let (r, st) = send mem_claim_send mem_record_result (sv_boundary sv) (reading_of w) (sv_directory sv) (sv_sender sv)
                      (wd_sending w) m now
      in (r, w\<lparr>wd_sending := st\<rparr>))"

definition error_name :: "py_error \<Rightarrow> string" where
  "error_name e = (case e of ValueError _ \<Rightarrow> ''ValueError'' | ValidationError _ \<Rightarrow> ''ValidationError''
     | CurrencyMismatch _ _ \<Rightarrow> ''CurrencyMismatch'')"

definition boundary_raise :: "boundary_error \<Rightarrow> string" where
  "boundary_raise e = (case e of GuardRaised _ \<Rightarrow> ''ValueError'' | LimiterRaised x \<Rightarrow> error_name x)"

fun flush_queue :: "'c services \<Rightarrow> outbound_message list \<Rightarrow> nat \<Rightarrow> (nat, 'c) act" where
  "flush_queue sv [] sent t = (Inr sent, t\<lparr>tn_outbox := []\<rparr>)"
| "flush_queue sv (m # ms) sent t =
     (let (r, w) = send_one sv (tn_now t) m (tn_world t); t' = t\<lparr>tn_world := w\<rparr>
      in case r of
           Inl e \<Rightarrow> (Inl (boundary_raise e), t')
         | Inr res \<Rightarrow>
             if delivered res then flush_queue sv ms (sent + 1) t'
             else if suppressed res then flush_queue sv ms sent (degrade (send_outcome_value (sr_outcome res)) t')
             else flush_queue sv ms sent t')"

definition flush :: "'c services \<Rightarrow> (nat, 'c) act" where
  "flush sv t = flush_queue sv (tn_outbox t) 0 t"

section \<open>The command, and what follows its failure\<close>

definition compensate :: "'c services \<Rightarrow> transition_result \<Rightarrow> 'c turn \<Rightarrow> 'c turn" where
  "compensate sv r t =
     (if tr_compensation r = NONE then t
      else case execute sv (tr_compensation r) Map.empty t of
        (Inl _, t') \<Rightarrow> degrade (''compensation_failed:'' @ command_value (tr_compensation r)) t'
      | (Inr _, t') \<Rightarrow> t')"

definition fire_internal ::
  "'c services \<Rightarrow> 'c meanwhile \<Rightarrow> trigger \<Rightarrow> 'c turn \<Rightarrow> (conflict + unit) \<times> 'c turn" where
  "fire_internal sv meanwhile tr t =
     (case fire (mem_load (wd_convs (tn_world t)) (tn_conversation t)) tr SYSTEM (tn_facts t) of
        Inl _ \<Rightarrow> (Inr (), t)
      | Inr r \<Rightarrow>
          (let w = meanwhile 1 (tn_world t); ulid = sv_fresh sv ''ulid'' (wd_seq w);
               (saved, s) = mem_save_transition (wd_convs w) r (tn_now t) ulid (Some (tn_facts t));
               w' = w\<lparr>wd_convs := s, wd_seq := wd_seq w + 1\<rparr>
           in case saved of
                Inl e \<Rightarrow> (Inl e, t\<lparr>tn_world := w'\<rparr>)
              | Inr sn \<Rightarrow> (Inr (), t\<lparr>tn_world := w', tn_snapshot := sn\<rparr>)))"

definition run_command ::
  "'c services \<Rightarrow> 'c meanwhile \<Rightarrow> transition_result \<Rightarrow> payload \<Rightarrow> 'c turn \<Rightarrow> (conflict + command_outcome) \<times> 'c turn" where
  "run_command sv meanwhile r p t =
     (if tr_command r = NONE then (Inr went_well, t)
      else
        let (res, t1) = execute sv (tr_command r) p t;
            outcome = (case res of Inl e \<Rightarrow> gone_wrong (''command_error:'' @ e) | Inr o' \<Rightarrow> o')
        in if co_failed outcome
           then (case fire_internal sv meanwhile RECOVERABLE_FAILURE (compensate sv r t1) of
                   (Inl e, t2) \<Rightarrow> (Inl e, t2)
                 | (Inr _, t2) \<Rightarrow> (Inr outcome, t2))
           else (Inr outcome, t1))"

definition apply_transfer :: "command_outcome \<Rightarrow> (unit, 'c) act" where
  "apply_transfer o' t =
     (case (if ow_owner (tn_ownership t) = SELF then co_transfer o' else None) of
        None \<Rightarrow> (Inr (), t)
      | Some to \<Rightarrow>
          (case transfer (tn_ownership t) to (tn_now t) (Some DEFAULT_LEASE) of
             Inl _ \<Rightarrow> (Inl ''OwnershipError'', t)
           | Inr moved \<Rightarrow> (Inr (), (in_world (on_convs (\<lambda>s. mem_save_ownership s moved)) t)\<lparr>tn_ownership := moved\<rparr>)))"

section \<open>One pass\<close>

definition rejection_row :: "turn_event \<Rightarrow> rejection \<Rightarrow> instant \<Rightarrow> audit_row" where
  "rejection_row e rj now =
     \<lparr>au_conversation = te_conversation e, au_event = ''transition_rejected'', au_state = state_value (rj_state rj),
      au_trigger = trigger_value (te_trigger e), au_actor = actor_value (te_actor e), au_reason = rj_reason rj,
      au_occurred_at = now\<rparr>"

definition new_turn ::
  "turn_event \<Rightarrow> instant \<Rightarrow> snapshot \<Rightarrow> ownership \<Rightarrow> facts \<Rightarrow> string list \<Rightarrow> 'c world \<Rightarrow> 'c turn" where
  "new_turn e now sn ow f degraded w =
     \<lparr>tn_conversation = te_conversation e, tn_trace = te_trace e, tn_now = now, tn_snapshot = sn, tn_ownership = ow,
      tn_trigger = Some (te_trigger e), tn_causation = te_causation e, tn_facts = f, tn_outbox = [],
      tn_degraded = degraded, tn_world = w\<rparr>"

definition finish ::
  "'c services \<Rightarrow> transition_result \<Rightarrow> (conflict + command_outcome) \<times> 'c turn \<Rightarrow> (interruption + turn_result) \<times> 'c world" where
  "finish sv r ended =
     (case ended of
        (Inl cf, t) \<Rightarrow> (Inl (Conflicted cf), tn_world t)
      | (Inr outcome, t) \<Rightarrow>
          (case flush sv t of
             (Inl e, t') \<Rightarrow> (Inl (Raised e), tn_world t')
           | (Inr sent, t') \<Rightarrow>
               (case apply_transfer outcome t' of
                  (Inl e, t'') \<Rightarrow> (Inl (Raised e), tn_world t'')
                | (Inr _, t'') \<Rightarrow>
                    (Inr \<lparr>rs_state = sn_state (tn_snapshot t''), rs_accepted = True, rs_duplicate = False,
                          rs_rejected_reason = co_reason outcome, rs_command = tr_command r, rs_messages_sent = sent,
                          rs_degraded = first_of_each (tn_degraded t''), rs_reply = co_reply outcome\<rparr>,
                     tn_world t''))))"

definition attempt ::
  "'c services \<Rightarrow> 'c meanwhile \<Rightarrow> turn_event \<Rightarrow> instant \<Rightarrow> 'c world \<Rightarrow> (interruption + turn_result) \<times> 'c world" where
  "attempt sv meanwhile e now w =
     (let c = te_conversation e; sn = mem_load (wd_convs w) c; f = turn_facts sv e now w
      in case fire sn (te_trigger e) (te_actor e) f of
           Inl rj \<Rightarrow>
             (Inr ((plain_result (sn_state sn))\<lparr>rs_rejected_reason := rj_reason rj\<rparr>),
              w\<lparr>wd_audit := wd_audit w @ [rejection_row e rj now]\<rparr>)
         | Inr r \<Rightarrow>
             (case ensure_ownership (te_trigger e) (mem_load_ownership (wd_convs w) c now) now w of
                (Inl err, w1) \<Rightarrow> (Inl (Raised err), w1)
              | (Inr (ow, degraded), w1) \<Rightarrow>
                  (let w2 = meanwhile 0 w1; ulid = sv_fresh sv ''ulid'' (wd_seq w2);
                       (saved, s) = mem_save_transition (wd_convs w2) r now ulid (Some f);
                       w3 = w2\<lparr>wd_convs := s, wd_seq := wd_seq w2 + 1\<rparr>
                   in case saved of
                        Inl cf \<Rightarrow> (Inl (Conflicted cf), w3)
                      | Inr sn' \<Rightarrow>
                          finish sv r (run_command sv meanwhile r (te_payload e) (new_turn e now sn' ow f degraded w3)))))"

fun attempts ::
  "'c services \<Rightarrow> (nat \<Rightarrow> 'c meanwhile) \<Rightarrow> turn_event \<Rightarrow> instant \<Rightarrow> nat \<Rightarrow> string \<Rightarrow> 'c world
   \<Rightarrow> (string + turn_result) \<times> 'c world" where
  "attempts sv meanwhile e now 0 last_error w =
     (Inr ((plain_result (sn_state (mem_load (wd_convs w) (te_conversation e))))
             \<lparr>rs_rejected_reason := take 200 (''concurrency_conflict:'' @ last_error)\<rparr>), w)"
| "attempts sv meanwhile e now (Suc n) last_error w =
     (case attempt sv (meanwhile n) e now w of
        (Inl (Conflicted cf), w') \<Rightarrow> attempts sv meanwhile e now n (conflict_text cf) w'
      | (Inl (Raised err), w') \<Rightarrow> (Inl err, w')
      | (Inr res, w') \<Rightarrow> (Inr res, w'))"

section \<open>The entry points\<close>

definition turn_key :: "'c services \<Rightarrow> turn_event \<Rightarrow> string" where
  "turn_key sv e = key_of sv [''turn'', te_conversation e, te_event_id e, trigger_value (te_trigger e)]"

definition handle ::
  "'c services \<Rightarrow> (nat \<Rightarrow> 'c meanwhile) \<Rightarrow> turn_event \<Rightarrow> instant \<Rightarrow> 'c world \<Rightarrow> (string + turn_result) \<times> 'c world" where
  "handle sv meanwhile e now w =
     (let (won, idem) = mem_idem_claim (wd_idem w) (''inbound'', turn_key sv e) now (sv_ttl_seconds sv);
          w' = w\<lparr>wd_idem := idem\<rparr>
      in if \<not> won
         then (Inr ((plain_result (sn_state (mem_load (wd_convs w) (te_conversation e))))\<lparr>rs_accepted := True, rs_duplicate := True\<rparr>), w')
         else attempts sv meanwhile e now MAX_CONFLICT_RETRIES '''' w')"

definition release :: "ref \<Rightarrow> owner \<Rightarrow> instant \<Rightarrow> 'c world \<Rightarrow> (string + ownership) \<times> 'c world" where
  "release c to now w =
     (let current = mem_load_ownership (wd_convs w) c now
      in if ow_owner current \<noteq> SELF then (Inl (''cannot transfer: owned by '' @ owner_value (ow_owner current)), w)
         else case transfer current to now (Some DEFAULT_LEASE) of
           Inl e \<Rightarrow> (Inl e, w)
         | Inr moved \<Rightarrow> (Inr moved, on_convs (\<lambda>s. mem_save_ownership s moved) w))"

definition start_conversation :: "ref \<Rightarrow> instant \<Rightarrow> 'c world \<Rightarrow> (string + ownership) \<times> 'c world" where
  "start_conversation c now w =
     (let current = mem_load_ownership (wd_convs w) c now
      in if ow_owner current = SELF then (Inr current, w)
         else case acquire current now None of
           Inl e \<Rightarrow> (Inl e, w)
         | Inr taken \<Rightarrow> (Inr taken, on_convs (\<lambda>s. mem_save_ownership s taken) w))"

end
