(* ===== verification/Resilience.thy ===== *)
theory Resilience
  imports Ports Urls Complex_Main
begin

text \<open>
  resilience/: the error taxonomy with its retry policy and dispositions (errors.py), the circuit
  breaker (circuit.py), the breakers of all providers with their kill switches (providers.py), the
  request loop of the one HTTP client (http.py), and the batch loop of the capability workers that
  reads the dispositions (handlers/capabilities.py). A float of seconds is a real or, on the
  monotonic clock, a number of microseconds; the answers of the network are arguments.
\<close>

section \<open>Error classes\<close>

datatype error_class =
  EC_VALIDATION | EC_AUTHENTICATION | EC_AUTHORIZATION | EC_CONFLICT | EC_DUPLICATE | EC_RATE_LIMIT
| EC_TIMEOUT | EC_TRANSIENT_PROVIDER | EC_PERMANENT_PROVIDER | EC_DATABASE_TRANSIENT
| EC_BUSINESS_POLICY | EC_CIRCUIT_OPEN | EC_UNKNOWN

definition RETRYABLE :: "error_class set" where
  "RETRYABLE = {EC_RATE_LIMIT, EC_TIMEOUT, EC_TRANSIENT_PROVIDER, EC_DATABASE_TRANSIENT,
     EC_CIRCUIT_OPEN, EC_UNKNOWN}"

definition NEEDS_HUMAN :: "error_class set" where
  "NEEDS_HUMAN = {EC_CONFLICT, EC_BUSINESS_POLICY, EC_AUTHORIZATION}"

definition BENIGN :: "error_class set" where
  "BENIGN = {EC_DUPLICATE}"

datatype disposition = DP_SUCCESS | DP_RETRY | DP_DEAD_LETTER | DP_HUMAN_REVIEW | DP_TERMINAL_FAILURE

record retry_policy =
  max_attempts :: int
  base_seconds :: real
  max_seconds :: real

definition default_retry_policy :: retry_policy where
  "default_retry_policy = \<lparr>max_attempts = 3, base_seconds = 1 / 4, max_seconds = 20\<rparr>"

definition should_retry :: "retry_policy \<Rightarrow> error_class \<Rightarrow> int \<Rightarrow> bool" where
  "should_retry p c attempt \<longleftrightarrow> c \<in> RETRYABLE \<and> attempt < max_attempts p"

text \<open>\<open>delay_for\<close>: the roll of the dice is an argument, between zero and one.\<close>

definition delay_for :: "retry_policy \<Rightarrow> nat \<Rightarrow> real option \<Rightarrow> real \<Rightarrow> real" where
  "delay_for p attempt retry_after roll =
     (case retry_after of
        Some s \<Rightarrow> if s > 0 then min s (max_seconds p)
                  else min (base_seconds p * 2 ^ attempt) (max_seconds p) * roll
      | None \<Rightarrow> min (base_seconds p * 2 ^ attempt) (max_seconds p) * roll)"

text \<open>The exceptions \<open>classify\<close> tells apart; a provider's failure with its HTTP status.\<close>

datatype exc =
    SignatureExc | OwnershipExc | TutorSelectionExc | RateLimitedExc | CircuitOpenExc
  | SlotConflictExc | ConcurrencyExc | ReconciliationExc | TransitionExc
  | ProviderExc provider_error "int option"
  | ValueExc | TypeExc | KeyExc | OtherExc string

definition classify_status :: "int option \<Rightarrow> error_class" where
  "classify_status status =
     (let s = (case status of None \<Rightarrow> 0 | Some n \<Rightarrow> n)
      in if s = 401 then EC_AUTHENTICATION
         else if s = 403 then EC_AUTHORIZATION
         else if s = 409 then EC_CONFLICT
         else if s = 429 then EC_RATE_LIMIT
         else if 400 \<le> s \<and> s < 500 then EC_PERMANENT_PROVIDER
         else EC_TRANSIENT_PROVIDER)"

fun classify :: "exc \<Rightarrow> error_class" where
  "classify SignatureExc = EC_AUTHENTICATION"
| "classify OwnershipExc = EC_AUTHORIZATION"
| "classify TutorSelectionExc = EC_AUTHORIZATION"
| "classify RateLimitedExc = EC_RATE_LIMIT"
| "classify CircuitOpenExc = EC_CIRCUIT_OPEN"
| "classify SlotConflictExc = EC_CONFLICT"
| "classify ConcurrencyExc = EC_CONFLICT"
| "classify ReconciliationExc = EC_VALIDATION"
| "classify TransitionExc = EC_BUSINESS_POLICY"
| "classify (ProviderExc e status) =
     (if px_class e = ''ProviderTimeout'' then EC_TIMEOUT
      else if px_class e = ''ProviderUnavailable'' then EC_TRANSIENT_PROVIDER
      else if px_class e = ''ProviderRejected'' then classify_status status
      else if px_retryable e then EC_TRANSIENT_PROVIDER else EC_PERMANENT_PROVIDER)"
| "classify ValueExc = EC_VALIDATION"
| "classify TypeExc = EC_VALIDATION"
| "classify KeyExc = EC_VALIDATION"
| "classify (OtherExc name) = EC_UNKNOWN"

definition disposition_for :: "error_class \<Rightarrow> int \<Rightarrow> retry_policy \<Rightarrow> disposition" where
  "disposition_for c attempt p =
     (if c \<in> BENIGN then DP_SUCCESS
      else if c \<in> NEEDS_HUMAN then DP_HUMAN_REVIEW
      else if should_retry p c attempt then DP_RETRY
      else if c \<in> RETRYABLE then DP_DEAD_LETTER
      else DP_TERMINAL_FAILURE)"

record attempt_outcome =
  ao_class :: error_class
  ao_disposition :: disposition
  ao_attempt :: int

definition alarm_worthy :: "attempt_outcome \<Rightarrow> bool" where
  "alarm_worthy a \<longleftrightarrow> ao_disposition a \<in> {DP_DEAD_LETTER, DP_HUMAN_REVIEW, DP_TERMINAL_FAILURE}"

definition evaluate_failure :: "exc \<Rightarrow> int \<Rightarrow> retry_policy \<Rightarrow> attempt_outcome" where
  "evaluate_failure e attempt p =
     \<lparr>ao_class = classify e, ao_disposition = disposition_for (classify e) attempt p, ao_attempt = attempt\<rparr>"

section \<open>The batch loop of a capability worker\<close>

text \<open>A record of the queue: its message id and, when it parses, the event with the attempt number its
  body carries. What the handler does with it, and what opening a human case does, are arguments.
  Exceptions of the handler are caught; one raised while a case is opened is not, and ends the batch.\<close>

record 'e queued =
  qd_id :: string
  qd_event :: "('e \<times> int) option"

record 'e batch_effects =
  be_failures :: "string list"
  be_cases :: "'e list"

fun batch :: "('e \<Rightarrow> exc + unit) \<Rightarrow> ('e \<Rightarrow> exc + unit) \<Rightarrow> retry_policy \<Rightarrow> 'e queued list
    \<Rightarrow> 'e batch_effects \<Rightarrow> exc + 'e batch_effects" where
  "batch handler raise_case p [] fx = Inr fx"
| "batch handler raise_case p (q # qs) fx =
     (case qd_event q of
        None \<Rightarrow> batch handler raise_case p qs fx
      | Some (e, attempt) \<Rightarrow>
          (case handler e of
             Inr _ \<Rightarrow> batch handler raise_case p qs fx
           | Inl error \<Rightarrow>
               (case ao_disposition (evaluate_failure error attempt p) of
                  DP_RETRY \<Rightarrow>
                    batch handler raise_case p qs (fx\<lparr>be_failures := be_failures fx @ [qd_id q]\<rparr>)
                | DP_HUMAN_REVIEW \<Rightarrow>
                    and_then (raise_case e) (\<lambda>_.
                      batch handler raise_case p qs (fx\<lparr>be_cases := be_cases fx @ [e]\<rparr>))
                | _ \<Rightarrow> batch handler raise_case p qs fx)))"

section \<open>The circuit breaker\<close>

datatype circuit_state = CIRCUIT_CLOSED | CIRCUIT_OPEN | CIRCUIT_HALF_OPEN

record breaker =
  cb_name :: string
  failure_threshold :: int
  reset_after :: duration
  half_open_probes :: int
  cb_state :: circuit_state
  cb_failures :: int
  opened_at :: instant
  probes_in_flight :: int

definition new_breaker :: "string \<Rightarrow> int \<Rightarrow> duration \<Rightarrow> int \<Rightarrow> breaker" where
  "new_breaker name threshold reset probes =
     \<lparr>cb_name = name, failure_threshold = threshold, reset_after = reset, half_open_probes = probes,
      cb_state = CIRCUIT_CLOSED, cb_failures = 0, opened_at = 0, probes_in_flight = 0\<rparr>"

text \<open>\<open>before_call\<close> raises with the time to wait, after any change it has already made.\<close>

definition before_call :: "breaker \<Rightarrow> instant \<Rightarrow> (duration + unit) \<times> breaker" where
  "before_call b now =
     (if cb_state b = CIRCUIT_CLOSED then (Inr (), b)
      else if cb_state b = CIRCUIT_OPEN \<and> now - opened_at b < reset_after b
        then (Inl (reset_after b - (now - opened_at b)), b)
      else
        let b' = (if cb_state b = CIRCUIT_OPEN
                  then b\<lparr>cb_state := CIRCUIT_HALF_OPEN, probes_in_flight := 0\<rparr> else b)
        in if probes_in_flight b' \<ge> half_open_probes b' then (Inl (reset_after b'), b')
           else (Inr (), b'\<lparr>probes_in_flight := probes_in_flight b' + 1\<rparr>))"

definition record_success :: "breaker \<Rightarrow> breaker" where
  "record_success b = b\<lparr>cb_state := CIRCUIT_CLOSED, cb_failures := 0, probes_in_flight := 0\<rparr>"

definition record_failure :: "breaker \<Rightarrow> instant \<Rightarrow> breaker" where
  "record_failure b now =
     (let b' = b\<lparr>cb_failures := cb_failures b + 1\<rparr>
      in if cb_state b' = CIRCUIT_HALF_OPEN \<or> cb_failures b' \<ge> failure_threshold b'
         then b'\<lparr>cb_state := CIRCUIT_OPEN, opened_at := now, probes_in_flight := 0\<rparr>
         else b')"

section \<open>All providers\<close>

datatype provider =
  TUTOR_INTELLIGENCE | NXTUTORS_GATEWAY | META_WHATSAPP | GOOGLE_CALENDAR | CASHFREE | OPENAI
| ONBOARDING_BUS | AURORA_DATA_API

definition all_providers :: "provider list" where
  "all_providers = [TUTOR_INTELLIGENCE, NXTUTORS_GATEWAY, META_WHATSAPP, GOOGLE_CALENDAR, CASHFREE,
     OPENAI, ONBOARDING_BUS, AURORA_DATA_API]"

datatype fallback =
  FB_DETERMINISTIC_ONLY | FB_ASK_CLARIFYING_QUESTION | FB_QUEUE_AND_EXPIRE | FB_KEEP_RETRYABLE
| FB_OFFER_HUMAN | FB_REFUSE_AND_RETRY_LATER | FB_FAIL_CLOSED

text \<open>The part of \<open>DEGRADATIONS\<close> the code branches on: the fallback and whether the lifecycle goes on.\<close>

fun DEGRADATIONS :: "provider \<Rightarrow> fallback \<times> bool" where
  "DEGRADATIONS OPENAI = (FB_DETERMINISTIC_ONLY, True)"
| "DEGRADATIONS GOOGLE_CALENDAR = (FB_KEEP_RETRYABLE, False)"
| "DEGRADATIONS META_WHATSAPP = (FB_QUEUE_AND_EXPIRE, True)"
| "DEGRADATIONS CASHFREE = (FB_REFUSE_AND_RETRY_LATER, False)"
| "DEGRADATIONS NXTUTORS_GATEWAY = (FB_REFUSE_AND_RETRY_LATER, False)"
| "DEGRADATIONS TUTOR_INTELLIGENCE = (FB_OFFER_HUMAN, False)"
| "DEGRADATIONS ONBOARDING_BUS = (FB_KEEP_RETRYABLE, True)"
| "DEGRADATIONS AURORA_DATA_API = (FB_FAIL_CLOSED, False)"

record registry =
  rg_breakers :: "provider \<Rightarrow> breaker"
  rg_disabled :: "provider set"

definition disable :: "registry \<Rightarrow> provider \<Rightarrow> registry" where
  "disable g p = g\<lparr>rg_disabled := insert p (rg_disabled g)\<rparr>"

definition enable :: "registry \<Rightarrow> provider \<Rightarrow> registry" where
  "enable g p = g\<lparr>rg_disabled := rg_disabled g - {p}\<rparr>"

definition provider_available :: "registry \<Rightarrow> provider \<Rightarrow> bool" where
  "provider_available g p \<longleftrightarrow> p \<notin> rg_disabled g \<and> cb_state (rg_breakers g p) \<noteq> CIRCUIT_OPEN"

definition open_providers :: "registry \<Rightarrow> provider list" where
  "open_providers g = filter (\<lambda>p. \<not> provider_available g p) all_providers"

definition lifecycle_blocked_by :: "registry \<Rightarrow> provider list" where
  "lifecycle_blocked_by g = filter (\<lambda>p. \<not> snd (DEGRADATIONS p)) (open_providers g)"

section \<open>One request of the HTTP client\<close>

text \<open>What one attempt comes to: a body, a classified failure, or anything else that leaves the loop
  (a cancellation of the task, an exception of no adapter class).\<close>

datatype 'b answer = AnswerBody 'b | AnswerFailed provider_error | AnswerAbandoned

datatype http_failure = HttpProvider provider_error | HttpMalformedUrl | HttpAbandoned

record http_config =
  hc_provider :: string
  hc_base_url :: string
  hc_max_retries :: nat

definition provider_rejected :: "string \<Rightarrow> provider_error" where
  "provider_rejected name = \<lparr>px_provider = name, px_code = '''', px_class = ''ProviderRejected'',
     px_retryable = False\<rparr>"

definition provider_unavailable :: "string \<Rightarrow> provider_error" where
  "provider_unavailable name = \<lparr>px_provider = name, px_code = '''', px_class = ''ProviderUnavailable'',
     px_retryable = True\<rparr>"

definition rstrip_slash :: "string \<Rightarrow> string" where
  "rstrip_slash s = rev (dropWhile (\<lambda>c. c = CHR ''/'') (rev s))"

definition request_url :: "http_config \<Rightarrow> string \<Rightarrow> string" where
  "request_url cfg path =
     (if prefix ''http'' path then path else rstrip_slash (hc_base_url cfg) @ path)"

text \<open>The loop over the attempts: the answers are indexed by the attempt, from one; the second
  component counts the attempts made. The sleeps between them change no state.\<close>

function attempt_from :: "(nat \<Rightarrow> 'b answer) \<Rightarrow> nat \<Rightarrow> nat \<Rightarrow> breaker \<Rightarrow> instant \<Rightarrow> (http_failure + 'b) \<times> nat \<times> breaker" where
  "attempt_from answers attempt attempts b now =
     (case answers attempt of
        AnswerBody body \<Rightarrow> (Inr body, attempt, record_success b)
      | AnswerAbandoned \<Rightarrow> (Inl HttpAbandoned, attempt, b)
      | AnswerFailed e \<Rightarrow>
          if \<not> px_retryable e \<or> attempt \<ge> attempts
          then (Inl (HttpProvider e), attempt, record_failure b now)
          else attempt_from answers (attempt + 1) attempts b now)"
  by pat_completeness auto
termination by (relation "measure (\<lambda>(answers, attempt, attempts, b, now). attempts - attempt)") auto

declare attempt_from.simps [simp del]

definition http_request ::
  "ip_book \<Rightarrow> url_policy \<Rightarrow> http_config \<Rightarrow> string \<Rightarrow> bool \<Rightarrow> (nat \<Rightarrow> 'b answer) \<Rightarrow> breaker \<Rightarrow> instant
     \<Rightarrow> (http_failure + 'b) \<times> nat \<times> breaker" where
  "http_request ips policy cfg path idempotent answers b now =
     (case validate ips (request_url cfg path) policy of
        Inl (UrlRejected _) \<Rightarrow> (Inl (HttpProvider (provider_rejected (hc_provider cfg))), 0, b)
      | Inl UrlValueError \<Rightarrow> (Inl HttpMalformedUrl, 0, b)
      | Inr _ \<Rightarrow>
          (case before_call b now of
             (Inl _, b') \<Rightarrow> (Inl (HttpProvider (provider_unavailable (hc_provider cfg))), 0, b')
           | (Inr _, b') \<Rightarrow>
               attempt_from answers 1 (if idempotent then hc_max_retries cfg + 1 else 1) b' now))"

section \<open>Lemmas\<close>

text \<open>What the taxonomy promises.\<close>

lemma never_retried:
  "disposition_for (classify SignatureExc) a p = DP_TERMINAL_FAILURE"
  "disposition_for (classify ReconciliationExc) a p = DP_TERMINAL_FAILURE"
  "disposition_for (classify OwnershipExc) a p = DP_HUMAN_REVIEW"
  "disposition_for (classify ValueExc) a p = DP_TERMINAL_FAILURE"
  by (simp_all add: disposition_for_def BENIGN_def NEEDS_HUMAN_def should_retry_def RETRYABLE_def)

lemma retry_iff: "disposition_for c a p = DP_RETRY \<longleftrightarrow> c \<in> RETRYABLE \<and> a < max_attempts p"
  by (auto simp: disposition_for_def BENIGN_def NEEDS_HUMAN_def should_retry_def RETRYABLE_def)

lemma human_iff: "disposition_for c a p = DP_HUMAN_REVIEW \<longleftrightarrow> c \<in> NEEDS_HUMAN"
  by (auto simp: disposition_for_def BENIGN_def NEEDS_HUMAN_def should_retry_def RETRYABLE_def)

lemma delay_bounds:
  assumes "0 \<le> base_seconds p" and "0 \<le> max_seconds p" and "0 \<le> roll" and "roll \<le> 1"
  shows "0 \<le> delay_for p a ra roll \<and> delay_for p a ra roll \<le> max_seconds p"
proof -
  let ?c = "min (base_seconds p * 2 ^ a) (max_seconds p)"
  have "0 \<le> ?c" using assms by simp
  then have "0 \<le> ?c * roll" "?c * roll \<le> ?c"
    using assms(3) mult_left_le [OF assms(4), of ?c] by simp_all
  moreover have "?c \<le> max_seconds p" by simp
  ultimately show ?thesis using assms(2) by (fastforce simp: delay_for_def split: option.splits)
qed

definition failed_with :: "('e \<Rightarrow> exc + unit) \<Rightarrow> 'e queued \<Rightarrow> (error_class \<times> int) option" where
  "failed_with handler q =
     (case qd_event q of
        None \<Rightarrow> None
      | Some (e, a) \<Rightarrow> (case handler e of Inr _ \<Rightarrow> None | Inl x \<Rightarrow> Some (classify x, a)))"

definition to_retry :: "('e \<Rightarrow> exc + unit) \<Rightarrow> retry_policy \<Rightarrow> 'e queued \<Rightarrow> bool" where
  "to_retry handler p q \<longleftrightarrow>
     (case failed_with handler q of None \<Rightarrow> False | Some (c, a) \<Rightarrow> c \<in> RETRYABLE \<and> a < max_attempts p)"

definition to_human :: "('e \<Rightarrow> exc + unit) \<Rightarrow> 'e queued \<Rightarrow> bool" where
  "to_human handler q \<longleftrightarrow>
     (case failed_with handler q of None \<Rightarrow> False | Some (c, a) \<Rightarrow> c \<in> NEEDS_HUMAN)"

lemma classes_apart: "c \<in> RETRYABLE \<Longrightarrow> c \<notin> NEEDS_HUMAN"
  by (auto simp: RETRYABLE_def NEEDS_HUMAN_def)

lemma batch_from:
  assumes "\<forall>e. \<not> raises (raise_case e)"
  shows "batch handler raise_case p qs fx = Inr \<lparr>
    be_failures = be_failures fx @ map qd_id (filter (to_retry handler p) qs),
    be_cases = be_cases fx @ map (\<lambda>q. fst (the (qd_event q))) (filter (to_human handler) qs)\<rparr>"
proof (induction qs arbitrary: fx)
  case Nil
  then show ?case by simp
next
  case (Cons q qs)
  show ?case
  proof (cases "failed_with handler q")
    case None
    then have "batch handler raise_case p (q # qs) fx = batch handler raise_case p qs fx"
      by (auto simp: failed_with_def split: option.splits sum.splits)
    with None show ?thesis by (simp add: Cons to_retry_def to_human_def)
  next
    case (Some ca)
    then obtain e x a where q: "qd_event q = Some (e, a)" "handler e = Inl x" "ca = (classify x, a)"
      by (auto simp: failed_with_def split: option.splits sum.splits)
    obtain u where u: "raise_case e = Inr u" using assms by (auto simp: not_raises_iff)
    have d: "ao_disposition (evaluate_failure x a p) = disposition_for (classify x) a p"
      by (simp add: evaluate_failure_def)
    consider "classify x \<in> RETRYABLE \<and> a < max_attempts p" "classify x \<notin> NEEDS_HUMAN"
      | "classify x \<in> NEEDS_HUMAN" "classify x \<notin> RETRYABLE"
      | "\<not> (classify x \<in> RETRYABLE \<and> a < max_attempts p)" "classify x \<notin> NEEDS_HUMAN"
      using classes_apart by blast
    then show ?thesis
    proof cases
      case 1
      then have "disposition_for (classify x) a p = DP_RETRY" by (simp add: retry_iff)
      then show ?thesis using q Some 1 by (simp add: d Cons to_retry_def to_human_def)
    next
      case 2
      then have "disposition_for (classify x) a p = DP_HUMAN_REVIEW" by (simp add: human_iff)
      then show ?thesis using q Some u 2 by (simp add: d Cons to_retry_def to_human_def)
    next
      case 3
      then have "disposition_for (classify x) a p \<notin> {DP_RETRY, DP_HUMAN_REVIEW}"
        using retry_iff human_iff by blast
      then have "batch handler raise_case p (q # qs) fx = batch handler raise_case p qs fx"
        using q by (cases "disposition_for (classify x) a p") (simp_all add: d)
      then show ?thesis using q Some 3 by (auto simp: Cons to_retry_def to_human_def)
    qed
  qed
qed

text \<open>The batch loop of the capability workers, when human cases can be opened: a message is
  reported back for another delivery exactly if its handler failed with a retryable class and its
  attempt number is below the policy's bound, a human case is opened exactly for the classes that
  need one, and one poisonous message changes nothing for the others. The bound itself never bites:
  the attempt number is read from the body, which a redelivery repeats, so a first attempt that keeps
  failing with a retryable class is reported back at every delivery.\<close>

theorem batch_reports_the_retryable:
  assumes "\<forall>e. \<not> raises (raise_case e)"
  shows "(\<exists>fx. batch handler raise_case p qs \<lparr>be_failures = [], be_cases = []\<rparr> = Inr fx \<and>
      be_failures fx = map qd_id (filter (to_retry handler p) qs) \<and>
      be_cases fx = map (\<lambda>q. fst (the (qd_event q))) (filter (to_human handler) qs)) \<and>
    (qd_event q = Some (e, 1) \<and> handler e = Inl (OtherExc name) \<and> 1 < max_attempts p \<longrightarrow>
      ((\<lambda>qs. filter (to_retry handler p) qs) ^^ n) [q] = [q])"
proof -
  have "to_retry handler p q"
    if "qd_event q = Some (e, 1)" "handler e = Inl (OtherExc name)" "1 < max_attempts p"
    using that by (simp add: to_retry_def failed_with_def RETRYABLE_def)
  then have "((\<lambda>qs. filter (to_retry handler p) qs) ^^ n) [q] = [q]"
    if "qd_event q = Some (e, 1)" "handler e = Inl (OtherExc name)" "1 < max_attempts p"
    using that by (induction n) simp_all
  then show ?thesis using batch_from [OF assms, of handler p qs] by simp
qed

definition sample_handler :: "nat \<Rightarrow> exc + unit" where
  "sample_handler e = (if e = 0 then Inl (OtherExc ''boom'') else if e = 1 then Inl SlotConflictExc
     else if e = 2 then Inl SignatureExc else Inr ())"

section \<open>The breaker's probes\<close>

fun admitted :: "breaker \<Rightarrow> instant list \<Rightarrow> instant list" where
  "admitted b [] = []"
| "admitted b (t # ts) =
     (case before_call b t of
        (Inl _, b') \<Rightarrow> admitted b' ts
      | (Inr _, b') \<Rightarrow> t # admitted b' ts)"

lemma admitted_half_open:
  "cb_state b = CIRCUIT_HALF_OPEN \<Longrightarrow>
     admitted b ts = take (nat (half_open_probes b - probes_in_flight b)) ts"
proof (induction ts arbitrary: b)
  case (Cons t ts)
  show ?case
  proof (cases "probes_in_flight b \<ge> half_open_probes b")
    case True
    then show ?thesis using Cons by (simp add: before_call_def)
  next
    case False
    then have "nat (half_open_probes b - probes_in_flight b)
        = Suc (nat (half_open_probes b - (probes_in_flight b + 1)))" by simp
    then show ?thesis using Cons False by (simp add: before_call_def)
  qed
qed simp

lemma admitted_open:
  assumes "sorted ts" and "cb_state b = CIRCUIT_OPEN"
  shows "admitted b ts =
    take (nat (half_open_probes b)) (filter (\<lambda>t. opened_at b + reset_after b \<le> t) ts)"
  using assms
proof (induction ts)
  case (Cons t ts)
  show ?case
  proof (cases "t - opened_at b < reset_after b")
    case True
    then show ?thesis using Cons by (simp add: before_call_def)
  next
    case False
    then have all: "filter (\<lambda>t. opened_at b + reset_after b \<le> t) ts = ts"
      using Cons.prems by (auto intro!: filter_True)
    let ?h = "b\<lparr>cb_state := CIRCUIT_HALF_OPEN, probes_in_flight := 0\<rparr>"
    have "admitted b (t # ts) = admitted ?h (t # ts)"
      using False Cons.prems(2) by (simp add: before_call_def)
    then show ?thesis
      using admitted_half_open [of ?h "t # ts"] all False by simp
  qed
qed simp

text \<open>An open circuit admits exactly its probes. Of any calls made in clock order while no result
  comes back, those before the reset time are refused, and of the others the first
  \<open>half_open_probes\<close> are admitted and all the rest refused: a recovering provider is not
  stampeded, and, for the same reason, probes whose callers never report leave the circuit shut
  for every later call. A failed probe opens it again at once, for a full reset time.\<close>

theorem open_circuit_admits_its_probes:
  assumes "sorted ts" and "cb_state b = CIRCUIT_OPEN"
  shows "admitted b ts =
      take (nat (half_open_probes b)) (filter (\<lambda>t. opened_at b + reset_after b \<le> t) ts) \<and>
    (\<forall>b' now. before_call b t = (Inr (), b') \<longrightarrow>
       cb_state (record_failure b' now) = CIRCUIT_OPEN \<and> opened_at (record_failure b' now) = now)"
  using admitted_open [OF assms] assms(2)
  by (auto simp: before_call_def record_failure_def Let_def split: if_splits)

theorem open_circuit_admits_its_probes_witness:
  "admitted (record_failure (new_breaker ''cashfree'' 1 (seconds 60) 1) 0) [seconds 10, seconds 60, seconds 61, days 1]
     = [seconds 60]"
proof -
  let ?b = "record_failure (new_breaker ''cashfree'' 1 (seconds 60) 1) 0"
  have "sorted [seconds 10, seconds 60, seconds 61, days 1]" by (simp add: duration_defs)
  moreover have "cb_state ?b = CIRCUIT_OPEN" by (simp add: record_failure_def new_breaker_def)
  ultimately show ?thesis
    using open_circuit_admits_its_probes [of "[seconds 10, seconds 60, seconds 61, days 1]" ?b]
    by (simp add: record_failure_def new_breaker_def duration_defs)
qed

lemma attempts_bounded:
  assumes "attempt_from answers a n b now = (r, k, b')" and "a \<le> n"
  shows "a \<le> k \<and> k \<le> n \<and> (\<forall>i. a \<le> i \<and> i < k \<longrightarrow> (\<exists>e. answers i = AnswerFailed e \<and> px_retryable e)) \<and>
    (case answers k of
       AnswerBody body \<Rightarrow> r = Inr body \<and> b' = record_success b
     | AnswerFailed e \<Rightarrow> r = Inl (HttpProvider e) \<and> b' = record_failure b now
     | AnswerAbandoned \<Rightarrow> r = Inl HttpAbandoned \<and> b' = b)"
  using assms
proof (induction answers a n b now rule: attempt_from.induct)
  case (1 answers a n b now)
  show ?case
  proof (cases "\<exists>e. answers a = AnswerFailed e \<and> px_retryable e \<and> a < n")
    case True
    then obtain e where e: "answers a = AnswerFailed e" "px_retryable e" "a < n" by blast
    have run: "attempt_from answers (a + 1) n b now = (r, k, b')"
      using "1.prems"(1) e by (subst (asm) attempt_from.simps) simp
    have "\<not> (\<not> px_retryable e \<or> a \<ge> n)" using e by simp
    from "1.IH" [OF e(1) this run] e have
      "a + 1 \<le> k \<and> k \<le> n \<and> (\<forall>i. a + 1 \<le> i \<and> i < k \<longrightarrow> (\<exists>e. answers i = AnswerFailed e \<and> px_retryable e))"
      and rest: "case answers k of
       AnswerBody body \<Rightarrow> r = Inr body \<and> b' = record_success b
     | AnswerFailed e \<Rightarrow> r = Inl (HttpProvider e) \<and> b' = record_failure b now
     | AnswerAbandoned \<Rightarrow> r = Inl HttpAbandoned \<and> b' = b"
      by simp_all
    then have "a \<le> k \<and> k \<le> n \<and> (\<forall>i. a \<le> i \<and> i < k \<longrightarrow> (\<exists>e. answers i = AnswerFailed e \<and> px_retryable e))"
      using e by (metis Suc_eq_plus1 Suc_leD not_less_eq_eq order_antisym)
    then show ?thesis using rest by blast
  next
    case False
    then show ?thesis
      using "1.prems" by (subst (asm) attempt_from.simps) (auto split: answer.splits if_splits)
  qed
qed

text \<open>One request of the HTTP client. A link off the allowlist and an open circuit cost no attempt;
  a request that is not declared idempotent is made once; an idempotent one at most
  \<open>max_retries + 1\<close> times, each repetition after a failure marked retryable. The breaker hears of the
  request once, whatever the number of attempts, and not at all if the request was abandoned.\<close>

theorem http_retries_only_what_it_may:
  assumes "http_request ips policy cfg path idempotent answers b now = (r, k, b')"
  shows "k \<le> (if idempotent then hc_max_retries cfg + 1 else 1) \<and>
    (0 < k \<longrightarrow> \<not> raises (validate ips (request_url cfg path) policy) \<and> fst (before_call b now) = Inr ()) \<and>
    (\<forall>i. 1 \<le> i \<and> i < k \<longrightarrow> (\<exists>e. answers i = AnswerFailed e \<and> px_retryable e)) \<and>
    (0 < k \<longrightarrow> b' = (case answers k of
        AnswerBody body \<Rightarrow> record_success (snd (before_call b now))
      | AnswerFailed e \<Rightarrow> record_failure (snd (before_call b now)) now
      | AnswerAbandoned \<Rightarrow> snd (before_call b now)))"
proof (cases "validate ips (request_url cfg path) policy")
  case (Inl e)
  then show ?thesis using assms by (cases e) (auto simp: http_request_def)
next
  case (Inr u)
  show ?thesis
  proof (cases "before_call b now")
    case (Pair d b1)
    show ?thesis
    proof (cases d)
      case (Inl e)
      then show ?thesis using assms Inr Pair by (auto simp: http_request_def)
    next
      case d: (Inr v)
      let ?n = "if idempotent then hc_max_retries cfg + 1 else 1"
      have "attempt_from answers 1 ?n b1 now = (r, k, b')"
        using assms Inr Pair d by (simp add: http_request_def)
      from attempts_bounded [OF this] show ?thesis
        using Inr Pair d by (auto split: answer.splits)
    qed
  qed
qed

theorem http_retries_only_what_it_may_witness:
  "\<exists>r b'. http_request no_ip6 CASHFREE_LINK_POLICY
       \<lparr>hc_provider = ''cashfree'', hc_base_url = ''https://payments.cashfree.com/'', hc_max_retries = 2\<rparr>
       ''/x'' True (\<lambda>i. if i = 1 then AnswerFailed (provider_unavailable ''cashfree'') else AnswerBody ())
       (new_breaker ''cashfree'' 5 (seconds 60) 1) 0 = (r, 2, b') \<and> b' = new_breaker ''cashfree'' 5 (seconds 60) 1"
proof -
  let ?cfg = "\<lparr>hc_provider = ''cashfree'', hc_base_url = ''https://payments.cashfree.com/'', hc_max_retries = 2\<rparr>"
  let ?b = "new_breaker ''cashfree'' 5 (seconds 60) 1"
  let ?answers = "\<lambda>i :: nat. if i = 1 then AnswerFailed (provider_unavailable ''cashfree'') else AnswerBody ()"
  have url: "request_url ?cfg ''/x'' = ''https://payments.cashfree.com/x''"
    by (simp add: request_url_def rstrip_slash_def prefix_def)
  have ok: "validate no_ip6 ''https://payments.cashfree.com/x'' CASHFREE_LINK_POLICY
      = Inr ''https://payments.cashfree.com/x''" by code_simp
  have "attempt_from ?answers (Suc 0) 3 ?b 0 = (Inr (), 2, record_success ?b)"
    by (subst attempt_from.simps, simp add: provider_unavailable_def, subst attempt_from.simps, simp add: numeral_2_eq_2)
  then have run: "http_request no_ip6 CASHFREE_LINK_POLICY ?cfg ''/x'' True ?answers ?b 0 = (Inr (), 2, record_success ?b)"
    by (simp add: http_request_def url ok before_call_def new_breaker_def numeral_3_eq_3)
  have "record_success ?b = ?b" by (simp add: record_success_def new_breaker_def)
  then show ?thesis
    using run http_retries_only_what_it_may [OF run] by auto
qed

end
