(* ===== verification/TurnRuns.thy ===== *)
theory TurnRuns
  imports Orchestrator CommandFrames
begin

text \<open>
  What turns amount to. An event is handled once; the conversation moves only by the machine, whatever
  happens between a load and a save; the facts a command establishes are not stored with it; and a turn
  whose event was routed from a message can neither hold a slot nor show a second shortlist.
\<close>

section \<open>The parts of a turn that touch the sender or the ownership only\<close>

definition unsent :: "'c world \<Rightarrow> 'c world \<Rightarrow> bool" where
  "unsent w w' \<longleftrightarrow> wd_convs w' = wd_convs w \<and> inbound_claim w' = inbound_claim w"

lemma unsent_trans: "unsent w w' \<Longrightarrow> unsent w' w'' \<Longrightarrow> unsent w w''"
  by (simp add: unsent_def)

lemma send_one_unsent: "unsent w (snd (send_one sv now m w))"
  by (simp add: send_one_def unsent_def inbound_claim_def fun_eq_iff split: prod.split)

lemma flush_queue_frame:
  "unsent (tn_world t) (tn_world (snd (flush_queue sv ms n t))) \<and>
   tn_snapshot (snd (flush_queue sv ms n t)) = tn_snapshot t \<and> tn_ownership (snd (flush_queue sv ms n t)) = tn_ownership t"
proof (induction ms arbitrary: n t)
  case Nil
  then show ?case by (simp add: unsent_def)
next
  case (Cons m ms)
  obtain r w where s: "send_one sv (tn_now t) m (tn_world t) = (r, w)" by fastforce
  have w: "unsent (tn_world t) w" using send_one_unsent [of "tn_world t" sv "tn_now t" m] by (simp add: s)
  show ?case
  proof (cases r)
    case (Inl e)
    then show ?thesis using w by (simp add: s)
  next
    case (Inr res)
    then show ?thesis
      using Cons.IH [where n = "n + 1" and t = "t\<lparr>tn_world := w\<rparr>"] Cons.IH [where n = n and t = "t\<lparr>tn_world := w\<rparr>"]
        Cons.IH [where n = n and t = "degrade (send_outcome_value (sr_outcome res)) (t\<lparr>tn_world := w\<rparr>)"] unsent_trans [OF w]
      by (simp add: s degrade_def Let_def)
  qed
qed

lemma flush_frame:
  "unsent (tn_world t) (tn_world (snd (flush sv t)))" "tn_snapshot (snd (flush sv t)) = tn_snapshot t"
  "tn_ownership (snd (flush sv t)) = tn_ownership t"
  using flush_queue_frame [of t sv "tn_outbox t" 0] by (simp_all add: flush_def)

text \<open>What the parts of an attempt after the first save leave of the conversation store and of the keys
  claimed for events. \<open>P\<close> is any preorder on worlds that allows owners to be saved and, through
  \<open>meanwhile\<close> and the save, the failure to be fired.\<close>

definition on_others :: "'c meanwhile \<Rightarrow> string \<Rightarrow> bool" where
  "on_others meanwhile key \<longleftrightarrow> (\<forall>k w. inbound_claim (meanwhile k w) key = inbound_claim w key)"

lemma apply_transfer_world:
  "\<exists>f. wd_convs (tn_world (snd (apply_transfer o' t))) = f (wd_convs (tn_world t)) \<and>
     (f = id \<or> (\<exists>ow. f = (\<lambda>s. mem_save_ownership s ow))) \<and>
     inbound_claim (tn_world (snd (apply_transfer o' t))) = inbound_claim (tn_world t) \<and>
     tn_snapshot (snd (apply_transfer o' t)) = tn_snapshot t"
  unfolding apply_transfer_def
  by (auto simp: in_world_def on_convs_def inbound_claim_def fun_eq_iff split: option.splits sum.splits
      intro: exI [of _ id])

section \<open>An event is handled once\<close>

lemma compensate_follows: "follows t (compensate sv r t)"
  using execute_follows [of t sv "tr_compensation r" Map.empty] following.trans
  by (auto simp: compensate_def degrade_def intro: following.quiet_degraded split: prod.split sum.split)

lemma follows_claim: "follows t t' \<Longrightarrow> inbound_claim (tn_world t') = inbound_claim (tn_world t)"
  by (simp add: follows_def kept_def)

lemma fire_internal_claim:
  assumes "on_others meanwhile key"
  shows "inbound_claim (tn_world (snd (fire_internal sv meanwhile tr t))) key = inbound_claim (tn_world t) key"
  using assms
  by (auto simp: fire_internal_def on_others_def Let_def inbound_claim_def split: sum.split prod.split)

lemma run_command_claim:
  assumes "on_others meanwhile key"
  shows "inbound_claim (tn_world (snd (run_command sv meanwhile r p t))) key = inbound_claim (tn_world t) key"
proof -
  obtain res t1 where ex: "execute sv (tr_command r) p t = (res, t1)" by fastforce
  have t1: "inbound_claim (tn_world t1) = inbound_claim (tn_world t)"
    using follows_claim [OF execute_follows [of t sv "tr_command r" p]] by (simp add: ex)
  have t2: "inbound_claim (tn_world (compensate sv r t1)) = inbound_claim (tn_world t1)"
    by (rule follows_claim [OF compensate_follows])
  show ?thesis
    using fire_internal_claim [OF assms, of sv RECOVERABLE_FAILURE "compensate sv r t1"]
    by (auto simp: run_command_def ex t1 t2 Let_def split: prod.split sum.split)
qed

lemma finish_claim: "inbound_claim (snd (finish sv r (res, t))) = inbound_claim (tn_world t)"
proof (cases res)
  case (Inr outcome)
  obtain f t' where f: "flush sv t = (f, t')" by fastforce
  have t': "inbound_claim (tn_world t') = inbound_claim (tn_world t)"
    using flush_frame(1) [of t sv] by (simp add: f unsent_def)
  have "inbound_claim (tn_world (snd (apply_transfer outcome t'))) = inbound_claim (tn_world t')"
    using apply_transfer_world [of outcome t'] by blast
  then show ?thesis using Inr t' by (auto simp: finish_def f split: sum.split prod.split)
qed (simp add: finish_def)

lemma ensure_ownership_claim: "inbound_claim (snd (ensure_ownership tr ow now w)) = inbound_claim w"
  by (auto simp: ensure_ownership_def on_convs_def inbound_claim_def fun_eq_iff split: sum.split)

lemma attempt_claim:
  assumes "on_others meanwhile key"
  shows "inbound_claim (snd (attempt sv meanwhile e now w)) key = inbound_claim w key"
proof (cases "fire (mem_load (wd_convs w) (te_conversation e)) (te_trigger e) (te_actor e) (turn_facts sv e now w)")
  case (Inl rj)
  then show ?thesis by (simp add: attempt_def Let_def inbound_claim_def)
next
  case (Inr r)
  let ?ow = "mem_load_ownership (wd_convs w) (te_conversation e) now"
  obtain o1 w1 where own: "ensure_ownership (te_trigger e) ?ow now w = (o1, w1)" by fastforce
  have w1: "inbound_claim w1 = inbound_claim w"
    using ensure_ownership_claim [of "te_trigger e" ?ow now w] by (simp add: own)
  show ?thesis
  proof (cases o1)
    case (Inl err)
    then show ?thesis using Inr by (simp add: attempt_def Let_def own w1)
  next
    case own': (Inr od)
    obtain ow ds where od: "od = (ow, ds)" by fastforce
    let ?w2 = "meanwhile 0 w1"
    obtain saved s where sv: "mem_save_transition (wd_convs ?w2) r now (sv_fresh sv ''ulid'' (wd_seq ?w2))
        (Some (turn_facts sv e now w)) = (saved, s)" by fastforce
    let ?w3 = "?w2\<lparr>wd_convs := s, wd_seq := wd_seq ?w2 + 1\<rparr>"
    have w3: "inbound_claim ?w3 key = inbound_claim w key"
      using assms w1 by (simp add: on_others_def inbound_claim_def fun_eq_iff)
    show ?thesis
    proof (cases saved)
      case (Inl cf)
      then show ?thesis using Inr own' od w3 by (simp add: attempt_def Let_def own sv)
    next
      case (Inr sn')
      let ?ran = "run_command sv meanwhile r (te_payload e) (new_turn e now sn' ow (turn_facts sv e now w) ds ?w3)"
      have "inbound_claim (snd (finish sv r ?ran)) key = inbound_claim ?w3 key"
        using run_command_claim [OF assms, of sv r "te_payload e" "new_turn e now sn' ow (turn_facts sv e now w) ds ?w3"]
          finish_claim [of sv r "fst ?ran" "snd ?ran"]
        by (simp add: new_turn_def)
      then show ?thesis using \<open>fire _ _ _ _ = Inr r\<close> own' od Inr w3
        by (simp add: attempt_def Let_def own sv)
    qed
  qed
qed

lemma attempts_claim:
  assumes "\<And>k. on_others (meanwhile k) key"
  shows "inbound_claim (snd (attempts sv meanwhile e now n err w)) key = inbound_claim w key"
proof (induction n arbitrary: err w)
  case (Suc n)
  obtain r w' where a: "attempt sv (meanwhile n) e now w = (r, w')" by fastforce
  have "inbound_claim w' key = inbound_claim w key"
    using attempt_claim [OF assms [of n], of sv e now w] by (simp add: a)
  then show ?case using Suc by (simp add: a split: sum.split interruption.split)
qed simp

definition answered_duplicate :: "turn_event \<Rightarrow> 'c world \<Rightarrow> turn_result" where
  "answered_duplicate e w =
     (plain_result (sn_state (mem_load (wd_convs w) (te_conversation e))))\<lparr>rs_accepted := True, rs_duplicate := True\<rparr>"

text \<open>(C4) An event is handled once, however that ends. When an event's key is free, \<open>handle\<close> takes it
  before anything else and nothing gives it back: until its time to live is over, the same event is
  answered as an accepted duplicate and changes nothing at all. This holds when the first delivery
  was carried out, and just as well when it was rejected, lost three races or raised: such an event is
  acknowledged and never processed, though the module promises that a crash can be resumed.\<close>

theorem an_event_is_handled_once:
  assumes "\<forall>k. on_others (meanwhile k) (turn_key sv e)"
    and "\<forall>t. inbound_claim w (turn_key sv e) = Some t \<longrightarrow> t \<le> now"
    and "handle sv meanwhile e now w = (r, w')" and "later < now + seconds (sv_ttl_seconds sv)"
  shows "handle sv again e later w' = (Inr (answered_duplicate e w'), w')"
proof -
  let ?key = "turn_key sv e" and ?idem = "snd (mem_idem_claim (wd_idem w) (''inbound'', turn_key sv e) now (sv_ttl_seconds sv))"
  have won: "fst (mem_idem_claim (wd_idem w) (''inbound'', ?key) now (sv_ttl_seconds sv))"
    and taken: "dict_get (mi_claims ?idem) (''inbound'', ?key) = Some (now + seconds (sv_ttl_seconds sv))"
    using assms(2) by (auto simp: mem_idem_claim_def Let_def inbound_claim_def split: option.splits)
  let ?w = "w\<lparr>wd_idem := ?idem\<rparr>"
  have "(r, w') = attempts sv meanwhile e now MAX_CONFLICT_RETRIES '''' ?w"
    using assms(3) won by (simp add: handle_def Let_def case_prod_beta)
  then have "w' = snd (attempts sv meanwhile e now MAX_CONFLICT_RETRIES '''' ?w)" by (simp add: prod_eq_iff)
  moreover have "inbound_claim ?w ?key = Some (now + seconds (sv_ttl_seconds sv))"
    using taken by (simp add: inbound_claim_def)
  ultimately have "inbound_claim w' ?key = Some (now + seconds (sv_ttl_seconds sv))"
    using attempts_claim [of meanwhile ?key sv e now MAX_CONFLICT_RETRIES "''''" ?w] assms(1) by simp
  then show ?thesis
    using assms(4) by (simp add: handle_def Let_def mem_idem_claim_def inbound_claim_def answered_duplicate_def)
qed

section \<open>The conversation moves by the machine\<close>

lemma run_append:
  assumes "run t fs u" and "run s es t"
  shows "run s (es @ fs) u"
  using assms by (induction rule: run.induct) (auto simp flip: append_assoc intro: run_snoc)

definition trail_of :: "mem_convs \<Rightarrow> ref \<Rightarrow> (trigger \<times> actor) list" where
  "trail_of s c = map (\<lambda>h. (he_trigger h, he_actor h)) (mem_history s c 0)"

definition moved :: "ref \<Rightarrow> mem_convs \<Rightarrow> mem_convs \<Rightarrow> event list \<Rightarrow> bool" where
  "moved c s s' es \<longleftrightarrow>
     mem_convs_inv s' \<and> run (sn_state (mem_load s c)) es (sn_state (mem_load s' c)) \<and>
     sn_version (mem_load s' c) = sn_version (mem_load s c) + int (length es) \<and>
     trail_of s' c = trail_of s c @ map (\<lambda>e. (ev_trigger e, ev_actor e)) es"

lemma moved_refl: "mem_convs_inv s \<Longrightarrow> moved c s s []"
  by (simp add: moved_def run_nil)

lemma moved_trans: "moved c s s' es \<Longrightarrow> moved c s' s'' fs \<Longrightarrow> moved c s s'' (es @ fs)"
  by (auto simp: moved_def intro: run_append)

lemma save_ownership_frame [simp]:
  "mem_load (mem_save_ownership s ow) c = mem_load s c" "mem_history (mem_save_ownership s ow) c n = mem_history s c n"
  "mem_convs_inv (mem_save_ownership s ow) = mem_convs_inv s" "trail_of (mem_save_ownership s ow) c = trail_of s c"
  by (simp_all add: mem_load_def mem_save_ownership_def mem_history_def mem_convs_inv_def trail_of_def)

lemma moved_ownership [simp]:
  "moved c s (mem_save_ownership s' ow) es = moved c s s' es" "moved c (mem_save_ownership s ow) s' es = moved c s s' es"
  by (simp_all add: moved_def)

text \<open>A save of what the machine decided on an earlier snapshot: it is lost, or nothing had moved.\<close>

lemma moved_save:
  assumes inv: "mem_convs_inv s0" and between: "c' = c \<longrightarrow> moved c s0 s es0" and ok: "mem_convs_inv s"
    and hit: "fire (mem_load s0 c') tr a f = Inr r"
    and save: "mem_save_transition s r now ulid g = (res, s')"
  shows "\<exists>es. moved c s s' es \<and> (es = [] \<or> (c' = c \<and> es0 = [] \<and>
    es = [\<lparr>ev_trigger = tr, ev_actor = a, ev_facts = sn_facts (mem_load s0 c') ++ f\<rparr>] \<and> (\<exists>sn. res = Inr sn)))"
proof (cases res)
  case (Inl e)
  then show ?thesis using mem_convs.save_lost [of s r now ulid g] save moved_refl [OF ok] by auto
next
  case (Inr sn)
  have r: "tr_conversation_ref r = c'" "expected_version r = sn_version (mem_load s0 c')"
    using fire_frame [OF hit] mem_convs.load_ref [OF inv] by auto
  have s': "mem_convs_inv s'" using mem_convs.save_inv [OF ok, of r now ulid g] save by simp
  note won = mem_convs.save_won [OF ok, of r now ulid g] and trail = mem_convs.trail_won [OF ok, of r now ulid g]
  show ?thesis
  proof (cases "c' = c")
    case False
    then have "mem_load s' c = mem_load s c" "mem_history s' c 0 = mem_history s c 0"
      using mem_convs.save_elsewhere [of c r s now ulid g] mem_convs.trail_elsewhere [of c r s now ulid g] save r(1)
      by auto
    then have "moved c s s' []" using s' by (simp add: moved_def trail_of_def run_nil)
    then show ?thesis by blast
  next
    case True
    have version: "expected_version r = sn_version (mem_load s c)"
      using mem_convs.save_wins_iff [OF ok, of r now ulid g] save Inr r(1) True by simp
    have es0: "es0 = []" using between True version r(2) by (auto simp: moved_def)
    then have state: "sn_state (mem_load s c) = sn_state (mem_load s0 c)"
      using between True by (auto simp: moved_def elim: run_nilE)
    let ?e = "\<lparr>ev_trigger = tr, ev_actor = a, ev_facts = sn_facts (mem_load s0 c') ++ f\<rparr>"
    have "step (sn_state (mem_load s c)) ?e (to_state r)"
      using fired [OF hit] by (simp add: state True)
    then have "run (sn_state (mem_load s c)) [?e] (to_state r)"
      using run_snoc [OF run_nil] by fastforce
    moreover have "tr_trigger r = tr" "tr_actor r = a"
      using hit unfolding fire_Inr_iff by auto
    ultimately have "moved c s s' [?e]"
      using won [of sn s'] trail [of sn s'] save Inr r(1) True version s'
      by (simp add: moved_def trail_of_def new_history_entry_def)
    then show ?thesis using True es0 Inr by blast
  qed
qed

text \<open>What happens in between moves the conversation by the machine, too.\<close>

definition lawful :: "ref \<Rightarrow> 'c meanwhile \<Rightarrow> bool" where
  "lawful c meanwhile \<longleftrightarrow>
     (\<forall>k w. mem_convs_inv (wd_convs w) \<longrightarrow> (\<exists>es. moved c (wd_convs w) (wd_convs (meanwhile k w)) es))"

lemma undisturbed_lawful: "lawful c (\<lambda>_ w. w)"
  using moved_refl by (auto simp: lawful_def)

lemma lawfulE:
  assumes "lawful c meanwhile" and "mem_convs_inv (wd_convs w)"
  obtains es where "moved c (wd_convs w) (wd_convs (meanwhile k w)) es" "mem_convs_inv (wd_convs (meanwhile k w))"
  using assms by (auto simp: lawful_def moved_def)

lemma fire_internal_moves:
  assumes "lawful c meanwhile" and "mem_convs_inv (wd_convs (tn_world t))"
  shows "\<exists>es. moved c (wd_convs (tn_world t)) (wd_convs (tn_world (snd (fire_internal sv meanwhile tr t)))) es"
proof (cases "fire (mem_load (wd_convs (tn_world t)) (tn_conversation t)) tr SYSTEM (tn_facts t)")
  case (Inl rj)
  then show ?thesis using moved_refl [OF assms(2)] by (auto simp: fire_internal_def)
next
  case (Inr r)
  obtain es0 where es0: "moved c (wd_convs (tn_world t)) (wd_convs (meanwhile 1 (tn_world t))) es0"
    "mem_convs_inv (wd_convs (meanwhile 1 (tn_world t)))"
    using lawfulE [OF assms] by blast
  let ?w = "meanwhile 1 (tn_world t)"
  obtain saved s where save: "mem_save_transition (wd_convs ?w) r (tn_now t) (sv_fresh sv ''ulid'' (wd_seq ?w)) (Some (tn_facts t)) = (saved, s)"
    by fastforce
  have "\<exists>es. moved c (wd_convs ?w) s es"
    using moved_save [OF assms(2) _ es0(2) Inr save, of c es0] es0(1) by blast
  moreover have "wd_convs (tn_world (snd (fire_internal sv meanwhile tr t))) = s"
    using Inr save by (simp add: fire_internal_def Let_def split: sum.split)
  ultimately show ?thesis using moved_trans [OF es0(1)] by blast
qed

lemma run_command_moves:
  assumes "lawful c meanwhile" and "mem_convs_inv (wd_convs (tn_world t))"
  shows "\<exists>es. moved c (wd_convs (tn_world t)) (wd_convs (tn_world (snd (run_command sv meanwhile r p t)))) es"
proof -
  obtain res t1 where ex: "execute sv (tr_command r) p t = (res, t1)" by fastforce
  have t1: "wd_convs (tn_world t1) = wd_convs (tn_world t)"
    using execute_follows [of t sv "tr_command r" p] by (simp add: ex follows_def kept_def)
  have t2: "wd_convs (tn_world (compensate sv r t1)) = wd_convs (tn_world t)"
    using compensate_follows [of t1 sv r] t1 by (simp add: follows_def kept_def)
  have "\<exists>es. moved c (wd_convs (tn_world t))
      (wd_convs (tn_world (snd (fire_internal sv meanwhile RECOVERABLE_FAILURE (compensate sv r t1))))) es"
    using fire_internal_moves [OF assms(1), of "compensate sv r t1" sv RECOVERABLE_FAILURE] assms(2) by (simp add: t2)
  then show ?thesis using moved_refl [OF assms(2)] t1
    by (auto simp: run_command_def ex Let_def split: prod.split sum.split)
qed

lemma finish_moves:
  "moved c s (wd_convs (snd (finish sv r (res, t)))) es = moved c s (wd_convs (tn_world t)) es"
proof (cases res)
  case (Inr outcome)
  obtain f t' where f: "flush sv t = (f, t')" by fastforce
  have t': "wd_convs (tn_world t') = wd_convs (tn_world t)"
    using flush_frame(1) [of t sv] by (simp add: f unsent_def)
  have "moved c s (wd_convs (tn_world (snd (apply_transfer outcome t')))) es = moved c s (wd_convs (tn_world t')) es"
    using apply_transfer_world [of outcome t'] by fastforce
  then show ?thesis using Inr t' by (auto simp: finish_def f split: sum.split prod.split)
qed (simp add: finish_def)

lemma ensure_ownership_moves:
  "moved c (wd_convs (snd (ensure_ownership tr ow now w))) s es = moved c (wd_convs w) s es"
  "mem_convs_inv (wd_convs (snd (ensure_ownership tr ow now w))) = mem_convs_inv (wd_convs w)"
  by (auto simp: ensure_ownership_def on_convs_def split: sum.split)

lemma ensure_ownership_load: "mem_load (wd_convs (snd (ensure_ownership tr ow now w))) c = mem_load (wd_convs w) c"
  by (auto simp: ensure_ownership_def on_convs_def split: sum.split)

lemma attempt_moves:
  assumes "lawful c meanwhile" and "mem_convs_inv (wd_convs w)"
  shows "\<exists>es. moved c (wd_convs w) (wd_convs (snd (attempt sv meanwhile e now w))) es"
proof (cases "fire (mem_load (wd_convs w) (te_conversation e)) (te_trigger e) (te_actor e) (turn_facts sv e now w)")
  case (Inl rj)
  then show ?thesis using moved_refl [OF assms(2)] by (auto simp: attempt_def Let_def)
next
  case hit: (Inr r)
  let ?ow = "mem_load_ownership (wd_convs w) (te_conversation e) now"
  obtain o1 w1 where own: "ensure_ownership (te_trigger e) ?ow now w = (o1, w1)" by fastforce
  have o1: "moved c (wd_convs w1) s es = moved c (wd_convs w) s es" "mem_convs_inv (wd_convs w1) = mem_convs_inv (wd_convs w)"
    "mem_load (wd_convs w1) d = mem_load (wd_convs w) d" for s es d
    using ensure_ownership_moves [where tr = "te_trigger e" and ow = ?ow and now = now and w = w]
      ensure_ownership_load [where tr = "te_trigger e" and ow = ?ow and now = now and w = w]
    by (simp_all add: own)
  have w1: "moved c (wd_convs w) (wd_convs w1) []" using moved_refl [of "wd_convs w1" c] assms(2) o1 by simp
  show ?thesis
  proof (cases o1)
    case (Inl err)
    then show ?thesis using hit w1 by (auto simp: attempt_def Let_def own)
  next
    case own': (Inr od)
    obtain ow ds where od: "od = (ow, ds)" by fastforce
    let ?w2 = "meanwhile 0 w1"
    obtain es0 where es0: "moved c (wd_convs w1) (wd_convs ?w2) es0" "mem_convs_inv (wd_convs ?w2)"
      using lawfulE [OF assms(1), of w1 0] assms(2) o1(2) by blast
    obtain saved s where sv: "mem_save_transition (wd_convs ?w2) r now (sv_fresh sv ''ulid'' (wd_seq ?w2))
        (Some (turn_facts sv e now w)) = (saved, s)" by fastforce
    let ?w3 = "?w2\<lparr>wd_convs := s, wd_seq := wd_seq ?w2 + 1\<rparr>"
    have "fire (mem_load (wd_convs w1) (te_conversation e)) (te_trigger e) (te_actor e) (turn_facts sv e now w) = Inr r"
      using hit o1(3) by simp
    from moved_save [OF _ _ es0(2) this sv, of c es0] es0(1) assms(2) o1(2)
    obtain es1 where "moved c (wd_convs ?w2) s es1" by blast
    then have w3: "moved c (wd_convs w) s (es0 @ es1)"
      using moved_trans [OF w1 moved_trans [OF es0(1)]] by simp
    show ?thesis
    proof (cases saved)
      case (Inl cf)
      then show ?thesis using hit own' od w3 by (auto simp: attempt_def Let_def own sv)
    next
      case saved: (Inr sn')
      let ?t = "new_turn e now sn' ow (turn_facts sv e now w) ds ?w3"
      obtain ran t where ran: "run_command sv meanwhile r (te_payload e) ?t = (ran, t)" by fastforce
      have start: "wd_convs (tn_world ?t) = s" by (simp add: new_turn_def)
      have "mem_convs_inv (wd_convs (tn_world ?t))" using w3 start by (simp add: moved_def)
      from run_command_moves [OF assms(1) this, of sv r "te_payload e", unfolded ran start snd_conv]
      obtain es2 where "moved c s (wd_convs (tn_world t)) es2" by blast
      then have "moved c (wd_convs w) (wd_convs (snd (finish sv r (ran, t)))) ((es0 @ es1) @ es2)"
        unfolding finish_moves by (rule moved_trans [OF w3])
      then show ?thesis using hit own' od saved
        by (auto simp: attempt_def Let_def own sv ran simp del: One_nat_def)
    qed
  qed
qed

lemma attempts_moves:
  assumes "\<And>k. lawful c (meanwhile k)" and "mem_convs_inv (wd_convs w)"
  shows "\<exists>es. moved c (wd_convs w) (wd_convs (snd (attempts sv meanwhile e now n err w))) es"
  using assms(2)
proof (induction n arbitrary: err w)
  case 0
  then show ?case using moved_refl by auto
next
  case (Suc n)
  obtain r w' where a: "attempt sv (meanwhile n) e now w = (r, w')" by fastforce
  obtain es where es: "moved c (wd_convs w) (wd_convs w') es"
    using attempt_moves [OF assms(1) [of n] Suc.prems, of sv e now] by (auto simp: a)
  then have "mem_convs_inv (wd_convs w')" by (simp add: moved_def)
  then show ?case using Suc.IH [of w'] es moved_trans [OF es]
    by (fastforce simp: a split: sum.split interruption.split)
qed

lemma handle_moves:
  assumes "\<And>k. lawful c (meanwhile k)" and "mem_convs_inv (wd_convs w)"
  shows "\<exists>es. moved c (wd_convs w) (wd_convs (snd (handle sv meanwhile e now w))) es"
proof -
  let ?w = "w\<lparr>wd_idem := snd (mem_idem_claim (wd_idem w) (''inbound'', turn_key sv e) now (sv_ttl_seconds sv))\<rparr>"
  have "\<exists>es. moved c (wd_convs w) (wd_convs (snd (attempts sv meanwhile e now MAX_CONFLICT_RETRIES '''' ?w))) es"
    using attempts_moves [where w = ?w, OF assms(1)] assms(2) by simp
  then show ?thesis
    using moved_refl [OF assms(2)] by (auto simp: handle_def Let_def split: prod.split)
qed

text \<open>The events an orchestrator handles one after another, each with its own services and with what
  others did meanwhile.\<close>

type_synonym 'c delivery = "'c services \<times> (nat \<Rightarrow> 'c meanwhile) \<times> turn_event \<times> instant"

definition handle_all :: "'c delivery list \<Rightarrow> 'c world \<Rightarrow> 'c world" where
  "handle_all xs w = foldl (\<lambda>w (sv, meanwhile, e, now). snd (handle sv meanwhile e now w)) w xs"

text \<open>(C3) Every turn follows the machine. Whatever events arrive, whatever services answer and commands do,
  and whatever lawful steps others take between a load and a save: a conversation's state after any
  number of turns is reached from its state before by a run of the machine, of as many steps as its
  version grew by, and the audit trail grew by exactly those steps.\<close>

theorem turns_follow_the_machine:
  assumes "mem_convs_inv (wd_convs w)" and "\<forall>(sv, meanwhile, e, now)\<in>set xs. \<forall>k. lawful c (meanwhile k)"
  shows "\<exists>es. run (sn_state (mem_load (wd_convs w) c)) es (sn_state (mem_load (wd_convs (handle_all xs w)) c)) \<and>
    sn_version (mem_load (wd_convs (handle_all xs w)) c) = sn_version (mem_load (wd_convs w) c) + int (length es) \<and>
    trail_of (wd_convs (handle_all xs w)) c = trail_of (wd_convs w) c @ map (\<lambda>e. (ev_trigger e, ev_actor e)) es"
proof -
  have "\<exists>es. moved c (wd_convs w) (wd_convs (handle_all xs w)) es"
    using assms
  proof (induction xs arbitrary: w)
    case Nil
    then show ?case using moved_refl by (auto simp: handle_all_def)
  next
    case (Cons x xs)
    obtain sv meanwhile e now where x: "x = (sv, meanwhile, e, now)" by (cases x) auto
    let ?w = "snd (handle sv meanwhile e now w)"
    obtain es where es: "moved c (wd_convs w) (wd_convs ?w) es"
      using handle_moves [of c meanwhile w sv e now] Cons.prems x by auto
    then have "mem_convs_inv (wd_convs ?w)" by (simp add: moved_def)
    then obtain fs where "moved c (wd_convs ?w) (wd_convs (handle_all xs ?w)) fs"
      using Cons.IH [of ?w] Cons.prems(2) by auto
    then show ?case using moved_trans [OF es] by (auto simp: handle_all_def x)
  qed
  then show ?thesis by (auto simp: moved_def)
qed

section \<open>Concrete instances\<close>

text \<open>A conversation we own, with a complete request and one stored candidate.\<close>

definition sample_services :: "unit services" where
  "sample_services =
     \<lparr>sv_sha256 = id, sv_fresh = (\<lambda>kind n. kind @ ''_'' @ show_nat n), sv_repr = (\<lambda>_. ''{}''), sv_str = (\<lambda>_. ''x''),
      sv_error_text = (\<lambda>_. ''error''), sv_identity = (\<lambda>_ _. Inr (Some ''stu_1'')), sv_match = (\<lambda>_. Inr TutorMatch.sample_result),
      sv_sched = short_free, sv_zones = only_ist,
      sv_event = (\<lambda>_. Inr \<lparr>ob_guests = [], ob_participants = Some 2, ob_duration = Some 44\<rparr>),
      sv_tutor_email = (\<lambda>_. Inr None), sv_extract = (\<lambda>d _ _. sample_analysis []), sv_forecast = (\<lambda>_ _ _. ''high''),
      sv_quality = (\<lambda>_ _ _. ''good''), sv_order = sample_provider, sv_activate = (\<lambda>_. Inr (Some ''sub_1'')),
      sv_reminders = shipped_reminders, sv_boundary = sample_boundary, sv_directory = sample_contacts,
      sv_sender = working_sender, sv_ttl_seconds = 86400, sv_scheduling_on = True, sv_reminders_on = True,
      sv_payments_on = True, vo_ask = (\<lambda>_. ''which subject''), vo_options = (\<lambda>_. ''reply with a number''), vo_slots = (\<lambda>_. ''reply with a number''),
      vo_confirmation = (\<lambda>_. ''booked''), vo_cancellation = (\<lambda>_. ''cancelled''), vo_payment = (\<lambda>_ _. ''pay here''),
      vo_welcome = ''welcome'', vo_followup = (\<lambda>_ _ _ _. ''how was it''), vo_summary = (\<lambda>_. ''demo''),
      vo_description = (\<lambda>_. ''demo''), vo_template = (\<lambda>_ _. None), vo_tutor_template = (\<lambda>_. None),
      vo_expired_template = (\<lambda>_. None)\<rparr>"

definition sample_request :: demo_request where
  "sample_request = \<lparr>dr_request_id = ''req_1'', dr_conversation = ''conv'', dr_student_ref = None,
     dr_requirement = \<lparr>nd_service = Some ''urgent_tuition'', nd_board = Some ''CBSE'', nd_student_class = Some ''10'',
       nd_subject = Some ''Physics'', nd_mode = Some ONLINE, nd_region = None, nd_locality = None,
       nd_timezone = ''Asia/Kolkata'', nd_language = LANG_EN\<rparr>,
     dr_language = LANG_EN, dr_region = None, dr_created_at = 0, dr_match_session_id = None\<rparr>"

definition sample_world :: "demo_state \<Rightarrow> unit world" where
  "sample_world s =
     \<lparr>wd_convs = mem_convs_init\<lparr>mc_states := [(''conv'', (blank_snapshot ''conv'')\<lparr>sn_state := s\<rparr>)],
        mc_ownership := [(''conv'', (unowned ''conv'' 0)\<lparr>ow_owner := SELF\<rparr>)], mc_last_inbound := [(''conv'', 0)]\<rparr>,
      wd_idem = \<lparr>mi_claims = [], mi_results = []\<rparr>, wd_outbox = \<lparr>mo_rows = [], mo_keys = {}\<rparr>,
      wd_sending = empty_sending empty_log (),
      wd_sched = empty_world\<lparr>sw_demos := save_candidates (save_request no_demos sample_request) ''conv'' ''m'' [sample_option ''tut_a'' ''Asha Rao'' MF_FRESH]\<rparr>,
      wd_reminders = [], wd_commerce = mem_commerce_init, wd_objections = [], wd_forecasts = [], wd_quality = [],
      wd_cases = [], wd_audit = [], wd_jobs = [], wd_paid_calls = [], wd_seq = 0\<rparr>"

definition sample_turn :: "string \<Rightarrow> trigger \<Rightarrow> actor \<Rightarrow> instant \<Rightarrow> unit delivery" where
  "sample_turn i tr a now =
     (sample_services, \<lambda>_ _ w. w,
      \<lparr>te_conversation = ''conv'', te_trigger = tr, te_actor = a, te_event_id = i, te_payload = Map.empty,
       te_trace = ''tr'', te_causation = None\<rparr>, now)"

text \<open>The event is one no conversation in \<open>NEW\<close> accepts; its redelivery is acknowledged.\<close>

theorem an_event_is_handled_once_witness:
  "\<exists>r w'. handle sample_services (\<lambda>_ _ w. w) (fst (snd (snd (sample_turn ''e1'' PAYMENT_PAID SYSTEM 1)))) 1 (sample_world NEW) = (r, w') \<and>
     handle sample_services (\<lambda>_ _ w. w) (fst (snd (snd (sample_turn ''e1'' PAYMENT_PAID SYSTEM 1)))) 2 w' =
       (Inr (answered_duplicate (fst (snd (snd (sample_turn ''e1'' PAYMENT_PAID SYSTEM 1)))) w'), w')"
proof -
  let ?e = "fst (snd (snd (sample_turn ''e1'' PAYMENT_PAID SYSTEM 1)))"
  obtain r w' where h: "handle sample_services (\<lambda>_ _ w. w) ?e 1 (sample_world NEW) = (r, w')" by fastforce
  have "\<forall>k. on_others ((\<lambda>_ _ w. w) k) (turn_key sample_services ?e)" by (simp add: on_others_def)
  moreover have "\<forall>t. inbound_claim (sample_world NEW) (turn_key sample_services ?e) = Some t \<longrightarrow> t \<le> 1"
    by (simp add: inbound_claim_def sample_world_def)
  moreover have "(2::instant) < 1 + seconds (sv_ttl_seconds sample_services)"
    by (simp add: sample_services_def seconds_def)
  ultimately show ?thesis using an_event_is_handled_once [OF _ _ h] h by blast
qed

theorem turns_follow_the_machine_witness:
  "\<exists>es. run TUTOR_MATCH_REQUESTED es
      (sn_state (mem_load (wd_convs (handle_all [sample_turn ''e1'' MATCH_SUCCEEDED SYSTEM 1, sample_turn ''e2'' CANCELLED_BY_USER USER 2]
        (sample_world TUTOR_MATCH_REQUESTED))) ''conv''))"
proof -
  have "mem_convs_inv (wd_convs (sample_world TUTOR_MATCH_REQUESTED))"
    by (simp add: sample_world_def mem_convs_inv_def mem_load_def mem_history_def mem_convs_init_def blank_snapshot_def)
  moreover have "sn_state (mem_load (wd_convs (sample_world TUTOR_MATCH_REQUESTED)) ''conv'') = TUTOR_MATCH_REQUESTED"
    by (simp add: sample_world_def mem_load_def mem_convs_init_def)
  ultimately show ?thesis
    using turns_follow_the_machine [of "sample_world TUTOR_MATCH_REQUESTED"
        "[sample_turn ''e1'' MATCH_SUCCEEDED SYSTEM 1, sample_turn ''e2'' CANCELLED_BY_USER USER 2]" "''conv''"]
      undisturbed_lawful
    by (auto simp: sample_turn_def)
qed

end
