(* ===== verification/Routing.thy ===== *)
theory Routing
  imports TurnRuns Discounts MachineRuns
begin

text \<open>
  The typed events between the capability workers: contracts/events.py, glue/routing.py and the
  dispatchers of handlers/capabilities.py. Which worker an event goes to, which tables a worker may
  write, in which lane and in which order group its message travels, and which trigger the worker fires on the
  conversation. The batch loop around the dispatchers is in Resilience. A frozenset is a list, its order
  does not matter here; the monitoring worker writes rollups only and is left out.
\<close>

section \<open>Domain events\<close>

datatype domain_event =
    EV_DEMO_REQUESTED | EV_REQUIREMENTS_COMPLETED | EV_TUTOR_SELECTED | EV_SLOT_HELD | EV_SLOT_HOLD_EXPIRED
  | EV_SCHEDULED | EV_RESCHEDULED | EV_CANCELLED | EV_STUDENT_NO_SHOW | EV_TUTOR_NO_SHOW | EV_COMPLETED
  | EV_OBJECTIONS_EXTRACTED | EV_FORECAST_UPDATED | EV_FOLLOWUP_READY | EV_DISCOUNT_OFFERED
  | EV_DISCOUNT_ESCALATED | EV_PAYMENT_REQUESTED | EV_PAYMENT_CONFIRMED | EV_PAYMENT_FAILED
  | EV_SUBSCRIPTION_ACTIVATED | EV_ONBOARDING_REQUESTED | EV_HANDOFF_REQUESTED | EV_HANDOFF_ACCEPTED
  | EV_HANDOFF_FAILED | EV_HUMAN_HANDOFF_RAISED | EV_UNDERPERFORMANCE_DETECTED

fun event_value :: "domain_event \<Rightarrow> string" where
  "event_value EV_DEMO_REQUESTED = ''demo.requested''"
| "event_value EV_REQUIREMENTS_COMPLETED = ''demo.requirements_completed''"
| "event_value EV_TUTOR_SELECTED = ''demo.tutor_selected''"
| "event_value EV_SLOT_HELD = ''demo.slot_held''"
| "event_value EV_SLOT_HOLD_EXPIRED = ''demo.slot_hold_expired''"
| "event_value EV_SCHEDULED = ''demo.scheduled''"
| "event_value EV_RESCHEDULED = ''demo.rescheduled''"
| "event_value EV_CANCELLED = ''demo.cancelled''"
| "event_value EV_STUDENT_NO_SHOW = ''demo.student_no_show''"
| "event_value EV_TUTOR_NO_SHOW = ''demo.tutor_no_show''"
| "event_value EV_COMPLETED = ''demo.completed''"
| "event_value EV_OBJECTIONS_EXTRACTED = ''demo.objections_extracted''"
| "event_value EV_FORECAST_UPDATED = ''demo.forecast_updated''"
| "event_value EV_FOLLOWUP_READY = ''demo.followup_ready''"
| "event_value EV_DISCOUNT_OFFERED = ''demo.discount_offered''"
| "event_value EV_DISCOUNT_ESCALATED = ''demo.discount_escalated''"
| "event_value EV_PAYMENT_REQUESTED = ''demo.payment_requested''"
| "event_value EV_PAYMENT_CONFIRMED = ''payment.confirmed''"
| "event_value EV_PAYMENT_FAILED = ''payment.failed''"
| "event_value EV_SUBSCRIPTION_ACTIVATED = ''subscription.activated''"
| "event_value EV_ONBOARDING_REQUESTED = ''onboarding.requested''"
| "event_value EV_HANDOFF_REQUESTED = ''conversation.handoff_requested''"
| "event_value EV_HANDOFF_ACCEPTED = ''conversation.handoff_accepted''"
| "event_value EV_HANDOFF_FAILED = ''conversation.handoff_failed''"
| "event_value EV_HUMAN_HANDOFF_RAISED = ''conversation.human_handoff_raised''"
| "event_value EV_UNDERPERFORMANCE_DETECTED = ''ops.underperformance_detected''"

section \<open>Capabilities, lanes and tables\<close>

datatype capability =
    CAP_ORCHESTRATOR | CAP_SCHEDULING | CAP_REMINDERS | CAP_FORECASTING | CAP_OBJECTIONS | CAP_CONVERSION
  | CAP_DISCOUNTS | CAP_PAID_TRANSITION | CAP_MONITORING | CAP_OUTBOUND | CAP_PERSISTENCE

definition all_capabilities :: "capability list" where
  "all_capabilities = [CAP_ORCHESTRATOR, CAP_SCHEDULING, CAP_REMINDERS, CAP_FORECASTING, CAP_OBJECTIONS, CAP_CONVERSION,
     CAP_DISCOUNTS, CAP_PAID_TRANSITION, CAP_MONITORING, CAP_OUTBOUND, CAP_PERSISTENCE]"

fun capability_value :: "capability \<Rightarrow> string" where
  "capability_value CAP_ORCHESTRATOR = ''orchestrator''"
| "capability_value CAP_SCHEDULING = ''scheduling''"
| "capability_value CAP_REMINDERS = ''reminders''"
| "capability_value CAP_FORECASTING = ''forecasting''"
| "capability_value CAP_OBJECTIONS = ''objections''"
| "capability_value CAP_CONVERSION = ''conversion''"
| "capability_value CAP_DISCOUNTS = ''discounts''"
| "capability_value CAP_PAID_TRANSITION = ''paid_transition''"
| "capability_value CAP_MONITORING = ''monitoring''"
| "capability_value CAP_OUTBOUND = ''outbound''"
| "capability_value CAP_PERSISTENCE = ''persistence''"

datatype lane = LANE_PAYMENT | LANE_SCHEDULING | LANE_CUSTOMER_OUTBOUND | LANE_REMINDERS | LANE_ANALYTICS

definition LANES :: "(capability, lane) odict" where
  "LANES =
     [(CAP_PAID_TRANSITION, LANE_PAYMENT), (CAP_ORCHESTRATOR, LANE_SCHEDULING), (CAP_SCHEDULING, LANE_SCHEDULING),
      (CAP_PERSISTENCE, LANE_SCHEDULING), (CAP_OUTBOUND, LANE_CUSTOMER_OUTBOUND), (CAP_CONVERSION, LANE_CUSTOMER_OUTBOUND),
      (CAP_REMINDERS, LANE_REMINDERS), (CAP_DISCOUNTS, LANE_ANALYTICS), (CAP_FORECASTING, LANE_ANALYTICS),
      (CAP_OBJECTIONS, LANE_ANALYTICS), (CAP_MONITORING, LANE_ANALYTICS)]"

definition WRITES :: "(capability, string list) odict" where
  "WRITES =
     [(CAP_ORCHESTRATOR, [''dcc_conversations'', ''dcc_conversation_state'', ''dcc_state_transitions'', ''dcc_idempotency_keys'',
         ''dcc_inbound_events'', ''dcc_outbox_events'', ''dcc_tool_executions'', ''dcc_audit_events'', ''dcc_demo_requests'',
         ''dcc_demo_requirements'', ''dcc_tutor_candidate_snapshots'']),
      (CAP_SCHEDULING, [''dcc_slot_holds'', ''dcc_demos'', ''dcc_demo_attendees'', ''dcc_tutor_confirmation_requests'']),
      (CAP_REMINDERS, [''dcc_demo_reminders'']),
      (CAP_FORECASTING, [''dcc_conversion_forecasts'', ''dcc_forecast_versions'', ''dcc_demo_quality_scores'']),
      (CAP_OBJECTIONS, [''dcc_objection_analyses'']),
      (CAP_CONVERSION, []),
      (CAP_DISCOUNTS, [''dcc_discount_decisions'']),
      (CAP_PAID_TRANSITION, [''dcc_payment_orders'', ''dcc_payment_events'', ''dcc_subscription_activation_attempts'', ''dcc_handoffs'']),
      (CAP_MONITORING, [''dcc_regional_metric_rollups'', ''dcc_underperformance_alerts'', ''dcc_human_handoff_cases'']),
      (CAP_OUTBOUND, [''dcc_message_log'']),
      (CAP_PERSISTENCE, [])]"

definition assert_write_allowed :: "capability \<Rightarrow> string \<Rightarrow> string + unit" where
  "assert_write_allowed c table =
     (if table \<notin> set (case dict_get WRITES c of None \<Rightarrow> [] | Some ts \<Rightarrow> ts)
      then Inl (capability_value c @ '' may not write '' @ table) else Inr ())"

fun first_writer :: "(capability, string list) odict \<Rightarrow> string \<Rightarrow> capability option" where
  "first_writer [] table = None"
| "first_writer ((c, ts) # ws) table = (if table \<in> set ts then Some c else first_writer ws table)"

definition owner_of :: "string \<Rightarrow> capability option" where
  "owner_of table = first_writer WRITES table"

section \<open>Routes\<close>

definition ROUTES :: "(domain_event, capability) odict" where
  "ROUTES =
     [(EV_DEMO_REQUESTED, CAP_ORCHESTRATOR), (EV_REQUIREMENTS_COMPLETED, CAP_ORCHESTRATOR),
      (EV_TUTOR_SELECTED, CAP_SCHEDULING), (EV_SLOT_HELD, CAP_SCHEDULING), (EV_SLOT_HOLD_EXPIRED, CAP_SCHEDULING),
      (EV_SCHEDULED, CAP_REMINDERS), (EV_RESCHEDULED, CAP_REMINDERS), (EV_CANCELLED, CAP_REMINDERS),
      (EV_COMPLETED, CAP_OBJECTIONS), (EV_OBJECTIONS_EXTRACTED, CAP_FORECASTING), (EV_FORECAST_UPDATED, CAP_CONVERSION),
      (EV_FOLLOWUP_READY, CAP_OUTBOUND), (EV_DISCOUNT_OFFERED, CAP_CONVERSION), (EV_DISCOUNT_ESCALATED, CAP_MONITORING),
      (EV_PAYMENT_REQUESTED, CAP_PAID_TRANSITION), (EV_PAYMENT_CONFIRMED, CAP_PAID_TRANSITION),
      (EV_PAYMENT_FAILED, CAP_CONVERSION), (EV_SUBSCRIPTION_ACTIVATED, CAP_PAID_TRANSITION),
      (EV_ONBOARDING_REQUESTED, CAP_PAID_TRANSITION), (EV_STUDENT_NO_SHOW, CAP_MONITORING),
      (EV_TUTOR_NO_SHOW, CAP_MONITORING), (EV_HUMAN_HANDOFF_RAISED, CAP_MONITORING),
      (EV_UNDERPERFORMANCE_DETECTED, CAP_MONITORING)]"

definition event_route :: "domain_event \<Rightarrow> capability option" where
  "event_route e = dict_get ROUTES e"

fun unlaned :: "capability list \<Rightarrow> string list" where
  "unlaned [] = []"
| "unlaned (c # cs) =
     (if dict_get LANES c = None then [capability_value c @ '' has no lane''] else []) @
     (if dict_get WRITES c = None then [capability_value c @ '' has no declared writes''] else []) @ unlaned cs"

fun shared_tables :: "capability \<Rightarrow> string list \<Rightarrow> (string, capability) odict \<Rightarrow> string list \<times> (string, capability) odict" where
  "shared_tables c [] seen = ([], seen)"
| "shared_tables c (t # ts) seen =
     (let (ps, seen') = shared_tables c ts (dict_set seen t c)
      in ((case dict_get seen t of
             None \<Rightarrow> []
           | Some c' \<Rightarrow> [t @ '' is writable by both '' @ capability_value c' @ '' and '' @ capability_value c]) @ ps, seen'))"

fun shared_writes :: "(capability, string list) odict \<Rightarrow> (string, capability) odict \<Rightarrow> string list" where
  "shared_writes [] seen = []"
| "shared_writes ((c, ts) # ws) seen = (let (ps, seen') = shared_tables c ts seen in ps @ shared_writes ws seen')"

definition routing_invariants :: "string list" where
  "routing_invariants =
     unlaned all_capabilities @ shared_writes WRITES [] @
     concat (map (\<lambda>(e, c). if dict_get LANES c = None then [event_value e @ '' routes to an unlaned capability''] else []) ROUTES)"

section \<open>Capability events\<close>

record capability_event =
  cv_event :: domain_event
  cv_capability :: capability
  cv_conversation :: ref
  cv_key :: string
  cv_trace :: string
  cv_causation :: "ref option"
  cv_payload :: payload
  cv_attempt :: int

definition event_lane :: "capability_event \<Rightarrow> lane" where
  "event_lane e = the (dict_get LANES (cv_capability e))"

definition message_group_id :: "capability_event \<Rightarrow> string" where
  "message_group_id e =
     (if event_lane e = LANE_ANALYTICS then ''analytics:'' @ event_value (cv_event e) else cv_conversation e)"

definition retried :: "capability_event \<Rightarrow> capability_event" where
  "retried e = e\<lparr>cv_attempt := cv_attempt e + 1\<rparr>"

section \<open>The dispatchers\<close>

text \<open>The trigger a worker fires for an event, when it fires one.\<close>

fun worker_trigger :: "capability \<Rightarrow> domain_event \<Rightarrow> trigger option" where
  "worker_trigger CAP_SCHEDULING e =
     dict_get [(EV_TUTOR_SELECTED, SLOT_PROPOSED), (EV_SLOT_HELD, HOLD_PLACED), (EV_SLOT_HOLD_EXPIRED, trigger.HOLD_EXPIRED)] e"
| "worker_trigger CAP_REMINDERS e = (if e = EV_SCHEDULED \<or> e = EV_RESCHEDULED then Some REMINDERS_SCHEDULED else None)"
| "worker_trigger CAP_OBJECTIONS e = (if e = EV_COMPLETED then Some ANALYSIS_REQUESTED else None)"
| "worker_trigger CAP_FORECASTING e = (if e = EV_OBJECTIONS_EXTRACTED then Some ANALYSIS_COMPLETE else None)"
| "worker_trigger CAP_CONVERSION e =
     (if e = EV_FORECAST_UPDATED \<or> e = EV_DISCOUNT_OFFERED then Some ANALYSIS_COMPLETE
      else if e = EV_PAYMENT_FAILED then Some FOLLOWUP_SENT else None)"
| "worker_trigger CAP_PAID_TRANSITION e =
     dict_get [(EV_PAYMENT_REQUESTED, PAYMENT_LINK_ISSUED), (EV_PAYMENT_CONFIRMED, ACTIVATION_STARTED),
               (EV_SUBSCRIPTION_ACTIVATED, ACTIVATION_SUCCEEDED), (EV_ONBOARDING_REQUESTED, ONBOARDING_HANDED_OFF)] e"
| "worker_trigger _ e = None"

definition via_orchestrator ::
  "'c services \<Rightarrow> (nat \<Rightarrow> 'c meanwhile) \<Rightarrow> capability_event \<Rightarrow> trigger \<Rightarrow> instant \<Rightarrow> 'c world \<Rightarrow> (string + unit) \<times> 'c world" where
  "via_orchestrator sv meanwhile e tr now w =
     (let (r, w') = handle sv meanwhile
            \<lparr>te_conversation = cv_conversation e, te_trigger = tr, te_actor = SYSTEM, te_event_id = cv_key e,
             te_payload = cv_payload e,
             te_trace = (if cv_trace e = '''' then sv_fresh sv ''trace'' (wd_seq w) else cv_trace e),
             te_causation = cv_causation e\<rparr> now w
      in (case r of Inl err \<Rightarrow> Inl err | Inr _ \<Rightarrow> Inr (), w'))"

record discounting =
  ds_policy :: discount_policy
  ds_quote :: "ref option \<Rightarrow> provider_error + plan_quote"
  ds_year_start :: "instant \<Rightarrow> instant"
  ds_int :: "payload_value \<Rightarrow> string + int"
  ds_enabled :: bool

definition repeat_requests :: "discounting \<Rightarrow> payload \<Rightarrow> string + int" where
  "repeat_requests ds p =
     (case p ''repeat_requests'' of
        None \<Rightarrow> Inr 0
      | Some (PFact v) \<Rightarrow> if truthy v then ds_int ds (PFact v) else Inr 0
      | Some (PSlot s) \<Rightarrow> ds_int ds (PSlot s))"

definition decide_discount ::
  "discounting \<Rightarrow> capability_event \<Rightarrow> instant \<Rightarrow> 'c world \<Rightarrow> (string + unit) \<times> 'c world" where
  "decide_discount ds e now w =
     (case for_conversation (wd_demos w) (cv_conversation e) of
        None \<Rightarrow> (Inr (), w)
      | Some d \<Rightarrow>
          (case ds_quote ds (dm_student_ref d) of
             Inl err \<Rightarrow> (Inl (px_class err), w)
           | Inr pq \<Rightarrow>
               (case repeat_requests ds (cv_payload e) of
                  Inl err \<Rightarrow> (Inl err, w)
                | Inr repeats \<Rightarrow>
                    (case evaluate (ds_policy ds) (cv_conversation e) (dm_demo_id d) (dm_student_ref d) pq
                            (dict_get (wd_objections w) (dm_demo_id d)) (oc_outcome (dm_outcome d))
                            (int (mem_offers_since (wd_commerce w) (dm_student_ref d) (ds_year_start ds now))) repeats now
                            (ds_enabled ds) of
                       Inl err \<Rightarrow> (Inl (error_name err), w)
                     | Inr made \<Rightarrow> (Inr (), w\<lparr>wd_commerce := mem_save_decision (wd_commerce w) made\<rparr>)))))"

text \<open>One event at the worker of its capability.\<close>

definition dispatch ::
  "'c services \<Rightarrow> discounting \<Rightarrow> (nat \<Rightarrow> 'c meanwhile) \<Rightarrow> capability \<Rightarrow> capability_event \<Rightarrow> instant \<Rightarrow> 'c world
   \<Rightarrow> (string + unit) \<times> 'c world" where
  "dispatch sv ds meanwhile c e now w =
     (case worker_trigger c (cv_event e) of
        Some tr \<Rightarrow> via_orchestrator sv meanwhile e tr now w
      | None \<Rightarrow>
          if c = CAP_REMINDERS \<and> cv_event e = EV_CANCELLED
          then (let demo = text_payload sv (cv_payload e) ''demo_id''
                in (Inr (), if demo = '''' then w
                            else w\<lparr>wd_reminders := fst (mem_cancel_for_demo (wd_reminders w) demo)\<rparr>))
          else if c = CAP_DISCOUNTS then decide_discount ds e now w
          else (Inr (), w))"

section \<open>The relay\<close>

text \<open>The loop of \<open>_relay\<close> in handlers/workers.py over the rows it read: \<open>answers\<close> says of which rows the dispatch to the
  onboarding agent returns. A row whose dispatch raised stays; every other row is marked. The result is the dispatched
  rows, the number published and the outbox.\<close>

definition to_onboarding :: "string \<Rightarrow> 'v outbox_row \<Rightarrow> bool" where
  "to_onboarding url r \<longleftrightarrow> ob_event r = ''onboarding.requested'' \<and> url \<noteq> ''''"

fun relay_rows ::
  "string \<Rightarrow> ('v outbox_row \<Rightarrow> bool) \<Rightarrow> instant \<Rightarrow> 'v outbox_row list \<Rightarrow> 'v mem_outbox
   \<Rightarrow> 'v outbox_row list \<times> int \<times> 'v mem_outbox" where
  "relay_rows url answers now [] ob = ([], 0, ob)"
| "relay_rows url answers now (r # rs) ob =
     (if to_onboarding url r \<and> \<not> answers r
      then let (calls, n, ob') = relay_rows url answers now rs ob in (r # calls, n, ob')
      else let (calls, n, ob') = relay_rows url answers now rs (mem_mark_published ob (ob_id r) now)
           in (if to_onboarding url r then r # calls else calls, n + 1, ob'))"

definition relay ::
  "string \<Rightarrow> ('v outbox_row \<Rightarrow> bool) \<Rightarrow> instant \<Rightarrow> 'v mem_outbox \<Rightarrow> 'v outbox_row list \<times> int \<times> 'v mem_outbox" where
  "relay url answers now ob = relay_rows url answers now (mem_unpublished ob 100) ob"

section \<open>Follow-on triggers\<close>

text \<open>The events of a command as domain events; that a command emits no others is \<open>commands_emit_their_events\<close>.\<close>

fun emitted_by :: "command \<Rightarrow> domain_event list" where
  "emitted_by PLACE_SLOT_HOLD = [EV_SLOT_HELD]"
| "emitted_by CREATE_CALENDAR_EVENT = [EV_SCHEDULED, EV_RESCHEDULED]"
| "emitted_by RUN_POST_DEMO_ANALYSIS = [EV_OBJECTIONS_EXTRACTED]"
| "emitted_by CREATE_PAYMENT_ORDER = [EV_PAYMENT_REQUESTED]"
| "emitted_by ACTIVATE_SUBSCRIPTION = [EV_SUBSCRIPTION_ACTIVATED]"
| "emitted_by HANDOFF_TO_ONBOARDING = [EV_ONBOARDING_REQUESTED]"
| "emitted_by RAISE_HUMAN_CASE = [EV_HUMAN_HANDOFF_RAISED]"
| "emitted_by NOTIFY_CANCELLATION = [EV_CANCELLED]"
| "emitted_by _ = []"

definition follow_on :: "domain_event \<Rightarrow> trigger option" where
  "follow_on e = (case event_route e of None \<Rightarrow> None | Some c \<Rightarrow> worker_trigger c e)"

lemma emitted_by_events: "event_value ` set (emitted_by c) = emitted_events c"
  by (cases c) simp_all

section \<open>What becomes of a command's events\<close>

lemma mark_first_keeps: "i \<noteq> ob_id r \<Longrightarrow> r \<in> set rows \<Longrightarrow> r \<in> set (mark_first i now rows)"
  by (induction i now rows rule: mark_first.induct) auto

lemma mark_first_marks: "distinct (map ob_id rows) \<Longrightarrow> r \<in> set rows \<Longrightarrow> r\<lparr>ob_published_at := Some now\<rparr> \<in> set (mark_first (ob_id r) now rows)"
  by (induction rows) auto

lemma mark_first_ids [simp]: "map ob_id (mark_first i now rows) = map ob_id rows"
  by (induction i now rows rule: mark_first.induct) auto

lemma relay_rows_keep:
  "\<forall>q\<in>set rs. ob_id q \<noteq> ob_id r \<Longrightarrow> r \<in> set (mo_rows ob) \<Longrightarrow> r \<in> set (mo_rows (snd (snd (relay_rows url answers now rs ob))))"
  by (induction url answers now rs ob rule: relay_rows.induct)
    (auto simp: Let_def case_prod_beta mem_mark_published_def mark_first_keeps)

lemma relay_rows_spec:
  assumes "distinct (map ob_id (mo_rows ob))" and "distinct (map ob_id rs)" and "set rs \<subseteq> set (mo_rows ob)" and "r \<in> set rs"
  shows "(r \<in> set (fst (relay_rows url answers now rs ob)) \<longleftrightarrow> to_onboarding url r) \<and>
    (if to_onboarding url r \<and> \<not> answers r then r else r\<lparr>ob_published_at := Some now\<rparr>)
      \<in> set (mo_rows (snd (snd (relay_rows url answers now rs ob))))"
  using assms
proof (induction url answers now rs ob rule: relay_rows.induct)
  case (2 url answers now q rs ob)
  let ?ob = "if to_onboarding url q \<and> \<not> answers q then ob else mem_mark_published ob (ob_id q) now"
  have step: "relay_rows url answers now (q # rs) ob =
      (let (calls, n, ob') = relay_rows url answers now rs ?ob
       in (if to_onboarding url q then q # calls else calls, if to_onboarding url q \<and> \<not> answers q then n else n + 1, ob'))"
    by (simp add: Let_def case_prod_beta)
  have others: "\<forall>p\<in>set rs. ob_id p \<noteq> ob_id q" using "2.prems"(2) by (metis distinct.simps(2) image_eqI list.set_map list.simps(9))
  show ?case
  proof (cases "r = q")
    case True
    have no: "q \<notin> set (fst (relay_rows url answers now rs' ob'))" if "\<forall>p\<in>set rs'. ob_id p \<noteq> ob_id q" for rs' ob'
      using that by (induction url answers now rs' ob' rule: relay_rows.induct) (auto simp: Let_def case_prod_beta)
    have "(if to_onboarding url q \<and> \<not> answers q then q else q\<lparr>ob_published_at := Some now\<rparr>) \<in> set (mo_rows ?ob)"
      using "2.prems"(1,3) by (auto simp: mem_mark_published_def intro: mark_first_marks)
    then have "(if to_onboarding url q \<and> \<not> answers q then q else q\<lparr>ob_published_at := Some now\<rparr>)
        \<in> set (mo_rows (snd (snd (relay_rows url answers now rs ?ob))))"
      using others by (intro relay_rows_keep) (auto split: if_splits)
    then show ?thesis
      unfolding step using True no [OF others] by (simp add: Let_def case_prod_beta split: if_splits)
  next
    case False
    then have r: "r \<in> set rs" using "2.prems"(4) by simp
    have "distinct (map ob_id (mo_rows ?ob))" "set rs \<subseteq> set (mo_rows ?ob)"
      using "2.prems"(1,3) others by (auto simp: mem_mark_published_def intro!: mark_first_keeps) (metis)?
    then show ?thesis
      unfolding step using "2.IH" r "2.prems"(2) False by (auto simp: Let_def case_prod_beta split: if_splits)
  qed
qed simp

text \<open>(C10) Where the chain of events breaks. On the memory stores (the Postgres outbox cannot be written at all, see
  \<open>pg_outbox_always_raises\<close>) a command adds to the outbox rows of its own events only, none of them published. When the relay then runs, with at most a hundred rows waiting, each of these rows is dispatched
  exactly if it is the request to onboarding and that agent's address is configured; every other row, of whatever event,
  is marked as published without anyone having been called. So no capability worker ever hears of a hold, a booking, an
  analysis, a payment link, an activation, a cancellation or a human case, and nothing is left to be sent again.\<close>

theorem events_are_published_to_nobody:
  assumes "execute sv c p t = (r, t')"
    and "distinct (map ob_id (mo_rows (wd_outbox (tn_world t'))))"
    and "length (filter (\<lambda>r. ob_published_at r = None) (mo_rows (wd_outbox (tn_world t')))) \<le> 100"
    and "relay url answers now (wd_outbox (tn_world t')) = (calls, n, ob)"
  shows "\<exists>rows. mo_rows (wd_outbox (tn_world t')) = mo_rows (wd_outbox (tn_world t)) @ rows \<and>
    (\<forall>q\<in>set rows. ob_event q \<in> emitted_events c \<and>
       (q \<in> set calls \<longleftrightarrow> ob_event q = ''onboarding.requested'' \<and> url \<noteq> '''') \<and>
       (q \<in> set calls \<and> \<not> answers q \<or> q\<lparr>ob_published_at := Some now\<rparr> \<in> set (mo_rows ob)))"
proof -
  let ?ob = "wd_outbox (tn_world t')"
  obtain rows where rows: "mo_rows ?ob = mo_rows (wd_outbox (tn_world t)) @ rows"
      "\<forall>q\<in>set rows. ob_event q \<in> emitted_events c \<and> ob_published_at q = None"
    using commands_emit_their_events [of c t sv p] assms(1) by (auto simp: emits_only_def)
  have all: "mem_unpublished ?ob 100 = filter (\<lambda>r. ob_published_at r = None) (mo_rows ?ob)"
    using assms(3) by (simp add: mem_unpublished_def)
  have "(q \<in> set calls \<longleftrightarrow> ob_event q = ''onboarding.requested'' \<and> url \<noteq> '''') \<and>
      (q \<in> set calls \<and> \<not> answers q \<or> q\<lparr>ob_published_at := Some now\<rparr> \<in> set (mo_rows ob))" if q: "q \<in> set rows" for q
  proof -
    have "q \<in> set (mem_unpublished ?ob 100)" unfolding all using q rows by simp
    moreover have "distinct (map ob_id (mem_unpublished ?ob 100))" "set (mem_unpublished ?ob 100) \<subseteq> set (mo_rows ?ob)"
      unfolding all using assms(2) by (auto simp: distinct_map_filter)
    ultimately show ?thesis
      using relay_rows_spec [OF assms(2), of "mem_unpublished ?ob 100" q url answers now] assms(4)
      by (auto simp: relay_def to_onboarding_def split: if_splits)
  qed
  then show ?thesis using rows by blast
qed

section \<open>One writer for each table\<close>

lemma first_writer_iff:
  assumes "distinct (concat (map snd ws))" and "distinct (map fst ws)"
  shows "first_writer ws table = Some c \<longleftrightarrow> table \<in> set (case dict_get ws c of None \<Rightarrow> [] | Some ts \<Rightarrow> ts)"
  using assms
proof (induction ws table rule: first_writer.induct)
  case (2 d ts ws table)
  have in_rest: "table \<in> set (concat (map snd ws))"
    if member: "table \<in> set (case dict_get ws c of None \<Rightarrow> [] | Some us \<Rightarrow> us)"
  proof -
    obtain us where "dict_get ws c = Some us" "table \<in> set us" using member by (cases "dict_get ws c") auto
    then have "(c, us) \<in> set ws" "table \<in> set us" by (auto dest: dict_get_in)
    then show ?thesis by force
  qed
  have "dict_get ws d = None" using 2(3) by (auto simp: dict_get_None_iff dict_keys_def)
  then show ?case using 2 in_rest by (cases "c = d") (auto split: if_splits)
qed simp

text \<open>The structural check is sound: finding nothing, it has seen every table once.\<close>

lemma shared_tables_Nil:
  "shared_tables c ts seen = ([], seen') \<Longrightarrow>
     distinct ts \<and> (\<forall>t\<in>set ts. dict_get seen t = None) \<and>
     (\<forall>t. dict_get seen' t = (if t \<in> set ts then Some c else dict_get seen t))"
proof (induction ts arbitrary: seen)
  case (Cons t ts)
  obtain ps seen'' where rest: "shared_tables c ts (dict_set seen t c) = (ps, seen'')" by fastforce
  then have "dict_get seen t = None" "ps = []" "seen'' = seen'" using Cons.prems by (auto split: option.splits)
  then show ?case using Cons.IH [of "dict_set seen t c"] rest by (auto split: if_splits)
qed simp

lemma shared_writes_Nil:
  "shared_writes ws seen = [] \<Longrightarrow>
     distinct (concat (map snd ws)) \<and> (\<forall>t\<in>set (concat (map snd ws)). dict_get seen t = None)"
proof (induction ws seen rule: shared_writes.induct)
  case (2 c ts ws seen)
  obtain ps seen' where first: "shared_tables c ts seen = (ps, seen')" by fastforce
  then have "ps = []" "shared_writes ws seen' = []" using 2(2) by simp_all
  moreover note shared_tables_Nil [of c ts seen seen'] 2(1) [OF first [symmetric] refl]
  ultimately show ?case using first by (auto split: if_splits)
qed simp

lemma routing_is_sound: "routing_invariants = []"
  by code_simp

lemma writes_distinct: "distinct (concat (map snd WRITES))" "distinct (map fst WRITES)"
proof -
  have "shared_writes WRITES [] = []" using routing_is_sound by (simp add: routing_invariants_def)
  then show "distinct (concat (map snd WRITES))" using shared_writes_Nil by blast
qed (simp add: WRITES_def)

text \<open>No two workers write one table. The structural checks of the routing find nothing, and a worker
  is allowed to write a table exactly if it is the table's owner.\<close>

theorem tables_have_one_writer:
  "routing_invariants = [] \<and> (assert_write_allowed c table = Inr () \<longleftrightarrow> owner_of table = Some c)"
proof
  show "routing_invariants = []" by (rule routing_is_sound)
  show "assert_write_allowed c table = Inr () \<longleftrightarrow> owner_of table = Some c"
    unfolding owner_of_def first_writer_iff [OF writes_distinct] by (simp add: assert_write_allowed_def)
qed

section \<open>What follows a command's event\<close>

lemma no_event_decides_a_discount: "event_route e \<noteq> Some CAP_DISCOUNTS"
  by (cases e) (simp_all add: event_route_def ROUTES_def)

definition DEAD_ENDS :: "command set" where
  "DEAD_ENDS = {CREATE_CALENDAR_EVENT, CREATE_PAYMENT_ORDER, HANDOFF_TO_ONBOARDING}"

lemma emitting_rows:
  "t \<in> set TRANSITIONS \<Longrightarrow> emitted_by (command t) \<noteq> [] \<Longrightarrow>
     command t \<in> {RAISE_HUMAN_CASE, NOTIFY_CANCELLATION} \<or>
     (command t, target t) \<in> {(PLACE_SLOT_HOLD, SLOT_HELD), (CREATE_CALENDAR_EVENT, CALENDAR_CREATION_PENDING),
       (RUN_POST_DEMO_ANALYSIS, COMPLETED), (RUN_POST_DEMO_ANALYSIS, POST_DEMO_ANALYSIS),
       (CREATE_PAYMENT_ORDER, PAYMENT_PENDING), (ACTIVATE_SUBSCRIPTION, PAYMENT_CONFIRMED),
       (ACTIVATE_SUBSCRIPTION, SUBSCRIPTION_ACTIVATING), (HANDOFF_TO_ONBOARDING, ONBOARDING_HANDOFF_PENDING)}"
  by (simp add: TRANSITIONS_def table_rows) (elim disjE; simp)

lemma follow_on_values:
  "follow_on EV_SLOT_HELD = Some HOLD_PLACED" "follow_on EV_SCHEDULED = Some REMINDERS_SCHEDULED"
  "follow_on EV_RESCHEDULED = Some REMINDERS_SCHEDULED" "follow_on EV_OBJECTIONS_EXTRACTED = Some ANALYSIS_COMPLETE"
  "follow_on EV_PAYMENT_REQUESTED = Some PAYMENT_LINK_ISSUED" "follow_on EV_SUBSCRIPTION_ACTIVATED = Some ACTIVATION_SUCCEEDED"
  "follow_on EV_ONBOARDING_REQUESTED = Some ONBOARDING_HANDED_OFF" "follow_on EV_HUMAN_HANDOFF_RAISED = None"
  "follow_on EV_CANCELLED = None"
  by (simp_all add: follow_on_def event_route_def ROUTES_def)

lemma follow_on_pairs:
  assumes "c \<in> {RAISE_HUMAN_CASE, NOTIFY_CANCELLATION} \<or>
     (c, s) \<in> {(PLACE_SLOT_HOLD, SLOT_HELD), (CREATE_CALENDAR_EVENT, CALENDAR_CREATION_PENDING),
       (RUN_POST_DEMO_ANALYSIS, COMPLETED), (RUN_POST_DEMO_ANALYSIS, POST_DEMO_ANALYSIS),
       (CREATE_PAYMENT_ORDER, PAYMENT_PENDING), (ACTIVATE_SUBSCRIPTION, PAYMENT_CONFIRMED),
       (ACTIVATE_SUBSCRIPTION, SUBSCRIPTION_ACTIVATING), (HANDOFF_TO_ONBOARDING, ONBOARDING_HANDOFF_PENDING)}"
    and "e \<in> set (emitted_by c)" and "follow_on e = Some tr"
  shows "(c, s, tr) \<in> {(PLACE_SLOT_HOLD, SLOT_HELD, HOLD_PLACED),
       (CREATE_CALENDAR_EVENT, CALENDAR_CREATION_PENDING, REMINDERS_SCHEDULED),
       (RUN_POST_DEMO_ANALYSIS, COMPLETED, ANALYSIS_COMPLETE), (RUN_POST_DEMO_ANALYSIS, POST_DEMO_ANALYSIS, ANALYSIS_COMPLETE),
       (CREATE_PAYMENT_ORDER, PAYMENT_PENDING, PAYMENT_LINK_ISSUED), (ACTIVATE_SUBSCRIPTION, PAYMENT_CONFIRMED, ACTIVATION_SUCCEEDED),
       (ACTIVATE_SUBSCRIPTION, SUBSCRIPTION_ACTIVATING, ACTIVATION_SUCCEEDED),
       (HANDOFF_TO_ONBOARDING, ONBOARDING_HANDOFF_PENDING, ONBOARDING_HANDED_OFF)}"
  using assms(1) by (elim disjE insertE emptyE; use assms(2,3) in \<open>auto simp: follow_on_values\<close>)

definition system_may :: "demo_state \<Rightarrow> trigger \<Rightarrow> bool" where
  "system_may s tr \<longleftrightarrow> list_ex (\<lambda>t. row_matches s tr t \<and> list_ex (\<lambda>a. a = SYSTEM) (actors t)) TRANSITIONS"

lemma follow_on_rows:
  "system_may SLOT_HELD HOLD_PLACED" "system_may COMPLETED ANALYSIS_COMPLETE" "system_may POST_DEMO_ANALYSIS ANALYSIS_COMPLETE"
  "system_may PAYMENT_CONFIRMED ACTIVATION_SUCCEEDED" "system_may SUBSCRIPTION_ACTIVATING ACTIVATION_SUCCEEDED"
  "lookup CALENDAR_CREATION_PENDING REMINDERS_SCHEDULED = None" "lookup PAYMENT_PENDING PAYMENT_LINK_ISSUED = None"
  "lookup ONBOARDING_HANDOFF_PENDING ONBOARDING_HANDED_OFF = None"
  by (simp_all add: system_may_def lookup_scan row_matches_def TRANSITIONS_def table_rows)

lemma system_available:
  assumes "system_may (sn_state sn) tr"
  shows "tr \<in> available sn SYSTEM"
proof -
  obtain t where "t \<in> set TRANSITIONS" "on t = tr" "sn_state sn \<in> set (sources t)" "SYSTEM \<in> set (actors t)"
    using assms by (auto simp: system_may_def list_ex_iff row_matches_def)
  then have "fire sn tr SYSTEM (sn_facts sn ++ good_facts) = Inr (result_for sn t tr SYSTEM)"
    unfolding fire_Inr_iff using guards_can_pass [of t "sn_state sn" SYSTEM "sn_facts sn ++ sn_facts sn"] by auto
  then have "can_fire sn tr SYSTEM (sn_facts sn ++ good_facts)" by (simp add: can_fire_def)
  then show ?thesis by (auto simp: available_is_can_fire)
qed

lemma handle_refused:
  assumes "lookup (sn_state (mem_load (wd_convs w) (te_conversation e))) (te_trigger e) = None"
  shows "wd_convs (snd (handle sv meanwhile e now w)) = wd_convs w \<and> wd_sending (snd (handle sv meanwhile e now w)) = wd_sending w"
proof -
  have "\<exists>rj. fire (mem_load (wd_convs w) (te_conversation e)) (te_trigger e) (te_actor e) f = Inl rj" for f
    using assms by (simp add: fire_def Let_def)
  note stuck = this
  have refused: "\<exists>res audit. attempt sv m e now (w\<lparr>wd_idem := idem\<rparr>) = (Inr res, w\<lparr>wd_idem := idem, wd_audit := audit\<rparr>)" for m idem
  proof -
    obtain rj where "fire (mem_load (wd_convs w) (te_conversation e)) (te_trigger e) (te_actor e) (turn_facts sv e now (w\<lparr>wd_idem := idem\<rparr>)) = Inl rj"
      using stuck by blast
    then show ?thesis by (auto simp: attempt_def Let_def)
  qed
  obtain won idem where claim: "mem_idem_claim (wd_idem w) (''inbound'', turn_key sv e) now (sv_ttl_seconds sv) = (won, idem)"
    by fastforce
  obtain res audit where "attempt sv (meanwhile 2) e now (w\<lparr>wd_idem := idem\<rparr>) = (Inr res, w\<lparr>wd_idem := idem, wd_audit := audit\<rparr>)"
    using refused by blast
  then have "attempts sv meanwhile e now MAX_CONFLICT_RETRIES '''' (w\<lparr>wd_idem := idem\<rparr>) = (Inr res, w\<lparr>wd_idem := idem, wd_audit := audit\<rparr>)"
    by (simp add: MAX_CONFLICT_RETRIES_def eval_nat_numeral)
  then show ?thesis by (simp add: handle_def Let_def claim)
qed

text \<open>What would follow if the event of a command were delivered to the worker it is routed to, which fires a
  trigger as the system. In the state the command's transition led to, that trigger is available for every command but three;
  for a booking, a payment order and the onboarding request it is not in the table, and the event,
  once dispatched there, neither moves the conversation nor sends anything, under whatever facts.\<close>

theorem follow_ons_of_commands:
  assumes "t \<in> set TRANSITIONS" and "e \<in> set (emitted_by (command t))" and "follow_on e = Some tr"
  shows "if command t \<in> DEAD_ENDS
    then \<forall>sv ds c ev now (w :: 'c world).
      cv_event ev = e \<longrightarrow> event_route e = Some c \<longrightarrow> sn_state (mem_load (wd_convs w) (cv_conversation ev)) = target t \<longrightarrow>
      wd_convs (snd (dispatch sv ds meanwhile c ev now w)) = wd_convs w \<and>
      wd_sending (snd (dispatch sv ds meanwhile c ev now w)) = wd_sending w
    else \<forall>sn. sn_state sn = target t \<longrightarrow> tr \<in> available sn SYSTEM"
proof -
  have row: "(command t, target t, tr) \<in> {(PLACE_SLOT_HOLD, SLOT_HELD, HOLD_PLACED),
       (CREATE_CALENDAR_EVENT, CALENDAR_CREATION_PENDING, REMINDERS_SCHEDULED),
       (RUN_POST_DEMO_ANALYSIS, COMPLETED, ANALYSIS_COMPLETE), (RUN_POST_DEMO_ANALYSIS, POST_DEMO_ANALYSIS, ANALYSIS_COMPLETE),
       (CREATE_PAYMENT_ORDER, PAYMENT_PENDING, PAYMENT_LINK_ISSUED), (ACTIVATE_SUBSCRIPTION, PAYMENT_CONFIRMED, ACTIVATION_SUCCEEDED),
       (ACTIVATE_SUBSCRIPTION, SUBSCRIPTION_ACTIVATING, ACTIVATION_SUCCEEDED),
       (HANDOFF_TO_ONBOARDING, ONBOARDING_HANDOFF_PENDING, ONBOARDING_HANDED_OFF)}"
  proof -
    have "emitted_by (command t) \<noteq> []" using assms(2) by auto
    from emitting_rows [OF assms(1) this] show ?thesis by (rule follow_on_pairs [OF _ assms(2,3)])
  qed
  show ?thesis
  proof (cases "command t \<in> DEAD_ENDS")
    case False
    then have "system_may (target t) tr" using row follow_on_rows by (auto simp: DEAD_ENDS_def)
    then show ?thesis using False system_available by auto
  next
    case True
    then have none: "lookup (target t) tr = None" using row follow_on_rows by (auto simp: DEAD_ENDS_def)
    have "wd_convs (snd (dispatch sv ds meanwhile c ev now w)) = wd_convs w \<and>
        wd_sending (snd (dispatch sv ds meanwhile c ev now w)) = wd_sending w"
      if "cv_event ev = e" "event_route e = Some c" "sn_state (mem_load (wd_convs w) (cv_conversation ev)) = target t"
      for sv ds c ev now and w :: "'c world"
    proof -
      have "worker_trigger c e = Some tr" using assms(3) that(2) by (simp add: follow_on_def)
      then show ?thesis
        using handle_refused [where w = w and sv = sv and meanwhile = meanwhile and now = now and
            e = "\<lparr>te_conversation = cv_conversation ev, te_trigger = tr, te_actor = SYSTEM, te_event_id = cv_key ev,
              te_payload = cv_payload ev, te_trace = (if cv_trace ev = '''' then sv_fresh sv ''trace'' (wd_seq w) else cv_trace ev),
              te_causation = cv_causation ev\<rparr>"] that none
        by (simp add: dispatch_def via_orchestrator_def case_prod_beta)
    qed
    then show ?thesis using True by simp
  qed
qed

text \<open>The event of a booking, delivered to the reminders worker while the event is still pending.\<close>

definition booked_event :: capability_event where
  "booked_event = \<lparr>cv_event = EV_SCHEDULED, cv_capability = CAP_REMINDERS, cv_conversation = ''conv'', cv_key = ''k'',
     cv_trace = ''tr'', cv_causation = None, cv_payload = Map.empty, cv_attempt = 1\<rparr>"

theorem follow_ons_of_commands_witness:
  "\<forall>ds. wd_convs (snd (dispatch sample_services ds (\<lambda>_ _ w. w) CAP_REMINDERS booked_event 1 (sample_world CALENDAR_CREATION_PENDING))) =
      wd_convs (sample_world CALENDAR_CREATION_PENDING) \<and>
    wd_sending (snd (dispatch sample_services ds (\<lambda>_ _ w. w) CAP_REMINDERS booked_event 1 (sample_world CALENDAR_CREATION_PENDING))) =
      wd_sending (sample_world CALENDAR_CREATION_PENDING)"
proof -
  let ?t = "\<lparr>sources = [TUTOR_CONFIRMATION_PENDING], on = TUTOR_ACCEPTED, actors = [TUTOR, OPERATOR, SYSTEM],
    target = CALENDAR_CREATION_PENDING, command = CREATE_CALENDAR_EVENT, guard = Some hold_is_live,
    compensation = RELEASE_SLOT_HOLD, reason = ''tutor_accepted''\<rparr>"
  have "?t \<in> set TRANSITIONS" by (simp add: TRANSITIONS_def table_rows)
  moreover have "EV_SCHEDULED \<in> set (emitted_by (command ?t))" by simp
  ultimately show ?thesis
    using follow_ons_of_commands [of ?t EV_SCHEDULED REMINDERS_SCHEDULED "\<lambda>_ _ w. w :: unit world"]
    by (simp add: follow_on_values DEAD_ENDS_def booked_event_def sample_world_def mem_load_def mem_convs_init_def
        event_route_def ROUTES_def)
qed

text \<open>A parent asks for a human; the relay then runs.\<close>

definition asking_for_help :: "unit turn" where
  "asking_for_help =
     \<lparr>tn_conversation = ''conv'', tn_trace = ''tr'', tn_now = 0, tn_snapshot = blank_snapshot ''conv'',
      tn_ownership = unowned ''conv'' 0, tn_trigger = Some HUMAN_REQUESTED, tn_causation = None, tn_facts = Map.empty,
      tn_outbox = [], tn_degraded = [], tn_world = sample_world NEW\<rparr>"

theorem events_are_published_to_nobody_witness:
  "let ob = wd_outbox (tn_world (snd (execute sample_services RAISE_HUMAN_CASE Map.empty asking_for_help)));
       (calls, n, ob') = relay ''https://onboarding'' (\<lambda>_. True) 5 ob
   in map ob_event (mo_rows ob) = [''conversation.human_handoff_raised''] \<and> calls = [] \<and>
      map ob_published_at (mo_rows ob') = [Some 5]"
proof -
  obtain r t' where x: "execute sample_services RAISE_HUMAN_CASE Map.empty asking_for_help = (r, t')" by fastforce
  have t': "t' = snd (execute sample_services RAISE_HUMAN_CASE Map.empty asking_for_help)" by (simp only: x snd_conv)
  have raised: "t' = snd (raise_human_case sample_services Map.empty asking_for_help)" using x by simp
  obtain q where ob: "mo_rows (wd_outbox (tn_world t')) = [q]" "ob_published_at q = None" "ob_event q = ''conversation.human_handoff_raised''"
    unfolding raised by (simp add: raise_human_case_def and_do_def fresh_def change_def in_world_def emit_event_def give_def
        mem_enqueue_def asking_for_help_def sample_world_def Let_def)
  obtain calls n ob' where rl: "relay ''https://onboarding'' (\<lambda>_. True) 5 (wd_outbox (tn_world t')) = (calls, n, ob')"
    using prod_cases3 by blast
  have "q \<notin> set calls \<and> q\<lparr>ob_published_at := Some 5\<rparr> \<in> set (mo_rows ob')"
    using events_are_published_to_nobody [OF x _ _ rl] ob by (auto simp: asking_for_help_def sample_world_def)
  moreover have "calls = [] \<and> length (mo_rows ob') = 1"
    using rl ob by (auto simp: relay_def mem_unpublished_def to_onboarding_def mem_mark_published_def)
  ultimately show ?thesis
    using rl ob unfolding t' by (auto simp: Let_def length_Suc_conv)
qed

end
