(* ===== verification/Saga.thy ===== *)
theory Saga
  imports Prelude
begin

text \<open>
  glue/saga.py: the two declared sagas, the recorded progress of a run, and what to undo when it
  cannot go on. A run is driven by asking \<open>next_step\<close> and marking that step; the theory's property is
  about every run driven so, however often it is resumed.
\<close>

datatype saga_name = BOOKING_SAGA | PAYMENT_SAGA

datatype step_state = ST_PENDING | ST_DONE | ST_FAILED | ST_COMPENSATED

record saga_step =
  step_name :: string
  step_compensation :: string
  customer_visible :: bool
  step_idempotent :: bool
  step_max_attempts :: int

definition new_step :: "string \<Rightarrow> string \<Rightarrow> int \<Rightarrow> saga_step" where
  "new_step name undo attempts = \<lparr>step_name = name, step_compensation = undo, customer_visible = False,
     step_idempotent = True, step_max_attempts = attempts\<rparr>"

definition BOOKING_STEPS :: "saga_step list" where
  "BOOKING_STEPS =
     [new_step ''hold_slot'' ''release_slot_hold'' 3,
      new_step ''persist_intent'' ''clear_intent'' 3,
      new_step ''create_calendar_event'' ''cancel_calendar_event'' 2,
      new_step ''persist_calendar_result'' '''' 3,
      (new_step ''send_confirmation'' '''' 3)\<lparr>customer_visible := True\<rparr>]"

definition PAYMENT_STEPS :: "saga_step list" where
  "PAYMENT_STEPS =
     [new_step ''verify_webhook'' '''' 1,
      new_step ''persist_payment_event'' '''' 1,
      new_step ''activate_subscription'' '''' 3,
      new_step ''handoff_to_onboarding'' '''' 3,
      (new_step ''send_welcome'' '''' 3)\<lparr>customer_visible := True\<rparr>]"

fun SAGAS :: "saga_name \<Rightarrow> saga_step list" where
  "SAGAS BOOKING_SAGA = BOOKING_STEPS"
| "SAGAS PAYMENT_SAGA = PAYMENT_STEPS"

record saga_run =
  sa_saga :: saga_name
  sa_conversation :: ref
  sa_correlation_key :: string
  sa_started_at :: instant
  sa_steps :: "(string, step_state) odict"
  sa_failure :: string

text \<open>\<open>__post_init__\<close>: every step of the definition has an entry.\<close>

definition setdefault :: "('k, 'v) odict \<Rightarrow> 'k \<Rightarrow> 'v \<Rightarrow> ('k, 'v) odict" where
  "setdefault d k v = (case dict_get d k of None \<Rightarrow> dict_set d k v | Some _ \<Rightarrow> d)"

definition new_saga_run :: "saga_run \<Rightarrow> saga_run" where
  "new_saga_run r =
     r\<lparr>sa_steps := foldl (\<lambda>d s. setdefault d (step_name s) ST_PENDING) (sa_steps r) (SAGAS (sa_saga r))\<rparr>"

definition state_of :: "saga_run \<Rightarrow> saga_step \<Rightarrow> step_state" where
  "state_of r s = the (dict_get (sa_steps r) (step_name s))"

definition saga_next :: "saga_run \<Rightarrow> saga_step option" where
  "saga_next r = find (\<lambda>s. state_of r s \<noteq> ST_DONE) (SAGAS (sa_saga r))"

text \<open>\<open>mark\<close>: a step the run does not have is a KeyError.\<close>

definition mark :: "saga_run \<Rightarrow> string \<Rightarrow> step_state \<Rightarrow> string + saga_run" where
  "mark r name st =
     (if dict_get (sa_steps r) name = None then Inl name
      else Inr (r\<lparr>sa_steps := dict_set (sa_steps r) name st\<rparr>))"

definition saga_complete :: "saga_run \<Rightarrow> bool" where
  "saga_complete r \<longleftrightarrow> list_all (\<lambda>st. st = ST_DONE) (dict_values (sa_steps r))"

definition saga_failed :: "saga_run \<Rightarrow> bool" where
  "saga_failed r \<longleftrightarrow> list_ex (\<lambda>st. st = ST_FAILED) (dict_values (sa_steps r))"

definition compensations :: "saga_run \<Rightarrow> string list" where
  "compensations r =
     map step_compensation
       (filter (\<lambda>s. state_of r s = ST_DONE \<and> step_compensation s \<noteq> '''') (rev (SAGAS (sa_saga r))))"

definition customer_was_told :: "saga_run \<Rightarrow> bool" where
  "customer_was_told r \<longleftrightarrow>
     list_ex (\<lambda>s. customer_visible s \<and> state_of r s = ST_DONE) (SAGAS (sa_saga r))"

datatype saga_problem =
    TwoVisible saga_name
  | VisibleNotLast saga_name
  | SentCompensated saga_name string
  | NoAttempts saga_name string
  | DuplicateSteps saga_name

definition saga_invariants :: "saga_problem list" where
  "saga_invariants =
     concat (map (\<lambda>n.
       let steps = SAGAS n; visible = filter customer_visible steps
       in (if length visible > 1 then [TwoVisible n] else []) @
          (if visible \<noteq> [] \<and> last steps \<noteq> hd visible then [VisibleNotLast n] else []) @
          concat (map (\<lambda>s.
            (if customer_visible s \<and> step_compensation s \<noteq> '''' then [SentCompensated n (step_name s)] else []) @
            (if step_max_attempts s < 1 then [NoAttempts n (step_name s)] else [])) steps) @
          (if \<not> distinct (map step_name steps) then [DuplicateSteps n] else []))
       [BOOKING_SAGA, PAYMENT_SAGA])"

section \<open>Runs driven by their next step\<close>

text \<open>One attempt at the next step, with whatever state it is marked.\<close>

inductive driven :: "saga_run \<Rightarrow> bool" where
  begun: "sa_steps r = [] \<Longrightarrow> driven (new_saga_run r)"
| attempt: "driven r \<Longrightarrow> saga_next r = Some s \<Longrightarrow> mark r (step_name s) st = Inr r' \<Longrightarrow> driven r'"

lemmas saga_defs = BOOKING_STEPS_def PAYMENT_STEPS_def new_step_def

lemma saga_definitions_ok: "saga_invariants = []"
  by code_simp

lemma SAGAS_shape:
  "distinct (map step_name (SAGAS n))" "SAGAS n \<noteq> []" "customer_visible (last (SAGAS n))"
  "s \<in> set (butlast (SAGAS n)) \<Longrightarrow> \<not> customer_visible s" "step_compensation (last (SAGAS n)) = ''''"
  by (cases n; auto simp: saga_defs)+

text \<open>The shape of a driven run: done up to the step it stands at, and nothing done after it.\<close>

definition in_order :: "saga_run \<Rightarrow> bool" where
  "in_order r \<longleftrightarrow>
     dict_keys (sa_steps r) = map step_name (SAGAS (sa_saga r)) \<and>
     (\<exists>done rest. SAGAS (sa_saga r) = done @ rest \<and>
        (\<forall>s\<in>set done. state_of r s = ST_DONE) \<and>
        (\<forall>s\<in>set rest. state_of r s \<noteq> ST_DONE) \<and>
        (\<forall>s\<in>set (tl rest). state_of r s = ST_PENDING))"

lemma dict_keys_set_present: "dict_get d k \<noteq> None \<Longrightarrow> dict_keys (dict_set d k v) = dict_keys d"
  by (induction d k v rule: dict_set.induct) (auto simp: dict_keys_def split: if_splits)

lemma set_tl: "x \<in> set (tl xs) \<Longrightarrow> x \<in> set xs"
  by (cases xs) auto

lemma new_run_in_order: "sa_steps r = [] \<Longrightarrow> in_order (new_saga_run r)"
proof -
  assume none: "sa_steps r = []"
  let ?r = "new_saga_run r"
  have keys: "dict_keys (sa_steps ?r) = map step_name (SAGAS (sa_saga ?r))"
    and pend: "\<forall>s\<in>set (SAGAS (sa_saga ?r)). state_of ?r s = ST_PENDING"
    using none by (cases "sa_saga r"; simp add: new_saga_run_def setdefault_def saga_defs dict_keys_def state_of_def)+
  show ?thesis
    unfolding in_order_def
    using keys pend by (intro conjI exI [of _ "[]"] exI [of _ "SAGAS (sa_saga ?r)"]) (auto dest: set_tl)
qed


lemma attempt_in_order:
  assumes "in_order r" and "saga_next r = Some s" and "mark r (step_name s) st = Inr r'"
  shows "in_order r'"
proof -
  obtain ds rest where o: "SAGAS (sa_saga r) = ds @ rest" "\<forall>s\<in>set ds. state_of r s = ST_DONE"
      "\<forall>s\<in>set rest. state_of r s \<noteq> ST_DONE" "\<forall>s\<in>set (tl rest). state_of r s = ST_PENDING"
      "dict_keys (sa_steps r) = map step_name (SAGAS (sa_saga r))"
    using assms(1) by (auto simp: in_order_def)
  have "find (\<lambda>s. state_of r s \<noteq> ST_DONE) rest = Some s"
  proof -
    have "find (\<lambda>s. state_of r s \<noteq> ST_DONE) ds = None" using o(2) by (simp add: find_None_iff')
    then show ?thesis using assms(2) o(1) by (simp add: saga_next_def find_append)
  qed
  then obtain tail where rest: "rest = s # tail" using o(3) by (cases rest) auto
  have r': "r' = r\<lparr>sa_steps := dict_set (sa_steps r) (step_name s) st\<rparr>" "dict_get (sa_steps r) (step_name s) \<noteq> None"
    using assms(3) by (auto simp: mark_def split: if_splits)
  have dist: "distinct (map step_name (ds @ s # tail))" using SAGAS_shape(1) [of "sa_saga r"] o(1) rest by simp
  have same: "state_of r' u = state_of r u" if "u \<in> set ds \<union> set tail" for u
    using dist that by (auto simp: r'(1) state_of_def)
  have here: "state_of r' s = st" by (simp add: r'(1) state_of_def)
  have keys: "dict_keys (sa_steps r') = map step_name (SAGAS (sa_saga r'))"
    using o(5) dict_keys_set_present [OF r'(2)] by (simp add: r'(1))
  have saga: "SAGAS (sa_saga r') = ds @ s # tail" using o(1) rest by (simp add: r'(1))
  have tail: "\<forall>u\<in>set tail. state_of r' u = ST_PENDING" using o(4) rest same by simp
  show ?thesis
  proof (cases "st = ST_DONE")
    case True
    then show ?thesis
      unfolding in_order_def using keys saga tail here same o(2)
      by (intro conjI exI [of _ "ds @ [s]"] exI [of _ tail]) (auto dest: set_tl)
  next
    case False
    then show ?thesis
      unfolding in_order_def using keys saga tail here same o(2)
      by (intro conjI exI [of _ ds] exI [of _ "s # tail"]) auto
  qed
qed

lemma driven_in_order: "driven r \<Longrightarrow> in_order r"
  by (induction rule: driven.induct) (auto intro: new_run_in_order attempt_in_order)

lemma complete_iff:
  assumes "dict_keys (sa_steps r) = map step_name (SAGAS (sa_saga r))"
  shows "saga_complete r \<longleftrightarrow> (\<forall>s\<in>set (SAGAS (sa_saga r)). state_of r s = ST_DONE)"
    and "saga_failed r \<longleftrightarrow> (\<exists>s\<in>set (SAGAS (sa_saga r)). state_of r s = ST_FAILED)"
proof -
  have ok: "dict_ok (sa_steps r)" using SAGAS_shape(1) assms by (simp add: dict_ok_def)
  have "dict_values (sa_steps r) = map (\<lambda>k. the (dict_get (sa_steps r) k)) (dict_keys (sa_steps r))"
    using in_dict_get [OF ok] by (auto simp: dict_values_def dict_keys_def)
  then have "dict_values (sa_steps r) = map (state_of r) (SAGAS (sa_saga r))"
    using assms by (simp add: state_of_def comp_def)
  then show "saga_complete r \<longleftrightarrow> (\<forall>s\<in>set (SAGAS (sa_saga r)). state_of r s = ST_DONE)"
    "saga_failed r \<longleftrightarrow> (\<exists>s\<in>set (SAGAS (sa_saga r)). state_of r s = ST_FAILED)"
    by (force simp: saga_complete_def saga_failed_def list_all_iff list_ex_iff image_iff)+
qed

text \<open>A customer is told last, and failures are undone in reverse. In every run of either saga
  driven by its next step, with any steps failing, being compensated or retried in between, the
  customer has been told exactly if the whole saga is done, in particular never in a run that shows
  a failure; and the compensations are those of a completed initial piece of the saga, in the
  opposite order.\<close>

theorem customer_is_told_last:
  assumes "driven r"
  shows "(customer_was_told r \<longleftrightarrow> saga_complete r) \<and> (saga_failed r \<longrightarrow> \<not> customer_was_told r) \<and>
    (\<exists>n. compensations r = rev (filter (\<lambda>c. c \<noteq> '''')
        (map step_compensation (take n (SAGAS (sa_saga r))))) \<and>
      (\<forall>s\<in>set (take n (SAGAS (sa_saga r))). state_of r s = ST_DONE))"
proof -
  obtain ds rest where o: "SAGAS (sa_saga r) = ds @ rest" "\<forall>s\<in>set ds. state_of r s = ST_DONE"
      "\<forall>s\<in>set rest. state_of r s \<noteq> ST_DONE"
    and keys: "dict_keys (sa_steps r) = map step_name (SAGAS (sa_saga r))"
    using driven_in_order [OF assms] by (auto simp: in_order_def)
  have told: "customer_was_told r \<longleftrightarrow> rest = []"
  proof (cases rest rule: rev_cases)
    case Nil
    then show ?thesis
      using o SAGAS_shape(2,3) [of "sa_saga r"]
      by (auto simp: customer_was_told_def list_ex_iff intro!: bexI [of _ "last ds"])
  next
    case (snoc xs x)
    then have "butlast (SAGAS (sa_saga r)) = ds @ xs" using o(1) by (simp add: butlast_append)
    then show ?thesis
      using o snoc SAGAS_shape(4) [where n = "sa_saga r"] by (auto simp: customer_was_told_def list_ex_iff)
  qed
  have "saga_complete r \<longleftrightarrow> rest = []"
    using o complete_iff(1) [OF keys] by (cases rest) auto
  moreover have "\<not> saga_failed r" if "rest = []"
    using that o complete_iff(2) [OF keys] by auto
  moreover have "compensations r = rev (filter (\<lambda>c. c \<noteq> '''') (map step_compensation ds))"
  proof -
    have "filter (\<lambda>s. state_of r s = ST_DONE \<and> step_compensation s \<noteq> '''') (rev (ds @ rest))
        = filter (\<lambda>s. step_compensation s \<noteq> '''') (rev ds)"
      using o(2,3) by (auto intro!: filter_cong simp: filter_empty_conv)
    then show ?thesis
      unfolding compensations_def o(1) by (simp add: rev_map rev_filter filter_map comp_def)
  qed
  ultimately show ?thesis
    using told o by (intro conjI exI [of _ "length ds"]) auto
qed

definition booking_run :: saga_run where
  "booking_run = \<lparr>sa_saga = BOOKING_SAGA, sa_conversation = ''c'', sa_correlation_key = ''k'',
     sa_started_at = 0, sa_steps = [], sa_failure = ''''\<rparr>"

text \<open>A booking whose calendar event fails after the slot was held and the intent stored.\<close>

end
