(* ===== verification/Schedules.thy ===== *)
theory Schedules
  imports PyText "HOL-Library.Product_Lexorder"
begin

text \<open>
  The weekly schedules of Tutor Intelligence: contracts/schedule.py in full (windows on a weekday,
  normalisation, overlap, intersection) and, of domain/scheduling.py, the conversion between time
  zones, the suggestion of slots and the detection of conflicts. The zone data base is an argument:
  the offset from UTC, in minutes, a zone has in the reference week, or none for an unknown name.
\<close>

datatype schedule_error =
    WindowOrder | DayBoundary | NoSuchWeekday int | NoSuchTime int int
  | ZonesDiffer string string | UnknownZone string

definition MINUTES_PER_DAY :: int where
  "MINUTES_PER_DAY = 24 * 60"

definition MINUTES_PER_WEEK :: int where
  "MINUTES_PER_WEEK = 7 * MINUTES_PER_DAY"

lemmas schedule_constants = MINUTES_PER_DAY_def MINUTES_PER_WEEK_def

datatype weekday = MON | TUE | WED | THU | FRI | SAT | SUN

fun weekday_value :: "weekday \<Rightarrow> int" where
  "weekday_value MON = 0"
| "weekday_value TUE = 1"
| "weekday_value WED = 2"
| "weekday_value THU = 3"
| "weekday_value FRI = 4"
| "weekday_value SAT = 5"
| "weekday_value SUN = 6"

definition all_weekdays :: "weekday list" where
  "all_weekdays = [MON, TUE, WED, THU, FRI, SAT, SUN]"

definition weekday_of :: "int \<Rightarrow> schedule_error + weekday" where
  "weekday_of n =
     (case find (\<lambda>d. weekday_value d = n) all_weekdays of
        None \<Rightarrow> Inl (NoSuchWeekday n)
      | Some d \<Rightarrow> Inr d)"

definition WEEKEND :: "weekday set" where
  "WEEKEND = {SAT, SUN}"

definition WEEKDAYS :: "weekday set" where
  "WEEKDAYS = set all_weekdays - WEEKEND"

text \<open>Python's \<open>time\<close>: the hour, the minute, and the microseconds within the minute.\<close>

record clock =
  ck_hour :: int
  ck_minute :: int
  ck_rest :: int

definition clock_ok :: "clock \<Rightarrow> bool" where
  "clock_ok t \<longleftrightarrow> 0 \<le> ck_hour t \<and> ck_hour t \<le> 23 \<and> 0 \<le> ck_minute t \<and> ck_minute t \<le> 59 \<and>
     0 \<le> ck_rest t \<and> ck_rest t < 60000000"

definition clock :: "int \<Rightarrow> int \<Rightarrow> schedule_error + clock" where
  "clock h m =
     (if clock_ok \<lparr>ck_hour = h, ck_minute = m, ck_rest = 0\<rparr>
      then Inr \<lparr>ck_hour = h, ck_minute = m, ck_rest = 0\<rparr> else Inl (NoSuchTime h m))"

record time_window =
  tw_day :: weekday
  tw_start :: clock
  tw_end :: clock

definition start_minute :: "time_window \<Rightarrow> int" where
  "start_minute w = weekday_value (tw_day w) * MINUTES_PER_DAY + ck_hour (tw_start w) * 60 + ck_minute (tw_start w)"

definition end_minute :: "time_window \<Rightarrow> int" where
  "end_minute w =
     (let e = ck_hour (tw_end w) * 60 + ck_minute (tw_end w)
      in weekday_value (tw_day w) * MINUTES_PER_DAY + (if e = 0 then MINUTES_PER_DAY else e))"

definition make_window :: "weekday \<Rightarrow> clock \<Rightarrow> clock \<Rightarrow> schedule_error + time_window" where
  "make_window d s e =
     (let w = \<lparr>tw_day = d, tw_start = s, tw_end = e\<rparr>
      in if end_minute w \<le> start_minute w then Inl WindowOrder else Inr w)"

definition duration_minutes :: "time_window \<Rightarrow> int" where
  "duration_minutes w = end_minute w - start_minute w"

definition overlap_minutes :: "time_window \<Rightarrow> time_window \<Rightarrow> int" where
  "overlap_minutes a b = max 0 (min (end_minute a) (end_minute b) - max (start_minute a) (start_minute b))"

definition windows_overlap :: "time_window \<Rightarrow> time_window \<Rightarrow> bool" where
  "windows_overlap a b \<longleftrightarrow> overlap_minutes a b > 0"

definition window_contains :: "time_window \<Rightarrow> time_window \<Rightarrow> bool" where
  "window_contains a b \<longleftrightarrow> start_minute a \<le> start_minute b \<and> end_minute a \<ge> end_minute b"

definition window_from_minutes :: "int \<Rightarrow> int \<Rightarrow> schedule_error + time_window" where
  "window_from_minutes s e =
     and_then (weekday_of (s div MINUTES_PER_DAY)) (\<lambda>d.
       let day_start = weekday_value d * MINUTES_PER_DAY;
           start_offset = s - day_start;
           end_offset = e - day_start
       in if end_offset > MINUTES_PER_DAY then Inl DayBoundary
          else and_then (if end_offset = MINUTES_PER_DAY then clock 0 0
                         else clock (end_offset div 60) (end_offset mod 60)) (\<lambda>e'.
               and_then (clock (start_offset div 60) (start_offset mod 60)) (\<lambda>s'.
                 make_window d s' e')))"

definition intersect :: "time_window \<Rightarrow> time_window \<Rightarrow> schedule_error + time_window option" where
  "intersect a b =
     (if \<not> windows_overlap a b then Inr None
      else and_then (window_from_minutes (max (start_minute a) (start_minute b)) (min (end_minute a) (end_minute b)))
             (\<lambda>w. Inr (Some w)))"

section \<open>Weekly schedules\<close>

record weekly_schedule =
  ws_timezone :: string
  ws_windows :: "time_window list"

text \<open>The loop of \<open>_merge\<close>: \<open>cur\<close> is the last window of its output.\<close>

fun merge_rest :: "time_window \<Rightarrow> time_window list \<Rightarrow> schedule_error + time_window list" where
  "merge_rest cur [] = Inr [cur]"
| "merge_rest cur (w # ws) =
     (if tw_day w = tw_day cur \<and> start_minute w \<le> end_minute cur
      then if end_minute w > end_minute cur
           then and_then (window_from_minutes (start_minute cur) (end_minute w)) (\<lambda>m. merge_rest m ws)
           else merge_rest cur ws
      else and_then (merge_rest w ws) (\<lambda>out. Inr (cur # out)))"

definition merge_windows :: "time_window list \<Rightarrow> schedule_error + time_window list" where
  "merge_windows ws =
     (case sort_key (\<lambda>w. (start_minute w, end_minute w)) ws of
        [] \<Rightarrow> Inr []
      | w # rest \<Rightarrow> merge_rest w rest)"

definition make_schedule :: "string \<Rightarrow> time_window list \<Rightarrow> schedule_error + weekly_schedule" where
  "make_schedule tz ws =
     and_then (merge_windows ws) (\<lambda>merged. Inr \<lparr>ws_timezone = tz, ws_windows = merged\<rparr>)"

definition total_minutes :: "weekly_schedule \<Rightarrow> int" where
  "total_minutes s = sum_list (map duration_minutes (ws_windows s))"

definition schedule_overlap :: "weekly_schedule \<Rightarrow> weekly_schedule \<Rightarrow> schedule_error + int" where
  "schedule_overlap s r =
     (if ws_timezone s \<noteq> ws_timezone r then Inl (ZonesDiffer (ws_timezone s) (ws_timezone r))
      else Inr (sum_list (concat (map (\<lambda>a. map (overlap_minutes a) (ws_windows r)) (ws_windows s)))))"

text \<open>The comprehension that collects the intersections which are not \<open>None\<close>.\<close>

fun collect :: "(schedule_error + 'a option) list \<Rightarrow> schedule_error + 'a list" where
  "collect [] = Inr []"
| "collect (x # xs) =
     and_then x (\<lambda>y. and_then (collect xs) (\<lambda>ys. Inr (case y of None \<Rightarrow> ys | Some z \<Rightarrow> z # ys)))"

definition schedule_intersection :: "weekly_schedule \<Rightarrow> weekly_schedule \<Rightarrow> schedule_error + weekly_schedule" where
  "schedule_intersection s r =
     (if ws_timezone s \<noteq> ws_timezone r then Inl (ZonesDiffer (ws_timezone s) (ws_timezone r))
      else and_then (collect (concat (map (\<lambda>a. map (intersect a) (ws_windows r)) (ws_windows s))))
             (\<lambda>shared. make_schedule (ws_timezone s) shared))"

definition schedule_weekdays :: "weekly_schedule \<Rightarrow> weekday set" where
  "schedule_weekdays s = set (map tw_day (ws_windows s))"

definition detect_conflicts :: "weekly_schedule \<Rightarrow> weekly_schedule \<Rightarrow> schedule_error + time_window list" where
  "detect_conflicts s commitments = and_then (schedule_intersection s commitments) (\<lambda>x. Inr (ws_windows x))"

section \<open>Time zones\<close>

text \<open>A wall-clock datetime of the reference week is its minutes since Monday 00:00 there; the minutes
  outside 0 to a week are the days before and after.\<close>

function split_across_days :: "int \<Rightarrow> int \<Rightarrow> schedule_error + time_window list" where
  "split_across_days cursor end_at =
     (if cursor < end_at then
        (let day_end = (cursor div MINUTES_PER_DAY + 1) * MINUTES_PER_DAY;
             segment_end = min end_at day_end;
             hour = (\<lambda>m. m mod MINUTES_PER_DAY div 60);
             minute = (\<lambda>m. m mod MINUTES_PER_DAY mod 60)
         in and_then (if segment_end = day_end then clock 0 0 else clock (hour segment_end) (minute segment_end)) (\<lambda>e.
            and_then (weekday_of (cursor div MINUTES_PER_DAY mod 7)) (\<lambda>d.
            and_then (clock (hour cursor) (minute cursor)) (\<lambda>s.
            and_then (make_window d s e) (\<lambda>w.
            and_then (split_across_days segment_end end_at) (\<lambda>out. Inr (w # out)))))))
      else Inr [])"
  by pat_completeness auto

termination split_across_days
proof (relation "measure (\<lambda>(c, e). nat (e - c))")
  fix c e day_end segment_end :: int
  assume c: "c < e" and d: "day_end = (c div MINUTES_PER_DAY + 1) * MINUTES_PER_DAY"
    and s: "segment_end = min e day_end"
  have "c < day_end" unfolding d MINUTES_PER_DAY_def by presburger
  then show "((segment_end, e), (c, e)) \<in> measure (\<lambda>(c, e). nat (e - c))" using c s by auto
qed simp_all

declare split_across_days.simps [simp del]

fun collect_all :: "(schedule_error + 'a list) list \<Rightarrow> schedule_error + 'a list" where
  "collect_all [] = Inr []"
| "collect_all (x # xs) = and_then x (\<lambda>y. and_then (collect_all xs) (\<lambda>ys. Inr (y @ ys)))"

definition to_timezone :: "(string \<Rightarrow> int option) \<Rightarrow> weekly_schedule \<Rightarrow> string \<Rightarrow> schedule_error + weekly_schedule" where
  "to_timezone offset s target =
     (if ws_timezone s = target then Inr s
      else case (offset (ws_timezone s), offset target) of
             (None, _) \<Rightarrow> Inl (UnknownZone (ws_timezone s))
           | (_, None) \<Rightarrow> Inl (UnknownZone target)
           | (Some from_utc, Some to_utc) \<Rightarrow>
               and_then (collect_all (map (\<lambda>w. split_across_days (start_minute w + (to_utc - from_utc))
                                                                (end_minute w + (to_utc - from_utc)))
                                          (ws_windows s)))
                 (\<lambda>shifted. make_schedule target shifted))"

section \<open>Suggestions\<close>

text \<open>The loop of \<open>suggest_slots\<close>; \<open>by_day\<close> is its dictionary.\<close>

fun pick_slots :: "int \<Rightarrow> time_window list \<Rightarrow> (weekday, time_window) odict \<Rightarrow> schedule_error + (weekday, time_window) odict" where
  "pick_slots session [] by_day = Inr by_day"
| "pick_slots session (w # ws) by_day =
     (if duration_minutes w < session then pick_slots session ws by_day
      else if dict_get by_day (tw_day w) \<noteq> None then pick_slots session ws by_day
      else let offset = start_minute w + session - weekday_value (tw_day w) * MINUTES_PER_DAY
           in and_then (clock (offset div 60 mod 24) (offset mod 60)) (\<lambda>e.
              and_then (make_window (tw_day w) (tw_start w) e) (\<lambda>slot.
                pick_slots session ws (dict_set by_day (tw_day w) slot))))"

definition suggest_slots :: "weekly_schedule \<Rightarrow> int \<Rightarrow> nat \<Rightarrow> schedule_error + time_window list" where
  "suggest_slots overlap session limit =
     and_then (pick_slots session (sort_key start_minute (ws_windows overlap)) []) (\<lambda>by_day.
       Inr (take limit (map (\<lambda>d. the (dict_get by_day d)) (sort_key weekday_value (dict_keys by_day)))))"

section \<open>Windows as sets of minutes\<close>

definition minutes_of :: "time_window \<Rightarrow> int set" where
  "minutes_of w = {start_minute w ..< end_minute w}"

definition covers :: "time_window list \<Rightarrow> int set" where
  "covers ws = (\<Union>w\<in>set ws. minutes_of w)"

definition window_ok :: "time_window \<Rightarrow> bool" where
  "window_ok w \<longleftrightarrow> clock_ok (tw_start w) \<and> clock_ok (tw_end w) \<and> start_minute w < end_minute w"

definition whole_minutes :: "time_window \<Rightarrow> bool" where
  "whole_minutes w \<longleftrightarrow> ck_rest (tw_start w) = 0 \<and> ck_rest (tw_end w) = 0"

definition apart :: "time_window \<Rightarrow> time_window \<Rightarrow> bool" where
  "apart a b \<longleftrightarrow> start_minute a < start_minute b \<and> (tw_day a = tw_day b \<longrightarrow> end_minute a < start_minute b)"

text \<open>The form every schedule has: valid windows in order, none touching the next of its day.\<close>

definition normal :: "time_window list \<Rightarrow> bool" where
  "normal ws \<longleftrightarrow> sorted_wrt apart ws \<and> (\<forall>w\<in>set ws. window_ok w)"

lemma covers_simps [simp]:
  "covers [] = {}"
  "covers (w # ws) = minutes_of w \<union> covers ws"
  "covers (ws @ ws') = covers ws \<union> covers ws'"
  by (auto simp: covers_def)

lemma weekday_range: "0 \<le> weekday_value d \<and> weekday_value d \<le> 6"
  by (cases d) simp_all

lemma weekday_value_inj [simp]: "weekday_value d = weekday_value d' \<longleftrightarrow> d = d'"
  by (cases d; cases d') simp_all

lemma weekday_of_value [simp]: "weekday_of (weekday_value d) = Inr d"
  by (cases d) (simp_all add: weekday_of_def all_weekdays_def)

lemma weekday_of_range:
  assumes "0 \<le> n" and "n < 7"
  shows "\<exists>d. weekday_of n = Inr d \<and> weekday_value d = n"
proof -
  have "n = weekday_value MON \<or> n = weekday_value TUE \<or> n = weekday_value WED \<or> n = weekday_value THU \<or>
      n = weekday_value FRI \<or> n = weekday_value SAT \<or> n = weekday_value SUN"
    using assms by simp presburger
  then show ?thesis using weekday_of_value by metis
qed

lemma window_within_day:
  assumes "window_ok w"
  shows "weekday_value (tw_day w) * 1440 \<le> start_minute w"
    and "start_minute w < weekday_value (tw_day w) * 1440 + 1440"
    and "end_minute w \<le> weekday_value (tw_day w) * 1440 + 1440"
    and "start_minute w < end_minute w"
  using assms
  by (auto simp: window_ok_def clock_ok_def start_minute_def end_minute_def Let_def schedule_constants)

lemma day_of_start: "window_ok w \<Longrightarrow> start_minute w div 1440 = weekday_value (tw_day w)"
  using window_within_day [of w] by (simp add: div_pos_pos_trivial)

lemma window_start_range: "window_ok w \<Longrightarrow> 0 \<le> start_minute w \<and> start_minute w < 10080 \<and> end_minute w \<le> 10080"
  using window_within_day [of w] weekday_range [of "tw_day w"] by auto

lemma clock_of_minute:
  assumes "0 \<le> m" and "m < 1440"
  shows "clock (m div 60) (m mod 60) = Inr \<lparr>ck_hour = m div 60, ck_minute = m mod 60, ck_rest = 0\<rparr>"
    and "clock_ok \<lparr>ck_hour = m div 60, ck_minute = m mod 60, ck_rest = 0\<rparr>"
  using assms by (auto simp: clock_def clock_ok_def)

lemma clock_midnight [simp]: "clock 0 0 = Inr \<lparr>ck_hour = 0, ck_minute = 0, ck_rest = 0\<rparr>"
  by (simp add: clock_def clock_ok_def)

text \<open>A window built from an end and a start within the day of its start.\<close>

lemma built_window:
  fixes d e o' :: int
  assumes "0 \<le> o'" and "o' < e" and "e \<le> 1440"
  shows "\<exists>w c. (if e = 1440 then clock 0 0 else clock (e div 60) (e mod 60)) = Inr c \<and>
      make_window day \<lparr>ck_hour = o' div 60, ck_minute = o' mod 60, ck_rest = 0\<rparr> c = Inr w \<and>
      window_ok w \<and> whole_minutes w \<and> tw_day w = day \<and>
      start_minute w = weekday_value day * 1440 + o' \<and> end_minute w = weekday_value day * 1440 + e"
proof -
  have o: "clock_ok \<lparr>ck_hour = o' div 60, ck_minute = o' mod 60, ck_rest = 0\<rparr>"
    by (rule clock_of_minute) (use assms in auto)
  show ?thesis
  proof (cases "e = 1440")
    case True
    then show ?thesis
      using assms o
      by (auto simp: make_window_def window_ok_def whole_minutes_def start_minute_def end_minute_def Let_def
          schedule_constants clock_ok_def)
  next
    case False
    then have "clock (e div 60) (e mod 60) = Inr \<lparr>ck_hour = e div 60, ck_minute = e mod 60, ck_rest = 0\<rparr>"
      and "clock_ok \<lparr>ck_hour = e div 60, ck_minute = e mod 60, ck_rest = 0\<rparr>"
      using assms by (auto intro: clock_of_minute)
    then show ?thesis
      using assms o False
      by (auto simp: make_window_def window_ok_def whole_minutes_def start_minute_def end_minute_def Let_def
          schedule_constants)
  qed
qed

lemma window_from_minutes_ok:
  assumes "0 \<le> s" and "s < 10080" and "s < e" and "e \<le> (s div 1440 + 1) * 1440"
  shows "\<exists>w. window_from_minutes s e = Inr w \<and> window_ok w \<and> whole_minutes w \<and>
     weekday_value (tw_day w) = s div 1440 \<and> start_minute w = s \<and> end_minute w = e"
proof -
  have "s div 1440 \<le> 10079 div 1440" by (rule zdiv_mono1) (use assms in auto)
  then have "0 \<le> s div 1440" "s div 1440 < 7" using assms by simp_all
  then obtain d where d: "weekday_of (s div 1440) = Inr d" "weekday_value d = s div 1440"
    using weekday_of_range by blast
  have m: "s - s div 1440 * 1440 = s mod 1440" by (rule minus_div_mult_eq_mod)
  have o: "0 \<le> s mod 1440" "s mod 1440 < e - s div 1440 * 1440" "e - s div 1440 * 1440 \<le> 1440"
    using m assms(3,4) by simp_all
  obtain w c where w: "(if e - s div 1440 * 1440 = 1440 then clock 0 0
        else clock ((e - s div 1440 * 1440) div 60) ((e - s div 1440 * 1440) mod 60)) = Inr c"
    "make_window d \<lparr>ck_hour = s mod 1440 div 60, ck_minute = s mod 1440 mod 60, ck_rest = 0\<rparr> c = Inr w"
    "window_ok w" "whole_minutes w" "tw_day w = d" "start_minute w = weekday_value d * 1440 + s mod 1440"
    "end_minute w = weekday_value d * 1440 + (e - s div 1440 * 1440)"
    using built_window [OF o, of d] by blast
  have "clock (s mod 1440 div 60) (s mod 1440 mod 60)
      = Inr \<lparr>ck_hour = s mod 1440 div 60, ck_minute = s mod 1440 mod 60, ck_rest = 0\<rparr>"
    using clock_of_minute(1) [of "s mod 1440"] by simp
  then have "window_from_minutes s e = Inr w"
    using w(1,2) o d m by (auto simp: window_from_minutes_def schedule_constants Let_def split: if_splits)
  then show ?thesis using w d m by simp
qed

section \<open>Normal form\<close>

lemma later_day:
  assumes "window_ok a" and "window_ok b" and "start_minute a \<le> start_minute b" and "tw_day a \<noteq> tw_day b"
  shows "start_minute a < start_minute b" and "end_minute a \<le> start_minute b"
    and "weekday_value (tw_day a) < weekday_value (tw_day b)"
proof -
  note wa = window_within_day [OF assms(1)] and wb = window_within_day [OF assms(2)]
  have ne: "weekday_value (tw_day a) \<noteq> weekday_value (tw_day b)" using assms(4) by simp
  show lt: "weekday_value (tw_day a) < weekday_value (tw_day b)"
    using ne wa wb assms(3) by linarith
  then have "(weekday_value (tw_day a) + 1) * 1440 \<le> weekday_value (tw_day b) * 1440" by (intro mult_right_mono) auto
  then have "weekday_value (tw_day a) * 1440 + 1440 \<le> weekday_value (tw_day b) * 1440" by simp
  then show "start_minute a < start_minute b" "end_minute a \<le> start_minute b"
    using wa wb by - linarith+
qed

lemma apart_disjoint:
  assumes "apart a b" and "window_ok a" and "window_ok b"
  shows "end_minute a \<le> start_minute b" and "minutes_of a \<inter> minutes_of b = {}"
proof -
  show le: "end_minute a \<le> start_minute b"
    using assms later_day(2) [of a b] by (cases "tw_day a = tw_day b") (auto simp: apart_def)
  show "minutes_of a \<inter> minutes_of b = {}" using le by (auto simp: minutes_of_def)
qed

text \<open>Two windows of one day that meet are merged into the window that covers both.\<close>

lemma merged_window:
  assumes "window_ok a" and "window_ok b" and "tw_day b = tw_day a"
    and "start_minute a \<le> start_minute b" and "end_minute a < end_minute b"
  shows "\<exists>m. window_from_minutes (start_minute a) (end_minute b) = Inr m \<and> window_ok m \<and> whole_minutes m \<and>
    tw_day m = tw_day a \<and> start_minute m = start_minute a \<and> end_minute m = end_minute b"
proof -
  have "end_minute b \<le> (start_minute a div 1440 + 1) * 1440"
    using window_within_day [OF assms(2)] day_of_start [OF assms(1)] assms(3) by (simp add: algebra_simps)
  then obtain m where "window_from_minutes (start_minute a) (end_minute b) = Inr m" "window_ok m" "whole_minutes m"
    "weekday_value (tw_day m) = start_minute a div 1440" "start_minute m = start_minute a" "end_minute m = end_minute b"
    using window_from_minutes_ok [of "start_minute a" "end_minute b"] window_start_range [OF assms(1)]
      window_within_day(4) [OF assms(1)] assms(5) by auto
  then show ?thesis using day_of_start [OF assms(1)] by auto
qed

lemma merge_rest_normal:
  assumes "window_ok cur" and "\<forall>w\<in>set ws. window_ok w" and "sorted (map start_minute (cur # ws))"
  shows "\<exists>out. merge_rest cur ws = Inr out \<and> normal out \<and> covers out = covers (cur # ws) \<and>
    (\<forall>w\<in>set out. start_minute cur \<le> start_minute w) \<and>
    ((\<forall>w\<in>set (cur # ws). whole_minutes w) \<longrightarrow> (\<forall>w\<in>set out. whole_minutes w))"
  using assms
proof (induction cur ws rule: merge_rest.induct)
  case (1 cur)
  then show ?case by (simp add: normal_def)
next
  case (2 cur w ws)
  have ok: "window_ok cur" "window_ok w" "\<forall>x\<in>set ws. window_ok x" and le: "start_minute cur \<le> start_minute w"
    and srt: "sorted (map start_minute (w # ws))" "sorted (map start_minute (cur # ws))"
    using "2.prems" by auto
  show ?case
  proof (cases "tw_day w = tw_day cur \<and> start_minute w \<le> end_minute cur")
    case True
    show ?thesis
    proof (cases "end_minute w > end_minute cur")
      case longer: True
      obtain m where m: "window_from_minutes (start_minute cur) (end_minute w) = Inr m" "window_ok m"
        "whole_minutes m" "start_minute m = start_minute cur" "end_minute m = end_minute w"
        using merged_window [OF ok(1,2)] True le longer by blast
      have "minutes_of m = minutes_of cur \<union> minutes_of w"
        using m(4,5) le True longer by (auto simp: minutes_of_def)
      moreover obtain out where "merge_rest m ws = Inr out" "normal out" "covers out = covers (m # ws)"
        "\<forall>x\<in>set out. start_minute m \<le> start_minute x"
        "(\<forall>x\<in>set (m # ws). whole_minutes x) \<longrightarrow> (\<forall>x\<in>set out. whole_minutes x)"
        using "2.IH"(1) [OF True longer m(2) ok(3)] m(4) srt(2) by auto
      ultimately show ?thesis using True longer m by auto
    next
      case False
      then have "minutes_of w \<subseteq> minutes_of cur" using le by (auto simp: minutes_of_def)
      then show ?thesis using "2.IH"(2) [OF True False ok(1,3) srt(2)] True False by auto
    qed
  next
    case False
    obtain out where out: "merge_rest w ws = Inr out" "normal out" "covers out = covers (w # ws)"
      "\<forall>x\<in>set out. start_minute w \<le> start_minute x"
      "(\<forall>x\<in>set (w # ws). whole_minutes x) \<longrightarrow> (\<forall>x\<in>set out. whole_minutes x)"
      using "2.IH"(3) [OF False ok(2,3) srt(1)] by auto
    have "apart cur x" if x: "x \<in> set out" for x
    proof (cases "tw_day x = tw_day cur")
      case same: True
      have wx: "start_minute w \<le> start_minute x" and okx: "window_ok x"
        using x out by (auto simp: normal_def)
      have "tw_day w = tw_day cur"
        using later_day(3) [OF ok(1,2) le] later_day(3) [OF ok(2) okx wx] same by fastforce
      then show ?thesis using False wx same window_within_day(4) [OF ok(1)] by (auto simp: apart_def)
    next
      case other: False
      have okx: "window_ok x" and "start_minute cur \<le> start_minute x"
        using x out le by (auto simp: normal_def)
      then show ?thesis using later_day(1) [OF ok(1) okx] other by (auto simp: apart_def)
    qed
    then have n: "normal (cur # out)" using out(2) ok(1) by (simp add: normal_def)
    have l: "\<forall>x\<in>set out. start_minute cur \<le> start_minute x" using out(4) le by auto
    have "merge_rest cur (w # ws) = Inr (cur # out)"
      by (simp only: merge_rest.simps False if_False out(1) and_then.simps)
    show ?thesis
    proof (intro exI conjI)
      show "merge_rest cur (w # ws) = Inr (cur # out)" by fact
      show "covers (cur # out) = covers (cur # w # ws)" using out(3) by simp
      show "\<forall>x\<in>set (cur # out). start_minute cur \<le> start_minute x" using l by (auto simp only: list.set ball_simps)
      show "(\<forall>x\<in>set (cur # w # ws). whole_minutes x) \<longrightarrow> (\<forall>x\<in>set (cur # out). whole_minutes x)"
      proof
        assume "\<forall>x\<in>set (cur # w # ws). whole_minutes x"
        then have c: "whole_minutes cur" and "\<forall>x\<in>set (w # ws). whole_minutes x" by simp_all
        then have "\<forall>x\<in>set out. whole_minutes x" using out(5) by blast
        then show "\<forall>x\<in>set (cur # out). whole_minutes x" using c by simp
      qed
    qed (fact n)
  qed
qed

lemma sorted_starts: "sorted (map start_minute (sort_key (\<lambda>w. (start_minute w, end_minute w)) ws))"
proof -
  have "sorted (map (\<lambda>w. (start_minute w, end_minute w)) (sort_key (\<lambda>w. (start_minute w, end_minute w)) ws))"
    by simp
  then show ?thesis
    unfolding sorted_map by (rule sorted_wrt_mono_rel [rotated]) (auto simp: less_eq_prod_def)
qed

lemma merge_windows_normal:
  assumes "\<forall>w\<in>set ws. window_ok w"
  shows "\<exists>out. merge_windows ws = Inr out \<and> normal out \<and> covers out = covers ws \<and>
    ((\<forall>w\<in>set ws. whole_minutes w) \<longrightarrow> (\<forall>w\<in>set out. whole_minutes w))"
proof (cases "sort_key (\<lambda>w. (start_minute w, end_minute w)) ws")
  case Nil
  then have "set ws = {}" by (metis set_sort list.set(1))
  then show ?thesis using Nil by (simp add: merge_windows_def normal_def covers_def)
next
  case (Cons cur rest)
  have s: "set ws = set (cur # rest)" by (metis Cons set_sort)
  then have "covers ws = covers (cur # rest)" by (simp add: covers_def)
  then show ?thesis
    using merge_rest_normal [of cur rest] sorted_starts [of ws] assms s Cons by (auto simp: merge_windows_def)
qed

text \<open>A normal list of whole-minute windows is determined by the minutes it covers.\<close>

lemma clock_determined:
  assumes "clock_ok a" "clock_ok b" "ck_rest a = ck_rest b"
    and t: "ck_hour a * 60 + ck_minute a = ck_hour b * 60 + ck_minute b"
  shows "a = b"
proof -
  have "ck_hour a = (ck_hour a * 60 + ck_minute a) div 60" "ck_hour b = (ck_hour b * 60 + ck_minute b) div 60"
    using assms(1,2) by (auto simp: clock_ok_def)
  then have "ck_hour a = ck_hour b" using t by simp
  then show ?thesis using t assms(3) by (intro clock.equality) auto
qed

lemma window_determined:
  assumes "window_ok a" "window_ok b" "whole_minutes a" "whole_minutes b"
    and "start_minute a = start_minute b" "end_minute a = end_minute b"
  shows "a = b"
proof -
  have d: "tw_day a = tw_day b"
    using day_of_start [OF assms(1)] day_of_start [OF assms(2)] assms(5) by simp
  note w = assms(1-4) [unfolded window_ok_def clock_ok_def whole_minutes_def]
  have s: "ck_hour (tw_start a) * 60 + ck_minute (tw_start a) = ck_hour (tw_start b) * 60 + ck_minute (tw_start b)"
    using assms(5) d by (simp add: start_minute_def)
  have e: "ck_hour (tw_end a) * 60 + ck_minute (tw_end a) = ck_hour (tw_end b) * 60 + ck_minute (tw_end b)"
  proof -
    define X Y where "X = ck_hour (tw_end a) * 60 + ck_minute (tw_end a)"
      and "Y = ck_hour (tw_end b) * 60 + ck_minute (tw_end b)"
    have "X < 1440" "Y < 1440" using w unfolding X_def Y_def by linarith+
    moreover have "(if X = 0 then MINUTES_PER_DAY else X) = (if Y = 0 then MINUTES_PER_DAY else Y)"
      using assms(6) d by (simp only: end_minute_def Let_def X_def Y_def add_left_cancel)
    ultimately have "X = Y"
      by (cases "X = 0"; cases "Y = 0") (simp_all add: schedule_constants)
    then show ?thesis by (simp add: X_def Y_def)
  qed
  have "tw_start a = tw_start b"
    by (rule clock_determined [OF _ _ _ s]) (use assms(1-4) in \<open>simp_all add: window_ok_def whole_minutes_def\<close>)
  moreover have "tw_end a = tw_end b"
    by (rule clock_determined [OF _ _ _ e]) (use assms(1-4) in \<open>simp_all add: window_ok_def whole_minutes_def\<close>)
  ultimately show ?thesis using d by (intro time_window.equality) auto
qed

lemma normal_tail: "normal (w # ws) \<Longrightarrow> normal ws"
  by (simp add: normal_def)

lemma normal_after:
  assumes "normal (w # ws)" and "x \<in> covers ws"
  shows "end_minute w \<le> x" and "start_minute w < x"
    and "x < weekday_value (tw_day w) * 1440 + 1440 \<Longrightarrow> end_minute w < x"
proof -
  obtain v where v: "v \<in> set ws" "start_minute v \<le> x" using assms(2) by (auto simp: covers_def minutes_of_def)
  have ok: "window_ok w" "window_ok v" "apart w v" using assms(1) v by (auto simp: normal_def)
  show "end_minute w \<le> x" using apart_disjoint(1) [OF ok(3,1,2)] v(2) by simp
  then show "start_minute w < x" using window_within_day(4) [OF ok(1)] by simp
  assume lt: "x < weekday_value (tw_day w) * 1440 + 1440"
  have "tw_day v = tw_day w"
  proof (rule ccontr)
    assume "tw_day v \<noteq> tw_day w"
    then have "weekday_value (tw_day w) < weekday_value (tw_day v)"
      using later_day(3) [OF ok(1,2)] ok(3) by (auto simp: apart_def)
    then have "weekday_value (tw_day w) * 1440 + 1440 \<le> weekday_value (tw_day v) * 1440" by simp
    then show False using window_within_day(1) [OF ok(2)] v(2) lt by linarith
  qed
  then show "end_minute w < x" using ok(3) v(2) by (auto simp: apart_def)
qed

lemma normal_first: "normal (w # ws) \<Longrightarrow> x \<in> covers (w # ws) \<Longrightarrow> start_minute w \<le> x"
  using normal_after(2) by (fastforce simp: minutes_of_def)

lemma start_covered: "normal (w # ws) \<Longrightarrow> start_minute w \<in> covers (w # ws)"
  using window_within_day(4) [of w] by (simp add: normal_def minutes_of_def)

text \<open>The end of the first window is where the covered run breaks, or the end of its day.\<close>

lemma normal_first_end:
  assumes "normal (w # ws)" and "normal (v # vs)" and "covers (w # ws) = covers (v # vs)"
    and "start_minute w = start_minute v"
  shows "end_minute w \<le> end_minute v"
proof (rule ccontr)
  assume "\<not> end_minute w \<le> end_minute v"
  then have lt: "end_minute v < end_minute w" by simp
  have ok: "window_ok w" "window_ok v" using assms(1,2) by (auto simp: normal_def)
  have "end_minute v \<in> minutes_of w"
    using lt window_within_day(4) [OF ok(2)] assms(4) by (simp add: minutes_of_def)
  then have "end_minute v \<in> covers (v # vs)" using assms(3) by auto
  then have c: "end_minute v \<in> covers vs" by (simp add: minutes_of_def)
  have "weekday_value (tw_day v) = weekday_value (tw_day w)"
    using day_of_start [OF ok(1)] day_of_start [OF ok(2)] assms(4) by simp
  then have "end_minute v < weekday_value (tw_day v) * 1440 + 1440"
    using window_within_day(3) [OF ok(1)] lt by simp
  then show False using normal_after(3) [OF assms(2) c] by simp
qed

lemma normal_determined:
  "normal ws \<Longrightarrow> normal vs \<Longrightarrow> covers ws = covers vs \<Longrightarrow> \<forall>w\<in>set ws. whole_minutes w \<Longrightarrow>
    \<forall>w\<in>set vs. whole_minutes w \<Longrightarrow> ws = vs"
proof (induction ws arbitrary: vs)
  case Nil
  then show ?case using start_covered by (cases vs) fastforce+
next
  case (Cons w ws)
  obtain v vs' where vs: "vs = v # vs'"
    using Cons.prems(3) start_covered [OF Cons.prems(1)] by (cases vs) auto
  have n: "normal (v # vs')" and c: "covers (w # ws) = covers (v # vs')" using Cons.prems vs by auto
  have s: "start_minute w = start_minute v"
    using normal_first [OF Cons.prems(1)] normal_first [OF n] start_covered [OF Cons.prems(1)]
      start_covered [OF n] c by (metis order_antisym)
  have e: "end_minute w = end_minute v"
    using normal_first_end [OF Cons.prems(1) n c s] normal_first_end [OF n Cons.prems(1) c [symmetric] s [symmetric]]
    by simp
  have "w = v"
    using window_determined [OF _ _ _ _ s e] Cons.prems(1,4,5) n vs by (simp add: normal_def)
  moreover have "ws = vs'"
  proof (rule Cons.IH)
    have m: "minutes_of w = minutes_of v" using s e by (simp add: minutes_of_def)
    have "minutes_of w \<inter> covers ws = {}" "minutes_of v \<inter> covers vs' = {}"
      using normal_after(1) [OF Cons.prems(1)] normal_after(1) [OF n] by (fastforce simp: minutes_of_def)+
    then show "covers ws = covers vs'" using c m by auto
  qed (use Cons.prems vs normal_tail in auto)
  ultimately show ?case using vs by simp
qed

text \<open>(C39) A schedule has exactly one form. However its windows are given (unsorted, overlapping, touching),
  building a schedule from valid windows never raises, and the windows it keeps are valid, sorted, never
  touch within a day, and cover exactly the given minutes. If moreover every window starts and ends at a
  whole minute, two lists of windows give the same schedule exactly when they cover the same minutes of
  the week; \<open>seconds_break_the_one_form\<close> shows that the seconds a \<open>time\<close> may carry have to be excluded.\<close>

theorem schedule_has_one_form:
  assumes "\<forall>w\<in>set ws \<union> set vs. window_ok w"
  shows "\<exists>s. make_schedule tz ws = Inr s \<and> normal (ws_windows s) \<and> covers (ws_windows s) = covers ws \<and>
      ((\<forall>w\<in>set ws \<union> set vs. whole_minutes w) \<longrightarrow> (make_schedule tz vs = Inr s \<longleftrightarrow> covers vs = covers ws))"
proof -
  obtain out where out: "merge_windows ws = Inr out" "normal out" "covers out = covers ws"
    "(\<forall>w\<in>set ws. whole_minutes w) \<longrightarrow> (\<forall>w\<in>set out. whole_minutes w)"
    using merge_windows_normal [of ws] assms by auto
  obtain out' where out': "merge_windows vs = Inr out'" "normal out'" "covers out' = covers vs"
    "(\<forall>w\<in>set vs. whole_minutes w) \<longrightarrow> (\<forall>w\<in>set out'. whole_minutes w)"
    using merge_windows_normal [of vs] assms by auto
  have "out' = out \<longleftrightarrow> covers vs = covers ws" if "\<forall>w\<in>set ws \<union> set vs. whole_minutes w"
    using normal_determined [OF out'(2) out(2)] out out' that by auto
  then show ?thesis using out out' by (simp add: make_schedule_def)
qed

definition at :: "int \<Rightarrow> int \<Rightarrow> clock" where
  "at h m = \<lparr>ck_hour = h, ck_minute = m, ck_rest = 0\<rparr>"

definition window :: "weekday \<Rightarrow> clock \<Rightarrow> clock \<Rightarrow> time_window" where
  "window d s e = \<lparr>tw_day = d, tw_start = s, tw_end = e\<rparr>"

lemmas sample_windows = at_def window_def window_ok_def whole_minutes_def clock_ok_def start_minute_def
  end_minute_def minutes_of_def schedule_constants Let_def

theorem schedule_has_one_form_witness:
  "make_schedule ''UTC'' [window TUE (at 18 0) (at 20 0), window TUE (at 16 0) (at 18 0)] =
   make_schedule ''UTC'' [window TUE (at 16 0) (at 20 0)] \<and>
   \<not> raises (make_schedule ''UTC'' [window TUE (at 16 0) (at 20 0)])"
proof -
  let ?ws = "[window TUE (at 18 0) (at 20 0), window TUE (at 16 0) (at 18 0)]"
    and ?vs = "[window TUE (at 16 0) (at 20 0)]"
  have "covers ?vs = covers ?ws" by (auto simp: sample_windows)
  moreover have "\<forall>w\<in>set ?ws \<union> set ?vs. window_ok w" "\<forall>w\<in>set ?ws \<union> set ?vs. whole_minutes w"
    by (simp_all add: sample_windows)
  ultimately show ?thesis using schedule_has_one_form [of ?ws ?vs "''UTC''"] by auto
qed

text \<open>The minute arithmetic ignores the seconds of a \<open>time\<close>, the windows keep them. Two windows that differ
  in their seconds alone merge into whichever is listed first, so the schedule depends on the order it
  was assembled in, against the docstring of \<open>WeeklySchedule\<close>.\<close>

definition half_past :: time_window where
  "half_past = window TUE \<lparr>ck_hour = 16, ck_minute = 0, ck_rest = seconds 30\<rparr> (at 18 0)"

theorem seconds_break_the_one_form:
  "window_ok half_past \<and> make_schedule ''UTC'' [half_past, window TUE (at 16 0) (at 18 0)] \<noteq>
     make_schedule ''UTC'' [window TUE (at 16 0) (at 18 0), half_past]"
  by code_simp

section \<open>Overlap and intersection\<close>

lemma finite_covers [simp]: "finite (covers ws)"
  by (simp add: covers_def minutes_of_def)

lemma overlap_card: "overlap_minutes a b = int (card (minutes_of a \<inter> minutes_of b))"
proof -
  have "minutes_of a \<inter> minutes_of b
      = {max (start_minute a) (start_minute b) ..< min (end_minute a) (end_minute b)}"
    by (auto simp: minutes_of_def)
  moreover have "int (nat x) = max 0 x" for x by simp
  ultimately show ?thesis by (simp only: overlap_minutes_def card_atLeastLessThan_int)
qed

lemma normal_split: "normal (w # ws) \<Longrightarrow> minutes_of w \<inter> covers ws = {}"
  using normal_after(1) by (fastforce simp: minutes_of_def)

lemma covers_card:
  "normal ws \<Longrightarrow> int (card (covers ws \<inter> X)) = sum_list (map (\<lambda>w. int (card (minutes_of w \<inter> X))) ws)"
proof (induction ws)
  case (Cons w ws)
  have "card ((minutes_of w \<inter> X) \<union> (covers ws \<inter> X)) = card (minutes_of w \<inter> X) + card (covers ws \<inter> X)"
    by (rule card_Un_disjoint) (use normal_split [OF Cons.prems] in \<open>auto simp: minutes_of_def\<close>)
  then show ?case using Cons.IH [OF normal_tail [OF Cons.prems]] by (simp add: Int_Un_distrib2)
qed simp

lemma total_card:
  assumes "normal (ws_windows s)"
  shows "total_minutes s = int (card (covers (ws_windows s)))"
proof -
  have "duration_minutes w = int (card (minutes_of w \<inter> UNIV))" if "w \<in> set (ws_windows s)" for w
    using that assms window_within_day(4) [of w] by (auto simp: normal_def duration_minutes_def minutes_of_def)
  then have "total_minutes s = sum_list (map (\<lambda>w. int (card (minutes_of w \<inter> UNIV))) (ws_windows s))"
    unfolding total_minutes_def by (metis (no_types, lifting) map_cong)
  then show ?thesis using covers_card [OF assms, of UNIV] by simp
qed

lemma overlap_sum:
  assumes "normal ws" and "normal vs"
  shows "sum_list (concat (map (\<lambda>a. map (overlap_minutes a) vs) ws)) = int (card (covers ws \<inter> covers vs))"
proof -
  have "sum_list (map (overlap_minutes a) vs) = int (card (minutes_of a \<inter> covers vs))" for a
  proof -
    have "overlap_minutes a = (\<lambda>w. int (card (minutes_of w \<inter> minutes_of a)))"
      by (auto simp: overlap_card Int_commute)
    then show ?thesis using covers_card [OF assms(2), of "minutes_of a"] by (simp add: Int_commute)
  qed
  then have "sum_list (concat (map (\<lambda>a. map (overlap_minutes a) vs) ws))
      = sum_list (map (\<lambda>a. int (card (minutes_of a \<inter> covers vs))) ws)"
    by (induction ws) simp_all
  then show ?thesis using covers_card [OF assms(1), of "covers vs"] by simp
qed

lemma intersect_cases:
  assumes "window_ok a" and "window_ok b"
  shows "\<exists>r. intersect a b = Inr r \<and> (\<forall>w. r = Some w \<longrightarrow> window_ok w) \<and>
    (case r of None \<Rightarrow> {} | Some w \<Rightarrow> minutes_of w) = minutes_of a \<inter> minutes_of b"
proof (cases "windows_overlap a b")
  case False
  then have "minutes_of a \<inter> minutes_of b = {}"
    by (auto simp: windows_overlap_def overlap_minutes_def minutes_of_def)
  then show ?thesis using False by (simp add: intersect_def)
next
  case True
  let ?s = "max (start_minute a) (start_minute b)" and ?e = "min (end_minute a) (end_minute b)"
  have "0 < ?e - ?s"
    using True by (simp only: windows_overlap_def overlap_minutes_def less_max_iff_disj less_irrefl simp_thms)
  then have lt: "?s < ?e" by linarith
  have "?e \<le> (?s div 1440 + 1) * 1440"
  proof (cases "start_minute a \<le> start_minute b")
    case True
    then show ?thesis using day_of_start [OF assms(2)] window_within_day(3) [OF assms(2)] by (simp add: max_def algebra_simps)
  next
    case False
    then show ?thesis using day_of_start [OF assms(1)] window_within_day(3) [OF assms(1)] by (simp add: max_def algebra_simps)
  qed
  moreover have "0 \<le> ?s" "?s < 10080" using window_start_range [OF assms(1)] window_start_range [OF assms(2)] by auto
  ultimately obtain w where "window_from_minutes ?s ?e = Inr w" "window_ok w" "start_minute w = ?s" "end_minute w = ?e"
    using window_from_minutes_ok [of ?s ?e] lt by auto
  then show ?thesis using True by (auto simp: intersect_def minutes_of_def)
qed

lemma collect_intersections:
  assumes "\<forall>(a, b)\<in>set ps. window_ok a \<and> window_ok b"
  shows "\<exists>xs. collect (map (\<lambda>(a, b). intersect a b) ps) = Inr xs \<and> (\<forall>w\<in>set xs. window_ok w) \<and>
    covers xs = (\<Union>(a, b)\<in>set ps. minutes_of a \<inter> minutes_of b)"
  using assms
proof (induction ps)
  case (Cons p ps)
  obtain a b where p: "p = (a, b)" by (cases p)
  obtain xs where xs: "collect (map (\<lambda>(a, b). intersect a b) ps) = Inr xs" "\<forall>w\<in>set xs. window_ok w"
    "covers xs = (\<Union>(a, b)\<in>set ps. minutes_of a \<inter> minutes_of b)"
    using Cons by auto
  obtain r where r: "intersect a b = Inr r" "\<forall>w. r = Some w \<longrightarrow> window_ok w"
    "(case r of None \<Rightarrow> {} | Some w \<Rightarrow> minutes_of w) = minutes_of a \<inter> minutes_of b"
    using intersect_cases [of a b] Cons.prems p by auto
  show ?case using xs r p by (cases r) auto
qed simp

text \<open>Overlap is measured in minutes of the week. Two schedules of one time zone overlap by exactly the
  number of minutes both cover, no minute counted twice, and their intersection never raises, is in
  normal form and covers exactly the common minutes, so its length is that overlap.\<close>

theorem overlap_counts_common_minutes:
  assumes "normal (ws_windows s)" and "normal (ws_windows r)" and "ws_timezone s = ws_timezone r"
  shows "schedule_overlap s r = Inr (int (card (covers (ws_windows s) \<inter> covers (ws_windows r)))) \<and>
    (\<exists>x. schedule_intersection s r = Inr x \<and> normal (ws_windows x) \<and> ws_timezone x = ws_timezone s \<and>
         covers (ws_windows x) = covers (ws_windows s) \<inter> covers (ws_windows r) \<and>
         schedule_overlap s r = Inr (total_minutes x))"
proof -
  let ?ps = "concat (map (\<lambda>a. map (Pair a) (ws_windows r)) (ws_windows s))"
  have ps: "concat (map (\<lambda>a. map (intersect a) (ws_windows r)) (ws_windows s)) = map (\<lambda>(a, b). intersect a b) ?ps"
    by (simp add: map_concat comp_def)
  obtain xs where xs: "collect (map (\<lambda>(a, b). intersect a b) ?ps) = Inr xs" "\<forall>w\<in>set xs. window_ok w"
    "covers xs = (\<Union>(a, b)\<in>set ?ps. minutes_of a \<inter> minutes_of b)"
    using collect_intersections [of ?ps] assms by (auto simp: normal_def)
  have c: "covers xs = covers (ws_windows s) \<inter> covers (ws_windows r)"
    unfolding xs(3) by (auto simp: covers_def)
  obtain out where out: "merge_windows xs = Inr out" "normal out" "covers out = covers xs"
    using merge_windows_normal [OF xs(2)] by auto
  have o: "schedule_overlap s r = Inr (int (card (covers (ws_windows s) \<inter> covers (ws_windows r))))"
    using overlap_sum [OF assms(1,2)] assms(3) by (simp add: schedule_overlap_def)
  then show ?thesis
    using ps xs(1) out c assms(3) total_card [of "\<lparr>ws_timezone = ws_timezone r, ws_windows = out\<rparr>"]
    by (simp add: schedule_intersection_def make_schedule_def)
qed

definition evenings :: "string \<Rightarrow> weekly_schedule" where
  "evenings tz = \<lparr>ws_timezone = tz, ws_windows = [window TUE (at 16 0) (at 20 0), window FRI (at 17 0) (at 21 30)]\<rparr>"

definition late :: "string \<Rightarrow> weekly_schedule" where
  "late tz = \<lparr>ws_timezone = tz, ws_windows = [window TUE (at 18 30) (at 22 0), window SAT (at 17 0) (at 0 0)]\<rparr>"

lemma sample_schedules_normal: "normal (ws_windows (evenings tz))" "normal (ws_windows (late tz))"
  by (simp_all add: evenings_def late_def normal_def apart_def sample_windows)

section \<open>Conversion of time zones\<close>

lemma week_mod:
  fixes q x :: int
  assumes "0 \<le> x" and "x < 1440"
  shows "(q * 1440 + x) mod 10080 = q mod 7 * 1440 + x"
proof -
  have "q * 1440 + x = q mod 7 * 1440 + x + (q div 7) * 10080"
    using div_mult_mod_eq [of q 7] by linarith
  then have "(q * 1440 + x) mod 10080 = (q mod 7 * 1440 + x) mod 10080" by (metis mod_mult_self1)
  moreover have "0 \<le> q mod 7" "q mod 7 \<le> 6" using pos_mod_bound [of 7 q] pos_mod_sign [of 7 q] by simp_all
  ultimately show ?thesis using assms by (simp add: mod_pos_pos_trivial)
qed

lemma split_covers:
  "\<exists>out. split_across_days c e = Inr out \<and> (\<forall>w\<in>set out. window_ok w \<and> whole_minutes w) \<and>
     covers out = (\<lambda>m. m mod 10080) ` {c ..< e}"
proof (induction c e rule: split_across_days.induct)
  case (1 c e)
  show ?case
  proof (cases "c < e")
    case False
    then show ?thesis by (simp add: split_across_days.simps)
  next
    case True
    define q r where "q = c div 1440" and "r = c mod 1440"
    define seg where "seg = min e ((q + 1) * 1440)"
    define e' where "e' = seg - q * 1440"
    have c: "c = q * 1440 + r" "0 \<le> r" "r < 1440" unfolding q_def r_def by simp_all
    have e': "r < e'" "e' \<le> 1440" and seg: "seg = q * 1440 + e'" "seg \<le> e" "c < seg"
      using c True unfolding e'_def seg_def by auto
    have end_iff: "seg = (q + 1) * 1440 \<longleftrightarrow> e' = 1440" using seg(1) by auto
    have seg_mod: "seg mod 1440 = e'" if "e' \<noteq> 1440"
      using that seg(1) e' c(2) by (simp add: mod_pos_pos_trivial)
    obtain day where day: "weekday_of (q mod 7) = Inr day" "weekday_value day = q mod 7"
      using weekday_of_range [of "q mod 7"] pos_mod_bound [of 7 q] pos_mod_sign [of 7 q] by auto
    obtain w k where w: "(if e' = 1440 then clock 0 0 else clock (e' div 60) (e' mod 60)) = Inr k"
      "make_window day \<lparr>ck_hour = r div 60, ck_minute = r mod 60, ck_rest = 0\<rparr> k = Inr w" "window_ok w" "whole_minutes w"
      "start_minute w = q mod 7 * 1440 + r" "end_minute w = q mod 7 * 1440 + e'"
      using built_window [OF c(2) e', of day] day(2) by auto
    have rc: "clock (r div 60) (r mod 60) = Inr \<lparr>ck_hour = r div 60, ck_minute = r mod 60, ck_rest = 0\<rparr>"
      using clock_of_minute(1) c by blast
    have segd: "seg = min e ((c div MINUTES_PER_DAY + 1) * MINUTES_PER_DAY)"
      unfolding seg_def q_def schedule_constants by simp
    obtain out where out: "split_across_days seg e = Inr out" "\<forall>w\<in>set out. window_ok w \<and> whole_minutes w"
      "covers out = (\<lambda>m. m mod 10080) ` {seg ..< e}"
      using "1.IH" [OF True refl segd] by blast
    have k: "(if seg = (q + 1) * 1440 then clock 0 0 else clock (seg mod 1440 div 60) (seg mod 1440 mod 60)) = Inr k"
      using w(1) seg_mod end_iff by (cases "e' = 1440") simp_all
    have "split_across_days c e = Inr (w # out)"
      by (subst split_across_days.simps)
        (simp only: Let_def schedule_constants mult_numeral_1 q_def [symmetric] r_def [symmetric] seg_def [symmetric]
          True if_True k day(1) rc w(2) out(1) and_then.simps arith_simps)
    moreover have "minutes_of w = (\<lambda>m. m mod 10080) ` {c ..< seg}"
    proof -
      have "{c ..< seg} = (\<lambda>x. q * 1440 + x) ` {r ..< e'}" using c(1) seg(1) by (simp add: add.commute)
      moreover have "(\<lambda>x. (q * 1440 + x) mod 10080) ` {r ..< e'} = (\<lambda>x. q mod 7 * 1440 + x) ` {r ..< e'}"
        using c e' by (intro image_cong refl week_mod) auto
      moreover have "minutes_of w = (\<lambda>x. q mod 7 * 1440 + x) ` {r ..< e'}"
        using w(5,6) by (simp add: minutes_of_def add.commute)
      ultimately show ?thesis by (simp only: image_image)
    qed
    moreover have "{c ..< e} = {c ..< seg} \<union> {seg ..< e}" using seg by auto
    ultimately show ?thesis using out w(3,4) by (auto simp: image_Un)
  qed
qed

lemma collect_splits:
  "\<exists>out. collect_all (map (\<lambda>w. split_across_days (start_minute w + d) (end_minute w + d)) ws) = Inr out \<and>
     (\<forall>w\<in>set out. window_ok w \<and> whole_minutes w) \<and> covers out = (\<lambda>m. (m + d) mod 10080) ` covers ws"
proof (induction ws)
  case (Cons w ws)
  obtain out where out: "split_across_days (start_minute w + d) (end_minute w + d) = Inr out"
    "\<forall>w\<in>set out. window_ok w \<and> whole_minutes w"
    "covers out = (\<lambda>m. m mod 10080) ` {start_minute w + d ..< end_minute w + d}"
    using split_covers by blast
  have "{start_minute w + d ..< end_minute w + d} = (\<lambda>m. m + d) ` minutes_of w"
    by (simp add: minutes_of_def)
  then have "covers out = (\<lambda>m. (m + d) mod 10080) ` minutes_of w" using out(3) by (simp add: image_image)
  then show ?case using Cons out by (auto simp: image_Un)
qed simp

lemma converted:
  assumes "offset (ws_timezone s) = Some u" and "offset target = Some v" and "ws_timezone s \<noteq> target"
  shows "\<exists>t. to_timezone offset s target = Inr t \<and> ws_timezone t = target \<and> normal (ws_windows t) \<and>
    (\<forall>w\<in>set (ws_windows t). whole_minutes w) \<and>
    covers (ws_windows t) = (\<lambda>m. (m + (v - u)) mod 10080) ` covers (ws_windows s)"
proof -
  obtain out where out: "collect_all (map (\<lambda>w. split_across_days (start_minute w + (v - u)) (end_minute w + (v - u)))
      (ws_windows s)) = Inr out" "\<forall>w\<in>set out. window_ok w \<and> whole_minutes w"
    "covers out = (\<lambda>m. (m + (v - u)) mod 10080) ` covers (ws_windows s)"
    using collect_splits by blast
  then obtain merged where "merge_windows out = Inr merged" "normal merged" "covers merged = covers out"
    "\<forall>w\<in>set merged. whole_minutes w"
    using merge_windows_normal [of out] by blast
  then show ?thesis using out assms by (simp add: to_timezone_def make_schedule_def)
qed

lemma covers_week: "\<forall>w\<in>set ws. window_ok w \<Longrightarrow> covers ws \<subseteq> {0 ..< 10080}"
  using window_start_range by (fastforce simp: covers_def minutes_of_def)

lemma shift_back:
  fixes m d :: int
  assumes "m \<in> {0 ..< 10080}"
  shows "((m + d) mod 10080 + (- d)) mod 10080 = m"
proof -
  have "((m + d) mod 10080 + (- d)) mod 10080 = (m + d + (- d)) mod 10080" by (rule mod_add_left_eq)
  then show ?thesis using assms by simp
qed

text \<open>(C40) Converting a schedule to another time zone loses and invents no minute. For a schedule in normal
  form and zones whose offsets are known, conversion never raises, windows that cross midnight are split
  so that the result is again in normal form, the total number of minutes is unchanged, and the converted
  minutes are the given ones shifted around the week by the difference of the offsets. If every window
  starts and ends at a whole minute, converting back gives the original schedule; windows are rebuilt
  from minutes, so seconds would be dropped (\<open>conversion_drops_seconds\<close>).\<close>

theorem timezone_roundtrip:
  assumes "normal (ws_windows s)" and "offset (ws_timezone s) = Some u" and "offset target = Some v"
  shows "\<exists>t. to_timezone offset s target = Inr t \<and> normal (ws_windows t) \<and> total_minutes t = total_minutes s \<and>
    covers (ws_windows t) = (\<lambda>m. (m + (v - u)) mod MINUTES_PER_WEEK) ` covers (ws_windows s) \<and>
    ((\<forall>w\<in>set (ws_windows s). whole_minutes w) \<longrightarrow> to_timezone offset t (ws_timezone s) = Inr s)"
proof (cases "ws_timezone s = target")
  case True
  have "(m + (v - u)) mod 10080 = m" if "m \<in> covers (ws_windows s)" for m
    using covers_week [of "ws_windows s"] assms that True by (force simp: normal_def)
  then have "(\<lambda>m. (m + (v - u)) mod MINUTES_PER_WEEK) ` covers (ws_windows s) = covers (ws_windows s)"
    by (simp add: schedule_constants)
  then show ?thesis using True assms(1) by (simp add: to_timezone_def)
next
  case False
  let ?f = "\<lambda>d m. (m + d) mod 10080 :: int" and ?C = "covers (ws_windows s)"
  have undo: "?f (u - v) (?f (v - u) m) = m" if "m \<in> ?C" for m
    using shift_back [of m "v - u"] covers_week [of "ws_windows s"] assms(1) that by (auto simp: normal_def)
  obtain t where t: "to_timezone offset s target = Inr t" "ws_timezone t = target" "normal (ws_windows t)"
    "covers (ws_windows t) = ?f (v - u) ` ?C"
    using converted [OF assms(2,3) False] by blast
  have "inj_on (?f (v - u)) ?C" using undo by (rule inj_on_inverseI)
  then have total: "total_minutes t = total_minutes s"
    using t(4) total_card [OF t(3)] total_card [OF assms(1)] by (simp add: card_image)
  have "to_timezone offset t (ws_timezone s) = Inr s" if whole: "\<forall>w\<in>set (ws_windows s). whole_minutes w"
  proof -
    obtain b where b: "to_timezone offset t (ws_timezone s) = Inr b" "ws_timezone b = ws_timezone s" "normal (ws_windows b)"
      "\<forall>w\<in>set (ws_windows b). whole_minutes w" "covers (ws_windows b) = ?f (u - v) ` covers (ws_windows t)"
      using converted [of offset t v "ws_timezone s" u] assms(2,3) False t(2) by auto
    have "covers (ws_windows b) = ?C" using b(5) t(4) undo by (force simp: image_image)
    then have "ws_windows b = ws_windows s" using normal_determined [OF b(3) assms(1)] b(4) whole by simp
    then have "b = s" using b(2) by simp
    then show ?thesis using b(1) by simp
  qed
  then show ?thesis using t total by (simp add: schedule_constants)
qed

text \<open>UTC and India, five hours and a half apart: a late evening in UTC is a night in India.\<close>

definition sample_offset :: "string \<Rightarrow> int option" where
  "sample_offset z = (if z = ''UTC'' then Some 0 else if z = ''Asia/Kolkata'' then Some 330 else None)"

theorem timezone_roundtrip_witness:
  "\<exists>t. to_timezone sample_offset (late ''UTC'') ''Asia/Kolkata'' = Inr t \<and> total_minutes t = 630 \<and>
     to_timezone sample_offset t ''UTC'' = Inr (late ''UTC'')"
proof -
  have "total_minutes (late ''UTC'') = 630"
    by (simp add: total_minutes_def late_def duration_minutes_def sample_windows)
  then show ?thesis
    using timezone_roundtrip [where s = "late ''UTC''" and offset = sample_offset and u = 0 and
        target = "''Asia/Kolkata''" and v = 330, OF sample_schedules_normal(2)]
    by (auto simp: late_def sample_offset_def whole_minutes_def window_def at_def)
qed

theorem conversion_drops_seconds:
  "and_then (to_timezone sample_offset \<lparr>ws_timezone = ''UTC'', ws_windows = [half_past]\<rparr> ''Asia/Kolkata'')
     (\<lambda>t. to_timezone sample_offset t ''UTC'') =
   Inr \<lparr>ws_timezone = ''UTC'', ws_windows = [window TUE (at 16 0) (at 18 0)]\<rparr>"
  by code_simp

section \<open>Slots\<close>

definition is_slot_of :: "int \<Rightarrow> time_window \<Rightarrow> time_window \<Rightarrow> bool" where
  "is_slot_of session w x \<longleftrightarrow>
     tw_day x = tw_day w \<and> tw_start x = tw_start w \<and> end_minute x = start_minute w + session"

definition usable :: "int \<Rightarrow> weekday \<Rightarrow> time_window \<Rightarrow> bool" where
  "usable session day w \<longleftrightarrow> tw_day w = day \<and> session \<le> duration_minutes w"

lemma slot_builds:
  assumes "window_ok w" and "0 < session" and "session \<le> duration_minutes w"
    and off: "off = start_minute w + session - weekday_value (tw_day w) * MINUTES_PER_DAY"
  shows "\<exists>x. and_then (clock (off div 60 mod 24) (off mod 60)) (\<lambda>e. make_window (tw_day w) (tw_start w) e) = Inr x \<and>
    is_slot_of session w x"
proof -
  have r: "0 < off" "off \<le> 1440"
    using off assms window_within_day [OF assms(1)] by (auto simp: schedule_constants duration_minutes_def)
  have sm: "start_minute w = weekday_value (tw_day w) * MINUTES_PER_DAY + ck_hour (tw_start w) * 60 + ck_minute (tw_start w)"
    by (simp add: start_minute_def)
  show ?thesis
  proof (cases "off = 1440")
    case True
    then show ?thesis
      using off assms(2) sm by (auto simp: make_window_def is_slot_of_def end_minute_def start_minute_def Let_def
          schedule_constants)
  next
    case False
    then have "off div 60 < 24" using r by simp
    then have "off div 60 mod 24 = off div 60" using r by (simp add: mod_pos_pos_trivial)
    moreover have "clock (off div 60) (off mod 60) = Inr \<lparr>ck_hour = off div 60, ck_minute = off mod 60, ck_rest = 0\<rparr>"
      using clock_of_minute(1) [of off] r False by simp
    ultimately show ?thesis
      using off assms(2) r sm by (auto simp: make_window_def is_slot_of_def end_minute_def start_minute_def Let_def
          schedule_constants)
  qed
qed

definition picked ::
  "int \<Rightarrow> time_window list \<Rightarrow> (weekday, time_window) odict \<Rightarrow> (weekday, time_window) odict \<Rightarrow> bool" where
  "picked session ws d d' \<longleftrightarrow>
     (\<forall>day. (dict_get d' day = None \<longleftrightarrow> dict_get d day = None \<and> find (usable session day) ws = None) \<and>
       (\<forall>x. dict_get d' day = Some x \<longrightarrow> dict_get d day = Some x \<or>
          (\<exists>w. dict_get d day = None \<and> find (usable session day) ws = Some w \<and> is_slot_of session w x)))"

lemma pick_slots_spec:
  assumes "\<forall>w\<in>set ws. window_ok w" and "0 < session" and "dict_ok d"
  shows "\<exists>d'. pick_slots session ws d = Inr d' \<and> dict_ok d' \<and> picked session ws d d'"
  using assms
proof (induction ws arbitrary: d)
  case (Cons w ws)
  have skip: ?case if "\<forall>day. usable session day w \<longrightarrow> dict_get d day \<noteq> None"
    and "pick_slots session (w # ws) d = pick_slots session ws d"
  proof -
    obtain d' where d': "pick_slots session ws d = Inr d'" "dict_ok d'" "picked session ws d d'"
      using Cons.IH [of d] Cons.prems by auto
    then have "picked session (w # ws) d d'"
      using that(1) unfolding picked_def by (metis find.simps(2) option.distinct(1))
    then show ?thesis using that(2) d' by auto
  qed
  show ?case
  proof (cases "duration_minutes w < session \<or> dict_get d (tw_day w) \<noteq> None")
    case True
    then show ?thesis by (intro skip) (auto simp: usable_def)
  next
    case False
    define off where "off = start_minute w + session - weekday_value (tw_day w) * MINUTES_PER_DAY"
    obtain x where x: "and_then (clock (off div 60 mod 24) (off mod 60)) (\<lambda>e. make_window (tw_day w) (tw_start w) e) = Inr x"
      "is_slot_of session w x"
      using slot_builds [of w session off] Cons.prems False off_def by auto
    have step: "pick_slots session (w # ws) d = pick_slots session ws (dict_set d (tw_day w) x)"
      using False x(1) by (auto simp: Let_def off_def)
    obtain d' where d': "pick_slots session ws (dict_set d (tw_day w) x) = Inr d'" "dict_ok d'"
      "picked session ws (dict_set d (tw_day w) x) d'"
      using Cons.IH [of "dict_set d (tw_day w) x"] Cons.prems by auto
    have u: "usable session day w \<longleftrightarrow> day = tw_day w" for day using False by (auto simp: usable_def)
    have "picked session (w # ws) d d'"
      unfolding picked_def
    proof (intro allI conjI)
      fix day
      have p: "(dict_get d' day = None \<longleftrightarrow> dict_get (dict_set d (tw_day w) x) day = None \<and> find (usable session day) ws = None)"
        "\<And>y. dict_get d' day = Some y \<Longrightarrow> dict_get (dict_set d (tw_day w) x) day = Some y \<or>
           (\<exists>v. dict_get (dict_set d (tw_day w) x) day = None \<and> find (usable session day) ws = Some v \<and> is_slot_of session v y)"
        using d'(3) unfolding picked_def by blast+
      show "dict_get d' day = None \<longleftrightarrow> dict_get d day = None \<and> find (usable session day) (w # ws) = None"
        using p(1) False by (cases "day = tw_day w") (simp_all add: u)
      show "dict_get d' day = Some y \<longrightarrow> dict_get d day = Some y \<or>
          (\<exists>v. dict_get d day = None \<and> find (usable session day) (w # ws) = Some v \<and> is_slot_of session v y)" for y
        using p(2) [of y] False x(2) by (cases "day = tw_day w") (auto simp: u)
    qed
    then show ?thesis using step d' by auto
  qed
qed (simp add: picked_def)

lemma find_sorted:
  "sorted (map f xs) \<Longrightarrow> find P xs = Some x \<Longrightarrow> y \<in> set xs \<Longrightarrow> P y \<Longrightarrow> f x \<le> f y"
  by (induction xs) (auto split: if_splits)

lemma sorted_days: "distinct ds \<Longrightarrow> sorted_wrt (\<lambda>a b. weekday_value a < weekday_value b) (sort_key weekday_value ds)"
proof -
  assume d: "distinct ds"
  have "sorted_wrt (\<lambda>a b. weekday_value a \<le> weekday_value b) (sort_key weekday_value ds)"
    using sorted_sort_key [of weekday_value ds] by (simp only: sorted_map)
  moreover have "sorted_wrt (\<noteq>) (sort_key weekday_value ds)"
    using d by (simp add: sorted_wrt_iff_nth_less nth_eq_iff_index_eq)
  ultimately have "sorted_wrt (\<lambda>a b. weekday_value a \<le> weekday_value b \<and> a \<noteq> b) (sort_key weekday_value ds)"
    by (simp add: sorted_wrt_iff_nth_less)
  then show ?thesis by (rule sorted_wrt_mono_rel [rotated]) (auto simp: less_le)
qed

lemma at_most_seven_days: "distinct (ds :: weekday list) \<Longrightarrow> length ds \<le> 7"
proof -
  assume d: "distinct ds"
  have "set ds \<subseteq> set all_weekdays" using weekday.exhaust by (auto simp: all_weekdays_def)
  then have "card (set ds) \<le> card (set all_weekdays)" by (intro card_mono) simp_all
  then show ?thesis using d distinct_card by (fastforce simp: all_weekdays_def)
qed

text \<open>Suggested slots are bookable. From any normal schedule, and for any positive session length,
  \<open>suggest_slots\<close> never raises; every slot lasts exactly one session, lies in a window of the schedule
  and starts with the earliest window of its day that is long enough; the slots are on different days
  in order, at most \<open>limit\<close> of them, and with a limit of seven no day with a long enough window is missed.\<close>

theorem suggested_slots_fit:
  assumes "normal (ws_windows s)" and "0 < session"
  shows "\<exists>out. suggest_slots s session limit = Inr out \<and> length out \<le> limit \<and>
    sorted_wrt (\<lambda>x y. weekday_value (tw_day x) < weekday_value (tw_day y)) out \<and>
    (\<forall>x\<in>set out. duration_minutes x = session \<and> (\<exists>w\<in>set (ws_windows s). tw_day w = tw_day x \<and> window_contains w x \<and>
        start_minute w = start_minute x) \<and>
        (\<forall>v\<in>set (ws_windows s). usable session (tw_day x) v \<longrightarrow> start_minute x \<le> start_minute v)) \<and>
    (7 \<le> limit \<longrightarrow> (\<forall>v\<in>set (ws_windows s). session \<le> duration_minutes v \<longrightarrow> (\<exists>x\<in>set out. tw_day x = tw_day v)))"
proof -
  let ?ws = "sort_key start_minute (ws_windows s)"
  have "\<forall>w\<in>set ?ws. window_ok w" using assms(1) by (simp add: normal_def)
  then obtain d where d: "pick_slots session ?ws [] = Inr d" "dict_ok d"
    and none: "\<And>day. dict_get d day = None \<longleftrightarrow> find (usable session day) ?ws = None"
    and some: "\<And>day x. dict_get d day = Some x \<Longrightarrow> \<exists>w. find (usable session day) ?ws = Some w \<and> is_slot_of session w x"
    using pick_slots_spec [of ?ws session "[]"] assms(2) by (auto simp: picked_def)
  let ?days = "sort_key weekday_value (dict_keys d)"
  let ?all = "map (\<lambda>k. the (dict_get d k)) ?days"
  have slot: "tw_day x = day \<and> duration_minutes x = session \<and> (\<exists>w\<in>set (ws_windows s). tw_day w = tw_day x \<and> window_contains w x \<and>
      start_minute w = start_minute x) \<and> (\<forall>v\<in>set (ws_windows s). usable session (tw_day x) v \<longrightarrow> start_minute x \<le> start_minute v)"
    if x: "dict_get d day = Some x" for day x
  proof -
    obtain w where w: "find (usable session day) ?ws = Some w" "is_slot_of session w x" using some [OF x] by blast
    have f: "w \<in> set (ws_windows s)" "usable session day w" using find_Some_in [OF w(1)] by auto
    have st: "start_minute x = start_minute w" using w(2) by (simp add: is_slot_of_def start_minute_def)
    have "\<forall>v\<in>set (ws_windows s). usable session day v \<longrightarrow> start_minute w \<le> start_minute v"
      using find_sorted [OF sorted_sort_key w(1)] by simp
    then show ?thesis
      using w(2) f st by (auto simp: is_slot_of_def usable_def window_contains_def duration_minutes_def intro!: bexI [of _ w])
  qed
  have get: "\<exists>x. dict_get d k = Some x" if "k \<in> set ?days" for k
    using that by (simp add: dict_get_None_iff flip: not_None_eq)
  have len: "length ?all \<le> 7" using d(2) at_most_seven_days by (simp add: dict_ok_def)
  have "sorted_wrt (\<lambda>k k'. weekday_value k < weekday_value k') ?days" using sorted_days d(2) by (simp add: dict_ok_def)
  then have "sorted_wrt (\<lambda>k k'. weekday_value (tw_day (the (dict_get d k))) < weekday_value (tw_day (the (dict_get d k')))) ?days"
    by (rule sorted_wrt_mono_rel [rotated]) (use get slot in fastforce)
  then have srt: "sorted_wrt (\<lambda>x y. weekday_value (tw_day x) < weekday_value (tw_day y)) (take limit ?all)"
    by (simp add: sorted_wrt_map sorted_wrt_take)
  have in_all: "\<exists>k. dict_get d k = Some x" if "x \<in> set (take limit ?all)" for x
    using that get by (fastforce dest: in_set_takeD)
  have "\<exists>x\<in>set ?all. tw_day x = tw_day v" if "v \<in> set (ws_windows s)" "session \<le> duration_minutes v" for v
  proof -
    have "find (usable session (tw_day v)) ?ws \<noteq> None" using that by (auto simp: find_None_iff' usable_def)
    then have "dict_get d (tw_day v) \<noteq> None" using none [of "tw_day v"] by simp
    then obtain x where x: "dict_get d (tw_day v) = Some x" by auto
    then have "tw_day v \<in> set (dict_keys d)" by (metis dict_get_None_iff option.distinct(1))
    then show ?thesis using x slot [OF x] by (auto intro!: bexI [of _ "tw_day v"])
  qed
  moreover have "take limit ?all = ?all" if "7 \<le> limit" using that len by simp
  ultimately have complete: "7 \<le> limit \<longrightarrow>
      (\<forall>v\<in>set (ws_windows s). session \<le> duration_minutes v \<longrightarrow> (\<exists>x\<in>set (take limit ?all). tw_day x = tw_day v))"
    by simp
  show ?thesis
  proof (intro exI [of _ "take limit ?all"] conjI ballI)
    show "suggest_slots s session limit = Inr (take limit ?all)" using d(1) by (simp add: suggest_slots_def)
    show "length (take limit ?all) \<le> limit" by simp
    fix x
    assume "x \<in> set (take limit ?all)"
    then obtain k where "dict_get d k = Some x" using in_all by blast
    note k = slot [OF this]
    show "duration_minutes x = session" using k by blast
    show "\<exists>w\<in>set (ws_windows s). tw_day w = tw_day x \<and> window_contains w x \<and> start_minute w = start_minute x"
      using k by blast
    show "usable session (tw_day x) v \<longrightarrow> start_minute x \<le> start_minute v" if "v \<in> set (ws_windows s)" for v
      using k that by blast
  qed (use srt complete in simp_all)
qed

end
