(* ===== verification/Shortlists.thy ===== *)
theory Shortlists
  imports TurnRuns
begin

text \<open>
  What the turns of a conversation cannot do, because of what is not stored and not carried: the fact
  that names a match session is set after the turn's facts were saved, so a second shortlist has the
  first one's key; a message that picks a slot carries no slot; and a tutor is asked only about a demo
  whose time is already set.
\<close>

section \<open>A conversation shows one shortlist\<close>

definition options_key :: "(string \<Rightarrow> string) \<Rightarrow> ref \<Rightarrow> string" where
  "options_key h c = idempotency_key h (map Some [c, ''options'', ''''])"

definition shows_options :: "ref \<Rightarrow> outbound_message \<Rightarrow> bool" where
  "shows_options c m \<longleftrightarrow> om_conversation m = c \<and> om_kind m = MK_TUTOR_OPTIONS"

definition shortlists :: "ref \<Rightarrow> 'c world \<Rightarrow> (outbound_message \<times> string) list" where
  "shortlists c w = filter (\<lambda>(m, p). shows_options c m) (sg_calls (wd_sending w))"

text \<open>At most one shortlist is out, and then its key is taken; no session is stored.\<close>

definition shown_once :: "string \<Rightarrow> ref \<Rightarrow> (mem_log, 'c) sending \<Rightarrow> bool" where
  "shown_once key c st \<longleftrightarrow>
     (let shown = filter (\<lambda>(m, p). shows_options c m) (sg_calls st)
      in length shown \<le> 1 \<and> (shown \<noteq> [] \<longrightarrow> key \<in> ml_claims (sg_log st)))"

definition sessionless :: "ref \<Rightarrow> mem_convs \<Rightarrow> bool" where
  "sessionless c s \<longleftrightarrow> mem_convs_inv s \<and> sn_facts (mem_load s c) ''match_session_id'' = None"

definition settled_once :: "string \<Rightarrow> ref \<Rightarrow> 'c world \<Rightarrow> bool" where
  "settled_once key c w \<longleftrightarrow> sessionless c (wd_convs w) \<and> shown_once key c (wd_sending w)"

definition keyed :: "string \<Rightarrow> ref \<Rightarrow> outbound_message list \<Rightarrow> bool" where
  "keyed key c ms \<longleftrightarrow> list_all (\<lambda>m. shows_options c m \<longrightarrow> om_key m = key) ms"

definition unnamed :: "ref \<Rightarrow> 'c turn \<Rightarrow> bool" where
  "unnamed c t \<longleftrightarrow> (tn_conversation t = c \<longrightarrow> tn_facts t ''match_session_id'' = None)"

subsection \<open>Sending\<close>

lemma shown_once_send:
  assumes "shows_options c m \<longrightarrow> om_key m = key" and "shown_once key c st"
  shows "shown_once key c (snd (send mem_claim_send mem_record_result b rd ct sender st m now))"
proof -
  let ?st = "snd (send mem_claim_send mem_record_result b rd ct sender st m now)"
  have claims: "k \<in> ml_claims (sg_log ?st) \<longleftrightarrow> k \<in> ml_claims (sg_log st) \<or> (free_gates rd ct m now = None \<and> k = om_key m)" for k
    by (rule mem_outbound.send_claims)
  show ?thesis
  proof (cases "sg_calls ?st = sg_calls st")
    case True
    then show ?thesis using assms(2) claims by (auto simp: shown_once_def Let_def)
  next
    case False
    then have "free_gates rd ct m now = None" by (auto simp: send_def split: option.splits)
    moreover obtain p where "sg_calls ?st = sg_calls st @ [(m, p)]" "om_key m \<notin> ml_claims (sg_log st)"
      using mem_outbound.send_call [OF False] by blast
    ultimately show ?thesis using assms claims by (auto simp: shown_once_def Let_def)
  qed
qed

lemma settled_send_one:
  assumes "shows_options c m \<longrightarrow> om_key m = key" and "settled_once key c w"
  shows "settled_once key c (snd (send_one sv now m w))"
  using shown_once_send [OF assms(1), of "wd_sending w" "sv_boundary sv" "reading_of w" "sv_directory sv" "sv_sender sv" now]
    assms(2) by (simp add: settled_once_def send_one_def case_prod_beta)

lemma settled_flush:
  "keyed key c ms \<Longrightarrow> settled_once key c (tn_world t) \<Longrightarrow> settled_once key c (tn_world (snd (flush_queue sv ms n t)))"
proof (induction ms arbitrary: n t)
  case (Cons m ms)
  obtain r w where s: "send_one sv (tn_now t) m (tn_world t) = (r, w)" by fastforce
  have w: "settled_once key c w"
    using settled_send_one [of c m key "tn_world t" sv "tn_now t"] Cons.prems by (simp add: s keyed_def)
  then show ?case using Cons by (cases r) (simp_all add: s degrade_def Let_def keyed_def)
qed simp

subsection \<open>Saving\<close>

lemma sessionless_save:
  assumes "sessionless c s" and "tr_conversation_ref r = c \<longrightarrow> f ''match_session_id'' = None"
  shows "sessionless c (snd (mem_save_transition s r now ulid (Some f)))"
proof -
  have "sn_facts (mem_load (snd (mem_save_transition s r now ulid (Some f))) c) ''match_session_id'' = None"
    using assms
    by (auto simp: sessionless_def mem_save_transition_def Let_def mem_load_def facts_or_empty_def map_add_def split: option.split)
  then show ?thesis using mem_convs.save_inv [of s r now ulid "Some f"] assms(1) by (simp add: sessionless_def)
qed

lemma sessionless_ownership [simp]: "sessionless c (mem_save_ownership s ow) = sessionless c s"
  by (simp add: sessionless_def)

lemma if_known_other: "k \<noteq> k' \<Longrightarrow> if_known k v f k' = f k'"
  by (simp add: if_known_def split: option.split)

lemma assembled_unnamed: "assemble_facts w c now f ''match_session_id'' = f ''match_session_id''"
proof -
  have "demo_facts w c now f ''match_session_id'' = f ''match_session_id''"
    by (simp add: demo_facts_def Let_def if_known_other)
  moreover have "selection_fact w c g ''match_session_id'' = g ''match_session_id''" for g
    by (simp add: selection_fact_def Let_def)
  moreover have "commerce_facts w c g ''match_session_id'' = g ''match_session_id''" for g
    by (simp add: commerce_facts_def Let_def if_known_other split: option.split)
  ultimately show ?thesis by (simp add: assemble_facts_def)
qed

lemma turn_facts_unnamed:
  "turn_facts sv e now w ''match_session_id'' = sn_facts (mem_load (wd_convs w) (te_conversation e)) ''match_session_id''"
proof -
  have "payload_facts p ''match_session_id'' = None" for p by (simp add: payload_facts_def PAYLOAD_FACT_ALLOWLIST_def)
  then show ?thesis
    by (simp add: turn_facts_def Let_def selection_facts_def assembled_unnamed map_add_def)
qed

subsection \<open>The command\<close>

lemma execute_keyed:
  assumes "keyed (options_key (sv_sha256 sv) c) c (tn_outbox t)" and "unnamed c t"
  shows "keyed (options_key (sv_sha256 sv) c) c (tn_outbox (snd (execute sv cmd p t)))"
proof (cases "cmd = PRESENT_TUTOR_OPTIONS")
  case True
  have "text_fact (tn_facts t) ''match_session_id'' = ''''" if "tn_conversation t = c"
    using assms(2) that by (simp add: unnamed_def text_fact_def)
  then show ?thesis using assms(1) True
    by (auto simp: present_options_def say_def and_do_def queue_def throw_def change_def give_def make_message_def
        message_for_def Let_def keyed_def shows_options_def key_of_def options_key_def
        split: list.split sum.split if_splits)
next
  case False
  then have "MK_TUTOR_OPTIONS \<notin> spoken_kinds cmd" by (cases cmd) simp_all
  moreover obtain ms where "tn_outbox (snd (execute sv cmd p t)) = tn_outbox t @ ms" "om_kind ` set ms \<subseteq> spoken_kinds cmd"
    using execute_speaks [of cmd t sv p] unfolding speaks_only_def by blast
  ultimately show ?thesis using assms(1) by (auto simp: keyed_def list_all_iff shows_options_def)
qed

text \<open>A command that fails has not named a session.\<close>

lemma request_match_fails_unnamed:
  assumes "request_match sv seen t = (res, t')" and "\<And>o'. res = Inr o' \<Longrightarrow> co_failed o'"
  shows "tn_facts t' k = tn_facts t k"
proof -
  have "case request_match sv seen t of (res, t') \<Rightarrow>
      (\<forall>o'. res = Inr o' \<longrightarrow> co_failed o') \<longrightarrow> tn_facts t' k = tn_facts t k"
    unfolding request_match_def
    by (simp add: Let_def give_def throw_def and_do_def change_def degrade_def gone_wrong_def went_well_def
        split: option.split sum.split)
  then show ?thesis using assms by simp
qed

lemma notify_request_expired_facts: "tn_facts (snd (notify_request_expired sv t)) = tn_facts t"
  by (auto simp: notify_request_expired_def give_def change_def degrade_def queue_def throw_def split: option.split sum.split)

lemma release_hold_facts: "k \<noteq> ''hold_id'' \<Longrightarrow> tn_facts (snd (release_hold t)) k = tn_facts t k"
  using unwritten.quiet_release_hold [of "{''hold_id''}" t] by (simp add: same_facts_def)

lemma execute_fails_unnamed:
  assumes "execute sv cmd p t = (res, t')" and "\<And>o'. res = Inr o' \<Longrightarrow> co_failed o'"
  shows "tn_facts t' ''match_session_id'' = tn_facts t ''match_session_id''"
proof (cases "cmd \<in> {REQUEST_TUTOR_MATCH, TRY_FALLBACK_TUTOR}")
  case False
  then have "''match_session_id'' \<notin> written_facts cmd" by (cases cmd) simp_all
  then show ?thesis using execute_facts [of "''match_session_id''" cmd sv p t] assms(1) by simp
next
  case True
  then consider "cmd = REQUEST_TUTOR_MATCH" | "cmd = TRY_FALLBACK_TUTOR" by blast
  then show ?thesis
  proof cases
    case 1
    then show ?thesis using request_match_fails_unnamed [OF _ assms(2)] assms(1) by simp
  next
    case 2
    obtain r1 t1 where n: "notify_request_expired sv t = (r1, t1)" by fastforce
    obtain r2 t2 where h: "release_hold t1 = (r2, t2)" by fastforce
    have "tn_facts t1 ''match_session_id'' = tn_facts t ''match_session_id''"
      "tn_facts t2 ''match_session_id'' = tn_facts t1 ''match_session_id''"
      using notify_request_expired_facts [of sv t] release_hold_facts [of "''match_session_id''" t1] by (simp_all add: n h)
    moreover have "tn_facts t' ''match_session_id'' = tn_facts t2 ''match_session_id''" if "r1 = Inr x" "r2 = Inr y" for x y
    proof -
      have "request_match sv True t2 = (res, t')" using assms(1) that by (simp add: 2 try_fallback_def and_do_def n h)
      then show ?thesis using request_match_fails_unnamed assms(2) by blast
    qed
    moreover have "t' = t1" if "r1 = Inl x" for x
      using assms(1) that by (simp add: 2 try_fallback_def and_do_def n)
    moreover have "t' = t2" if "r1 = Inr x" "r2 = Inl y" for x y
      using assms(1) that by (simp add: 2 try_fallback_def and_do_def n h)
    ultimately show ?thesis by (cases r1; cases r2) simp_all
  qed
qed

lemma compensations_name_nothing:
  assumes "fire sn tr a f = Inr r"
  shows "''match_session_id'' \<notin> written_facts (tr_compensation r)"
proof -
  have "compensation t \<in> {NONE, RELEASE_SLOT_HOLD, CANCEL_REMINDERS, CANCEL_CALENDAR_EVENT}" if "t \<in> set TRANSITIONS" for t
    using that by (simp add: TRANSITIONS_def table_rows) (elim disjE; simp)
  then have "tr_compensation r \<in> {NONE, RELEASE_SLOT_HOLD, CANCEL_REMINDERS, CANCEL_CALENDAR_EVENT}"
    using assms unfolding fire_Inr_iff by (metis result_for_simps(6))
  then show ?thesis by auto
qed

subsection \<open>The turn\<close>

definition keeps_settled :: "string \<Rightarrow> ref \<Rightarrow> 'c meanwhile \<Rightarrow> bool" where
  "keeps_settled key c meanwhile \<longleftrightarrow> (\<forall>k w. settled_once key c w \<longrightarrow> settled_once key c (meanwhile k w))"

text \<open>A turn that is settled: its world, its queue and its facts.\<close>

definition settled_turn :: "string \<Rightarrow> ref \<Rightarrow> 'c turn \<Rightarrow> bool" where
  "settled_turn key c t \<longleftrightarrow> settled_once key c (tn_world t) \<and> keyed key c (tn_outbox t)"

lemma execute_settled:
  assumes "settled_turn (options_key (sv_sha256 sv) c) c t" and "unnamed c t"
  shows "settled_turn (options_key (sv_sha256 sv) c) c (snd (execute sv cmd p t))"
  using execute_keyed [OF _ assms(2)] assms(1) execute_follows [of t sv cmd p]
  by (simp add: settled_turn_def settled_once_def follows_def kept_def)

lemma fire_internal_settled:
  assumes "settled_turn key c t" and "unnamed c t" and "keeps_settled key c meanwhile"
  shows "settled_turn key c (snd (fire_internal sv meanwhile tr t))"
proof (cases "fire (mem_load (wd_convs (tn_world t)) (tn_conversation t)) tr SYSTEM (tn_facts t)")
  case (Inl rj)
  then show ?thesis using assms(1) by (simp add: fire_internal_def)
next
  case (Inr r)
  let ?w = "meanwhile 1 (tn_world t)"
  have w: "settled_once key c ?w" using assms by (simp add: keeps_settled_def settled_turn_def)
  have "tr_conversation_ref r = tn_conversation t"
    using fire_frame [OF Inr] mem_convs.load_ref assms(1)
    by (simp add: settled_turn_def settled_once_def sessionless_def)
  then have "sessionless c (snd (mem_save_transition (wd_convs ?w) r now ulid (Some (tn_facts t))))" for now ulid
    using sessionless_save [of c "wd_convs ?w" r "tn_facts t"] w assms(2) by (simp add: settled_once_def unnamed_def)
  then show ?thesis using Inr w assms(1)
    by (simp add: fire_internal_def Let_def settled_turn_def settled_once_def case_prod_beta split: sum.split)
qed

lemma run_command_settled:
  assumes "settled_turn (options_key (sv_sha256 sv) c) c t" and "unnamed c t"
    and "keeps_settled (options_key (sv_sha256 sv) c) c meanwhile" and "fire sn tr a f = Inr r"
  shows "settled_turn (options_key (sv_sha256 sv) c) c (snd (run_command sv meanwhile r p t))"
proof -
  let ?S = "settled_turn (options_key (sv_sha256 sv) c) c"
  obtain res t1 where ex: "execute sv (tr_command r) p t = (res, t1)" by fastforce
  have t1: "?S t1" using execute_settled [OF assms(1,2), of "tr_command r" p] by (simp add: ex)
  have failed: "?S (compensate sv r t1)" "unnamed c (compensate sv r t1)" if "\<And>o'. res = Inr o' \<Longrightarrow> co_failed o'"
  proof -
    have u1: "unnamed c t1"
      using execute_fails_unnamed [OF ex that] assms(2) execute_follows [of t sv "tr_command r" p]
      by (simp add: unnamed_def follows_def ex)
    obtain x t2 where co: "execute sv (tr_compensation r) Map.empty t1 = (x, t2)" by fastforce
    have t2: "?S t2" using execute_settled [OF t1 u1, of "tr_compensation r" Map.empty] by (simp add: co)
    moreover have "unnamed c t2"
      using execute_facts [OF compensations_name_nothing [OF assms(4)], of sv Map.empty t1] u1
        execute_follows [of t1 sv "tr_compensation r" Map.empty]
      by (simp add: co unnamed_def follows_def)
    ultimately show "?S (compensate sv r t1)" "unnamed c (compensate sv r t1)"
      using t1 u1 by (auto simp: compensate_def co degrade_def settled_turn_def unnamed_def split: sum.split)
  qed
  show ?thesis
  proof (cases "\<forall>o'. res = Inr o' \<longrightarrow> co_failed o'")
    case True
    then have "?S (snd (fire_internal sv meanwhile RECOVERABLE_FAILURE (compensate sv r t1)))"
      using fire_internal_settled [OF _ _ assms(3)] failed by blast
    then show ?thesis using True assms(1)
      by (auto simp: run_command_def ex Let_def gone_wrong_def case_prod_beta split: sum.split)
  next
    case False
    then show ?thesis using t1 assms(1) by (auto simp: run_command_def ex Let_def)
  qed
qed

lemma finish_settled:
  assumes "settled_turn key c t"
  shows "settled_once key c (snd (finish sv r (res, t)))"
proof (cases res)
  case (Inr outcome)
  obtain f t' where f: "flush sv t = (f, t')" by fastforce
  have t': "settled_once key c (tn_world t')"
    using settled_flush [of key c "tn_outbox t" t sv 0] assms by (simp add: flush_def [symmetric] f settled_turn_def)
  have "settled_once key c (tn_world (snd (apply_transfer outcome t')))"
    using t' by (auto simp: apply_transfer_def in_world_def on_convs_def settled_once_def split: option.split sum.split)
  then show ?thesis using Inr t' by (auto simp: finish_def f split: sum.split prod.split)
qed (use assms in \<open>simp add: finish_def settled_turn_def\<close>)

lemma attempt_settled:
  assumes "settled_once (options_key (sv_sha256 sv) c) c w" and "keeps_settled (options_key (sv_sha256 sv) c) c meanwhile"
  shows "settled_once (options_key (sv_sha256 sv) c) c (snd (attempt sv meanwhile e now w))"
proof (cases "fire (mem_load (wd_convs w) (te_conversation e)) (te_trigger e) (te_actor e) (turn_facts sv e now w)")
  case (Inl rj)
  then show ?thesis using assms(1) by (simp add: attempt_def Let_def settled_once_def)
next
  case hit: (Inr r)
  let ?key = "options_key (sv_sha256 sv) c" and ?f = "turn_facts sv e now w"
  let ?ow = "mem_load_ownership (wd_convs w) (te_conversation e) now"
  obtain o1 w1 where own: "ensure_ownership (te_trigger e) ?ow now w = (o1, w1)" by fastforce
  have "settled_once ?key c (snd (ensure_ownership (te_trigger e) ?ow now w))"
    using assms(1) by (auto simp: ensure_ownership_def on_convs_def settled_once_def split: sum.split)
  then have w1: "settled_once ?key c w1" by (simp add: own)
  show ?thesis
  proof (cases o1)
    case (Inl err)
    then show ?thesis using hit w1 by (simp add: attempt_def Let_def own)
  next
    case own': (Inr od)
    obtain ow ds where od: "od = (ow, ds)" by fastforce
    let ?w2 = "meanwhile 0 w1"
    have w2: "settled_once ?key c ?w2" using w1 assms(2) by (simp add: keeps_settled_def)
    obtain saved s where sv: "mem_save_transition (wd_convs ?w2) r now (sv_fresh sv ''ulid'' (wd_seq ?w2)) (Some ?f) = (saved, s)"
      by fastforce
    have "tr_conversation_ref r = te_conversation e"
      using fire_frame [OF hit] mem_convs.load_ref assms(1) by (simp add: settled_once_def sessionless_def)
    then have f: "tr_conversation_ref r = c \<longrightarrow> ?f ''match_session_id'' = None"
      using assms(1) by (auto simp: turn_facts_unnamed settled_once_def sessionless_def)
    let ?w3 = "?w2\<lparr>wd_convs := s, wd_seq := wd_seq ?w2 + 1\<rparr>"
    have w3: "settled_once ?key c ?w3"
      using sessionless_save [of c "wd_convs ?w2" r ?f now "sv_fresh sv ''ulid'' (wd_seq ?w2)"] f w2 sv
      by (simp add: settled_once_def)
    show ?thesis
    proof (cases saved)
      case (Inl cf)
      then show ?thesis using hit own' od w3 by (simp add: attempt_def Let_def own sv)
    next
      case saved: (Inr sn')
      let ?t = "new_turn e now sn' ow ?f ds ?w3"
      obtain ran t where ran: "run_command sv meanwhile r (te_payload e) ?t = (ran, t)" by fastforce
      have "settled_turn ?key c ?t" "unnamed c ?t"
        using w3 f \<open>tr_conversation_ref r = _\<close> by (simp_all add: settled_turn_def unnamed_def new_turn_def keyed_def)
      from run_command_settled [OF this assms(2) hit, of "te_payload e"]
      have "settled_once ?key c (snd (finish sv r (ran, t)))"
        using finish_settled [of ?key c t sv r ran] unfolding ran snd_conv by blast
      then show ?thesis using hit own' od saved
        by (simp add: attempt_def Let_def own sv ran del: One_nat_def)
    qed
  qed
qed

lemma attempts_settled:
  assumes "\<And>k. keeps_settled (options_key (sv_sha256 sv) c) c (meanwhile k)"
  shows "settled_once (options_key (sv_sha256 sv) c) c w \<Longrightarrow>
    settled_once (options_key (sv_sha256 sv) c) c (snd (attempts sv meanwhile e now n err w))"
proof (induction n arbitrary: err w)
  case (Suc n)
  obtain r w' where a: "attempt sv (meanwhile n) e now w = (r, w')" by fastforce
  have "settled_once (options_key (sv_sha256 sv) c) c w'"
    using attempt_settled [OF Suc.prems assms [of n], of e now] by (simp add: a)
  then show ?case using Suc.IH by (simp add: a split: sum.split interruption.split)
qed simp

lemma handle_settled:
  assumes "settled_once (options_key (sv_sha256 sv) c) c w" and "\<And>k. keeps_settled (options_key (sv_sha256 sv) c) c (meanwhile k)"
  shows "settled_once (options_key (sv_sha256 sv) c) c (snd (handle sv meanwhile e now w))"
proof -
  let ?w = "w\<lparr>wd_idem := snd (mem_idem_claim (wd_idem w) (''inbound'', turn_key sv e) now (sv_ttl_seconds sv))\<rparr>"
  have w: "settled_once (options_key (sv_sha256 sv) c) c ?w" using assms(1) by (simp add: settled_once_def)
  show ?thesis
    using attempts_settled [where w = ?w and meanwhile = meanwhile, OF assms(2) w] w
    by (simp add: handle_def Let_def case_prod_beta)
qed

text \<open>(C7) A conversation shows one shortlist, ever. Whatever events are handled one after another with
  whatever answers of the services, the sender is handed at most one message with tutor options for a
  conversation. So a parent who rejects the options, or whose tutor declines, is asked to choose among
  tutors she is not shown: the match session that is to tell two lists apart is set as a fact after the
  facts were saved, and every list has the key of the first.\<close>

theorem one_shortlist_is_ever_shown:
  assumes "mem_convs_inv (wd_convs w)" and "sn_facts (mem_load (wd_convs w) c) ''match_session_id'' = None"
    and "shortlists c w = []" and "\<forall>(sv, meanwhile, e, now)\<in>set xs. sv_sha256 sv = h \<and> meanwhile = (\<lambda>_ _ w. w)"
  shows "length (shortlists c (handle_all xs w)) \<le> 1"
proof -
  have "settled_once (options_key h c) c w"
    using assms by (simp add: settled_once_def sessionless_def shown_once_def shortlists_def)
  then have "settled_once (options_key h c) c (handle_all xs w)"
    using assms(4)
  proof (induction xs arbitrary: w)
    case (Cons x xs)
    obtain sv meanwhile e now where x: "x = (sv, meanwhile, e, now)" by (cases x) auto
    have "keeps_settled (options_key h c) c (\<lambda>_ w. w)" by (simp add: keeps_settled_def)
    then have "settled_once (options_key h c) c (snd (handle sv meanwhile e now w))"
      using handle_settled [of sv c w meanwhile e now] Cons.prems x by auto
    then show ?case using Cons x by (auto simp: handle_all_def)
  qed (simp add: handle_all_def)
  then show ?thesis by (simp add: settled_once_def shown_once_def shortlists_def Let_def)
qed

section \<open>A message that picks a slot holds nothing\<close>

text \<open>(C11) A parent cannot agree to a slot. Whatever she writes or taps, in whatever state: if it is routed to
  SLOT_AGREED, the payload has no slot in it, and placing the hold fails with
  \<open>slot_or_tutor_missing\<close> and changes nothing; the turn then ends in FAILED_RECOVERABLE. Only the lifecycle runner, which
  makes its own payload, ever holds a slot.\<close>

theorem routed_agreement_holds_nothing:
  "execute sv PLACE_SLOT_HOLD (rt_payload (route txt button sn a)) t = (Inr (gone_wrong ''slot_or_tutor_missing''), t)"
proof -
  have "dom (rt_payload (route txt button sn a)) \<subseteq> {''text'', ''button_id'', ''ordinal''}"
    using route_well [of sn a "txt" button] by (auto simp: routed_well_def split: option.splits)
  then have "rt_payload (route txt button sn a) ''slot'' = None" by (auto simp: dom_def)
  then show ?thesis by (simp add: place_hold_def Let_def give_def)
qed

section \<open>Whom the confirmation of a hold asks\<close>

lemma and_do_Inr: "and_do m k t = (Inr y, t'') \<Longrightarrow> \<exists>x t'. m t = (Inr x, t') \<and> k x t' = (Inr y, t'')"
  by (auto simp: and_do_def split: prod.splits sum.splits)

lemma gone_wrong_fails: "co_failed (gone_wrong why)"
  by (simp add: gone_wrong_def)

lemma ensure_demo_saves:
  assumes "ensure_demo sv tutor mode t = (Inr u, t')"
  shows "\<exists>d. wd_demos (tn_world t') = save_demo (wd_demos (tn_world t)) d \<and> dm_tutor_ref d = Some tutor \<and>
    (case own_demo t of
       None \<Rightarrow> dm_slot d = None \<and> tn_facts t' ''demo_id'' = Some (FStr (dm_demo_id d))
     | Some e \<Rightarrow> dm_demo_id d = dm_demo_id e \<and> dm_attendees d = dm_attendees e \<and> dm_slot d = dm_slot e)"
  using assms
  by (auto simp: ensure_demo_def and_do_def fresh_def change_def in_world_def set_fact_def throw_def wd_demos_def on_demos_def
      new_demo_def make_demo_def validated_def split: option.splits if_splits sum.splits)

lemma place_hold_saves:
  assumes "execute sv PLACE_SLOT_HOLD p t = (Inr o', t')" and "\<not> co_failed o'"
  shows "\<exists>d. wd_demos (tn_world t') = save_demo (wd_demos (tn_world t)) d \<and>
    dm_tutor_ref d = Some (text_fact (tn_facts t) ''tutor_ref'') \<and>
    (case own_demo t of
       None \<Rightarrow> dm_slot d = None \<and> tn_facts t' ''demo_id'' = Some (FStr (dm_demo_id d))
     | Some e \<Rightarrow> dm_demo_id d = dm_demo_id e \<and> dm_attendees d = dm_attendees e \<and> dm_slot d = dm_slot e)"
proof -
  let ?tutor = "text_fact (tn_facts t) ''tutor_ref''"
  have run: "place_hold sv p t = (Inr o', t')" using assms(1) by simp
  obtain slot where slot: "p ''slot'' = Some (PSlot slot)"
    using assms by (auto simp: place_hold_def Let_def give_def gone_wrong_def split: option.splits payload_value.splits)
  define mode where "mode = (case Option.bind (own_request t) (nd_mode \<circ> dr_requirement) of None \<Rightarrow> ONLINE | Some m \<Rightarrow> m)"
  have "and_do (fresh sv ''hold'') (\<lambda>hid.
        and_do (on_sched (sched_hold hid (tn_conversation t) ?tutor slot mode DEFAULT_HOLD_TTL (tn_now t))) (\<lambda>r.
          case r of
            Inl _ \<Rightarrow> throw ''ValidationError''
          | Inr None \<Rightarrow> give (gone_wrong ''slot_taken'')
          | Inr (Some h) \<Rightarrow>
              and_do (ensure_demo sv ?tutor mode) (\<lambda>_.
              and_do (change (set_fact ''hold_expired'' (FBool False) \<circ> set_fact ''hold_id'' (FStr (hold_id h)))) (\<lambda>_.
              and_do (emit_event sv ''demo.slot_held'' [(''hold_id'', FStr (hold_id h))]) (\<lambda>_.
                give went_well))))) t = (Inr o', t')"
    using run slot assms(2) unfolding place_hold_def Let_def mode_def
    by (auto simp: give_def gone_wrong_fails split: if_splits)
  then obtain hid t1 r t2 where t1: "fresh sv ''hold'' t = (Inr hid, t1)"
    and t2: "on_sched (sched_hold hid (tn_conversation t) ?tutor slot mode DEFAULT_HOLD_TTL (tn_now t)) t1 = (Inr r, t2)"
    and rest: "(case r of
            Inl _ \<Rightarrow> throw ''ValidationError''
          | Inr None \<Rightarrow> give (gone_wrong ''slot_taken'')
          | Inr (Some h) \<Rightarrow>
              and_do (ensure_demo sv ?tutor mode) (\<lambda>_.
              and_do (change (set_fact ''hold_expired'' (FBool False) \<circ> set_fact ''hold_id'' (FStr (hold_id h)))) (\<lambda>_.
              and_do (emit_event sv ''demo.slot_held'' [(''hold_id'', FStr (hold_id h))]) (\<lambda>_.
                give went_well)))) t2 = (Inr o', t')"
    by (blast dest!: and_do_Inr)
  have own: "wd_demos (tn_world t2) = wd_demos (tn_world t)" "own_demo t2 = own_demo t"
    using t1 t2
    by (auto simp: fresh_def on_sched_def sched_hold_def in_world_def own_demo_def wd_demos_def split: prod.splits sum.splits)
  obtain h where h: "r = Inr (Some h)"
    using rest assms(2) by (auto simp: throw_def give_def gone_wrong_def split: sum.splits option.splits)
  then obtain u t3 where t3: "ensure_demo sv ?tutor mode t2 = (Inr u, t3)"
    and more: "and_do (change (set_fact ''hold_expired'' (FBool False) \<circ> set_fact ''hold_id'' (FStr (hold_id h)))) (\<lambda>_.
              and_do (emit_event sv ''demo.slot_held'' [(''hold_id'', FStr (hold_id h))]) (\<lambda>_. give went_well)) t3 = (Inr o', t')"
    using rest and_do_Inr [where m = "ensure_demo sv ?tutor mode" and t = t2] by fastforce
  obtain x t4 where t4: "(change (set_fact ''hold_expired'' (FBool False) \<circ> set_fact ''hold_id'' (FStr (hold_id h)))) t3 = (Inr x, t4)"
    and t5: "and_do (emit_event sv ''demo.slot_held'' [(''hold_id'', FStr (hold_id h))]) (\<lambda>_. give went_well) t4 = (Inr o', t')"
    using and_do_Inr [OF more] by blast
  have last: "wd_demos (tn_world t') = wd_demos (tn_world t3)" "tn_facts t' ''demo_id'' = tn_facts t3 ''demo_id''"
    using t4 t5
    by (auto simp: change_def set_fact_def emit_event_def and_do_def fresh_def in_world_def give_def wd_demos_def)
  show ?thesis using ensure_demo_saves [OF t3] unfolding last own .
qed

lemma load_saved_demo [simp]: "load_demo (save_demo s d) (dm_demo_id d) = Some d"
  by (simp add: load_demo_def save_demo_def)

text \<open>(C13) The first booking asks no tutor. When the hold of a conversation without a demo has been placed, and
  the confirmation of that hold is then asked for, nothing is queued for the tutor and no expiry is scheduled: the demo just
  made has no time, the time is set by the booking that follows the tutor's acceptance, and the request needs it.
  What is recorded is that the template was not available.\<close>

theorem first_booking_asks_no_tutor:
  assumes "own_demo t = None" and "execute sv PLACE_SLOT_HOLD p t = (Inr o', t')" and "\<not> co_failed o'"
    and "own_demo t2 = load_demo (wd_demos (tn_world t')) (text_fact (tn_facts t') ''demo_id'')"
    and "text_fact (tn_facts t2) ''hold_id'' \<noteq> ''''"
  shows "own_demo t2 \<noteq> None \<and>
    execute sv REQUEST_TUTOR_CONFIRMATION q t2 = (Inr went_well, degrade ''tutor_confirmation_template_unavailable'' t2)"
proof -
  obtain d where d: "wd_demos (tn_world t') = save_demo (wd_demos (tn_world t)) d" "dm_slot d = None"
      "tn_facts t' ''demo_id'' = Some (FStr (dm_demo_id d))"
    using place_hold_saves [OF assms(2,3)] assms(1) by auto
  then have "own_demo t2 = Some d" using assms(4) by (simp add: text_fact_def)
  then show ?thesis using assms(5) d(2)
    by (simp add: request_tutor_confirmation_def and_do_def change_def give_def)
qed

text \<open>(C12) The tutor who declined is asked again. When a demo exists, placing a hold with another tutor
  renames its tutor but not its attendees. So the request for confirmation that comes next, with the hold in place, the demo
  scheduled before and a template approved, queues exactly one message, for the tutor the demo was made for, and
  in no case does it queue a message for anyone else, whoever was chosen since.\<close>

theorem new_tutor_is_not_the_one_asked:
  assumes "own_demo t = Some d" and "attendee d PARTY_TUTOR = Some a"
    and "execute sv PLACE_SLOT_HOLD p t = (Inr o', t')" and "\<not> co_failed o'"
    and "own_demo t2 = load_demo (wd_demos (tn_world t')) (dm_demo_id d)"
  shows "\<exists>d2. own_demo t2 = Some d2 \<and> dm_tutor_ref d2 = Some (text_fact (tn_facts t) ''tutor_ref'') \<and>
    (\<exists>ms. tn_outbox (snd (execute sv REQUEST_TUTOR_CONFIRMATION q t2)) = tn_outbox t2 @ ms \<and>
      list_all (\<lambda>m. om_recipient m = da_ref a) ms \<and>
      (\<forall>binding. text_fact (tn_facts t2) ''hold_id'' \<noteq> '''' \<and> dm_slot d \<noteq> None \<and> vo_tutor_template sv d2 = Some binding \<and>
         message_ok (to_tutor sv t2 d2 a binding ''tutor_req'') \<longrightarrow>
         fst (execute sv REQUEST_TUTOR_CONFIRMATION q t2) = Inr went_well \<and> ms = [to_tutor sv t2 d2 a binding ''tutor_req'']))"
proof -
  obtain d' where d': "wd_demos (tn_world t') = save_demo (wd_demos (tn_world t)) d'"
      "dm_tutor_ref d' = Some (text_fact (tn_facts t) ''tutor_ref'')" "dm_demo_id d' = dm_demo_id d"
      "dm_attendees d' = dm_attendees d" "dm_slot d' = dm_slot d"
    using place_hold_saves [OF assms(3,4)] assms(1) by auto
  then have t2: "own_demo t2 = Some d'" using assms(5) load_saved_demo [of "wd_demos (tn_world t)" d'] by simp
  moreover have "attendee d' PARTY_TUTOR = Some a" using assms(2) d'(4) by (simp add: attendee_def)
  ultimately show ?thesis using d'(2,5)
    by (auto simp: request_tutor_confirmation_def and_do_def change_def give_def degrade_def queue_def throw_def
        make_message_def validated_def schedule_job_def in_world_def to_tutor_def split: option.split sum.split if_splits)
qed

section \<open>Concrete instances\<close>

text \<open>Two rounds of options: shown, rejected, matched again, to be shown again.\<close>

definition two_rounds :: "unit delivery list" where
  "two_rounds = [sample_turn ''e1'' MATCH_SUCCEEDED SYSTEM 1, sample_turn ''e2'' OPTIONS_PRESENTED SYSTEM 2,
     sample_turn ''e3'' OPTIONS_REJECTED USER 3, sample_turn ''e4'' MATCH_SUCCEEDED SYSTEM 4]"

theorem one_shortlist_is_ever_shown_witness:
  "length (shortlists ''conv'' (handle_all two_rounds (sample_world TUTOR_MATCH_REQUESTED))) \<le> 1"
proof (rule one_shortlist_is_ever_shown)
  show "mem_convs_inv (wd_convs (sample_world TUTOR_MATCH_REQUESTED))"
    "sn_facts (mem_load (wd_convs (sample_world TUTOR_MATCH_REQUESTED)) ''conv'') ''match_session_id'' = None"
    by (simp_all add: sample_world_def mem_convs_inv_def mem_load_def mem_convs_init_def blank_snapshot_def)
  show "shortlists ''conv'' (sample_world TUTOR_MATCH_REQUESTED) = []"
    by (simp add: shortlists_def sample_world_def empty_sending_def)
  show "\<forall>(sv, meanwhile, e, now)\<in>set two_rounds. sv_sha256 sv = id \<and> meanwhile = (\<lambda>_ _ w. w)"
    by (simp add: two_rounds_def sample_turn_def sample_services_def)
qed

definition request_template :: template_binding where
  "request_template = \<lparr>template_name = ''tutor_request'', template_language = ''en'', template_variables = []\<rparr>"

definition asking_services :: "unit services" where
  "asking_services = sample_services\<lparr>vo_tutor_template := (\<lambda>_. Some request_template)\<rparr>"

definition agreed :: payload where
  "agreed = [''slot'' \<mapsto> PSlot evening_slot]"

definition picking :: "mem_demos \<Rightarrow> ref \<Rightarrow> unit turn" where
  "picking ds tutor =
     \<lparr>tn_conversation = ''conv'', tn_trace = ''tr'', tn_now = 0, tn_snapshot = blank_snapshot ''conv'',
      tn_ownership = unowned ''conv'' 0, tn_trigger = Some SLOT_AGREED, tn_causation = None,
      tn_facts = [''tutor_ref'' \<mapsto> FStr tutor, ''tutor_in_snapshot'' \<mapsto> FBool True], tn_outbox = [], tn_degraded = [],
      tn_world = (sample_world NEGOTIATING_SLOT)\<lparr>wd_sched := empty_world\<lparr>sw_demos := ds\<rparr>\<rparr>\<rparr>"

lemma picked:
  "(case place_hold asking_services agreed (picking no_demos ''tut_a'') of
      (Inr o', t') \<Rightarrow> \<not> co_failed o' \<and> text_fact (tn_facts t') ''hold_id'' \<noteq> '''' \<and>
        own_demo t' = load_demo (wd_demos (tn_world t')) (text_fact (tn_facts t') ''demo_id'')
    | _ \<Rightarrow> False)"
  "(case place_hold asking_services agreed (picking (save_demo no_demos sample_demo) ''tut_b'') of
      (Inr o', t') \<Rightarrow> \<not> co_failed o' \<and> own_demo t' = load_demo (wd_demos (tn_world t')) (dm_demo_id sample_demo) \<and>
        text_fact (tn_facts t') ''hold_id'' \<noteq> '''' \<and> tn_outbox t' = [] \<and>
        (case own_demo t' of
           None \<Rightarrow> False
         | Some d2 \<Rightarrow> message_ok (to_tutor asking_services t' d2 (sample_attendee PARTY_TUTOR ''tut_a'') request_template ''tutor_req''))
    | _ \<Rightarrow> False)"
  by code_simp+

theorem first_booking_asks_no_tutor_witness:
  "\<exists>t' r. execute asking_services PLACE_SLOT_HOLD agreed (picking no_demos ''tut_a'') = (r, t') \<and>
     tn_outbox (snd (execute asking_services REQUEST_TUTOR_CONFIRMATION Map.empty t')) = tn_outbox t'"
proof -
  obtain o' t' where p: "execute asking_services PLACE_SLOT_HOLD agreed (picking no_demos ''tut_a'') = (Inr o', t')"
    "\<not> co_failed o'" "text_fact (tn_facts t') ''hold_id'' \<noteq> ''''"
    "own_demo t' = load_demo (wd_demos (tn_world t')) (text_fact (tn_facts t') ''demo_id'')"
    using picked(1) by (auto split: prod.splits sum.splits)
  have "own_demo (picking no_demos ''tut_a'') = None" by code_simp
  from first_booking_asks_no_tutor [OF this p(1,2,4,3), of Map.empty] p(1)
  show ?thesis by (auto simp: degrade_def)
qed

theorem new_tutor_is_not_the_one_asked_witness:
  "\<exists>t' r. execute asking_services PLACE_SLOT_HOLD agreed (picking (save_demo no_demos sample_demo) ''tut_b'') = (r, t') \<and>
     map_option dm_tutor_ref (own_demo t') = Some (Some ''tut_b'') \<and>
     map om_recipient (tn_outbox (snd (execute asking_services REQUEST_TUTOR_CONFIRMATION Map.empty t'))) = [''tut_a'']"
proof -
  let ?t = "picking (save_demo no_demos sample_demo) ''tut_b''" and ?a = "sample_attendee PARTY_TUTOR ''tut_a''"
  obtain o' t' where p: "execute asking_services PLACE_SLOT_HOLD agreed ?t = (Inr o', t')" "\<not> co_failed o'"
    "own_demo t' = load_demo (wd_demos (tn_world t')) (dm_demo_id sample_demo)"
    "text_fact (tn_facts t') ''hold_id'' \<noteq> ''''" "tn_outbox t' = []"
    "(case own_demo t' of None \<Rightarrow> False | Some d2 \<Rightarrow> message_ok (to_tutor asking_services t' d2 ?a request_template ''tutor_req''))"
    using picked(2) by (auto split: prod.splits sum.splits)
  have t: "own_demo ?t = Some sample_demo" "attendee sample_demo PARTY_TUTOR = Some ?a" "dm_slot sample_demo \<noteq> None"
    by code_simp+
  obtain d2 ms where d2: "own_demo t' = Some d2" "dm_tutor_ref d2 = Some (text_fact (tn_facts ?t) ''tutor_ref'')"
      "tn_outbox (snd (execute asking_services REQUEST_TUTOR_CONFIRMATION Map.empty t')) = tn_outbox t' @ ms"
      "text_fact (tn_facts t') ''hold_id'' \<noteq> '''' \<and> dm_slot sample_demo \<noteq> None \<and>
         vo_tutor_template asking_services d2 = Some request_template \<and>
         message_ok (to_tutor asking_services t' d2 ?a request_template ''tutor_req'') \<longrightarrow>
       ms = [to_tutor asking_services t' d2 ?a request_template ''tutor_req'']"
    using new_tutor_is_not_the_one_asked [OF t(1,2) p(1,2,3), of Map.empty] by blast
  have "vo_tutor_template asking_services d2 = Some request_template" by (simp add: asking_services_def)
  then have "ms = [to_tutor asking_services t' d2 ?a request_template ''tutor_req'']" using d2 p t(3) by simp
  moreover have "text_fact (tn_facts ?t) ''tutor_ref'' = ''tut_b''" by (simp add: picking_def text_fact_def)
  ultimately have "map om_recipient (tn_outbox (snd (execute asking_services REQUEST_TUTOR_CONFIRMATION Map.empty t'))) = [''tut_a'']"
    "map_option dm_tutor_ref (own_demo t') = Some (Some ''tut_b'')"
    using p(5) d2(1-3) by (simp_all add: to_tutor_def sample_attendee_def del: execute.simps)
  then show ?thesis using p(1) by (intro exI [of _ t'] exI [of _ "Inr o'"] conjI)
qed

end
