(* ===== verification/Tools.thy ===== *)
theory Tools
  imports RateLimit Ownership PaidTransition DemoStates
begin

text \<open>
  The closed tool registry (orchestration/tools.py) and the pipeline every proposed call passes
  (orchestration/authorisation.py). The limiter is an argument, as in the code; its check is the only
  point where the pipeline suspends, and nothing before it changes the pipeline. Sets of states and actors are
  lists, a timeout is a duration, and a JSON value that is neither a string, an integer nor a boolean is
  kept as its text and its truth.
\<close>

section \<open>Tools\<close>

datatype side_effect = READ_ONLY | LOCAL_WRITE | CUSTOMER_VISIBLE | EXTERNAL_BOOKING | FINANCIAL

fun side_effect_value :: "side_effect \<Rightarrow> string" where
  "side_effect_value READ_ONLY = ''read_only''"
| "side_effect_value LOCAL_WRITE = ''local_write''"
| "side_effect_value CUSTOMER_VISIBLE = ''customer_visible''"
| "side_effect_value EXTERNAL_BOOKING = ''external_booking''"
| "side_effect_value FINANCIAL = ''financial''"

definition EXCLUSIVE :: "side_effect list" where
  "EXCLUSIVE = [EXTERNAL_BOOKING, FINANCIAL]"

definition FORBIDDEN_TOOL_NAMES :: "string list" where
  "FORBIDDEN_TOOL_NAMES = [''execute_sql'', ''run_sql'', ''query_database'', ''http_request'', ''fetch_url'', ''browse'',
     ''run_shell'', ''execute_code'', ''eval'', ''read_secret'', ''get_credentials'', ''write_row'', ''update_table'']"

datatype refusal =
    UNKNOWN_TOOL | SCHEMA_INVALID | NOT_OWNER | WRONG_STATE | TOOL_ACTOR_NOT_PERMITTED | POLICY_DENIED | RATE_LIMITED
  | ALREADY_EXECUTED | CONCURRENT_EXCLUSIVE | RESULT_INVALID

datatype refusal_detail = RD_text string | RD_names string "string list"

datatype tool_error = ToolRefused string refusal refusal_detail | LimiterFailed py_error

text \<open>A property's rule in the schemas the registry uses.\<close>

record schema_rule =
  sr_type :: string
  sr_max_length :: "int option"
  sr_minimum :: "int option"
  sr_maximum :: "int option"
  sr_enum :: "string list option"

record schema =
  sc_additional :: bool
  sc_required :: "string list"
  sc_properties :: "(string, schema_rule) odict"

record tool_spec =
  tl_name :: string
  tl_input :: schema
  tl_states :: "demo_state list"
  tl_actors :: "actor list"
  tl_side_effect :: side_effect
  tl_timeout :: duration
  tl_idempotent :: bool
  tl_audit_fields :: "string list"
  tl_result :: "schema option"

definition tool_exclusive :: "tool_spec \<Rightarrow> bool" where
  "tool_exclusive t \<longleftrightarrow> tl_side_effect t \<in> set EXCLUSIVE"

definition model_facing :: "tool_spec \<Rightarrow> bool" where
  "model_facing t \<longleftrightarrow> tl_side_effect t = READ_ONLY \<or> tl_side_effect t = LOCAL_WRITE"

definition tool_schema :: "(string, schema_rule) odict \<Rightarrow> schema" where
  "tool_schema properties = \<lparr>sc_additional = False, sc_required = dict_keys properties, sc_properties = properties\<rparr>"

definition text_rule :: "int option \<Rightarrow> string list option \<Rightarrow> schema_rule" where
  "text_rule longest choices =
     \<lparr>sr_type = ''string'', sr_max_length = longest, sr_minimum = None, sr_maximum = None, sr_enum = choices\<rparr>"

definition tool_STRING :: schema_rule where
  "tool_STRING = text_rule (Some 256) None"

definition tool_ORDINAL :: schema_rule where
  "tool_ORDINAL = \<lparr>sr_type = ''integer'', sr_max_length = None, sr_minimum = Some 1, sr_maximum = Some 3, sr_enum = None\<rparr>"

section \<open>The registry\<close>

definition MODEL_TOOLS :: "tool_spec list" where
  "MODEL_TOOLS =
     [\<lparr>tl_name = ''record_requirement'',
       tl_input = tool_schema
         [(''field'', text_rule None (Some [''service'', ''board'', ''student_class'', ''subject'', ''mode'', ''region'',
             ''locality'', ''timezone''])), (''value'', tool_STRING)],
       tl_states = [COLLECTING_REQUIREMENTS], tl_actors = [USER, SYSTEM], tl_side_effect = LOCAL_WRITE,
       tl_timeout = seconds 5, tl_idempotent = True, tl_audit_fields = [''field''], tl_result = None\<rparr>,
      \<lparr>tl_name = ''select_tutor_option'', tl_input = tool_schema [(''ordinal'', tool_ORDINAL)],
       tl_states = [AWAITING_TUTOR_SELECTION], tl_actors = [USER], tl_side_effect = LOCAL_WRITE,
       tl_timeout = seconds 5, tl_idempotent = True, tl_audit_fields = [''ordinal''], tl_result = None\<rparr>,
      \<lparr>tl_name = ''request_alternative_tutors'',
       tl_input = \<lparr>sc_additional = False, sc_required = [], sc_properties = []\<rparr>,
       tl_states = [AWAITING_TUTOR_SELECTION], tl_actors = [USER], tl_side_effect = LOCAL_WRITE,
       tl_timeout = seconds 5, tl_idempotent = True, tl_audit_fields = [], tl_result = None\<rparr>,
      \<lparr>tl_name = ''propose_time'', tl_input = tool_schema [(''phrase'', text_rule (Some 120) None)],
       tl_states = [TUTOR_SELECTED, NEGOTIATING_SLOT, SCHEDULED], tl_actors = [USER], tl_side_effect = LOCAL_WRITE,
       tl_timeout = seconds 5, tl_idempotent = True, tl_audit_fields = [''phrase''], tl_result = None\<rparr>,
      \<lparr>tl_name = ''request_human'', tl_input = tool_schema [(''reason'', text_rule (Some 200) None)],
       tl_states = [], tl_actors = [USER, SYSTEM], tl_side_effect = LOCAL_WRITE,
       tl_timeout = seconds 5, tl_idempotent = True, tl_audit_fields = [''reason''], tl_result = None\<rparr>]"

definition CALLER_TOOLS :: "tool_spec list" where
  "CALLER_TOOLS =
     [\<lparr>tl_name = ''hold_slot'', tl_input = tool_schema [(''tutor_ref'', tool_STRING), (''starts_at'', tool_STRING)],
       tl_states = [NEGOTIATING_SLOT, TUTOR_SELECTED], tl_actors = [SYSTEM], tl_side_effect = EXTERNAL_BOOKING,
       tl_timeout = seconds 10, tl_idempotent = True, tl_audit_fields = [''tutor_ref'', ''starts_at''], tl_result = None\<rparr>,
      \<lparr>tl_name = ''create_calendar_event'', tl_input = tool_schema [(''hold_id'', tool_STRING)],
       tl_states = [CALENDAR_CREATION_PENDING], tl_actors = [SYSTEM], tl_side_effect = EXTERNAL_BOOKING,
       tl_timeout = seconds 25, tl_idempotent = True, tl_audit_fields = [''hold_id''],
       tl_result = Some (tool_schema [(''event_id'', tool_STRING), (''meet_url'', text_rule None None)])\<rparr>,
      \<lparr>tl_name = ''commit_discount'', tl_input = tool_schema [(''demo_id'', tool_STRING)],
       tl_states = [POST_DEMO_ANALYSIS, FOLLOWUP_PENDING], tl_actors = [SYSTEM, OPERATOR], tl_side_effect = FINANCIAL,
       tl_timeout = seconds 10, tl_idempotent = True, tl_audit_fields = [''demo_id''], tl_result = None\<rparr>,
      \<lparr>tl_name = ''create_payment_order'', tl_input = tool_schema [(''demo_id'', tool_STRING)],
       tl_states = [FOLLOWUP_PENDING, POST_DEMO_ANALYSIS], tl_actors = [SYSTEM], tl_side_effect = FINANCIAL,
       tl_timeout = seconds 20, tl_idempotent = True, tl_audit_fields = [''demo_id''], tl_result = None\<rparr>,
      \<lparr>tl_name = ''activate_subscription'', tl_input = tool_schema [(''order_ref'', tool_STRING)],
       tl_states = [PAYMENT_CONFIRMED, SUBSCRIPTION_ACTIVATING], tl_actors = [SYSTEM], tl_side_effect = FINANCIAL,
       tl_timeout = seconds 25, tl_idempotent = True, tl_audit_fields = [''order_ref''], tl_result = None\<rparr>,
      \<lparr>tl_name = ''transfer_ownership'',
       tl_input = tool_schema [(''to'', text_rule None (Some [''onboarding_agent'', ''human_operator'', ''released'']))],
       tl_states = [], tl_actors = [SYSTEM, OPERATOR], tl_side_effect = EXTERNAL_BOOKING,
       tl_timeout = seconds 10, tl_idempotent = True, tl_audit_fields = [''to''], tl_result = None\<rparr>,
      \<lparr>tl_name = ''send_message'', tl_input = tool_schema [(''kind'', tool_STRING)],
       tl_states = [], tl_actors = [SYSTEM], tl_side_effect = CUSTOMER_VISIBLE,
       tl_timeout = seconds 15, tl_idempotent = True, tl_audit_fields = [''kind''], tl_result = None\<rparr>]"

definition TOOLS :: "tool_spec list" where
  "TOOLS = MODEL_TOOLS @ CALLER_TOOLS"

text \<open>\<open>_BY_NAME\<close> is built by a comprehension: of two tools with one name the later would win.\<close>

definition tool_get :: "string \<Rightarrow> tool_error + tool_spec" where
  "tool_get name =
     (case find (\<lambda>t. tl_name t = name) (rev TOOLS) of
        None \<Rightarrow> Inl (ToolRefused name UNKNOWN_TOOL (RD_text ''''))
      | Some t \<Rightarrow> Inr t)"

definition model_facing_tools :: "tool_spec list" where
  "model_facing_tools = filter model_facing TOOLS"

text \<open>\<open>registry_invariants\<close>; a problem is its tool (or the whole registry) and what is wrong.\<close>

datatype registry_problem =
    ForbiddenTools "string list" | OpenSchema string | NotIdempotent string | UserMayTrigger string string
  | ModelFacing string string | BadTimeout string | DuplicateNames

definition tool_problems :: "tool_spec \<Rightarrow> registry_problem list" where
  "tool_problems t =
     (if sc_additional (tl_input t) then [OpenSchema (tl_name t)] else []) @
     (if tl_side_effect t \<noteq> READ_ONLY \<and> \<not> tl_idempotent t then [NotIdempotent (tl_name t)] else []) @
     (if tl_side_effect t = FINANCIAL \<or> tl_side_effect t = EXTERNAL_BOOKING
      then (if USER \<in> set (tl_actors t) then [UserMayTrigger (tl_name t) (side_effect_value (tl_side_effect t))] else []) @
           (if model_facing t then [ModelFacing (tl_name t) (side_effect_value (tl_side_effect t))] else [])
      else []) @
     (if tl_timeout t \<le> 0 then [BadTimeout (tl_name t)] else [])"

definition registry_invariants :: "tool_spec list \<Rightarrow> registry_problem list" where
  "registry_invariants tools =
     (let forbidden = filter (\<lambda>n. n \<in> set FORBIDDEN_TOOL_NAMES) (map tl_name tools)
      in (if forbidden \<noteq> [] then [ForbiddenTools (sort (remdups forbidden))] else [])) @
     concat (map tool_problems tools) @
     (if distinct (map tl_name tools) then [] else [DuplicateNames])"

section \<open>Proposals and the pipeline\<close>

text \<open>Any other value carries its text and its truth.\<close>

datatype tool_argument = TStr string | TInt int | TBool bool | TOther string bool

text \<open>\<open>str()\<close> of an argument.\<close>

definition show_signed :: "int \<Rightarrow> string" where
  "show_signed i = (if i < 0 then CHR ''-'' # show_nat (nat (- i)) else show_nat (nat i))"

fun argument_text :: "tool_argument \<Rightarrow> string" where
  "argument_text (TStr s) = s"
| "argument_text (TInt i) = show_signed i"
| "argument_text (TBool b) = (if b then ''True'' else ''False'')"
| "argument_text (TOther s b) = s"

record proposal =
  po_tool :: string
  po_arguments :: "(string, tool_argument) odict"
  po_actor :: actor
  po_conversation :: ref
  po_by_model :: bool

record authorised =
  au_spec :: tool_spec
  au_arguments :: "(string, tool_argument) odict"
  au_proposal :: proposal
  au_key :: string
  au_audit :: "(string \<times> tool_argument option) list"

definition TOOL_LIMITS :: "side_effect \<Rightarrow> limit_scope \<times> int \<times> int" where
  "TOOL_LIMITS s =
     (case s of READ_ONLY \<Rightarrow> (LS_CONVERSATION, 120, 3600) | LOCAL_WRITE \<Rightarrow> (LS_CONVERSATION, 60, 3600)
      | CUSTOMER_VISIBLE \<Rightarrow> (LS_WHATSAPP_SEND, 20, 3600) | EXTERNAL_BOOKING \<Rightarrow> (LS_CONVERSATION, 12, 3600)
      | FINANCIAL \<Rightarrow> (LS_PAYMENT_ORDER, 5, 3600))"

type_synonym 'l limiter = "'l \<Rightarrow> instant \<Rightarrow> limit_scope \<Rightarrow> string \<Rightarrow> int \<Rightarrow> int \<Rightarrow> (py_error + verdict) \<times> 'l"

record 'l pipeline =
  pl_limiter :: 'l
  pl_in_flight :: "(ref \<times> string) set"

text \<open>The first failing rule for one argument. A boolean is an \<open>int\<close> in Python and excluded by name; a choice
  is compared as it is, so only a string can be one.\<close>

definition argument_problem :: "schema_rule \<Rightarrow> string \<Rightarrow> tool_argument \<Rightarrow> string option" where
  "argument_problem rule name v =
     (let typed =
        (if sr_type rule = ''string'' then
           (case v of
              TStr s \<Rightarrow> if int (length s) > (case sr_max_length rule of None \<Rightarrow> 4096 | Some n \<Rightarrow> n)
                then Some (name @ '': too long'') else None
            | _ \<Rightarrow> Some (name @ '': not a string''))
         else if sr_type rule = ''integer'' then
           (case v of
              TInt i \<Rightarrow> if (case sr_minimum rule of None \<Rightarrow> - (2 ^ 31) | Some n \<Rightarrow> n) \<le> i \<and>
                  i \<le> (case sr_maximum rule of None \<Rightarrow> 2 ^ 31 | Some n \<Rightarrow> n) then None else Some (name @ '': out of range'')
            | _ \<Rightarrow> Some (name @ '': not an integer''))
         else None)
      in case typed of
           Some problem \<Rightarrow> Some problem
         | None \<Rightarrow> (case sr_enum rule of
             None \<Rightarrow> None
           | Some choices \<Rightarrow> if \<exists>s\<in>set choices. v = TStr s then None else Some (name @ '': not permitted'')))"

fun arguments_problem :: "(string, schema_rule) odict \<Rightarrow> (string, tool_argument) odict \<Rightarrow> string option" where
  "arguments_problem properties [] = None"
| "arguments_problem properties ((name, v) # args) =
     (case argument_problem (the (dict_get properties name)) name v of
        Some problem \<Rightarrow> Some problem
      | None \<Rightarrow> arguments_problem properties args)"

definition check_schema :: "tool_spec \<Rightarrow> (string, tool_argument) odict \<Rightarrow> tool_error + unit" where
  "check_schema spec args =
     (let properties = sc_properties (tl_input spec);
          extra = filter (\<lambda>n. n \<notin> set (dict_keys properties)) (dict_keys args);
          missing = filter (\<lambda>n. n \<notin> set (dict_keys args)) (sc_required (tl_input spec))
      in if extra \<noteq> [] then Inl (ToolRefused (tl_name spec) SCHEMA_INVALID (RD_names ''unexpected='' (sort (remdups extra))))
         else if missing \<noteq> [] then Inl (ToolRefused (tl_name spec) SCHEMA_INVALID (RD_names ''missing='' missing))
         else case arguments_problem properties args of
                Some problem \<Rightarrow> Inl (ToolRefused (tl_name spec) SCHEMA_INVALID (RD_text problem))
              | None \<Rightarrow> Inr ())"

definition key_parts :: "proposal \<Rightarrow> string list" where
  "key_parts p =
     [po_conversation p, po_tool p] @
     map (\<lambda>k. k @ ''='' @ argument_text (the (dict_get (po_arguments p) k))) (sort (dict_keys (po_arguments p)))"

definition key_for :: "(string \<Rightarrow> string) \<Rightarrow> proposal \<Rightarrow> string" where
  "key_for sha256 p = idempotency_key sha256 (map Some (key_parts p))"

text \<open>Stages 1 to 5, which read only.\<close>

definition static_stages ::
  "tool_spec \<Rightarrow> proposal \<Rightarrow> demo_state \<Rightarrow> ownership \<Rightarrow> instant \<Rightarrow> string option \<Rightarrow> tool_error + unit" where
  "static_stages spec p s ow now policy_refusal =
     (case check_schema spec (po_arguments p) of
        Inl err \<Rightarrow> Inl err
      | Inr _ \<Rightarrow>
          if \<not> held_by_us ow now then Inl (ToolRefused (tl_name spec) NOT_OWNER (RD_text (owner_value (ow_owner ow))))
          else if tl_states spec \<noteq> [] \<and> s \<notin> set (tl_states spec)
            then Inl (ToolRefused (tl_name spec) WRONG_STATE (RD_text (state_value s)))
          else if tl_side_effect spec = CUSTOMER_VISIBLE \<and> \<not> can_send_automated_message s
            then Inl (ToolRefused (tl_name spec) WRONG_STATE (RD_text (state_value s)))
          else if po_actor p \<notin> set (tl_actors spec)
            then Inl (ToolRefused (tl_name spec) TOOL_ACTOR_NOT_PERMITTED (RD_text (actor_value (po_actor p))))
          else (case policy_refusal of
                  None \<Rightarrow> Inr ()
                | Some why \<Rightarrow> if why = '''' then Inr () else Inl (ToolRefused (tl_name spec) POLICY_DENIED (RD_text why))))"

definition authorise_tool ::
  "(string \<Rightarrow> string) \<Rightarrow> 'l limiter \<Rightarrow> proposal \<Rightarrow> demo_state \<Rightarrow> ownership \<Rightarrow> instant \<Rightarrow> bool \<Rightarrow> string option \<Rightarrow> 'l pipeline
   \<Rightarrow> (tool_error + authorised) \<times> 'l pipeline" where
  "authorise_tool sha256 check p s ow now already_executed policy_refusal pl =
     (case tool_get (po_tool p) of
        Inl err \<Rightarrow> (Inl err, pl)
      | Inr spec \<Rightarrow>
      case static_stages spec p s ow now policy_refusal of
        Inl err \<Rightarrow> (Inl err, pl)
      | Inr _ \<Rightarrow>
      let (scope, limit, per_seconds) = TOOL_LIMITS (tl_side_effect spec);
          (verdict, limiter) = check (pl_limiter pl) now scope (po_conversation p) limit per_seconds;
          pl = pl\<lparr>pl_limiter := limiter\<rparr>;
          lock = (po_conversation p, tl_name spec);
          key = key_for sha256 p
      in case verdict of
        Inl err \<Rightarrow> (Inl (LimiterFailed err), pl)
      | Inr v \<Rightarrow>
          if \<not> vd_allowed v
            then (Inl (ToolRefused (tl_name spec) RATE_LIMITED (RD_text (''retry_in='' @ show_signed (vd_retry_after v) @ ''s''))), pl)
          else if already_executed
            then (Inl (ToolRefused (tl_name spec) ALREADY_EXECUTED (RD_text (take 16 key))), pl)
          else if tool_exclusive spec \<and> lock \<in> pl_in_flight pl
            then (Inl (ToolRefused (tl_name spec) CONCURRENT_EXCLUSIVE (RD_text '''')), pl)
          else (Inr \<lparr>au_spec = spec, au_arguments = po_arguments p, au_proposal = p, au_key = key,
                     au_audit = map (\<lambda>f. (f, dict_get (po_arguments p) f)) (tl_audit_fields spec) @
                       [(''proposed_by_model'', Some (TBool (po_by_model p)))]\<rparr>,
                if tool_exclusive spec then pl\<lparr>pl_in_flight := insert lock (pl_in_flight pl)\<rparr> else pl))"

definition tool_lock :: "authorised \<Rightarrow> ref \<times> string" where
  "tool_lock a = (po_conversation (au_proposal a), tl_name (au_spec a))"

definition release_tool :: "authorised \<Rightarrow> 'l pipeline \<Rightarrow> 'l pipeline" where
  "release_tool a pl =
     (if tool_exclusive (au_spec a) then pl\<lparr>pl_in_flight := pl_in_flight pl - {tool_lock a}\<rparr> else pl)"

fun argument_truthy :: "tool_argument option \<Rightarrow> bool" where
  "argument_truthy None = False"
| "argument_truthy (Some (TStr s)) = (s \<noteq> '''')"
| "argument_truthy (Some (TInt i)) = (i \<noteq> 0)"
| "argument_truthy (Some (TBool b)) = b"
| "argument_truthy (Some (TOther s b)) = b"

definition validate_result :: "tool_spec \<Rightarrow> (string, tool_argument) odict \<Rightarrow> tool_error + unit" where
  "validate_result spec result =
     (case tl_result spec of
        None \<Rightarrow> Inr ()
      | Some sc \<Rightarrow>
          (let missing = filter (\<lambda>n. \<not> argument_truthy (dict_get result n)) (sc_required sc)
           in if missing \<noteq> [] then Inl (ToolRefused (tl_name spec) RESULT_INVALID (RD_names ''missing='' missing)) else Inr ()))"

section \<open>What an authorised call is\<close>

lemmas registry_rows = TOOLS_def MODEL_TOOLS_def CALLER_TOOLS_def

lemma registry_is_sound: "registry_invariants TOOLS = []"
  by code_simp

lemma tool_get_Inr: "tool_get name = Inr t \<Longrightarrow> t \<in> set TOOLS \<and> tl_name t = name"
  unfolding tool_get_def by (auto split: option.splits dest: find_Some_in)

lemma tool_get_row: "t \<in> set TOOLS \<Longrightarrow> tool_get (tl_name t) = Inr t"
  by (simp add: registry_rows) (elim disjE; simp add: tool_get_def registry_rows)

text \<open>What the rules of every schema of the registry admit.\<close>

definition small_argument :: "tool_argument \<Rightarrow> bool" where
  "small_argument v \<longleftrightarrow> (\<exists>s. v = TStr s \<and> length s \<le> 4096) \<or> v = TInt 1 \<or> v = TInt 2 \<or> v = TInt 3"

definition simple_rule :: "schema_rule \<Rightarrow> bool" where
  "simple_rule r \<longleftrightarrow> r = tool_ORDINAL \<or>
     sr_type r = ''string'' \<and> (sr_max_length r = None \<or> (\<exists>n \<le> 4096. sr_max_length r = Some n))"

lemma registry_rules: "t \<in> set TOOLS \<Longrightarrow> r \<in> set (dict_values (sc_properties (tl_input t))) \<Longrightarrow> simple_rule r"
  by (simp add: registry_rows) (elim disjE; auto simp: simple_rule_def tool_schema_def text_rule_def tool_STRING_def dict_values_def)

lemma argument_ok_small:
  assumes "argument_problem r n v = None" and "simple_rule r"
  shows "small_argument v" and "sr_type r = ''string'' \<longleftrightarrow> (\<exists>s. v = TStr s)"
  using assms
  by (cases v; auto simp: argument_problem_def Let_def simple_rule_def small_argument_def tool_ORDINAL_def
      split: if_splits option.splits)+

lemma arguments_ok:
  "arguments_problem ps args = None \<longleftrightarrow> (\<forall>(n, v)\<in>set args. argument_problem (the (dict_get ps n)) n v = None)"
  by (induction ps args rule: arguments_problem.induct) (auto split: option.splits)

lemma check_schema_Inr:
  "check_schema t args = Inr u \<longleftrightarrow>
     set (dict_keys args) \<subseteq> set (dict_keys (sc_properties (tl_input t))) \<and> set (sc_required (tl_input t)) \<subseteq> set (dict_keys args) \<and>
     (\<forall>(n, v)\<in>set args. argument_problem (the (dict_get (sc_properties (tl_input t)) n)) n v = None)"
  by (auto simp: check_schema_def Let_def arguments_ok [symmetric] filter_empty_conv split: option.splits)

lemma registry_required: "t \<in> set TOOLS \<Longrightarrow> set (sc_required (tl_input t)) = set (dict_keys (sc_properties (tl_input t)))"
  by (simp add: registry_rows) (elim disjE; simp add: tool_schema_def dict_keys_def)

lemma static_stages_Inr:
  "static_stages t p s ow now why = Inr u \<longleftrightarrow>
     check_schema t (po_arguments p) = Inr () \<and> held_by_us ow now \<and> (tl_states t = [] \<or> s \<in> set (tl_states t)) \<and>
     (tl_side_effect t = CUSTOMER_VISIBLE \<longrightarrow> can_send_automated_message s) \<and> po_actor p \<in> set (tl_actors t) \<and>
     (why = None \<or> why = Some '''')"
  by (auto simp: static_stages_def split: sum.splits option.splits)

lemma authorise_tool_Inr:
  assumes "authorise_tool sha256 check p s ow now ex why pl = (Inr a, pl')"
  shows "au_spec a \<in> set TOOLS" and "tl_name (au_spec a) = po_tool p" and "au_proposal a = p"
    and "au_arguments a = po_arguments p" and "static_stages (au_spec a) p s ow now why = Inr ()" and "\<not> ex"
    and "au_key a = key_for sha256 p" and "tool_exclusive (au_spec a) \<Longrightarrow> tool_lock a \<notin> pl_in_flight pl"
    and "pl_in_flight pl' = (if tool_exclusive (au_spec a) then insert (tool_lock a) (pl_in_flight pl) else pl_in_flight pl)"
  using assms
  by (auto simp: authorise_tool_def Let_def tool_lock_def case_prod_beta dest: tool_get_Inr split: sum.splits if_splits)

lemma authorise_tool_Inl:
  "authorise_tool sha256 check p s ow now ex why pl = (Inl err, pl') \<Longrightarrow> pl_in_flight pl' = pl_in_flight pl"
  by (auto simp: authorise_tool_def Let_def case_prod_beta split: sum.splits if_splits)

lemma user_tools:
  "t \<in> set TOOLS \<Longrightarrow> USER \<in> set (tl_actors t) \<Longrightarrow>
     (tl_name t, tl_states t, dict_keys (sc_properties (tl_input t))) \<in>
       {(''record_requirement'', [COLLECTING_REQUIREMENTS], [''field'', ''value'']),
        (''select_tutor_option'', [AWAITING_TUTOR_SELECTION], [''ordinal'']),
        (''request_alternative_tutors'', [AWAITING_TUTOR_SELECTION], []),
        (''propose_time'', [TUTOR_SELECTED, NEGOTIATING_SLOT, SCHEDULED], [''phrase'']),
        (''request_human'', [], [''reason''])} \<and> tl_side_effect t = LOCAL_WRITE"
  by (simp add: registry_rows) (elim disjE; simp add: tool_schema_def dict_keys_def)

text \<open>(C8) What a parent's message, or a model speaking for it, can have authorised: one of five tools that only
  write the agent's own state, in the states made for it, while the agent holds the conversation, with exactly the
  arguments the tool names, each a string of at most 4096 characters or an ordinal from 1 to 3. No booking, no
  money, no message and no handover.\<close>

theorem what_a_parent_can_trigger:
  assumes "authorise_tool sha256 check p s ow now ex why pl = (Inr a, pl')" and "po_actor p = USER"
  shows "tl_side_effect (au_spec a) = LOCAL_WRITE \<and> held_by_us ow now \<and> pl_in_flight pl' = pl_in_flight pl \<and>
    (po_tool p = ''record_requirement'' \<and> s = COLLECTING_REQUIREMENTS \<and> set (dict_keys (au_arguments a)) = {''field'', ''value''} \<or>
     po_tool p = ''select_tutor_option'' \<and> s = AWAITING_TUTOR_SELECTION \<and> set (dict_keys (au_arguments a)) = {''ordinal''} \<or>
     po_tool p = ''request_alternative_tutors'' \<and> s = AWAITING_TUTOR_SELECTION \<and> au_arguments a = [] \<or>
     po_tool p = ''propose_time'' \<and> s \<in> {TUTOR_SELECTED, NEGOTIATING_SLOT, SCHEDULED} \<and> set (dict_keys (au_arguments a)) = {''phrase''} \<or>
     po_tool p = ''request_human'' \<and> set (dict_keys (au_arguments a)) = {''reason''}) \<and>
    (\<forall>v\<in>set (dict_values (au_arguments a)). small_argument v)"
proof -
  note facts = authorise_tool_Inr [OF assms(1)]
  note stages = facts(5) [unfolded static_stages_Inr]
  have "USER \<in> set (tl_actors (au_spec a))" using stages assms(2) by simp
  note row = user_tools [OF facts(1) this]
  have keys: "set (dict_keys (au_arguments a)) = set (dict_keys (sc_properties (tl_input (au_spec a))))"
    using stages registry_required [OF facts(1)] facts(4) by (auto simp: check_schema_Inr)
  have "small_argument v" if "(n, v) \<in> set (au_arguments a)" for n v
  proof -
    have "n \<in> set (dict_keys (sc_properties (tl_input (au_spec a))))" using keys that by (force simp: dict_keys_def)
    then obtain r where r: "dict_get (sc_properties (tl_input (au_spec a))) n = Some r"
      by (metis dict_get_None_iff not_Some_eq)
    moreover have "argument_problem (the (dict_get (sc_properties (tl_input (au_spec a))) n)) n v = None"
      using stages that facts(4) by (auto simp: check_schema_Inr)
    ultimately show ?thesis
      using argument_ok_small(1) registry_rules [OF facts(1)] dict_get_value [OF r] by simp
  qed
  then have small: "\<forall>v\<in>set (dict_values (au_arguments a)). small_argument v" by (auto simp: dict_values_def)
  have quiet: "pl_in_flight pl' = pl_in_flight pl"
    using row by (simp add: facts(9) tool_exclusive_def EXCLUSIVE_def)
  have "(po_tool p, tl_states (au_spec a), set (dict_keys (au_arguments a))) \<in>
      {(''record_requirement'', [COLLECTING_REQUIREMENTS], {''field'', ''value''}),
       (''select_tutor_option'', [AWAITING_TUTOR_SELECTION], {''ordinal''}),
       (''request_alternative_tutors'', [AWAITING_TUTOR_SELECTION], {}),
       (''propose_time'', [TUTOR_SELECTED, NEGOTIATING_SLOT, SCHEDULED], {''phrase''}),
       (''request_human'', [], {''reason''})}"
    using row [THEN conjunct1] unfolding keys facts(2) by (elim insertE emptyE) simp_all
  moreover have "s \<in> set (tl_states (au_spec a)) \<or> tl_states (au_spec a) = []" using stages by auto
  moreover have "set (dict_keys (au_arguments a)) = {} \<Longrightarrow> au_arguments a = []" by (simp add: dict_keys_def)
  ultimately have "po_tool p = ''record_requirement'' \<and> s = COLLECTING_REQUIREMENTS \<and> set (dict_keys (au_arguments a)) = {''field'', ''value''} \<or>
     po_tool p = ''select_tutor_option'' \<and> s = AWAITING_TUTOR_SELECTION \<and> set (dict_keys (au_arguments a)) = {''ordinal''} \<or>
     po_tool p = ''request_alternative_tutors'' \<and> s = AWAITING_TUTOR_SELECTION \<and> au_arguments a = [] \<or>
     po_tool p = ''propose_time'' \<and> s \<in> {TUTOR_SELECTED, NEGOTIATING_SLOT, SCHEDULED} \<and> set (dict_keys (au_arguments a)) = {''phrase''} \<or>
     po_tool p = ''request_human'' \<and> set (dict_keys (au_arguments a)) = {''reason''}"
    by (elim insertE emptyE) simp_all
  then show ?thesis using row stages small quiet by blast
qed

text \<open>A tapped option, with the per-container limiter.\<close>

definition fast_limiter :: "windows limiter" where
  "fast_limiter ws now scope key limit per_seconds =
     (let (v, ws') = fast_check 10000 ws now scope key limit per_seconds in (Inr v, ws'))"

definition sample_proposal :: "string \<Rightarrow> (string, tool_argument) odict \<Rightarrow> actor \<Rightarrow> proposal" where
  "sample_proposal tool args actor =
     \<lparr>po_tool = tool, po_arguments = args, po_actor = actor, po_conversation = ''conv'', po_by_model = True\<rparr>"

definition sample_authorise :: "proposal \<Rightarrow> demo_state \<Rightarrow> windows pipeline \<Rightarrow> (tool_error + authorised) \<times> windows pipeline" where
  "sample_authorise p s pl =
     authorise_tool id fast_limiter p s ((unowned ''conv'' 0)\<lparr>ow_owner := SELF\<rparr>) 1 False None pl"

definition idle :: "windows pipeline" where
  "idle = \<lparr>pl_limiter = [], pl_in_flight = {}\<rparr>"

lemmas sample_calls = sample_authorise_def sample_proposal_def idle_def fast_limiter_def authorise_tool_def

theorem what_a_parent_can_trigger_witness:
  "\<exists>a pl'. sample_authorise (sample_proposal ''select_tutor_option'' [(''ordinal'', TInt 2)] USER) AWAITING_TUTOR_SELECTION idle = (Inr a, pl') \<and>
     tl_side_effect (au_spec a) = LOCAL_WRITE \<and> pl_in_flight pl' = {} \<and> set (dict_keys (au_arguments a)) = {''ordinal''}"
proof -
  let ?p = "sample_proposal ''select_tutor_option'' [(''ordinal'', TInt 2)] USER"
  have "\<not> raises (fst (sample_authorise ?p AWAITING_TUTOR_SELECTION idle))" by code_simp
  then obtain a where "fst (sample_authorise ?p AWAITING_TUTOR_SELECTION idle) = Inr a" by (auto simp: not_raises_iff)
  then obtain pl' where call: "sample_authorise ?p AWAITING_TUTOR_SELECTION idle = (Inr a, pl')" by (metis prod.collapse)
  show ?thesis
    using what_a_parent_can_trigger [OF call [unfolded sample_authorise_def]] call by (auto simp: sample_proposal_def idle_def)
qed

section \<open>Single flight\<close>

text \<open>Any interleaving of authorisations, of which some are refused, and of releases, each of a call that was
  authorised and not yet released.\<close>

inductive tool_traffic ::
  "(string \<Rightarrow> string) \<Rightarrow> 'l limiter \<Rightarrow> 'l pipeline \<Rightarrow> authorised list \<Rightarrow> bool" for sha256 check where
  started: "tool_traffic sha256 check \<lparr>pl_limiter = l, pl_in_flight = {}\<rparr> []"
| granted: "tool_traffic sha256 check pl running \<Longrightarrow>
    authorise_tool sha256 check p s ow now ex why pl = (Inr a, pl') \<Longrightarrow> tool_traffic sha256 check pl' (a # running)"
| refused: "tool_traffic sha256 check pl running \<Longrightarrow>
    authorise_tool sha256 check p s ow now ex why pl = (Inl err, pl') \<Longrightarrow> tool_traffic sha256 check pl' running"
| released: "tool_traffic sha256 check pl running \<Longrightarrow> a \<in> set running \<Longrightarrow>
    tool_traffic sha256 check (release_tool a pl) (remove1 a running)"

definition exclusive_locks :: "authorised list \<Rightarrow> (ref \<times> string) list" where
  "exclusive_locks running = map tool_lock (filter (\<lambda>a. tool_exclusive (au_spec a)) running)"

lemma exclusive_locks_Cons:
  "exclusive_locks (a # running) = (if tool_exclusive (au_spec a) then [tool_lock a] else []) @ exclusive_locks running"
  by (simp add: exclusive_locks_def)

lemma exclusive_locks_remove1:
  assumes "distinct (exclusive_locks running)" and "a \<in> set running"
  shows "distinct (exclusive_locks (remove1 a running)) \<and>
    set (exclusive_locks (remove1 a running)) =
      (if tool_exclusive (au_spec a) then set (exclusive_locks running) - {tool_lock a} else set (exclusive_locks running))"
  using assms
proof (induction running)
  case (Cons b running)
  show ?case
  proof (cases "b = a")
    case True
    then show ?thesis using Cons.prems by (auto simp: exclusive_locks_Cons)
  next
    case False
    then have a: "a \<in> set running" and "distinct (exclusive_locks running)"
      using Cons.prems by (auto simp: exclusive_locks_Cons split: if_splits)
    note rest = Cons.IH [OF this(2) a]
    have "a \<noteq> b" using False by simp
    have b: "tool_lock b \<notin> set (exclusive_locks running)" if "tool_exclusive (au_spec b)"
      using Cons.prems(1) that by (simp add: exclusive_locks_Cons)
    have "tool_lock a \<in> set (exclusive_locks running)" if "tool_exclusive (au_spec a)"
      using that a by (auto simp: exclusive_locks_def)
    note inside = this
    show ?thesis
    proof (cases "tool_exclusive (au_spec b)")
      case True
      have "tool_lock b \<noteq> tool_lock a" if "tool_exclusive (au_spec a)" using b [OF True] inside [OF that] by metis
      then show ?thesis
        using b [OF True] rest \<open>a \<noteq> b\<close> by (simp add: exclusive_locks_Cons True insert_Diff_if)
    next
      case False
      then show ?thesis using rest \<open>a \<noteq> b\<close> by (simp add: exclusive_locks_Cons)
    qed
  qed
qed simp

lemma traffic_locks:
  "tool_traffic sha256 check pl running \<Longrightarrow>
     distinct (exclusive_locks running) \<and> pl_in_flight pl = set (exclusive_locks running)"
proof (induction rule: tool_traffic.induct)
  case (granted pl running p s ow now ex why a pl')
  then show ?case using authorise_tool_Inr(8,9) [OF granted(2)] by (auto simp: exclusive_locks_Cons)
next
  case (refused pl running p s ow now ex why err pl')
  then show ?case using authorise_tool_Inl by fastforce
next
  case (released pl running a)
  then show ?case using exclusive_locks_remove1 [of running a] by (auto simp: release_tool_def)
qed (simp add: exclusive_locks_def)

text \<open>(C9) Single flight. Whatever is proposed, refused and released in whatever order, no two calls of one exclusive
  tool for one conversation run at once, and while one runs every further proposal of that tool for that conversation
  is refused or fails in the limiter.\<close>

theorem exclusive_tools_fly_alone:
  assumes "tool_traffic sha256 check pl running" and "a \<in> set running" and "tool_exclusive (au_spec a)"
    and "po_conversation p = po_conversation (au_proposal a)" and "po_tool p = tl_name (au_spec a)"
  shows "raises (fst (authorise_tool sha256 check p s ow now ex why pl)) \<and>
    length (filter (\<lambda>b. tool_lock b = tool_lock a \<and> tool_exclusive (au_spec b)) running) = 1"
proof
  note locks = traffic_locks [OF assms(1)]
  have held: "tool_lock a \<in> pl_in_flight pl" using locks assms(2,3) by (auto simp: exclusive_locks_def)
  have running_tool: "tool_exclusive b" if "b \<in> set TOOLS" "tl_name b = tl_name (au_spec a)" for b
  proof -
    have "au_spec a \<in> set TOOLS" using assms(1,2)
    proof (induction rule: tool_traffic.induct)
      case (granted pl running p s ow now ex why a' pl')
      then show ?case using authorise_tool_Inr(1) [OF granted(2)] by auto
    next
      case (released pl running b)
      then show ?case using set_remove1_subset [of b running] by auto
    qed auto
    then show ?thesis using tool_get_row [OF that(1)] tool_get_row that(2) assms(3) by fastforce
  qed
  show "raises (fst (authorise_tool sha256 check p s ow now ex why pl))"
  proof (rule ccontr)
    assume "\<not> raises (fst (authorise_tool sha256 check p s ow now ex why pl))"
    then obtain b where b: "authorise_tool sha256 check p s ow now ex why pl = (Inr b, snd (authorise_tool sha256 check p s ow now ex why pl))"
      by (metis not_raises_iff prod.collapse)
    note facts = authorise_tool_Inr [OF b]
    have "tool_exclusive (au_spec b)" using running_tool facts(1,2) assms(5) by simp
    moreover have "tool_lock b = tool_lock a" using facts(2,3) assms(4,5) by (simp add: tool_lock_def)
    ultimately show False using facts(8) held by simp
  qed
  have once: "distinct ls \<Longrightarrow> l \<in> set ls \<Longrightarrow> count_list ls l = 1" for l and ls :: "(ref \<times> string) list"
    by (induction ls) auto
  have count: "length (filter (\<lambda>b. tool_lock b = l \<and> tool_exclusive (au_spec b)) xs) = count_list (exclusive_locks xs) l"
    for l and xs :: "authorised list"
    by (induction xs) (auto simp: exclusive_locks_def)
  have "count_list (exclusive_locks running) (tool_lock a) = 1"
    using locks held once by simp
  then show "length (filter (\<lambda>b. tool_lock b = tool_lock a \<and> tool_exclusive (au_spec b)) running) = 1" by (simp add: count)
qed

text \<open>A slot being booked: the second proposal of the same booking is refused.\<close>

definition first_booking :: "(tool_error + authorised) \<times> windows pipeline" where
  "first_booking = sample_authorise (sample_proposal ''create_calendar_event'' [(''hold_id'', TStr ''h1'')] SYSTEM)
     CALENDAR_CREATION_PENDING idle"

theorem exclusive_tools_fly_alone_witness:
  "raises (fst (sample_authorise (sample_proposal ''create_calendar_event'' [(''hold_id'', TStr ''h2'')] SYSTEM)
     CALENDAR_CREATION_PENDING (snd first_booking))) \<and> \<not> raises (fst first_booking)"
proof -
  have ok: "\<not> raises (fst first_booking)" by code_simp
  then obtain a where a: "first_booking = (Inr a, snd first_booking)" by (metis not_raises_iff prod.collapse)
  then have call: "authorise_tool id fast_limiter (sample_proposal ''create_calendar_event'' [(''hold_id'', TStr ''h1'')] SYSTEM)
      CALENDAR_CREATION_PENDING ((unowned ''conv'' 0)\<lparr>ow_owner := SELF\<rparr>) 1 False None idle = (Inr a, snd first_booking)"
    by (simp add: first_booking_def sample_authorise_def)
  note facts = authorise_tool_Inr [OF call]
  have traffic: "tool_traffic id fast_limiter (snd first_booking) [a]"
    by (rule granted [OF _ call]) (simp add: idle_def started)
  have "tool_get ''create_calendar_event'' = Inr (au_spec a)"
    using tool_get_row [OF facts(1)] facts(2) by (simp add: sample_proposal_def)
  then have "tool_exclusive (au_spec a)" by (simp add: tool_get_def registry_rows tool_exclusive_def EXCLUSIVE_def) (drule sym, simp)
  then show ?thesis
    using exclusive_tools_fly_alone [OF traffic, of a "sample_proposal ''create_calendar_event'' [(''hold_id'', TStr ''h2'')] SYSTEM"
        CALENDAR_CREATION_PENDING] facts(2,3) ok
    by (simp add: sample_authorise_def sample_proposal_def)
qed

text \<open>The lock is per tool: two tools that move money run at once for one conversation.\<close>

lemma two_money_tools_run_at_once:
  "\<exists>a b pl pl'. sample_authorise (sample_proposal ''commit_discount'' [(''demo_id'', TStr ''d1'')] SYSTEM) FOLLOWUP_PENDING idle = (Inr a, pl) \<and>
     sample_authorise (sample_proposal ''create_payment_order'' [(''demo_id'', TStr ''d1'')] SYSTEM) FOLLOWUP_PENDING pl = (Inr b, pl')"
proof -
  let ?one = "sample_authorise (sample_proposal ''commit_discount'' [(''demo_id'', TStr ''d1'')] SYSTEM) FOLLOWUP_PENDING idle"
  let ?two = "sample_authorise (sample_proposal ''create_payment_order'' [(''demo_id'', TStr ''d1'')] SYSTEM) FOLLOWUP_PENDING (snd ?one)"
  have "\<not> raises (fst ?one) \<and> \<not> raises (fst ?two)" by code_simp
  then show ?thesis by (metis not_raises_iff prod.collapse)
qed

text \<open>No set of states means any state: a person is asked for, and authorised, in a closed conversation too.\<close>

lemma human_is_asked_for_in_any_state:
  assumes "length reason \<le> 200" and "held_by_us ow now" and "\<exists>v l. check (pl_limiter pl) now LS_CONVERSATION c 60 3600 = (Inr v, l) \<and> vd_allowed v"
  shows "\<not> raises (fst (authorise_tool sha256 check
    \<lparr>po_tool = ''request_human'', po_arguments = [(''reason'', TStr reason)], po_actor = USER, po_conversation = c, po_by_model = m\<rparr>
    s ow now False None pl))"
  using assms
  by (auto simp: authorise_tool_def tool_get_def registry_rows static_stages_def check_schema_def dict_keys_def tool_schema_def
      text_rule_def argument_problem_def TOOL_LIMITS_def tool_exclusive_def EXCLUSIVE_def)

end
