(* ===== verification/TutorText.thy ===== *)
theory TutorText
  imports PatternGroups
begin

text \<open>
  The vocabulary of Tutor Intelligence: domain/text.py, domain/academics.py, domain/subjects.py,
  domain/modes.py and the city part of domain/localities.py. A character is a code point below 256,
  so the Devanagari terms of \<open>transliterate_hinglish\<close> and the dashes beyond that range do not occur;
  case mapping is the ASCII one, which is all the tables look at.
\<close>

section \<open>Text\<close>

definition upper_char :: "char \<Rightarrow> char" where
  "upper_char c = (if is_lower_char c then char_of ((of_char c :: nat) - 32) else c)"

definition lower :: "string \<Rightarrow> string" where
  "lower s = map lower_char s"

definition upper :: "string \<Rightarrow> string" where
  "upper s = map upper_char s"

definition capitalize :: "string \<Rightarrow> string" where
  "capitalize s = (case s of [] \<Rightarrow> [] | c # t \<Rightarrow> upper_char c # lower t)"

definition title_words :: "string \<Rightarrow> string" where
  "title_words s = join '' '' (map capitalize (words s))"

text \<open>\<open>unicodedata.normalize("NFKD", c)\<close> without its combining marks; the fraction slash, which like the
  slash is no letter, digit or sign the tables know, is written as a slash.\<close>

definition fold_char :: "char \<Rightarrow> string" where
  "fold_char c =
     (let n = (of_char c :: nat)
      in if n < 160 then [c]
         else if n \<in> {160, 168, 175, 180, 184} then '' ''
         else if n = 170 then ''a'' else if n = 186 then ''o''
         else if n = 178 then ''2'' else if n = 179 then ''3'' else if n = 185 then ''1''
         else if n = 188 then ''1/4'' else if n = 189 then ''1/2'' else if n = 190 then ''3/4''
         else if n < 192 then [c]
         else if n \<le> 197 then ''A'' else if n = 199 then ''C''
         else if 200 \<le> n \<and> n \<le> 203 then ''E'' else if 204 \<le> n \<and> n \<le> 207 then ''I''
         else if n = 209 then ''N'' else if 210 \<le> n \<and> n \<le> 214 then ''O''
         else if 217 \<le> n \<and> n \<le> 220 then ''U'' else if n = 221 then ''Y''
         else if 224 \<le> n \<and> n \<le> 229 then ''a'' else if n = 231 then ''c''
         else if 232 \<le> n \<and> n \<le> 235 then ''e'' else if 236 \<le> n \<and> n \<le> 239 then ''i''
         else if n = 241 then ''n'' else if 242 \<le> n \<and> n \<le> 246 then ''o''
         else if 249 \<le> n \<and> n \<le> 252 then ''u'' else if n = 253 \<or> n = 255 then ''y''
         else [c])"

definition ascii_fold :: "string \<Rightarrow> string" where
  "ascii_fold s = concat (map fold_char s)"

definition key_char :: "char \<Rightarrow> bool" where
  "key_char c \<longleftrightarrow> is_lower_char c \<or> is_digit c"

definition normalize_key :: "string \<Rightarrow> string" where
  "normalize_key s = filter key_char (lower (ascii_fold s))"

definition slugify :: "string \<Rightarrow> string \<Rightarrow> string" where
  "slugify s fallback =
     (let slug = join ''-'' (words (map (\<lambda>c. if key_char c then c else CHR '' '') (lower (ascii_fold s))))
      in if slug = [] then fallback else slug)"

definition token_char :: "char \<Rightarrow> bool" where
  "token_char c \<longleftrightarrow> key_char c \<or> c = CHR ''+'' \<or> c = CHR ''#''"

text \<open>The non-empty pieces between the runs of other characters.\<close>

definition tokens :: "string \<Rightarrow> string list" where
  "tokens s = words (map (\<lambda>c. if token_char c then c else CHR '' '') (lower (ascii_fold s)))"

text \<open>Python's \<open>not value or not value.strip()\<close>.\<close>

definition is_blank :: "string option \<Rightarrow> bool" where
  "is_blank v = (case v of None \<Rightarrow> True | Some s \<Rightarrow> strip s = [])"

definition number_of :: "string \<Rightarrow> int" where
  "number_of s = foldl (\<lambda>n c. n * 10 + (int (of_char c) - 48)) 0 s"

section \<open>Boards, exams and classes\<close>

definition BOARD_ALIASES :: "(string, string) odict" where
  "BOARD_ALIASES =
    [(''cbse'', ''CBSE''), (''cbsc'', ''CBSE''), (''centralboard'', ''CBSE''), (''ncert'', ''CBSE''),
     (''icse'', ''ICSE''), (''cisce'', ''ICSE''), (''isc'', ''ISC''), (''ib'', ''IB''),
     (''ibdp'', ''IB''), (''internationalbaccalaureate'', ''IB''), (''myp'', ''IB''), (''pyp'', ''IB''),
     (''igcse'', ''IGCSE''), (''cambridge'', ''Cambridge''), (''caie'', ''Cambridge''),
     (''alevel'', ''Cambridge''), (''aslevel'', ''Cambridge''), (''stateboard'', ''State Board''),
     (''state'', ''State Board''), (''hbse'', ''State Board''), (''upboard'', ''State Board''),
     (''mahboard'', ''State Board''), (''ssc'', ''State Board''), (''nios'', ''NIOS''),
     (''openschool'', ''NIOS'')]"

definition STRICT_BOARDS :: "string list" where
  "STRICT_BOARDS = [''IB'', ''IGCSE'', ''Cambridge'', ''ISC'']"

definition EXAM_ALIASES :: "(string, string) odict" where
  "EXAM_ALIASES =
    [(''jee'', ''JEE''), (''jeemain'', ''JEE''), (''jeeadvanced'', ''JEE''), (''iitjee'', ''JEE''),
     (''iit'', ''JEE''), (''neet'', ''NEET''), (''neetug'', ''NEET''), (''medical'', ''NEET''),
     (''aiims'', ''NEET''), (''boards'', ''Board Exam''), (''boardexam'', ''Board Exam''),
     (''boardexams'', ''Board Exam''), (''olympiad'', ''Olympiad''), (''imo'', ''Olympiad''),
     (''nso'', ''Olympiad''), (''ntse'', ''NTSE''), (''cuet'', ''CUET''), (''sat'', ''SAT'')]"

definition EXAM_SUBJECTS :: "(string, string list) odict" where
  "EXAM_SUBJECTS =
    [(''JEE'', [''Mathematics'', ''Physics'', ''Chemistry'']),
     (''NEET'', [''Biology'', ''Physics'', ''Chemistry''])]"

definition PRESCHOOL :: "(string, string) odict" where
  "PRESCHOOL =
    [(''nursery'', ''Nursery''), (''prenursery'', ''Nursery''), (''playgroup'', ''Nursery''),
     (''lkg'', ''LKG''), (''ukg'', ''UKG''), (''kg'', ''KG''), (''kindergarten'', ''KG'')]"

definition ROMAN :: "(string, int) odict" where
  "ROMAN =
    [(''i'', 1), (''ii'', 2), (''iii'', 3), (''iv'', 4), (''v'', 5), (''vi'', 6), (''vii'', 7),
     (''viii'', 8), (''ix'', 9), (''x'', 10), (''xi'', 11), (''xii'', 12)]"

definition class_word :: rx where
  "class_word = Alts (Lit ''class'') [Lit ''std'', Lit ''standard'', Lit ''grade'', Lit ''clas'']"

definition CLASS_NUMBER :: "(rx \<times> rx \<times> rx) list" where
  "CLASS_NUMBER =
     [(Seqs [WordB, Opt class_word, Many is_space], Between 1 2 is_digit,
       Seq (Opt (Alts (Lit ''st'') [Lit ''nd'', Lit ''rd'', Lit ''th''])) WordB)]"

definition roman_alt :: rx where
  "roman_alt = Alts (Lit ''viii'') (map Lit [''iii'', ''vii'', ''xii'', ''ii'', ''iv'', ''vi'', ''ix'', ''xi'', ''i'', ''v'', ''x''])"

definition class_sep :: rx where
  "class_sep = Many (\<lambda>c. is_space c \<or> one_of ''-:.'' c)"

definition CLASS_ROMAN :: "(rx \<times> rx \<times> rx) list" where
  "CLASS_ROMAN =
     [(Seqs [WordB, class_word, class_sep], roman_alt, WordB),
      (WordB, roman_alt, Seqs [Many is_space, Opt (Lit ''th''), class_sep, class_word, WordB])]"

datatype academic_level = EARLY_YEARS | PRIMARY | MIDDLE | SECONDARY | SENIOR_SECONDARY | UNKNOWN_LEVEL

definition normalize_board :: "string option \<Rightarrow> string option" where
  "normalize_board board =
     (if is_blank board then None
      else case dict_get BOARD_ALIASES (normalize_key (the board)) of
             Some b \<Rightarrow> Some b
           | None \<Rightarrow> Some (upper (strip (the board))))"

definition first_alias :: "(string, string) odict \<Rightarrow> string \<Rightarrow> string option" where
  "first_alias table s =
     (case List.map_filter (dict_get table) (tokens s) of [] \<Rightarrow> None | b # _ \<Rightarrow> Some b)"

definition extract_board :: "string \<Rightarrow> string option" where
  "extract_board s = first_alias BOARD_ALIASES s"

definition board_is_mandatory :: "string option \<Rightarrow> int option \<Rightarrow> bool" where
  "board_is_mandatory board class_no =
     (case normalize_board board of
        None \<Rightarrow> False
      | Some canonical \<Rightarrow>
          canonical \<in> set STRICT_BOARDS \<or> (case class_no of None \<Rightarrow> False | Some n \<Rightarrow> n \<ge> 9))"

definition class_number :: "string option \<Rightarrow> int option" where
  "class_number v =
     (if is_blank v then None
      else let s = lower (strip (the v));
               roman = (case group_search CLASS_ROMAN s of None \<Rightarrow> None | Some g \<Rightarrow> dict_get ROMAN g)
           in case group_search CLASS_NUMBER s of
                None \<Rightarrow> roman
              | Some d \<Rightarrow> let n = number_of d in if 1 \<le> n \<and> n \<le> 12 then Some n else roman)"

definition class_range :: "string \<Rightarrow> (int \<times> int) option" where
  "class_range entry =
     (let ns = filter (\<lambda>n. 1 \<le> n \<and> n \<le> 12) (map number_of (find_all (Between 1 2 is_digit) entry))
      in if length ns \<ge> 2 then Some (Min (set ns), Max (set ns)) else None)"

definition normalize_class :: "string option \<Rightarrow> string option" where
  "normalize_class v =
     (if is_blank v then None
      else let s = the v; key = normalize_key s
           in case dict_get PRESCHOOL key of
                Some label \<Rightarrow> Some label
              | None \<Rightarrow>
                  (case dict_get ROMAN (filter (\<lambda>c. c \<noteq> CHR '' '') key) of
                     Some n \<Rightarrow> Some (''Class '' @ show_nat (nat n))
                   | None \<Rightarrow>
                       (case class_range s of
                          Some (low, high) \<Rightarrow>
                            if low \<noteq> high then Some (''Class '' @ show_nat (nat low) @ ''-'' @ show_nat (nat high))
                            else (case class_number v of
                                    Some n \<Rightarrow> Some (''Class '' @ show_nat (nat n))
                                  | None \<Rightarrow> Some (title_words s))
                        | None \<Rightarrow>
                            (case class_number v of
                               Some n \<Rightarrow> Some (''Class '' @ show_nat (nat n))
                             | None \<Rightarrow> Some (title_words s)))))"

definition extract_class :: "string \<Rightarrow> string option" where
  "extract_class s =
     (let lowered = join '' '' (tokens s)
      in case find (\<lambda>(key, _). contains (filter (\<lambda>c. c \<noteq> CHR '' '') lowered) key) PRESCHOOL of
           Some (_, label) \<Rightarrow> Some label
         | None \<Rightarrow> map_option (\<lambda>n. ''Class '' @ show_nat (nat n)) (class_number (Some lowered)))"

definition normalize_exam :: "string option \<Rightarrow> string option" where
  "normalize_exam exam =
     (if is_blank exam then None
      else case dict_get EXAM_ALIASES (normalize_key (the exam)) of
             Some e \<Rightarrow> Some e
           | None \<Rightarrow> Some (upper (strip (the exam))))"

definition extract_exam :: "string \<Rightarrow> string option" where
  "extract_exam s = first_alias EXAM_ALIASES s"

definition level_for :: "string option \<Rightarrow> academic_level" where
  "level_for label =
     (if label = None \<or> label = Some [] then UNKNOWN_LEVEL
      else let key = normalize_key (the label)
           in if dict_get PRESCHOOL key \<noteq> None \<or> key \<in> {''nursery'', ''lkg'', ''ukg'', ''kg''} then EARLY_YEARS
              else case class_number label of
                     None \<Rightarrow> UNKNOWN_LEVEL
                   | Some n \<Rightarrow>
                       if n \<le> 2 then EARLY_YEARS else if n \<le> 5 then PRIMARY else if n \<le> 8 then MIDDLE
                       else if n \<le> 10 then SECONDARY else SENIOR_SECONDARY)"

definition teaches_class :: "string option \<Rightarrow> string list \<Rightarrow> bool" where
  "teaches_class required taught =
     (let want = class_number required
      in case normalize_class required of
           None \<Rightarrow> True
         | Some want_label \<Rightarrow>
             list_ex (\<lambda>entry. normalize_class (Some entry) = Some want_label \<or>
               (case (want, class_range entry) of
                  (Some n, Some (low, high)) \<Rightarrow> low \<le> n \<and> n \<le> high
                | _ \<Rightarrow> False)) taught)"

section \<open>Subjects\<close>

definition SUBJECT_ALIASES :: "(string, string) odict" where
  "SUBJECT_ALIASES =
    [(''maths'', ''Mathematics''), (''math'', ''Mathematics''), (''mathematics'', ''Mathematics''),
     (''mathematic'', ''Mathematics''), (''ganit'', ''Mathematics''), (''mth'', ''Mathematics''),
     (''appliedmaths'', ''Mathematics''), (''appliedmathematics'', ''Mathematics''),
     (''science'', ''Science''), (''sci'', ''Science''), (''vigyan'', ''Science''),
     (''generalscience'', ''Science''), (''evs'', ''Science''), (''environmentalscience'', ''Science''),
     (''physics'', ''Physics''), (''phy'', ''Physics''), (''bhautiki'', ''Physics''),
     (''chemistry'', ''Chemistry''), (''chem'', ''Chemistry''), (''rasayan'', ''Chemistry''),
     (''organicchemistry'', ''Chemistry''), (''inorganicchemistry'', ''Chemistry''),
     (''physicalchemistry'', ''Chemistry''), (''biology'', ''Biology''), (''bio'', ''Biology''),
     (''botany'', ''Biology''), (''zoology'', ''Biology''), (''jeevvigyan'', ''Biology''),
     (''english'', ''English''), (''eng'', ''English''), (''englishliterature'', ''English''),
     (''englishgrammar'', ''English''), (''spokenenglish'', ''English''), (''hindi'', ''Hindi''),
     (''hnd'', ''Hindi''), (''sanskrit'', ''Sanskrit''), (''french'', ''French''),
     (''german'', ''German''), (''sst'', ''Social Science''), (''socialscience'', ''Social Science''),
     (''socialstudies'', ''Social Science''), (''social'', ''Social Science''),
     (''samajikvigyan'', ''Social Science''), (''history'', ''History''), (''itihas'', ''History''),
     (''geography'', ''Geography''), (''bhugol'', ''Geography''),
     (''politicalscience'', ''Political Science''), (''polsci'', ''Political Science''),
     (''civics'', ''Political Science''), (''accounts'', ''Accountancy''),
     (''accountancy'', ''Accountancy''), (''accounting'', ''Accountancy''),
     (''economics'', ''Economics''), (''eco'', ''Economics''), (''econ'', ''Economics''),
     (''businessstudies'', ''Business Studies''), (''bst'', ''Business Studies''),
     (''business'', ''Business Studies''), (''computer'', ''Computer Science''),
     (''computerscience'', ''Computer Science''), (''cs'', ''Computer Science''),
     (''informationpractices'', ''Computer Science''), (''ip'', ''Computer Science''),
     (''programming'', ''Computer Science''), (''python'', ''Computer Science''),
     (''coding'', ''Computer Science''), (''psychology'', ''Psychology'')]"

definition UMBRELLA_PARTS :: "(string, string list) odict" where
  "UMBRELLA_PARTS =
    [(''Science'', [''Physics'', ''Chemistry'', ''Biology'']),
     (''Social Science'', [''History'', ''Geography'', ''Political Science'', ''Economics''])]"

definition ADJACENT :: "string list list" where
  "ADJACENT =
    [[''Physics'', ''Mathematics''], [''Chemistry'', ''Biology''],
     [''Accountancy'', ''Economics'', ''Business Studies''], [''History'', ''Geography'', ''Political Science'']]"

definition AMBIGUOUS_SUBJECTS :: "string list" where
  "AMBIGUOUS_SUBJECTS = [''Science'', ''Social Science'']"

definition normalize_subject :: "string option \<Rightarrow> string option" where
  "normalize_subject subject =
     (if is_blank subject then None
      else case dict_get SUBJECT_ALIASES (normalize_key (the subject)) of
             Some s \<Rightarrow> Some s
           | None \<Rightarrow> Some (title_words (the subject)))"

text \<open>At each word the longest of three, two or one words that is an alias; then on after it.\<close>

definition longest_alias :: "string list \<Rightarrow> string option \<times> nat" where
  "longest_alias ws =
     (case List.map_filter (\<lambda>n. if n \<le> length ws
             then map_option (\<lambda>s. (Some s, n)) (dict_get SUBJECT_ALIASES (concat (take n ws))) else None) [3, 2, 1] of
        [] \<Rightarrow> (None, 1)
      | hit # _ \<Rightarrow> hit)"

function extract_subjects_from :: "string list \<Rightarrow> string list \<Rightarrow> string list" where
  "extract_subjects_from found ws =
     (if ws = [] then found
      else let (matched, consumed) = longest_alias ws
           in extract_subjects_from
                (case matched of None \<Rightarrow> found | Some s \<Rightarrow> if s \<in> set found then found else found @ [s])
                (drop consumed ws))"
  by pat_completeness auto

termination extract_subjects_from
proof (relation "measure (\<lambda>(found, ws). length ws)")
  fix found ws :: "string list" and x matched consumed
  assume ne: "ws \<noteq> []" and x: "x = longest_alias ws" "(matched, consumed) = x"
  have "0 < consumed"
    using x by (auto simp: longest_alias_def List.map_filter_def split: list.splits if_splits)
  then show "((case matched of None \<Rightarrow> found | Some s \<Rightarrow> if s \<in> set found then found else found @ [s],
      drop consumed ws), (found, ws)) \<in> measure (\<lambda>(found, ws). length ws)"
    using ne by simp
qed simp

declare extract_subjects_from.simps [simp del]

definition extract_subjects :: "string \<Rightarrow> string list" where
  "extract_subjects s = extract_subjects_from [] (tokens s)"

definition subject_parts :: "string \<Rightarrow> string list" where
  "subject_parts s = (case dict_get UMBRELLA_PARTS s of None \<Rightarrow> [] | Some ps \<Rightarrow> ps)"

definition subject_matches :: "string \<Rightarrow> string \<Rightarrow> bool" where
  "subject_matches required taught =
     (case (normalize_subject (Some required), normalize_subject (Some taught)) of
        (Some want, Some have_) \<Rightarrow> want \<noteq> [] \<and> have_ \<noteq> [] \<and> (want = have_ \<or> want \<in> set (subject_parts have_))
      | _ \<Rightarrow> False)"

definition matches_any_subject :: "string \<Rightarrow> string list \<Rightarrow> bool" where
  "matches_any_subject required taught = list_ex (subject_matches required) taught"

definition is_adjacent :: "string \<Rightarrow> string \<Rightarrow> bool" where
  "is_adjacent a b =
     (case (normalize_subject (Some a), normalize_subject (Some b)) of
        (Some l, Some r) \<Rightarrow> l \<noteq> [] \<and> r \<noteq> [] \<and> l \<noteq> r \<and> list_ex (\<lambda>g. {l, r} \<subseteq> set g) ADJACENT
      | _ \<Rightarrow> False)"

definition is_ambiguous :: "string option \<Rightarrow> bool" where
  "is_ambiguous subject = (case normalize_subject subject of None \<Rightarrow> False | Some s \<Rightarrow> s \<in> set AMBIGUOUS_SUBJECTS)"

definition parts_of :: "string \<Rightarrow> string list" where
  "parts_of subject = subject_parts (case normalize_subject (Some subject) of None \<Rightarrow> [] | Some s \<Rightarrow> s)"

section \<open>Cities\<close>

definition CITY_ALIASES :: "(string, string) odict" where
  "CITY_ALIASES =
    [(''gurgaon'', ''Gurugram''), (''gurugram'', ''Gurugram''), (''ggn'', ''Gurugram''),
     (''bangalore'', ''Bengaluru''), (''bengaluru'', ''Bengaluru''), (''blr'', ''Bengaluru''),
     (''newdelhi'', ''Delhi''), (''delhi'', ''Delhi''), (''ncr'', ''Delhi''), (''delhincr'', ''Delhi''),
     (''bombay'', ''Mumbai''), (''mumbai'', ''Mumbai''), (''calcutta'', ''Kolkata''),
     (''kolkata'', ''Kolkata''), (''madras'', ''Chennai''), (''chennai'', ''Chennai''),
     (''noida'', ''Noida''), (''greaternoida'', ''Greater Noida''), (''ghaziabad'', ''Ghaziabad''),
     (''faridabad'', ''Faridabad''), (''hyderabad'', ''Hyderabad''), (''pune'', ''Pune''),
     (''ahmedabad'', ''Ahmedabad''), (''jaipur'', ''Jaipur''), (''lucknow'', ''Lucknow''),
     (''chandigarh'', ''Chandigarh'')]"

datatype city_tier = METRO | TIER2 | DEFAULT_TIER

definition METRO_CITIES :: "string list" where
  "METRO_CITIES = [''Delhi'', ''Mumbai'', ''Bengaluru'', ''Chennai'', ''Kolkata'', ''Hyderabad'', ''Gurugram'',
     ''Noida'', ''Pune'']"

definition TIER2_CITIES :: "string list" where
  "TIER2_CITIES = [''Ahmedabad'', ''Jaipur'', ''Lucknow'', ''Chandigarh'', ''Ghaziabad'', ''Faridabad'',
     ''Greater Noida'']"

definition normalize_city :: "string option \<Rightarrow> string option" where
  "normalize_city city =
     (if is_blank city then None
      else case dict_get CITY_ALIASES (normalize_key (the city)) of
             Some c \<Rightarrow> Some c
           | None \<Rightarrow> Some (title_words (the city)))"

definition same_city :: "string option \<Rightarrow> string option \<Rightarrow> bool" where
  "same_city l r \<longleftrightarrow> normalize_city l \<noteq> None \<and> normalize_city l = normalize_city r"

definition city_tier_of :: "string option \<Rightarrow> city_tier" where
  "city_tier_of city =
     (case normalize_city city of
        None \<Rightarrow> DEFAULT_TIER
      | Some c \<Rightarrow> if c \<in> set METRO_CITIES then METRO else if c \<in> set TIER2_CITIES then TIER2 else DEFAULT_TIER)"

definition extract_city :: "string \<Rightarrow> string option" where
  "extract_city s =
     (let joined = concat (tokens s)
      in map_option snd (find (\<lambda>(alias, _). contains joined alias) CITY_ALIASES))"

section \<open>Modes\<close>

datatype tuition_mode = HOME | ONLINE | HYBRID

definition ONLINE_TERMS :: "string list" where
  "ONLINE_TERMS = [''online'', ''remote'', ''virtual'', ''zoom'', ''video'', ''skype'', ''digital'']"

definition HOME_TERMS :: "string list" where
  "HOME_TERMS = [''home'', ''offline'', ''inperson'', ''person'', ''academic'', ''doorstep'', ''athome'', ''ghar'']"

definition BOTH_TERMS :: "string list" where
  "BOTH_TERMS = [''both'', ''hybrid'', ''any'', ''either'', ''flexible'']"

definition any_term :: "string list \<Rightarrow> string \<Rightarrow> bool" where
  "any_term terms key = list_ex (contains key) terms"

definition parse_mode_tokens :: "string option \<Rightarrow> tuition_mode list" where
  "parse_mode_tokens raw =
     (if raw = None \<or> raw = Some [] then []
      else let key = normalize_key (the raw)
           in if any_term BOTH_TERMS key then [ONLINE, HOME]
              else (if any_term ONLINE_TERMS key then [ONLINE] else []) @
                   (if any_term HOME_TERMS key then [HOME] else []))"

definition union_modes :: "string option list \<Rightarrow> tuition_mode list" where
  "union_modes raws =
     foldl (\<lambda>seen m. if m \<in> set seen then seen else seen @ [m]) [] (concat (map parse_mode_tokens raws))"

definition normalize_mode :: "string option \<Rightarrow> tuition_mode option" where
  "normalize_mode v =
     (if v = None \<or> v = Some [] then None
      else if any_term BOTH_TERMS (normalize_key (the v)) then Some HYBRID
      else case parse_mode_tokens v of [] \<Rightarrow> None | [m] \<Rightarrow> Some m | _ \<Rightarrow> Some HYBRID)"

definition extract_mode :: "string \<Rightarrow> tuition_mode option" where
  "extract_mode s =
     (let joined = concat (tokens s); home = any_term HOME_TERMS joined; online = any_term ONLINE_TERMS joined
      in if any_term BOTH_TERMS joined \<or> (home \<and> online) then (if \<not> home then Some HYBRID else Some HOME)
         else if home then Some HOME else if online then Some ONLINE else None)"

end
