(* ===== verification/TutorContracts.thy ===== *)
theory TutorContracts
  imports Complex_Main TutorText Schedules
begin

text \<open>
  The contracts of Tutor Intelligence: contracts/common.py, contracts/requirement.py with its merging of
  turns, contracts/tutor.py, contracts/scoring.py and the resolved policy document of
  scoring/policy.py. A float is the rational it denotes, so comparing two is exact; sums and products
  of the scoring are taken without rounding. A date is its ordinal.
\<close>

section \<open>Tracked values\<close>

datatype urgency = STANDARD | SOON | URGENT

fun URGENCY_RANK :: "urgency \<Rightarrow> int" where
  "URGENCY_RANK STANDARD = 0"
| "URGENCY_RANK SOON = 1"
| "URGENCY_RANK URGENT = 2"

datatype provenance = POLICY_DEFAULT | LLM | MEMORY | LEAD_INTAKE | DETERMINISTIC | USER_CONFIRMED

fun PROVENANCE_RANK :: "provenance \<Rightarrow> int" where
  "PROVENANCE_RANK POLICY_DEFAULT = 0"
| "PROVENANCE_RANK LLM = 1"
| "PROVENANCE_RANK MEMORY = 2"
| "PROVENANCE_RANK LEAD_INTAKE = 3"
| "PROVENANCE_RANK DETERMINISTIC = 4"
| "PROVENANCE_RANK USER_CONFIRMED = 5"

datatype freshness = FRESH | AGING | STALE_PROJECTION | UNKNOWN_FRESHNESS

definition RECOMMENDABLE_FRESHNESS :: "freshness set" where
  "RECOMMENDABLE_FRESHNESS = {FRESH, AGING}"

record 'a tracked =
  tk_value :: 'a
  tk_confidence :: rat
  tk_provenance :: provenance
  tk_observed_at :: "instant option"

definition beats :: "'a tracked \<Rightarrow> 'a tracked option \<Rightarrow> bool" where
  "beats new other =
     (case other of
        None \<Rightarrow> True
      | Some old \<Rightarrow>
          let mine = PROVENANCE_RANK (tk_provenance new); theirs = PROVENANCE_RANK (tk_provenance old)
          in if mine \<noteq> theirs then mine > theirs
             else if tk_confidence new \<noteq> tk_confidence old then tk_confidence new > tk_confidence old
             else case (tk_observed_at new, tk_observed_at old) of
                    (Some a, Some b) \<Rightarrow> a > b
                  | _ \<Rightarrow> False)"

section \<open>Requirements\<close>

definition HARD_FILTER_MIN_CONFIDENCE :: rat where
  "HARD_FILTER_MIN_CONFIDENCE = 3 / 4"

record budget_band =
  bb_minimum :: "int option"
  bb_maximum :: "int option"
  bb_currency :: string
  bb_raw :: "string option"

definition budget_stated :: "budget_band \<Rightarrow> bool" where
  "budget_stated b \<longleftrightarrow> bb_minimum b \<noteq> None \<or> bb_maximum b \<noteq> None"

record location_requirement =
  lc_city :: "string option"
  lc_locality :: "string option"
  lc_pincode :: "string option"
  lc_latitude :: "rat option"
  lc_longitude :: "rat option"
  lc_max_travel_km :: "rat option"

definition has_coordinates :: "location_requirement \<Rightarrow> bool" where
  "has_coordinates l \<longleftrightarrow> lc_latitude l \<noteq> None \<and> lc_longitude l \<noteq> None"

definition stated :: "string option \<Rightarrow> bool" where
  "stated v \<longleftrightarrow> v \<noteq> None \<and> v \<noteq> Some []"

definition location_stated :: "location_requirement \<Rightarrow> bool" where
  "location_stated l \<longleftrightarrow> stated (lc_city l) \<or> stated (lc_locality l) \<or> stated (lc_pincode l) \<or> has_coordinates l"

record match_requirement =
  rq_schema_version :: string
  rq_conversation_id :: string
  rq_parent_ref :: "string option"
  rq_student_ref :: "string option"
  rq_lead_id :: "string option"
  rq_subject :: "string tracked option"
  rq_additional_subjects :: "string list"
  rq_topics :: "string list"
  rq_weak_topics :: "string list"
  rq_board :: "string tracked option"
  rq_student_class :: "string tracked option"
  rq_exam :: "string tracked option"
  rq_learning_goal :: "string tracked option"
  rq_teaching_style :: "string tracked option"
  rq_language :: "string tracked option"
  rq_gender :: "string tracked option"
  rq_explicit_tutor :: "string option"
  rq_mode :: "tuition_mode tracked option"
  rq_location :: location_requirement
  rq_schedule :: "weekly_schedule option"
  rq_timezone :: string
  rq_sessions_per_week :: "int option"
  rq_session_minutes :: "int option"
  rq_start_by :: "int option"
  rq_budget :: budget_band
  rq_urgency :: urgency
  rq_demo_requested :: bool
  rq_captured_at :: "instant option"
  rq_turn_count :: int

definition usable_for_hard_filter :: "'a tracked option \<Rightarrow> bool" where
  "usable_for_hard_filter field =
     (case field of
        None \<Rightarrow> False
      | Some t \<Rightarrow> tk_provenance t = USER_CONFIRMED \<or> tk_provenance t = DETERMINISTIC \<or>
                  tk_confidence t \<ge> HARD_FILTER_MIN_CONFIDENCE)"

definition value_of :: "'a tracked option \<Rightarrow> 'a option" where
  "value_of field = map_option tk_value field"

text \<open>\<open>tuple(dict.fromkeys(xs))\<close>: the first occurrence of each element, in order.\<close>

definition first_occurrences :: "'a list \<Rightarrow> 'a list" where
  "first_occurrences xs = foldl (\<lambda>seen x. if x \<in> set seen then seen else seen @ [x]) [] xs"

definition all_subjects :: "match_requirement \<Rightarrow> string list" where
  "all_subjects r =
     first_occurrences
       ((case value_of (rq_subject r) of None \<Rightarrow> [] | Some s \<Rightarrow> if s = [] then [] else [s]) @ rq_additional_subjects r)"

definition merge_tracked :: "'a tracked option \<Rightarrow> 'a tracked option \<Rightarrow> 'a tracked option" where
  "merge_tracked old new =
     (case new of None \<Rightarrow> old | Some n \<Rightarrow> if beats n old then Some n else old)"

definition merge_identity :: "string option \<Rightarrow> string option \<Rightarrow> string option" where
  "merge_identity old new = (if stated new then new else old)"

definition merge_tuple :: "string list \<Rightarrow> string list \<Rightarrow> string list" where
  "merge_tuple old new = first_occurrences (old @ new)"

text \<open>An optional number or date, truthy when present and not zero.\<close>

definition merge_number :: "int option \<Rightarrow> int option \<Rightarrow> int option" where
  "merge_number old new = (case new of None \<Rightarrow> old | Some n \<Rightarrow> if n = 0 then old else new)"

definition schedule_stated :: "weekly_schedule option \<Rightarrow> bool" where
  "schedule_stated s = (case s of None \<Rightarrow> False | Some w \<Rightarrow> ws_windows w \<noteq> [])"

definition merged_with :: "match_requirement \<Rightarrow> match_requirement \<Rightarrow> match_requirement" where
  "merged_with r other =
     \<lparr>rq_schema_version = rq_schema_version r,
      rq_conversation_id = (if rq_conversation_id other \<noteq> [] then rq_conversation_id other else rq_conversation_id r),
      rq_parent_ref = merge_identity (rq_parent_ref r) (rq_parent_ref other),
      rq_student_ref = merge_identity (rq_student_ref r) (rq_student_ref other),
      rq_lead_id = merge_identity (rq_lead_id r) (rq_lead_id other),
      rq_subject = merge_tracked (rq_subject r) (rq_subject other),
      rq_additional_subjects = merge_tuple (rq_additional_subjects r) (rq_additional_subjects other),
      rq_topics = merge_tuple (rq_topics r) (rq_topics other),
      rq_weak_topics = merge_tuple (rq_weak_topics r) (rq_weak_topics other),
      rq_board = merge_tracked (rq_board r) (rq_board other),
      rq_student_class = merge_tracked (rq_student_class r) (rq_student_class other),
      rq_exam = merge_tracked (rq_exam r) (rq_exam other),
      rq_learning_goal = merge_tracked (rq_learning_goal r) (rq_learning_goal other),
      rq_teaching_style = merge_tracked (rq_teaching_style r) (rq_teaching_style other),
      rq_language = merge_tracked (rq_language r) (rq_language other),
      rq_gender = merge_tracked (rq_gender r) (rq_gender other),
      rq_explicit_tutor = merge_identity (rq_explicit_tutor r) (rq_explicit_tutor other),
      rq_mode = merge_tracked (rq_mode r) (rq_mode other),
      rq_location = (if location_stated (rq_location other) then rq_location other else rq_location r),
      rq_schedule = (if schedule_stated (rq_schedule other) then rq_schedule other else rq_schedule r),
      rq_timezone = (if rq_timezone other \<noteq> [] then rq_timezone other else rq_timezone r),
      rq_sessions_per_week = merge_number (rq_sessions_per_week r) (rq_sessions_per_week other),
      rq_session_minutes = merge_number (rq_session_minutes r) (rq_session_minutes other),
      rq_start_by = (case rq_start_by other of None \<Rightarrow> rq_start_by r | Some d \<Rightarrow> Some d),
      rq_budget = (if budget_stated (rq_budget other) then rq_budget other else rq_budget r),
      rq_urgency = (if URGENCY_RANK (rq_urgency other) > URGENCY_RANK (rq_urgency r) then rq_urgency other
                    else rq_urgency r),
      rq_demo_requested = (rq_demo_requested r \<or> rq_demo_requested other),
      rq_captured_at = (case rq_captured_at other of None \<Rightarrow> rq_captured_at r | Some t \<Rightarrow> Some t),
      rq_turn_count = max (rq_turn_count r) (rq_turn_count other)\<rparr>"

section \<open>Tutors\<close>

record fee_band =
  fb_minimum :: "int option"
  fb_maximum :: "int option"
  fb_label :: "string option"
  fb_unit_known :: bool

definition fee_stated :: "fee_band \<Rightarrow> bool" where
  "fee_stated f \<longleftrightarrow> fb_minimum f \<noteq> None \<or> fb_maximum f \<noteq> None"

record geo_point =
  gp_latitude :: rat
  gp_longitude :: rat
  gp_granularity :: string
  gp_resolved_at :: "instant option"

record capabilities =
  cp_subjects :: "string list"
  cp_boards :: "string list"
  cp_classes :: "string list"
  cp_modes :: "tuition_mode list"

record review_aggregate =
  rv_count :: int
  rv_rating_avg :: "rat option"
  rv_expertise_avg :: "rat option"
  rv_patience_avg :: "rat option"
  rv_reliability_avg :: "rat option"
  rv_communication_avg :: "rat option"
  rv_latest_review_at :: "instant option"

record tutor_candidate =
  tu_id :: string
  tu_public_ref :: string
  tu_name :: string
  tu_gender :: "string option"
  tu_avatar_url :: "string option"
  tu_city :: "string option"
  tu_locality :: "string option"
  tu_district :: "string option"
  tu_state :: "string option"
  tu_pincode :: "string option"
  tu_geo :: "geo_point option"
  tu_travel_radius_km :: "rat option"
  tu_capabilities :: capabilities
  tu_experience_years :: "int option"
  tu_education :: "string option"
  tu_profile_summary :: "string option"
  tu_fee :: fee_band
  tu_reviews :: review_aggregate
  tu_availability :: "weekly_schedule option"
  tu_active_students :: "int option"
  tu_source_updated_at :: "instant option"
  tu_synced_at :: "instant option"
  tu_freshness :: freshness
  tu_projection_version :: int

definition has_availability_data :: "tutor_candidate \<Rightarrow> bool" where
  "has_availability_data t = (case tu_availability t of None \<Rightarrow> False | Some s \<Rightarrow> ws_windows s \<noteq> [])"

definition supports_mode :: "tutor_candidate \<Rightarrow> tuition_mode \<Rightarrow> bool" where
  "supports_mode t mode \<longleftrightarrow>
     cp_modes (tu_capabilities t) = [] \<or> mode = HYBRID \<or> mode \<in> set (cp_modes (tu_capabilities t))"

section \<open>Scores\<close>

datatype dimension =
  ACADEMIC | SUBJECT_EXPERTISE | AVAILABILITY | PROXIMITY | PERFORMANCE | PERSONALITY | NEGOTIATION
| REPLACEMENT_RISK

definition all_dimensions :: "dimension list" where
  "all_dimensions = [ACADEMIC, SUBJECT_EXPERTISE, AVAILABILITY, PROXIMITY, PERFORMANCE, PERSONALITY, NEGOTIATION,
     REPLACEMENT_RISK]"

fun dimension_value :: "dimension \<Rightarrow> string" where
  "dimension_value ACADEMIC = ''academic''"
| "dimension_value SUBJECT_EXPERTISE = ''subject_expertise''"
| "dimension_value AVAILABILITY = ''availability''"
| "dimension_value PROXIMITY = ''proximity''"
| "dimension_value PERFORMANCE = ''performance''"
| "dimension_value PERSONALITY = ''personality''"
| "dimension_value NEGOTIATION = ''negotiation''"
| "dimension_value REPLACEMENT_RISK = ''replacement_risk''"

datatype data_quality = QUALITY_OK | PARTIAL | INSUFFICIENT | MISSING | STALE

definition UNQUOTABLE_QUALITY :: "data_quality set" where
  "UNQUOTABLE_QUALITY = {MISSING, INSUFFICIENT, STALE}"

definition INTERNAL_ONLY_DIMENSIONS :: "dimension set" where
  "INTERNAL_ONLY_DIMENSIONS = {REPLACEMENT_RISK}"

record evidence =
  ev_source :: string
  ev_field :: string
  ev_value :: string
  ev_observed_at :: "instant option"

record skill_score =
  sk_dimension :: dimension
  sk_score :: rat
  sk_confidence :: rat
  sk_quality :: data_quality
  sk_evidence :: "evidence list"
  sk_flags :: "string list"
  sk_reasons :: "string list"

definition skill_score_ok :: "skill_score \<Rightarrow> bool" where
  "skill_score_ok s \<longleftrightarrow>
     0 \<le> sk_score s \<and> sk_score s \<le> 1 \<and> 0 \<le> sk_confidence s \<and> sk_confidence s \<le> 1 \<and>
     \<not> (sk_quality s = QUALITY_OK \<and> sk_evidence s = []) \<and>
     \<not> (sk_quality s = MISSING \<and> sk_evidence s \<noteq> []) \<and>
     \<not> (sk_quality s \<noteq> QUALITY_OK \<and> sk_confidence s > 85 / 100)"

definition quotable :: "skill_score \<Rightarrow> bool" where
  "quotable s \<longleftrightarrow> sk_quality s \<notin> UNQUOTABLE_QUALITY \<and> sk_evidence s \<noteq> []"

record scored_candidate =
  sc_tutor_id :: string
  sc_public_ref :: string
  sc_pseudonym :: string
  sc_scores :: "(dimension, skill_score) odict"
  sc_final_score :: rat
  sc_weight_coverage :: rat
  sc_confidence :: rat
  sc_freshness :: freshness
  sc_flags :: "string list"

definition quotable_scores :: "scored_candidate \<Rightarrow> skill_score list" where
  "quotable_scores c =
     map snd (filter (\<lambda>(d, s). quotable s \<and> d \<notin> INTERNAL_ONLY_DIMENSIONS) (sc_scores c))"

section \<open>The policy document\<close>

record negotiation_strategy =
  ns_code :: string
  ns_applies_up_to_ratio :: rat
  ns_requires_approval :: bool

record negotiation_policy =
  np_max_over_budget_ratio :: rat
  np_within_budget_score :: rat
  np_overload_active_students :: int
  np_strategies :: "negotiation_strategy list"

definition strategy_for :: "negotiation_policy \<Rightarrow> rat \<Rightarrow> negotiation_strategy option" where
  "strategy_for p ratio =
     (case sort_key ns_applies_up_to_ratio (filter (\<lambda>s. ratio \<le> ns_applies_up_to_ratio s) (np_strategies p)) of
        [] \<Rightarrow> None
      | s # _ \<Rightarrow> Some s)"

record proximity_policy =
  pp_default_travel_radius_km :: "(string, rat) odict"
  pp_max_useful_distance_km :: rat
  pp_coarse_match_score :: rat
  pp_max_travel_minutes :: int

definition radius_for :: "proximity_policy \<Rightarrow> string \<Rightarrow> rat" where
  "radius_for p tier =
     (case dict_get (pp_default_travel_radius_km p) tier of
        Some r \<Rightarrow> r
      | None \<Rightarrow> (case dict_get (pp_default_travel_radius_km p) ''default'' of Some r \<Rightarrow> r | None \<Rightarrow> 15))"

record diversity_policy =
  dp_enabled :: bool
  dp_max_same_locality :: nat
  dp_max_score_sacrifice :: rat

record thresholds =
  th_min_final_score :: rat
  th_shortlist_size :: nat
  th_candidate_pool_limit :: nat
  th_min_weight_coverage :: rat
  th_min_dimension_confidence :: rat
  th_neutral_score :: rat

record scoring_policy =
  sp_policy_id :: string
  sp_version :: string
  sp_weights :: "(dimension, rat) odict"
  sp_thresholds :: thresholds
  sp_proximity :: proximity_policy
  sp_negotiation :: negotiation_policy
  sp_diversity :: diversity_policy
  sp_checksum :: string

definition WEIGHT_TOLERANCE :: rat where
  "WEIGHT_TOLERANCE = 1 / 1000000"

text \<open>\<open>_validate_weights\<close> and the ranges of the thresholds.\<close>

definition weights_ok :: "scoring_policy \<Rightarrow> bool" where
  "weights_ok p \<longleftrightarrow>
     list_all (\<lambda>d. dict_get (sp_weights p) d \<noteq> None) all_dimensions \<and>
     \<not> \<bar>sum_list (dict_values (sp_weights p)) - 1\<bar> > WEIGHT_TOLERANCE \<and>
     \<not> list_ex (\<lambda>w. w < 0) (dict_values (sp_weights p))"

definition thresholds_ok :: "thresholds \<Rightarrow> bool" where
  "thresholds_ok t \<longleftrightarrow>
     0 \<le> th_min_final_score t \<and> th_min_final_score t \<le> 1 \<and> 1 \<le> th_shortlist_size t \<and> th_shortlist_size t \<le> 5 \<and>
     1 \<le> th_candidate_pool_limit t \<and> th_candidate_pool_limit t \<le> 500 \<and>
     0 \<le> th_min_weight_coverage t \<and> th_min_weight_coverage t \<le> 1 \<and>
     0 \<le> th_min_dimension_confidence t \<and> th_min_dimension_confidence t \<le> 1 \<and>
     0 \<le> th_neutral_score t \<and> th_neutral_score t \<le> 1"

record evaluation_context =
  cx_requirement :: match_requirement
  cx_policy :: scoring_policy
  cx_now :: instant

section \<open>Merging\<close>

text \<open>How far a tracked value is to be trusted: its rank, then its confidence.\<close>

definition trust :: "'a tracked \<Rightarrow> int \<times> rat" where
  "trust t = (PROVENANCE_RANK (tk_provenance t), tk_confidence t)"

definition more_trusted :: "'a tracked \<Rightarrow> 'a tracked \<Rightarrow> bool" where
  "more_trusted t u \<longleftrightarrow>
     PROVENANCE_RANK (tk_provenance u) < PROVENANCE_RANK (tk_provenance t) \<or>
     (PROVENANCE_RANK (tk_provenance u) = PROVENANCE_RANK (tk_provenance t) \<and> tk_confidence u < tk_confidence t)"

lemma beats_not_less: "beats n (Some t) \<Longrightarrow> \<not> more_trusted t n"
  by (auto simp: beats_def more_trusted_def Let_def split: if_splits option.splits)

lemma not_beats_not_less: "\<not> beats n (Some t) \<Longrightarrow> \<not> more_trusted n t"
  by (auto simp: beats_def more_trusted_def Let_def split: if_splits option.splits)

lemma more_trusted_trans: "\<not> more_trusted u t \<Longrightarrow> \<not> more_trusted v u \<Longrightarrow> \<not> more_trusted v t"
  by (auto simp: more_trusted_def)

definition string_fields :: "(match_requirement \<Rightarrow> string tracked option) list" where
  "string_fields = [rq_subject, rq_board, rq_student_class, rq_exam, rq_learning_goal, rq_teaching_style, rq_language,
     rq_gender]"

lemma merged_fields:
  "f \<in> set string_fields \<Longrightarrow> f (merged_with r other) = merge_tracked (f r) (f other)"
  "rq_mode (merged_with r other) = merge_tracked (rq_mode r) (rq_mode other)"
  by (auto simp: string_fields_def merged_with_def)

lemma fold_merge_tracked:
  fixes f :: "'r \<Rightarrow> 'a tracked option"
  assumes "\<And>r other. f (m r other) = merge_tracked (f r) (f other)"
  shows "case f (foldl m r rs) of
     None \<Rightarrow> \<forall>x\<in>set (r # rs). f x = None
   | Some t \<Rightarrow> Some t \<in> f ` set (r # rs) \<and> (\<forall>x\<in>set (r # rs). \<forall>u. f x = Some u \<longrightarrow> \<not> more_trusted u t)"
proof (induction rs rule: rev_induct)
  case Nil
  then show ?case by (auto simp: more_trusted_def split: option.split)
next
  case (snoc x rs)
  let ?old = "f (foldl m r rs)"
  have step: "f (foldl m r (rs @ [x])) = merge_tracked ?old (f x)" using assms by simp
  show ?case
  proof (cases "f x")
    case None
    then show ?thesis using snoc step by (auto simp: merge_tracked_def split: option.splits)
  next
    case (Some n)
    show ?thesis
    proof (cases ?old)
      case None
      then show ?thesis
        using snoc step Some by (auto simp: merge_tracked_def beats_def more_trusted_def)
    next
      case old: (Some t)
      have t: "Some t \<in> f ` set (r # rs)" "\<forall>x\<in>set (r # rs). \<forall>u. f x = Some u \<longrightarrow> \<not> more_trusted u t"
        using snoc old by auto
      show ?thesis
      proof (cases "beats n (Some t)")
        case True
        have "\<not> more_trusted u n" if "y \<in> set (r # rs @ [x])" "f y = Some u" for y u
        proof (cases "y = x")
          case True
          then show ?thesis using that Some by (simp add: more_trusted_def)
        next
          case False
          then have "\<not> more_trusted u t" using that t(2) by auto
          then show ?thesis using beats_not_less [OF \<open>beats n (Some t)\<close>] more_trusted_trans by blast
        qed
        moreover have "f (foldl m r (rs @ [x])) = Some n" using step Some old True by (simp add: merge_tracked_def)
        ultimately show ?thesis using Some by force
      next
        case False
        have "f (foldl m r (rs @ [x])) = Some t" using step Some old False by (simp add: merge_tracked_def)
        then show ?thesis using t Some not_beats_not_less [OF False] by auto
      qed
    qed
  qed
qed

lemma merged_intent:
  "URGENCY_RANK (rq_urgency (merged_with r other)) = max (URGENCY_RANK (rq_urgency r)) (URGENCY_RANK (rq_urgency other))"
  "rq_demo_requested (merged_with r other) \<longleftrightarrow> rq_demo_requested r \<or> rq_demo_requested other"
  by (auto simp: merged_with_def)

lemma fold_merged_urgency:
  "URGENCY_RANK (rq_urgency (foldl merged_with r rs)) = Max (URGENCY_RANK ` rq_urgency ` set (r # rs)) \<and>
   (rq_demo_requested (foldl merged_with r rs) \<longleftrightarrow> (\<exists>x\<in>set (r # rs). rq_demo_requested x))"
proof (induction rs rule: rev_induct)
  case (snoc x rs)
  have "URGENCY_RANK ` rq_urgency ` set (r # rs @ [x])
      = insert (URGENCY_RANK (rq_urgency x)) (URGENCY_RANK ` rq_urgency ` set (r # rs))"
    by auto
  then have "Max (URGENCY_RANK ` rq_urgency ` set (r # rs @ [x]))
      = max (URGENCY_RANK (rq_urgency x)) (Max (URGENCY_RANK ` rq_urgency ` set (r # rs)))"
    using Max_insert [of "URGENCY_RANK ` rq_urgency ` set (r # rs)" "URGENCY_RANK (rq_urgency x)"] by simp
  then show ?case using snoc by (auto simp: merged_intent max.commute)
qed simp

text \<open>(C34) Merging turns respects trust. After any number of turns, whatever order they came in, each tracked
  field holds a value some turn supplied and no turn supplied a more trusted one (a higher provenance,
  or the same with more confidence): a model's guess never replaces what the parent said. A field is
  empty only if no turn filled it, a demo once requested stays requested, and urgency only ratchets up.\<close>

theorem merging_respects_trust:
  assumes "f \<in> set string_fields"
  shows "(case f (foldl merged_with r rs) of
       None \<Rightarrow> \<forall>x\<in>set (r # rs). f x = None
     | Some t \<Rightarrow> Some t \<in> f ` set (r # rs) \<and> (\<forall>x\<in>set (r # rs). \<forall>u. f x = Some u \<longrightarrow> \<not> more_trusted u t)) \<and>
    (case rq_mode (foldl merged_with r rs) of
       None \<Rightarrow> \<forall>x\<in>set (r # rs). rq_mode x = None
     | Some t \<Rightarrow> Some t \<in> rq_mode ` set (r # rs) \<and>
         (\<forall>x\<in>set (r # rs). \<forall>u. rq_mode x = Some u \<longrightarrow> \<not> more_trusted u t)) \<and>
    URGENCY_RANK (rq_urgency (foldl merged_with r rs)) = Max (URGENCY_RANK ` rq_urgency ` set (r # rs)) \<and>
    (rq_demo_requested (foldl merged_with r rs) \<longleftrightarrow> (\<exists>x\<in>set (r # rs). rq_demo_requested x))"
  using fold_merge_tracked [of f merged_with, OF merged_fields(1) [OF assms]]
    fold_merge_tracked [of rq_mode merged_with, OF merged_fields(2)] fold_merged_urgency
  by blast

definition said :: "string \<Rightarrow> string tracked option" where
  "said v = Some \<lparr>tk_value = v, tk_confidence = 9 / 10, tk_provenance = DETERMINISTIC, tk_observed_at = Some 1\<rparr>"

definition guessed :: "'a \<Rightarrow> 'a tracked option" where
  "guessed v = Some \<lparr>tk_value = v, tk_confidence = 1, tk_provenance = LLM, tk_observed_at = Some 2\<rparr>"

definition blank_requirement :: match_requirement where
  "blank_requirement =
     \<lparr>rq_schema_version = ''1.0'', rq_conversation_id = ''c'', rq_parent_ref = None, rq_student_ref = None,
      rq_lead_id = None, rq_subject = None, rq_additional_subjects = [], rq_topics = [], rq_weak_topics = [],
      rq_board = None, rq_student_class = None, rq_exam = None, rq_learning_goal = None, rq_teaching_style = None,
      rq_language = None, rq_gender = None, rq_explicit_tutor = None, rq_mode = None,
      rq_location = \<lparr>lc_city = None, lc_locality = None, lc_pincode = None, lc_latitude = None,
        lc_longitude = None, lc_max_travel_km = None\<rparr>,
      rq_schedule = None, rq_timezone = ''Asia/Kolkata'', rq_sessions_per_week = None, rq_session_minutes = None,
      rq_start_by = None, rq_budget = \<lparr>bb_minimum = None, bb_maximum = None, bb_currency = ''INR'', bb_raw = None\<rparr>,
      rq_urgency = STANDARD, rq_demo_requested = False, rq_captured_at = None, rq_turn_count = 0\<rparr>"

theorem merging_respects_trust_witness:
  "rq_board (foldl merged_with (blank_requirement\<lparr>rq_board := said ''CBSE''\<rparr>)
      [blank_requirement\<lparr>rq_board := guessed ''ICSE'', rq_urgency := URGENT\<rparr>, blank_requirement]) = said ''CBSE'' \<and>
   URGENCY_RANK (rq_urgency (foldl merged_with (blank_requirement\<lparr>rq_board := said ''CBSE''\<rparr>)
      [blank_requirement\<lparr>rq_board := guessed ''ICSE'', rq_urgency := URGENT\<rparr>, blank_requirement])) = 2"
proof
  let ?r = "blank_requirement\<lparr>rq_board := said ''CBSE''\<rparr>"
    and ?g = "blank_requirement\<lparr>rq_board := guessed ''ICSE'', rq_urgency := URGENT\<rparr>"
  have f: "rq_board \<in> set string_fields" by (simp add: string_fields_def)
  note t = merging_respects_trust [OF f, of ?r "[?g, blank_requirement]"]
  have "rq_board (foldl merged_with ?r [?g, blank_requirement]) \<noteq> None"
    using t by (auto simp: said_def split: option.splits)
  then obtain v where v: "rq_board (foldl merged_with ?r [?g, blank_requirement]) = Some v" by blast
  then have "Some v \<in> {said ''CBSE'', guessed ''ICSE''}" "\<not> more_trusted (the (said ''CBSE'')) v"
    using t by (auto simp: blank_requirement_def said_def)
  then show "rq_board (foldl merged_with ?r [?g, blank_requirement]) = said ''CBSE''"
    using v by (auto simp: more_trusted_def said_def guessed_def)
  show "URGENCY_RANK (rq_urgency (foldl merged_with ?r [?g, blank_requirement])) = 2"
    using t by (simp add: blank_requirement_def)
qed

definition sample_tutor :: "string \<Rightarrow> string option \<Rightarrow> tutor_candidate" where
  "sample_tutor i city =
     \<lparr>tu_id = i, tu_public_ref = i, tu_name = ''A'', tu_gender = None, tu_avatar_url = None, tu_city = city,
      tu_locality = None, tu_district = None, tu_state = None, tu_pincode = None, tu_geo = None,
      tu_travel_radius_km = None,
      tu_capabilities = \<lparr>cp_subjects = [], cp_boards = [], cp_classes = [], cp_modes = []\<rparr>,
      tu_experience_years = None, tu_education = None, tu_profile_summary = None,
      tu_fee = \<lparr>fb_minimum = None, fb_maximum = None, fb_label = None, fb_unit_known = False\<rparr>,
      tu_reviews = \<lparr>rv_count = 0, rv_rating_avg = None, rv_expertise_avg = None, rv_patience_avg = None,
        rv_reliability_avg = None, rv_communication_avg = None, rv_latest_review_at = None\<rparr>,
      tu_availability = None, tu_active_students = None, tu_source_updated_at = None, tu_synced_at = None,
      tu_freshness = FRESH, tu_projection_version = 1\<rparr>"

end
