(* ===== verification/TutorFilters.thy ===== *)
theory TutorFilters
  imports TutorContracts
begin

text \<open>
  matching/hard_filters.py: the ten rules, their order, \<open>apply\<close> and the summary of the rejections, with
  the distance of domain/localities.py and the radius check of matching/proximity. A rejection's detail is
  kept as the values its text is printed from.
\<close>

datatype rejection_detail =
    StaleProjection freshness | DoesNotTeach string | DoesNotOffer tuition_mode | CityDiffers string string
  | OutsideRadius | FeeRatio int int | GenderDiffers string | OtherTutorRequested

record rejection =
  rj_tutor_id :: string
  rj_rule :: string
  rj_detail :: rejection_detail

type_synonym filter_rule = "tutor_candidate \<Rightarrow> evaluation_context \<Rightarrow> rejection_detail option"

record filter_outcome =
  fo_survivors :: "tutor_candidate list"
  fo_rejections :: "rejection list"

definition nonempty :: "string option \<Rightarrow> string option" where
  "nonempty v = (if stated v then v else None)"

section \<open>Distance\<close>

definition EARTH_RADIUS_KM :: real where
  "EARTH_RADIUS_KM = 63710088 / 10000"

definition radians :: "real \<Rightarrow> real" where
  "radians d = d * pi / 180"

definition haversine_km :: "rat \<times> rat \<Rightarrow> rat \<times> rat \<Rightarrow> real" where
  "haversine_km a b =
     (let lat1 = radians (of_rat (fst a)); lon1 = radians (of_rat (snd a));
          lat2 = radians (of_rat (fst b)); lon2 = radians (of_rat (snd b));
          dlat = lat2 - lat1; dlon = lon2 - lon1;
          h = (sin (dlat / 2))\<^sup>2 + cos lat1 * cos lat2 * (sin (dlon / 2))\<^sup>2
      in 2 * EARTH_RADIUS_KM * arcsin (sqrt h))"

fun tier_value :: "city_tier \<Rightarrow> string" where
  "tier_value METRO = ''metro''"
| "tier_value TIER2 = ''tier2''"
| "tier_value DEFAULT_TIER = ''default''"

definition effective_radius :: "tutor_candidate \<Rightarrow> evaluation_context \<Rightarrow> rat" where
  "effective_radius t cx =
     (let tier = city_tier_of (if stated (tu_city t) then tu_city t else lc_city (rq_location (cx_requirement cx)));
          tutor_radius = (case tu_travel_radius_km t of
                            Some r \<Rightarrow> if r \<noteq> 0 then r else radius_for (sp_proximity (cx_policy cx)) (tier_value tier)
                          | None \<Rightarrow> radius_for (sp_proximity (cx_policy cx)) (tier_value tier))
      in case lc_max_travel_km (rq_location (cx_requirement cx)) of
           None \<Rightarrow> tutor_radius
         | Some limit \<Rightarrow> if limit \<noteq> 0 then min tutor_radius limit else tutor_radius)"

definition clamp :: "'a::linorder \<Rightarrow> 'a \<Rightarrow> 'a \<Rightarrow> 'a" where
  "clamp v low high = max low (min high v)"

definition within_radius :: "tutor_candidate \<Rightarrow> evaluation_context \<Rightarrow> bool option" where
  "within_radius t cx =
     (let loc = rq_location (cx_requirement cx)
      in case (lc_latitude loc, lc_longitude loc, tu_geo t) of
           (Some lat, Some lon, Some g) \<Rightarrow>
             Some (haversine_km (lat, lon) (gp_latitude g, gp_longitude g)
                     \<le> of_rat (clamp (effective_radius t cx * (3 / 2)) 1 100))
         | _ \<Rightarrow> None)"

section \<open>The rules\<close>

definition active_tutor :: filter_rule where
  "active_tutor t cx = (if tu_freshness t \<notin> RECOMMENDABLE_FRESHNESS then Some (StaleProjection (tu_freshness t)) else None)"

definition subject_supported :: filter_rule where
  "subject_supported t cx =
     (let f = rq_subject (cx_requirement cx)
      in if \<not> usable_for_hard_filter f then None
         else case nonempty (value_of f) of
                None \<Rightarrow> None
              | Some required \<Rightarrow>
                  if cp_subjects (tu_capabilities t) = [] then None
                  else if matches_any_subject required (cp_subjects (tu_capabilities t)) then None
                  else Some (DoesNotTeach required))"

definition class_supported :: filter_rule where
  "class_supported t cx =
     (let f = rq_student_class (cx_requirement cx)
      in if \<not> usable_for_hard_filter f then None
         else case nonempty (value_of f) of
                None \<Rightarrow> None
              | Some required \<Rightarrow>
                  if cp_classes (tu_capabilities t) = [] then None
                  else if teaches_class (Some required) (cp_classes (tu_capabilities t)) then None
                  else Some (DoesNotTeach required))"

definition board_supported :: filter_rule where
  "board_supported t cx =
     (let f = rq_board (cx_requirement cx)
      in if \<not> usable_for_hard_filter f then None
         else case normalize_board (value_of f) of
                None \<Rightarrow> None
              | Some required \<Rightarrow>
                  if cp_boards (tu_capabilities t) = [] then None
                  else let grade = class_number (value_of (rq_student_class (cx_requirement cx)))
                       in if \<not> board_is_mandatory (Some required) grade then None
                          else if Some required \<in> set (map (\<lambda>b. normalize_board (Some b)) (cp_boards (tu_capabilities t)))
                          then None else Some (DoesNotTeach required))"

definition mode_supported :: filter_rule where
  "mode_supported t cx =
     (let f = rq_mode (cx_requirement cx)
      in if \<not> usable_for_hard_filter f then None
         else case value_of f of
                None \<Rightarrow> None
              | Some required \<Rightarrow> if supports_mode t required then None else Some (DoesNotOffer required))"

definition city_reachable :: filter_rule where
  "city_reachable t cx =
     (let r = cx_requirement cx
      in if value_of (rq_mode r) \<noteq> Some HOME then None
         else case (nonempty (lc_city (rq_location r)), nonempty (tu_city t)) of
                (Some parent_city, Some city) \<Rightarrow>
                  if same_city (Some parent_city) (Some city) then None else Some (CityDiffers city parent_city)
              | _ \<Rightarrow> None)"

definition within_travel_radius :: filter_rule where
  "within_travel_radius t cx =
     (if value_of (rq_mode (cx_requirement cx)) \<noteq> Some HOME then None
      else if within_radius t cx = None \<or> within_radius t cx = Some True then None
      else Some OutsideRadius)"

definition fee_within_negotiable_range :: filter_rule where
  "fee_within_negotiable_range t cx =
     (case (bb_maximum (rq_budget (cx_requirement cx)), fb_minimum (tu_fee t)) of
        (Some most, Some least) \<Rightarrow>
          if most \<le> 0 then None
          else if (of_int least / of_int most :: rat) \<le> np_max_over_budget_ratio (sp_negotiation (cx_policy cx)) then None
          else Some (FeeRatio least most)
      | _ \<Rightarrow> None)"

definition gender_if_requested :: filter_rule where
  "gender_if_requested t cx =
     (let f = rq_gender (cx_requirement cx)
      in if \<not> usable_for_hard_filter f then None
         else let wanted = lower (strip (case value_of f of None \<Rightarrow> [] | Some g \<Rightarrow> g))
              in if wanted \<notin> {''male'', ''female''} then None
                 else case nonempty (tu_gender t) of
                        None \<Rightarrow> None
                      | Some g \<Rightarrow> if lower (strip g) = wanted then None else Some (GenderDiffers wanted))"

definition explicit_tutor_request :: filter_rule where
  "explicit_tutor_request t cx =
     (case nonempty (rq_explicit_tutor (cx_requirement cx)) of
        None \<Rightarrow> None
      | Some wanted \<Rightarrow> if tu_public_ref t = wanted then None else Some OtherTutorRequested)"

definition FILTER_RULES :: "(string \<times> filter_rule) list" where
  "FILTER_RULES =
    [(''ACTIVE_TUTOR'', active_tutor),
     (''EXPLICIT_TUTOR_REQUEST'', explicit_tutor_request),
     (''SUBJECT_SUPPORTED'', subject_supported),
     (''CLASS_SUPPORTED'', class_supported),
     (''BOARD_SUPPORTED'', board_supported),
     (''MODE_SUPPORTED'', mode_supported),
     (''GENDER_IF_REQUESTED'', gender_if_requested),
     (''CITY_REACHABLE'', city_reachable),
     (''FEE_NEGOTIABLE'', fee_within_negotiable_range),
     (''WITHIN_TRAVEL_RADIUS'', within_travel_radius)]"

section \<open>Applying them\<close>

text \<open>The inner loop: the first rule that rejects.\<close>

fun first_rejection :: "(string \<times> filter_rule) list \<Rightarrow> tutor_candidate \<Rightarrow> evaluation_context \<Rightarrow> rejection option" where
  "first_rejection [] t cx = None"
| "first_rejection ((name, rule) # rules) t cx =
     (case rule t cx of
        Some detail \<Rightarrow> Some \<lparr>rj_tutor_id = tu_id t, rj_rule = name, rj_detail = detail\<rparr>
      | None \<Rightarrow> first_rejection rules t cx)"

fun filter_loop ::
  "(string \<times> filter_rule) list \<Rightarrow> evaluation_context \<Rightarrow> tutor_candidate list \<Rightarrow> rejection list
     \<Rightarrow> tutor_candidate list \<Rightarrow> filter_outcome" where
  "filter_loop rules cx survivors rejections [] = \<lparr>fo_survivors = survivors, fo_rejections = rejections\<rparr>"
| "filter_loop rules cx survivors rejections (t # ts) =
     (case first_rejection rules t cx of
        Some r \<Rightarrow> filter_loop rules cx survivors (rejections @ [r]) ts
      | None \<Rightarrow> filter_loop rules cx (survivors @ [t]) rejections ts)"

definition apply_filters :: "tutor_candidate list \<Rightarrow> evaluation_context \<Rightarrow> filter_outcome" where
  "apply_filters candidates cx = filter_loop FILTER_RULES cx [] [] candidates"

definition rejection_summary :: "rejection list \<Rightarrow> (string, int) odict" where
  "rejection_summary rejections =
     sort_key (\<lambda>(rule, n). - n)
       (foldl (\<lambda>counts r. dict_set counts (rj_rule r)
                 ((case dict_get counts (rj_rule r) of None \<Rightarrow> 0 | Some n \<Rightarrow> n) + 1)) [] rejections)"

section \<open>What they promise\<close>

lemma filter_loop_eq:
  "filter_loop rules cx sv rj ts =
     \<lparr>fo_survivors = sv @ filter (\<lambda>t. first_rejection rules t cx = None) ts,
      fo_rejections = rj @ List.map_filter (\<lambda>t. first_rejection rules t cx) ts\<rparr>"
  by (induction rules cx sv rj ts rule: filter_loop.induct) (auto simp: List.map_filter_simps split: option.split)

lemma first_rejection_None: "first_rejection rules t cx = None \<longleftrightarrow> (\<forall>p\<in>set rules. snd p t cx = None)"
  by (induction rules t cx rule: first_rejection.induct) (auto split: option.split)

lemma first_rejection_Some:
  "first_rejection rules t cx = Some r \<longleftrightarrow>
     (\<exists>before name rule after d. rules = before @ (name, rule) # after \<and> (\<forall>(n, q)\<in>set before. q t cx = None) \<and>
        rule t cx = Some d \<and> r = \<lparr>rj_tutor_id = tu_id t, rj_rule = name, rj_detail = d\<rparr>)"
proof (induction rules t cx rule: first_rejection.induct)
  case (2 name rule rules t cx)
  show ?case
  proof (cases "rule t cx")
    case None
    have "(\<exists>before nm rl after d. rules = before @ (nm, rl) # after \<and> (\<forall>(n, q)\<in>set before. q t cx = None) \<and>
          rl t cx = Some d \<and> r = \<lparr>rj_tutor_id = tu_id t, rj_rule = nm, rj_detail = d\<rparr>) \<longleftrightarrow>
        (\<exists>before nm rl after d. (name, rule) # rules = before @ (nm, rl) # after \<and> (\<forall>(n, q)\<in>set before. q t cx = None) \<and>
          rl t cx = Some d \<and> r = \<lparr>rj_tutor_id = tu_id t, rj_rule = nm, rj_detail = d\<rparr>)"
      (is "?L \<longleftrightarrow> ?R")
    proof
      assume ?L
      then obtain b nm rl a d where "rules = b @ (nm, rl) # a" "\<forall>(n, q)\<in>set b. q t cx = None" "rl t cx = Some d"
        "r = \<lparr>rj_tutor_id = tu_id t, rj_rule = nm, rj_detail = d\<rparr>" by blast
      then show ?R using None by (intro exI [of _ "(name, rule) # b"] exI [of _ nm] exI [of _ rl] exI [of _ a] exI [of _ d]) simp
    next
      assume ?R
      then obtain b nm rl a d where b: "(name, rule) # rules = b @ (nm, rl) # a" "\<forall>(n, q)\<in>set b. q t cx = None"
        "rl t cx = Some d" "r = \<lparr>rj_tutor_id = tu_id t, rj_rule = nm, rj_detail = d\<rparr>" by blast
      then obtain b' where "b = (name, rule) # b'" using None by (cases b) auto
      then show ?L using b by auto
    qed
    then show ?thesis using 2 None by simp
  next
    case (Some d)
    show ?thesis
    proof
      assume "first_rejection ((name, rule) # rules) t cx = Some r"
      then show "\<exists>before nm rl after d. (name, rule) # rules = before @ (nm, rl) # after \<and> (\<forall>(n, q)\<in>set before. q t cx = None) \<and>
          rl t cx = Some d \<and> r = \<lparr>rj_tutor_id = tu_id t, rj_rule = nm, rj_detail = d\<rparr>"
        using Some by (intro exI [of _ "[]"] exI [of _ name] exI [of _ rule] exI [of _ rules] exI [of _ d]) auto
    next
      assume "\<exists>before nm rl after d. (name, rule) # rules = before @ (nm, rl) # after \<and> (\<forall>(n, q)\<in>set before. q t cx = None) \<and>
          rl t cx = Some d \<and> r = \<lparr>rj_tutor_id = tu_id t, rj_rule = nm, rj_detail = d\<rparr>"
      then obtain b nm rl a d' where b: "(name, rule) # rules = b @ (nm, rl) # a" "\<forall>(n, q)\<in>set b. q t cx = None"
        "rl t cx = Some d'" "r = \<lparr>rj_tutor_id = tu_id t, rj_rule = nm, rj_detail = d'\<rparr>" by blast
      then have "b = []" using Some by (cases b) auto
      then show "first_rejection ((name, rule) # rules) t cx = Some r" using b Some by simp
    qed
  qed
qed simp

text \<open>The hard filters partition the pool and explain themselves. The survivors are exactly the
  candidates no rule rejects, in their order; every other candidate has exactly one rejection, in order,
  which names the first rule that rejects it and that rule's own detail.\<close>

theorem filters_partition_the_pool:
  "fo_survivors (apply_filters ts cx) = filter (\<lambda>t. \<forall>p\<in>set FILTER_RULES. snd p t cx = None) ts \<and>
   map rj_tutor_id (fo_rejections (apply_filters ts cx))
     = map tu_id (filter (\<lambda>t. \<exists>p\<in>set FILTER_RULES. snd p t cx \<noteq> None) ts) \<and>
   (\<forall>r\<in>set (fo_rejections (apply_filters ts cx)).
      \<exists>t\<in>set ts. \<exists>before rule after d. FILTER_RULES = before @ (rj_rule r, rule) # after \<and> rj_tutor_id r = tu_id t \<and>
        (\<forall>(n, q)\<in>set before. q t cx = None) \<and> rule t cx = Some d \<and> rj_detail r = d)"
proof (intro conjI ballI)
  show "fo_survivors (apply_filters ts cx) = filter (\<lambda>t. \<forall>p\<in>set FILTER_RULES. snd p t cx = None) ts"
    by (simp add: apply_filters_def filter_loop_eq first_rejection_None)
  have "map rj_tutor_id (List.map_filter (\<lambda>t. first_rejection FILTER_RULES t cx) ts)
      = map tu_id (filter (\<lambda>t. first_rejection FILTER_RULES t cx \<noteq> None) ts)"
  proof (induction ts)
    case (Cons t ts)
    show ?case
    proof (cases "first_rejection FILTER_RULES t cx")
      case (Some r)
      then have "rj_tutor_id r = tu_id t" by (auto simp: first_rejection_Some)
      then show ?thesis using Some Cons by (simp add: List.map_filter_simps)
    qed (use Cons in \<open>simp add: List.map_filter_simps\<close>)
  qed (simp add: List.map_filter_simps)
  moreover have "first_rejection FILTER_RULES t cx \<noteq> None \<longleftrightarrow> (\<exists>p\<in>set FILTER_RULES. snd p t cx \<noteq> None)" for t
    by (simp add: first_rejection_None)
  ultimately show "map rj_tutor_id (fo_rejections (apply_filters ts cx))
     = map tu_id (filter (\<lambda>t. \<exists>p\<in>set FILTER_RULES. snd p t cx \<noteq> None) ts)"
    by (simp add: apply_filters_def filter_loop_eq)
  fix r
  assume "r \<in> set (fo_rejections (apply_filters ts cx))"
  then obtain t where "t \<in> set ts" "first_rejection FILTER_RULES t cx = Some r"
    by (auto simp: apply_filters_def filter_loop_eq List.map_filter_def)
  then show "\<exists>t\<in>set ts. \<exists>before rule after d. FILTER_RULES = before @ (rj_rule r, rule) # after \<and> rj_tutor_id r = tu_id t \<and>
        (\<forall>(n, q)\<in>set before. q t cx = None) \<and> rule t cx = Some d \<and> rj_detail r = d"
    by (fastforce simp: first_rejection_Some)
qed

text \<open>A tutor whose optional data is all absent.\<close>

definition silent :: "tutor_candidate \<Rightarrow> bool" where
  "silent t \<longleftrightarrow>
     tu_capabilities t = \<lparr>cp_subjects = [], cp_boards = [], cp_classes = [], cp_modes = []\<rparr> \<and>
     \<not> stated (tu_city t) \<and> \<not> stated (tu_gender t) \<and> fb_minimum (tu_fee t) = None \<and> tu_geo t = None"

text \<open>Silence is no contradiction. A tutor whose projection is fresh enough and who is the one asked for,
  if one was, survives every request when subjects, boards, classes, modes, city, gender, fee and place
  are all unknown.\<close>

theorem silence_is_no_contradiction:
  assumes "silent t" and "tu_freshness t \<in> RECOMMENDABLE_FRESHNESS" and "t \<in> set ts"
    and "stated (rq_explicit_tutor (cx_requirement cx)) \<longrightarrow> rq_explicit_tutor (cx_requirement cx) = Some (tu_public_ref t)"
  shows "t \<in> set (fo_survivors (apply_filters ts cx))"
proof -
  note t = assms(1,2,4) [unfolded silent_def]
  have "active_tutor t cx = None" using t by (simp add: active_tutor_def)
  moreover have "explicit_tutor_request t cx = None"
    using t by (auto simp: explicit_tutor_request_def nonempty_def split: option.split)
  moreover have "subject_supported t cx = None" "class_supported t cx = None" "board_supported t cx = None"
    using t by (simp_all add: subject_supported_def class_supported_def board_supported_def Let_def split: option.split)
  moreover have "mode_supported t cx = None"
    using t by (simp add: mode_supported_def supports_mode_def Let_def split: option.split)
  moreover have "gender_if_requested t cx = None"
    using t by (simp add: gender_if_requested_def nonempty_def Let_def)
  moreover have "city_reachable t cx = None" using t by (simp add: city_reachable_def nonempty_def Let_def split: option.split)
  moreover have "fee_within_negotiable_range t cx = None"
    using t by (simp add: fee_within_negotiable_range_def split: option.split)
  moreover have "within_travel_radius t cx = None"
    using t by (simp add: within_travel_radius_def within_radius_def Let_def split: option.split)
  ultimately have "\<forall>p\<in>set FILTER_RULES. snd p t cx = None" by (simp add: FILTER_RULES_def)
  then show ?thesis using assms(3) by (simp add: apply_filters_def filter_loop_eq first_rejection_None)
qed

definition rejecting_rules :: "tutor_candidate list \<Rightarrow> evaluation_context \<Rightarrow> string set" where
  "rejecting_rules ts cx = rj_rule ` set (fo_rejections (apply_filters ts cx))"

lemma rejection_rule:
  "first_rejection rules t cx = Some r \<Longrightarrow> \<exists>rule. (rj_rule r, rule) \<in> set rules \<and> rule t cx \<noteq> None"
  by (induction rules t cx rule: first_rejection.induct) (auto split: option.splits)

lemma rejecting_rule:
  assumes "name \<in> rejecting_rules ts cx"
  shows "\<exists>t\<in>set ts. \<exists>rule. (name, rule) \<in> set FILTER_RULES \<and> rule t cx \<noteq> None"
proof -
  obtain r t where "name = rj_rule r" "t \<in> set ts" "first_rejection FILTER_RULES t cx = Some r"
    using assms by (auto simp: rejecting_rules_def apply_filters_def filter_loop_eq List.map_filter_def)
  then show ?thesis using rejection_rule by blast
qed

text \<open>A guess deletes nobody, except by where home tuition takes place. When subject, class, board, mode
  and gender are all below the confidence bar, no candidate is rejected for any of them, and unless the
  guessed mode is home tuition the only reasons left are a stale projection, another tutor asked for,
  and the fee.\<close>

theorem guesses_delete_nobody:
  assumes "\<not> usable_for_hard_filter (rq_subject (cx_requirement cx))"
    and "\<not> usable_for_hard_filter (rq_student_class (cx_requirement cx))"
    and "\<not> usable_for_hard_filter (rq_board (cx_requirement cx))"
    and "\<not> usable_for_hard_filter (rq_mode (cx_requirement cx))"
    and "\<not> usable_for_hard_filter (rq_gender (cx_requirement cx))"
  shows "rejecting_rules ts cx \<subseteq> {''ACTIVE_TUTOR'', ''EXPLICIT_TUTOR_REQUEST'', ''FEE_NEGOTIABLE''} \<union>
    (if value_of (rq_mode (cx_requirement cx)) = Some HOME then {''CITY_REACHABLE'', ''WITHIN_TRAVEL_RADIUS''} else {})"
proof
  fix name
  assume "name \<in> rejecting_rules ts cx"
  then obtain t rule where r: "(name, rule) \<in> set FILTER_RULES" "rule t cx \<noteq> None" using rejecting_rule by blast
  let ?home = "value_of (rq_mode (cx_requirement cx)) = Some HOME"
  have quiet: "subject_supported t cx = None" "class_supported t cx = None" "board_supported t cx = None"
    "mode_supported t cx = None" "gender_if_requested t cx = None"
    using assms by (simp_all add: subject_supported_def class_supported_def board_supported_def mode_supported_def
        gender_if_requested_def Let_def)
  have place: "\<not> ?home \<Longrightarrow> city_reachable t cx = None" "\<not> ?home \<Longrightarrow> within_travel_radius t cx = None"
    by (simp_all add: city_reachable_def within_travel_radius_def)
  have "\<forall>p\<in>set FILTER_RULES. snd p t cx = None \<or> fst p \<in> {''ACTIVE_TUTOR'', ''EXPLICIT_TUTOR_REQUEST'', ''FEE_NEGOTIABLE''} \<union>
      (if ?home then {''CITY_REACHABLE'', ''WITHIN_TRAVEL_RADIUS''} else {})"
    by (cases ?home) (simp_all add: FILTER_RULES_def quiet place)
  from bspec [OF this r(1)] show "name \<in> {''ACTIVE_TUTOR'', ''EXPLICIT_TUTOR_REQUEST'', ''FEE_NEGOTIABLE''} \<union>
    (if ?home then {''CITY_REACHABLE'', ''WITHIN_TRAVEL_RADIUS''} else {})"
    unfolding fst_conv snd_conv using r(2) by - (erule disjE, erule notE, assumption+)
qed

section \<open>Examples\<close>

definition sample_policy :: scoring_policy where
  "sample_policy =
     \<lparr>sp_policy_id = ''home'', sp_version = ''1'',
      sp_weights = map (\<lambda>d. (d, 1 / 8)) all_dimensions,
      sp_thresholds = \<lparr>th_min_final_score = 3 / 10, th_shortlist_size = 3, th_candidate_pool_limit = 50,
        th_min_weight_coverage = 3 / 10, th_min_dimension_confidence = 1 / 10, th_neutral_score = 1 / 2\<rparr>,
      sp_proximity = \<lparr>pp_default_travel_radius_km = [(''default'', 10)], pp_max_useful_distance_km = 20,
        pp_coarse_match_score = 1 / 2, pp_max_travel_minutes = 60\<rparr>,
      sp_negotiation = \<lparr>np_max_over_budget_ratio = 13 / 10, np_within_budget_score = 1,
        np_overload_active_students = 10, np_strategies = []\<rparr>,
      sp_diversity = \<lparr>dp_enabled = True, dp_max_same_locality = 2, dp_max_score_sacrifice = 1 / 20\<rparr>,
      sp_checksum = ''''\<rparr>"

definition guessed_home :: evaluation_context where
  "guessed_home =
     \<lparr>cx_requirement = blank_requirement
        \<lparr>rq_mode := Some \<lparr>tk_value = HOME, tk_confidence = 1 / 100, tk_provenance = LLM, tk_observed_at = None\<rparr>,
         rq_location := \<lparr>lc_city = Some ''Pune'', lc_locality = None, lc_pincode = None, lc_latitude = None,
           lc_longitude = None, lc_max_travel_km = None\<rparr>\<rparr>,
      cx_policy = sample_policy, cx_now = 0\<rparr>"

lemmas sample_tutors = sample_tutor_def silent_def stated_def RECOMMENDABLE_FRESHNESS_def guessed_home_def
  blank_requirement_def usable_for_hard_filter_def HARD_FILTER_MIN_CONFIDENCE_def value_of_def

text \<open>A guess of home tuition does delete tutors. The two rules about place read the mode whatever its
  confidence: a model's guess at one per cent that the lessons are at home removes the only tutor, who
  lives in another city, although the mode itself may not be used as a hard filter.\<close>

theorem guessed_mode_deletes_by_city:
  "\<not> usable_for_hard_filter (rq_mode (cx_requirement guessed_home)) \<and>
   fo_survivors (apply_filters [sample_tutor ''t'' (Some ''Delhi'')] guessed_home) = [] \<and>
   map rj_rule (fo_rejections (apply_filters [sample_tutor ''t'' (Some ''Delhi'')] guessed_home)) = [''CITY_REACHABLE'']"
proof -
  have c: "same_city (Some ''Pune'') (Some ''Delhi'') = False" by code_simp
  have "first_rejection FILTER_RULES (sample_tutor ''t'' (Some ''Delhi'')) guessed_home
      = Some \<lparr>rj_tutor_id = ''t'', rj_rule = ''CITY_REACHABLE'', rj_detail = CityDiffers ''Delhi'' ''Pune''\<rparr>"
    by (simp add: FILTER_RULES_def active_tutor_def explicit_tutor_request_def subject_supported_def
        class_supported_def board_supported_def mode_supported_def gender_if_requested_def city_reachable_def
        nonempty_def Let_def c sample_tutors)
  then show ?thesis
    by (simp add: apply_filters_def filter_loop_eq List.map_filter_simps)
      (simp add: sample_tutors)
qed

theorem filters_partition_the_pool_witness:
  "map tu_id (fo_survivors (apply_filters [sample_tutor ''t'' None, (sample_tutor ''u'' None)\<lparr>tu_freshness := STALE_PROJECTION\<rparr>]
     guessed_home)) = [''t'']"
proof -
  let ?u = "(sample_tutor ''u'' None)\<lparr>tu_freshness := STALE_PROJECTION\<rparr>"
  have "\<forall>p\<in>set FILTER_RULES. snd p (sample_tutor ''t'' None) guessed_home = None"
    by (simp add: FILTER_RULES_def active_tutor_def explicit_tutor_request_def subject_supported_def
        class_supported_def board_supported_def mode_supported_def gender_if_requested_def city_reachable_def
        fee_within_negotiable_range_def within_travel_radius_def within_radius_def
        nonempty_def Let_def sample_tutors)
  moreover have "\<not> (\<forall>p\<in>set FILTER_RULES. snd p ?u guessed_home = None)"
    by (simp add: FILTER_RULES_def active_tutor_def RECOMMENDABLE_FRESHNESS_def)
  ultimately show ?thesis
    using filters_partition_the_pool [of "[sample_tutor ''t'' None, ?u]" guessed_home]
    by (simp add: sample_tutor_def)
qed

end
