(* ===== verification/TutorMachine.thy ===== *)
theory TutorMachine
  imports Prelude "HOL-Library.Sublist"
begin

text \<open>
  state/machine.py of Tutor Intelligence: the conversation states, the transition table, the snapshot
  with its optimistic lock, \<open>transition\<close> and \<open>try_transition\<close>, and the search of reachable states. The
  names carry a prefix because the other package has a machine of its own.
\<close>

datatype tutor_state =
  TS_NEW | TS_COLLECTING_REQUIREMENTS | TS_READY_TO_MATCH | TS_MATCHING | TS_SHORTLIST_READY
| TS_AWAITING_SELECTION | TS_DEMO_REQUESTED | TS_DEMO_HANDOFF | TS_HUMAN_REVIEW | TS_NO_MATCH
| TS_CLOSED | TS_ERROR_RECOVERABLE

datatype tutor_trigger =
  TT_MESSAGE_RECEIVED | TT_REQUIREMENTS_INCOMPLETE | TT_REQUIREMENTS_COMPLETE | TT_MATCH_STARTED
| TT_SHORTLIST_GENERATED | TT_NO_CANDIDATES | TT_SHORTLIST_DELIVERED | TT_PARENT_SELECTED
| TT_DEMO_REQUESTED | TT_DEMO_HANDED_OFF | TT_REQUIREMENTS_CHANGED | TT_HUMAN_HANDOFF
| TT_RECOVERABLE_ERROR | TT_RETRY | TT_CLOSE

definition TUTOR_TERMINAL :: "tutor_state set" where
  "TUTOR_TERMINAL = {TS_CLOSED, TS_DEMO_HANDOFF}"

definition TUTOR_TRANSITIONS :: "(tutor_state \<times> tutor_trigger, tutor_state) odict" where
  "TUTOR_TRANSITIONS =
    [((TS_NEW, TT_MESSAGE_RECEIVED), TS_COLLECTING_REQUIREMENTS),
     ((TS_NEW, TT_REQUIREMENTS_COMPLETE), TS_READY_TO_MATCH),
     ((TS_NEW, TT_HUMAN_HANDOFF), TS_HUMAN_REVIEW),
     ((TS_COLLECTING_REQUIREMENTS, TT_MESSAGE_RECEIVED), TS_COLLECTING_REQUIREMENTS),
     ((TS_COLLECTING_REQUIREMENTS, TT_REQUIREMENTS_INCOMPLETE), TS_COLLECTING_REQUIREMENTS),
     ((TS_COLLECTING_REQUIREMENTS, TT_REQUIREMENTS_COMPLETE), TS_READY_TO_MATCH),
     ((TS_COLLECTING_REQUIREMENTS, TT_HUMAN_HANDOFF), TS_HUMAN_REVIEW),
     ((TS_COLLECTING_REQUIREMENTS, TT_CLOSE), TS_CLOSED),
     ((TS_READY_TO_MATCH, TT_MATCH_STARTED), TS_MATCHING),
     ((TS_READY_TO_MATCH, TT_MESSAGE_RECEIVED), TS_COLLECTING_REQUIREMENTS),
     ((TS_READY_TO_MATCH, TT_HUMAN_HANDOFF), TS_HUMAN_REVIEW),
     ((TS_MATCHING, TT_SHORTLIST_GENERATED), TS_SHORTLIST_READY),
     ((TS_MATCHING, TT_NO_CANDIDATES), TS_NO_MATCH),
     ((TS_MATCHING, TT_RECOVERABLE_ERROR), TS_ERROR_RECOVERABLE),
     ((TS_MATCHING, TT_HUMAN_HANDOFF), TS_HUMAN_REVIEW),
     ((TS_SHORTLIST_READY, TT_SHORTLIST_DELIVERED), TS_AWAITING_SELECTION),
     ((TS_SHORTLIST_READY, TT_RECOVERABLE_ERROR), TS_ERROR_RECOVERABLE),
     ((TS_AWAITING_SELECTION, TT_PARENT_SELECTED), TS_DEMO_REQUESTED),
     ((TS_AWAITING_SELECTION, TT_DEMO_REQUESTED), TS_DEMO_REQUESTED),
     ((TS_AWAITING_SELECTION, TT_REQUIREMENTS_CHANGED), TS_COLLECTING_REQUIREMENTS),
     ((TS_AWAITING_SELECTION, TT_MESSAGE_RECEIVED), TS_AWAITING_SELECTION),
     ((TS_AWAITING_SELECTION, TT_HUMAN_HANDOFF), TS_HUMAN_REVIEW),
     ((TS_AWAITING_SELECTION, TT_CLOSE), TS_CLOSED),
     ((TS_DEMO_REQUESTED, TT_DEMO_HANDED_OFF), TS_DEMO_HANDOFF),
     ((TS_DEMO_REQUESTED, TT_RECOVERABLE_ERROR), TS_ERROR_RECOVERABLE),
     ((TS_DEMO_REQUESTED, TT_HUMAN_HANDOFF), TS_HUMAN_REVIEW),
     ((TS_NO_MATCH, TT_REQUIREMENTS_CHANGED), TS_COLLECTING_REQUIREMENTS),
     ((TS_NO_MATCH, TT_MESSAGE_RECEIVED), TS_COLLECTING_REQUIREMENTS),
     ((TS_NO_MATCH, TT_HUMAN_HANDOFF), TS_HUMAN_REVIEW),
     ((TS_NO_MATCH, TT_CLOSE), TS_CLOSED),
     ((TS_ERROR_RECOVERABLE, TT_RETRY), TS_READY_TO_MATCH),
     ((TS_ERROR_RECOVERABLE, TT_MESSAGE_RECEIVED), TS_COLLECTING_REQUIREMENTS),
     ((TS_ERROR_RECOVERABLE, TT_HUMAN_HANDOFF), TS_HUMAN_REVIEW),
     ((TS_HUMAN_REVIEW, TT_CLOSE), TS_CLOSED)]"

datatype invalid_transition = InvalidTransition tutor_state tutor_trigger

record transition_record =
  rec_before :: tutor_state
  rec_after :: tutor_state
  rec_trigger :: tutor_trigger
  rec_at :: instant
  rec_trace :: "string option"

record tutor_snapshot =
  tp_conversation :: ref
  tp_state :: tutor_state
  tp_fsm_version :: string
  tp_lock_version :: int
  tp_turn_count :: int
  tp_updated_at :: instant
  tp_history :: "transition_record list"

definition FSM_VERSION :: string where
  "FSM_VERSION = ''1''"

definition new_tutor_snapshot :: "ref \<Rightarrow> instant \<Rightarrow> tutor_snapshot" where
  "new_tutor_snapshot c now = \<lparr>tp_conversation = c, tp_state = TS_NEW, tp_fsm_version = FSM_VERSION,
     tp_lock_version = 0, tp_turn_count = 0, tp_updated_at = now, tp_history = []\<rparr>"

definition tutor_terminal :: "tutor_snapshot \<Rightarrow> bool" where
  "tutor_terminal s \<longleftrightarrow> tp_state s \<in> TUTOR_TERMINAL"

definition can_transition :: "tutor_state \<Rightarrow> tutor_trigger \<Rightarrow> bool" where
  "can_transition s t \<longleftrightarrow> dict_get TUTOR_TRANSITIONS (s, t) \<noteq> None"

definition next_state :: "tutor_state \<Rightarrow> tutor_trigger \<Rightarrow> invalid_transition + tutor_state" where
  "next_state s t =
     (case dict_get TUTOR_TRANSITIONS (s, t) of
        None \<Rightarrow> Inl (InvalidTransition s t)
      | Some s' \<Rightarrow> Inr s')"

text \<open>\<open>xs[-limit:]\<close>; for a limit of zero that is the whole list.\<close>

definition tail_slice :: "nat \<Rightarrow> 'a list \<Rightarrow> 'a list" where
  "tail_slice limit xs = (if limit = 0 then xs else last_n limit xs)"

definition tutor_transition ::
  "tutor_snapshot \<Rightarrow> tutor_trigger \<Rightarrow> instant \<Rightarrow> string option \<Rightarrow> nat \<Rightarrow> invalid_transition + tutor_snapshot" where
  "tutor_transition s t now trace limit =
     and_then (next_state (tp_state s) t) (\<lambda>target.
       let row = \<lparr>rec_before = tp_state s, rec_after = target, rec_trigger = t, rec_at = now, rec_trace = trace\<rparr>
       in Inr \<lparr>tp_conversation = tp_conversation s, tp_state = target, tp_fsm_version = FSM_VERSION,
               tp_lock_version = tp_lock_version s + 1,
               tp_turn_count = tp_turn_count s + (if t = TT_MESSAGE_RECEIVED then 1 else 0),
               tp_updated_at = now, tp_history = tail_slice limit (tp_history s @ [row])\<rparr>)"

text \<open>\<open>try_transition\<close> uses the default history limit of 40; its \<open>transition\<close> cannot raise.\<close>

definition try_transition :: "tutor_snapshot \<Rightarrow> tutor_trigger \<Rightarrow> instant \<Rightarrow> string option \<Rightarrow> tutor_snapshot \<times> bool" where
  "try_transition s t now trace =
     (if \<not> can_transition (tp_state s) t then (s, False)
      else case tutor_transition s t now trace 40 of
             Inl _ \<Rightarrow> (s, False)
           | Inr s' \<Rightarrow> (s', True))"

section \<open>Reachable states\<close>

text \<open>One pass of the inner loop over the table, then the outer loop: \<open>frontier\<close> is a stack whose last
  element is popped.\<close>

fun scan_table ::
  "('s \<times> 't, 's) odict \<Rightarrow> 's \<Rightarrow> 's set \<Rightarrow> 's list \<Rightarrow> 's set \<times> 's list" where
  "scan_table [] current seen frontier = (seen, frontier)"
| "scan_table (((source, _), target) # rows) current seen frontier =
     (if source = current \<and> target \<notin> seen
      then scan_table rows current (insert target seen) (frontier @ [target])
      else scan_table rows current seen frontier)"

definition targets :: "('s \<times> 't, 's) odict \<Rightarrow> 's set" where
  "targets table = snd ` set table"

lemma scan_table_seen:
  "scan_table rows current seen frontier = (seen', frontier') \<Longrightarrow>
    \<exists>new. frontier' = frontier @ new \<and> seen' = seen \<union> set new \<and> distinct new \<and> set new \<inter> seen = {} \<and>
      set new \<subseteq> targets rows \<and> (\<forall>s\<in>set new. \<exists>t. ((current, t), s) \<in> set rows) \<and>
      (\<forall>t s. ((current, t), s) \<in> set rows \<longrightarrow> s \<in> seen')"
proof (induction rows arbitrary: seen frontier)
  case (Cons row rows)
  obtain source t target where row: "row = ((source, t), target)" by (cases row) auto
  show ?case
  proof (cases "source = current \<and> target \<notin> seen")
    case True
    then obtain new where new: "frontier' = (frontier @ [target]) @ new" "seen' = insert target seen \<union> set new"
      "distinct new" "set new \<inter> insert target seen = {}" "set new \<subseteq> targets rows"
      "\<forall>s\<in>set new. \<exists>t. ((current, t), s) \<in> set rows" "\<forall>t s. ((current, t), s) \<in> set rows \<longrightarrow> s \<in> seen'"
      using Cons.IH [of "insert target seen" "frontier @ [target]"] Cons.prems row by auto
    then show ?thesis using True row by (intro exI [of _ "target # new"]) (auto simp: targets_def)
  next
    case False
    then obtain new where new: "frontier' = frontier @ new" "seen' = seen \<union> set new"
      "distinct new" "set new \<inter> seen = {}" "set new \<subseteq> targets rows"
      "\<forall>s\<in>set new. \<exists>t. ((current, t), s) \<in> set rows" "\<forall>t s. ((current, t), s) \<in> set rows \<longrightarrow> s \<in> seen'"
      using Cons.IH [of seen frontier] Cons.prems row by auto
    then show ?thesis using False row by (intro exI [of _ new]) (auto simp: targets_def)
  qed
qed simp

text \<open>Every pass pops one state and pushes only states not seen before, which are targets of the table.\<close>

function explore :: "('s \<times> 't, 's) odict \<Rightarrow> 's set \<Rightarrow> 's list \<Rightarrow> 's set" where
  "explore table seen frontier =
     (if frontier = [] then seen
      else (let (seen', frontier') = scan_table table (last frontier) seen (butlast frontier)
            in explore table seen' frontier'))"
  by pat_completeness auto

termination explore
proof (relation "measure (\<lambda>(table, seen, frontier). card (targets table - seen) + length frontier)")
  fix table :: "('s \<times> 't, 's) odict" and seen :: "'s set" and frontier :: "'s list" and x seen' frontier'
  assume ne: "frontier \<noteq> []" and x: "x = scan_table table (last frontier) seen (butlast frontier)"
    and pair: "(seen', frontier') = x"
  obtain new where new: "frontier' = butlast frontier @ new" "seen' = seen \<union> set new" "distinct new"
    "set new \<inter> seen = {}" "set new \<subseteq> targets table"
    using scan_table_seen [of table "last frontier" seen "butlast frontier" seen' frontier'] x pair by auto
  have "card (targets table - seen) = card (targets table - seen') + card (set new)"
  proof -
    have "targets table - seen = (targets table - seen') \<union> set new" using new by auto
    moreover have "finite (targets table)" by (simp add: targets_def)
    ultimately show ?thesis using new(2) by (simp add: card_Un_disjoint disjoint_iff)
  qed
  then show "((table, seen', frontier'), (table, seen, frontier))
      \<in> measure (\<lambda>(table, seen, frontier). card (targets table - seen) + length frontier)"
    using new(1,3) ne by (simp add: distinct_card)
qed simp

declare explore.simps [simp del]

definition reachable_states :: "tutor_state set" where
  "reachable_states = explore TUTOR_TRANSITIONS {TS_NEW} [TS_NEW]"

definition edges :: "('s \<times> 't, 's) odict \<Rightarrow> ('s \<times> 's) set" where
  "edges table = {(s, s'). \<exists>t. ((s, t), s') \<in> set table}"

lemma explore_closure:
  assumes "set frontier \<subseteq> seen" and "\<forall>s\<in>seen - set frontier. edges table `` {s} \<subseteq> seen"
  shows "explore table seen frontier = (edges table)\<^sup>* `` seen"
  using assms
proof (induction table seen frontier rule: explore.induct)
  case (1 table seen frontier)
  show ?case
  proof (cases "frontier = []")
    case True
    then have "edges table `` seen \<subseteq> seen" using "1.prems"(2) by auto
    then have "(edges table)\<^sup>* `` seen = seen" by (rule Image_closed_trancl)
    then show ?thesis using True by (simp add: explore.simps)
  next
    case False
    obtain seen' frontier' where p: "scan_table table (last frontier) seen (butlast frontier) = (seen', frontier')"
      by fastforce
    obtain new where new: "frontier' = butlast frontier @ new" "seen' = seen \<union> set new"
      "\<forall>s\<in>set new. \<exists>t. ((last frontier, t), s) \<in> set table"
      "\<forall>t s. ((last frontier, t), s) \<in> set table \<longrightarrow> s \<in> seen'"
      using scan_table_seen [OF p] by blast
    have fr: "set frontier = insert (last frontier) (set (butlast frontier))"
      using False by (metis append_butlast_last_id list.simps(15) rotate1.simps(2) set_rotate1)
    have "explore table seen' frontier' = (edges table)\<^sup>* `` seen'"
    proof (rule "1.IH" [OF False p [symmetric] refl])
      show "set frontier' \<subseteq> seen'" using new(1,2) fr "1.prems"(1) by auto
      show "\<forall>s\<in>seen' - set frontier'. edges table `` {s} \<subseteq> seen'"
        using new "1.prems"(2) fr by (fastforce simp: edges_def)
    qed
    moreover have "(edges table)\<^sup>* `` seen' = (edges table)\<^sup>* `` seen"
    proof -
      have "set new \<subseteq> edges table `` {last frontier}" using new(3) by (auto simp: edges_def)
      then have "seen' \<subseteq> (edges table)\<^sup>* `` seen" using new(2) fr "1.prems"(1) by auto
      then have "(edges table)\<^sup>* `` seen' \<subseteq> (edges table)\<^sup>* `` seen"
        by (auto intro: rtrancl_trans dest!: subsetD)
      then show ?thesis using new(2) by blast
    qed
    ultimately show ?thesis using False p by (subst explore.simps) simp
  qed
qed

lemma tutor_edge:
  "dict_get TUTOR_TRANSITIONS (s, t) = Some s' \<Longrightarrow> (s, s') \<in> edges TUTOR_TRANSITIONS"
  by (auto simp: edges_def dest: dict_get_in)

lemma edge_cases: "(s, s') \<in> edges TUTOR_TRANSITIONS \<Longrightarrow> \<exists>t. dict_get TUTOR_TRANSITIONS (s, t) = Some s'"
proof -
  have "dict_ok TUTOR_TRANSITIONS" by (simp add: dict_ok_def dict_keys_def TUTOR_TRANSITIONS_def)
  then show "(s, s') \<in> edges TUTOR_TRANSITIONS \<Longrightarrow> ?thesis" using in_dict_get by (fastforce simp: edges_def)
qed

lemmas tutor_steps = rtrancl_into_rtrancl [OF _ tutor_edge]

lemma reached_by:
  assumes "(TS_NEW, s) \<in> (edges TUTOR_TRANSITIONS)\<^sup>*" and "dict_get TUTOR_TRANSITIONS (s, t) = Some s'"
  shows "(TS_NEW, s') \<in> (edges TUTOR_TRANSITIONS)\<^sup>*"
  using assms by (blast intro: rtrancl_into_rtrancl tutor_edge)

text \<open>(C37) No state is orphaned and no conversation is stuck. \<open>reachable_states\<close>, a search with a stack
  over the table, terminates and computes exactly the states the machine can reach from NEW, which are
  all twelve; and from every state that is not terminal the conversation can still be closed, while a
  terminal state has no transition at all.\<close>

theorem no_orphan_states:
  "reachable_states = {s. (TS_NEW, s) \<in> (edges TUTOR_TRANSITIONS)\<^sup>*} \<and> reachable_states = UNIV \<and>
   (\<forall>s. s \<notin> TUTOR_TERMINAL \<longrightarrow> (s, TS_CLOSED) \<in> (edges TUTOR_TRANSITIONS)\<^sup>*) \<and>
   (\<forall>s t. s \<in> TUTOR_TERMINAL \<longrightarrow> \<not> can_transition s t)"
proof (intro conjI allI impI)
  let ?E = "edges TUTOR_TRANSITIONS"
  have r: "reachable_states = ?E\<^sup>* `` {TS_NEW}"
    unfolding reachable_states_def by (rule explore_closure) auto
  then show "reachable_states = {s. (TS_NEW, s) \<in> ?E\<^sup>*}" by auto
  have get: "dict_get TUTOR_TRANSITIONS (TS_NEW, TT_REQUIREMENTS_COMPLETE) = Some TS_READY_TO_MATCH"
    "dict_get TUTOR_TRANSITIONS (TS_NEW, TT_MESSAGE_RECEIVED) = Some TS_COLLECTING_REQUIREMENTS"
    "dict_get TUTOR_TRANSITIONS (TS_NEW, TT_HUMAN_HANDOFF) = Some TS_HUMAN_REVIEW"
    "dict_get TUTOR_TRANSITIONS (TS_READY_TO_MATCH, TT_MATCH_STARTED) = Some TS_MATCHING"
    "dict_get TUTOR_TRANSITIONS (TS_READY_TO_MATCH, TT_HUMAN_HANDOFF) = Some TS_HUMAN_REVIEW"
    "dict_get TUTOR_TRANSITIONS (TS_MATCHING, TT_SHORTLIST_GENERATED) = Some TS_SHORTLIST_READY"
    "dict_get TUTOR_TRANSITIONS (TS_MATCHING, TT_NO_CANDIDATES) = Some TS_NO_MATCH"
    "dict_get TUTOR_TRANSITIONS (TS_MATCHING, TT_HUMAN_HANDOFF) = Some TS_HUMAN_REVIEW"
    "dict_get TUTOR_TRANSITIONS (TS_MATCHING, TT_RECOVERABLE_ERROR) = Some TS_ERROR_RECOVERABLE"
    "dict_get TUTOR_TRANSITIONS (TS_SHORTLIST_READY, TT_SHORTLIST_DELIVERED) = Some TS_AWAITING_SELECTION"
    "dict_get TUTOR_TRANSITIONS (TS_AWAITING_SELECTION, TT_PARENT_SELECTED) = Some TS_DEMO_REQUESTED"
    "dict_get TUTOR_TRANSITIONS (TS_AWAITING_SELECTION, TT_CLOSE) = Some TS_CLOSED"
    "dict_get TUTOR_TRANSITIONS (TS_COLLECTING_REQUIREMENTS, TT_CLOSE) = Some TS_CLOSED"
    "dict_get TUTOR_TRANSITIONS (TS_NO_MATCH, TT_CLOSE) = Some TS_CLOSED"
    "dict_get TUTOR_TRANSITIONS (TS_HUMAN_REVIEW, TT_CLOSE) = Some TS_CLOSED"
    "dict_get TUTOR_TRANSITIONS (TS_DEMO_REQUESTED, TT_DEMO_HANDED_OFF) = Some TS_DEMO_HANDOFF"
    "dict_get TUTOR_TRANSITIONS (TS_DEMO_REQUESTED, TT_HUMAN_HANDOFF) = Some TS_HUMAN_REVIEW"
    "dict_get TUTOR_TRANSITIONS (TS_ERROR_RECOVERABLE, TT_HUMAN_HANDOFF) = Some TS_HUMAN_REVIEW"
    by (simp_all add: TUTOR_TRANSITIONS_def)
  note step = get [THEN reached_by [rotated]]
  have "(TS_NEW, s) \<in> ?E\<^sup>*" for s by (cases s) (blast intro: step)+
  then show "reachable_states = UNIV" using r by auto
  note edge = get [THEN tutor_edge]
  show "(s, TS_CLOSED) \<in> ?E\<^sup>*" if "s \<notin> TUTOR_TERMINAL" for s
    using that edge by (cases s) (auto simp: TUTOR_TERMINAL_def intro: converse_rtrancl_into_rtrancl)
  show "\<not> can_transition s t" if "s \<in> TUTOR_TERMINAL" for s t
    using that by (cases t) (auto simp: TUTOR_TERMINAL_def can_transition_def TUTOR_TRANSITIONS_def)
qed

theorem no_orphan_states_witness:
  "(TS_SHORTLIST_READY, TS_CLOSED) \<in> (edges TUTOR_TRANSITIONS)\<^sup>* \<and> \<not> can_transition TS_DEMO_HANDOFF TT_CLOSE"
  using no_orphan_states by (simp add: TUTOR_TERMINAL_def)

section \<open>Runs\<close>

text \<open>What callers do with a stream of triggers: each is tried, an illegal one changes nothing.\<close>

type_synonym attempt = "tutor_trigger \<times> instant \<times> string option"

fun try_all :: "tutor_snapshot \<Rightarrow> attempt list \<Rightarrow> tutor_snapshot" where
  "try_all s [] = s"
| "try_all s ((t, now, trace) # as) = try_all (fst (try_transition s t now trace)) as"

text \<open>The triggers of those attempts that were accepted.\<close>

fun accepted :: "tutor_state \<Rightarrow> attempt list \<Rightarrow> tutor_trigger list" where
  "accepted s [] = []"
| "accepted s ((t, now, trace) # as) =
     (case dict_get TUTOR_TRANSITIONS (s, t) of None \<Rightarrow> accepted s as | Some s' \<Rightarrow> t # accepted s' as)"

fun run_triggers :: "tutor_state \<Rightarrow> tutor_trigger list \<Rightarrow> tutor_state option" where
  "run_triggers s [] = Some s"
| "run_triggers s (t # ts) =
     (case dict_get TUTOR_TRANSITIONS (s, t) of None \<Rightarrow> None | Some s' \<Rightarrow> run_triggers s' ts)"

lemma try_transition_eq:
  "try_transition s t now trace =
     (case dict_get TUTOR_TRANSITIONS (tp_state s, t) of
        None \<Rightarrow> (s, False)
      | Some s' \<Rightarrow> (\<lparr>tp_conversation = tp_conversation s, tp_state = s', tp_fsm_version = FSM_VERSION,
               tp_lock_version = tp_lock_version s + 1,
               tp_turn_count = tp_turn_count s + (if t = TT_MESSAGE_RECEIVED then 1 else 0),
               tp_updated_at = now,
               tp_history = last_n 40 (tp_history s @ [\<lparr>rec_before = tp_state s, rec_after = s', rec_trigger = t,
                 rec_at = now, rec_trace = trace\<rparr>])\<rparr>, True))"
  by (simp add: try_transition_def can_transition_def tutor_transition_def next_state_def tail_slice_def Let_def
      split: option.split)

lemma last_n_append_last_n: "last_n n (last_n n xs @ ys) = last_n n (xs @ ys)"
  by (cases "length xs \<le> n") (simp_all add: last_n_def add.commute)

lemma last_n_map: "map f (last_n n xs) = last_n n (map f xs)"
  by (simp add: last_n_def drop_map)

lemma try_all_run:
  "run_triggers (tp_state s) (accepted (tp_state s) as) = Some (tp_state (try_all s as)) \<and>
   tp_lock_version (try_all s as) = tp_lock_version s + int (length (accepted (tp_state s) as)) \<and>
   tp_turn_count (try_all s as)
     = tp_turn_count s + int (length (filter (\<lambda>t. t = TT_MESSAGE_RECEIVED) (accepted (tp_state s) as))) \<and>
   (length (tp_history s) \<le> 40 \<longrightarrow> map rec_trigger (tp_history (try_all s as))
     = last_n 40 (map rec_trigger (tp_history s) @ accepted (tp_state s) as))"
proof (induction as arbitrary: s)
  case Nil
  then show ?case by (simp add: last_n_def)
next
  case (Cons a as)
  obtain t now trace where a: "a = (t, now, trace)" by (cases a) auto
  show ?case
  proof (cases "dict_get TUTOR_TRANSITIONS (tp_state s, t)")
    case None
    then show ?thesis using Cons.IH [of s] a by (simp add: try_transition_eq)
  next
    case (Some s')
    then show ?thesis
      using Cons.IH [of "fst (try_transition s t now trace)"] a
      by (simp add: try_transition_eq last_n_map last_n_append_last_n)
  qed
qed

lemma run_snoc: "run_triggers s (ts @ [t]) = (case run_triggers s ts of None \<Rightarrow> None | Some s' \<Rightarrow> dict_get TUTOR_TRANSITIONS (s', t))"
  by (induction ts arbitrary: s) (auto split: option.split)

text \<open>What each state presupposes of the triggers that led to it.\<close>

fun milestones :: "tutor_state \<Rightarrow> tutor_trigger list" where
  "milestones TS_MATCHING = [TT_MATCH_STARTED]"
| "milestones TS_SHORTLIST_READY = [TT_MATCH_STARTED, TT_SHORTLIST_GENERATED]"
| "milestones TS_AWAITING_SELECTION = [TT_MATCH_STARTED, TT_SHORTLIST_GENERATED, TT_SHORTLIST_DELIVERED]"
| "milestones TS_DEMO_REQUESTED = [TT_MATCH_STARTED, TT_SHORTLIST_GENERATED, TT_SHORTLIST_DELIVERED]"
| "milestones TS_DEMO_HANDOFF =
     [TT_MATCH_STARTED, TT_SHORTLIST_GENERATED, TT_SHORTLIST_DELIVERED, TT_DEMO_HANDED_OFF]"
| "milestones _ = []"

lemma milestone_step:
  assumes "dict_get TUTOR_TRANSITIONS (s, t) = Some s'"
  shows "milestones s' = milestones s \<or> milestones s' = milestones s @ [t] \<or> milestones s' = []"
  using assms by (cases s; cases t) (auto simp: TUTOR_TRANSITIONS_def)

lemma run_milestones: "run_triggers TS_NEW ts = Some s \<Longrightarrow> subseq (milestones s) ts"
proof (induction ts arbitrary: s rule: rev_induct)
  case (snoc t ts)
  then obtain s0 where s0: "run_triggers TS_NEW ts = Some s0" "dict_get TUTOR_TRANSITIONS (s0, t) = Some s"
    by (auto simp: run_snoc split: option.splits)
  then have "subseq (milestones s0) ts" using snoc.IH by simp
  then show ?case using milestone_step [OF s0(2)] by (auto intro: list_emb_append_mono)
qed simp

text \<open>(C38) A demo is only requested for a delivered shortlist. Whatever triggers arrive in whatever order, a
  new conversation is in DEMO_REQUESTED or DEMO_HANDOFF only after a match was started, a shortlist
  generated and delivered, in this order; the lock version counts the accepted triggers, the turn count
  the accepted messages, and the history holds the last forty accepted triggers.\<close>

theorem demo_needs_delivered_shortlist:
  fixes c now as
  defines "s \<equiv> try_all (new_tutor_snapshot c now) as" and "ts \<equiv> accepted TS_NEW as"
  shows "(tp_state s \<in> {TS_AWAITING_SELECTION, TS_DEMO_REQUESTED, TS_DEMO_HANDOFF} \<longrightarrow>
      subseq [TT_MATCH_STARTED, TT_SHORTLIST_GENERATED, TT_SHORTLIST_DELIVERED] ts) \<and>
    (tp_state s = TS_DEMO_HANDOFF \<longrightarrow>
      subseq [TT_MATCH_STARTED, TT_SHORTLIST_GENERATED, TT_SHORTLIST_DELIVERED, TT_DEMO_HANDED_OFF] ts) \<and>
    tp_lock_version s = int (length ts) \<and>
    tp_turn_count s = int (length (filter (\<lambda>t. t = TT_MESSAGE_RECEIVED) ts)) \<and>
    map rec_trigger (tp_history s) = last_n 40 ts"
proof -
  have run: "run_triggers TS_NEW ts = Some (tp_state s)" "tp_lock_version s = int (length ts)"
    "tp_turn_count s = int (length (filter (\<lambda>t. t = TT_MESSAGE_RECEIVED) ts))"
    "map rec_trigger (tp_history s) = last_n 40 ts"
    using try_all_run [of "new_tutor_snapshot c now" as] by (simp_all add: s_def ts_def new_tutor_snapshot_def)
  note m = run_milestones [OF run(1)]
  have "subseq [TT_MATCH_STARTED, TT_SHORTLIST_GENERATED, TT_SHORTLIST_DELIVERED] ts"
    if "tp_state s \<in> {TS_AWAITING_SELECTION, TS_DEMO_REQUESTED, TS_DEMO_HANDOFF}"
  proof (cases "tp_state s = TS_DEMO_HANDOFF")
    case True
    have "subseq [TT_MATCH_STARTED, TT_SHORTLIST_GENERATED, TT_SHORTLIST_DELIVERED] (milestones TS_DEMO_HANDOFF)"
      by simp
    then show ?thesis using m True by (metis subseq_order.trans)
  next
    case False
    then show ?thesis using that m by auto
  qed
  then show ?thesis using m run(2-4) by auto
qed

definition sample_attempts :: "attempt list" where
  "sample_attempts = map (\<lambda>t. (t, 0, None))
     [TT_DEMO_REQUESTED, TT_REQUIREMENTS_COMPLETE, TT_MATCH_STARTED, TT_SHORTLIST_GENERATED, TT_SHORTLIST_DELIVERED,
      TT_MESSAGE_RECEIVED, TT_PARENT_SELECTED, TT_DEMO_HANDED_OFF, TT_CLOSE]"

theorem demo_needs_delivered_shortlist_witness:
  "tp_state (try_all (new_tutor_snapshot ''c'' 0) sample_attempts) = TS_DEMO_HANDOFF \<and>
   tp_lock_version (try_all (new_tutor_snapshot ''c'' 0) sample_attempts) = 7 \<and>
   subseq [TT_MATCH_STARTED, TT_SHORTLIST_GENERATED, TT_SHORTLIST_DELIVERED, TT_DEMO_HANDED_OFF]
     (accepted TS_NEW sample_attempts)"
proof -
  have a: "accepted TS_NEW sample_attempts = [TT_REQUIREMENTS_COMPLETE, TT_MATCH_STARTED, TT_SHORTLIST_GENERATED,
      TT_SHORTLIST_DELIVERED, TT_MESSAGE_RECEIVED, TT_PARENT_SELECTED, TT_DEMO_HANDED_OFF]"
    by (simp add: sample_attempts_def TUTOR_TRANSITIONS_def)
  have s: "tp_state (try_all (new_tutor_snapshot ''c'' 0) sample_attempts) = TS_DEMO_HANDOFF"
    by (simp add: sample_attempts_def try_transition_eq new_tutor_snapshot_def TUTOR_TRANSITIONS_def)
  show ?thesis
    using demo_needs_delivered_shortlist [of "''c''" 0 sample_attempts] a s by simp
qed

end
