(* ===== verification/TutorScoring.thy ===== *)
theory TutorScoring
  imports TutorContracts Rounding "HOL-Library.Multiset"
begin

text \<open>
  scoring/combiner.py and scoring/selector.py: folding a skill vector into one score, ranking, the
  diversity rule, the shortlist, and the choice of the policy. Sums and products are exact rationals.
\<close>

section \<open>Combination\<close>

record tally =
  ty_weighted_total :: rat
  ty_contributing :: rat
  ty_declared :: rat
  ty_confidence :: rat
  ty_flags :: "string list"

definition tally_step :: "scoring_policy \<Rightarrow> (dimension, skill_score) odict \<Rightarrow> tally \<Rightarrow> dimension \<times> rat \<Rightarrow> tally" where
  "tally_step policy scores ty dw =
     (let (d, weight) = dw; ty1 = ty\<lparr>ty_declared := ty_declared ty + weight\<rparr>
      in case dict_get scores d of
           None \<Rightarrow> ty1\<lparr>ty_flags := ty_flags ty1 @ [''missing_dimension:'' @ dimension_value d]\<rparr>
         | Some s \<Rightarrow>
             if sk_confidence s < th_min_dimension_confidence (sp_thresholds policy) then ty1
             else let effective = weight * sk_confidence s
                  in ty1\<lparr>ty_weighted_total := ty_weighted_total ty1 + sk_score s * effective,
                         ty_contributing := ty_contributing ty1 + effective,
                         ty_confidence := ty_confidence ty1 + weight * sk_confidence s,
                         ty_flags := ty_flags ty1 @ map (\<lambda>f. dimension_value d @ '':'' @ f) (sk_flags s)\<rparr>)"

definition tally_scores :: "scoring_policy \<Rightarrow> (dimension, skill_score) odict \<Rightarrow> tally" where
  "tally_scores policy scores =
     foldl (tally_step policy scores)
       \<lparr>ty_weighted_total = 0, ty_contributing = 0, ty_declared = 0, ty_confidence = 0, ty_flags = []\<rparr>
       (sp_weights policy)"

definition combine ::
  "tutor_candidate \<Rightarrow> string \<Rightarrow> (dimension, skill_score) odict \<Rightarrow> scoring_policy \<Rightarrow> scored_candidate" where
  "combine tutor pseudonym scores policy =
     (let ty = tally_scores policy scores;
          neutral = th_neutral_score (sp_thresholds policy);
          (final, coverage, confidence) =
            (if ty_declared ty \<le> 0 then (neutral, 0, 0)
             else let unclaimed = max 0 (ty_declared ty - ty_contributing ty)
                  in ((ty_weighted_total ty + unclaimed * neutral) / ty_declared ty,
                      ty_contributing ty / ty_declared ty, ty_confidence ty / ty_declared ty));
          flags1 = ty_flags ty @ (if ty_contributing ty \<le> 0 then [''no_usable_dimensions''] else []);
          flags2 = flags1 @ (if coverage < th_min_weight_coverage (sp_thresholds policy)
                             then [''low_weight_coverage''] else []);
          flags3 = flags2 @ (if list_ex (\<lambda>s. sk_quality s = STALE) (dict_values scores)
                             then [''stale_evidence''] else [])
      in \<lparr>sc_tutor_id = tu_id tutor, sc_public_ref = tu_public_ref tutor, sc_pseudonym = pseudonym,
          sc_scores = scores, sc_final_score = round4 (min 1 (max 0 final)),
          sc_weight_coverage = round4 (min 1 coverage), sc_confidence = round4 (min 1 confidence),
          sc_freshness = tu_freshness tutor, sc_flags = first_occurrences flags3\<rparr>)"

section \<open>Ranking\<close>

definition rank_key :: "scored_candidate \<Rightarrow> rat \<times> rat \<times> rat \<times> string" where
  "rank_key c = (- sc_final_score c, - sc_confidence c, - sc_weight_coverage c, sc_tutor_id c)"

definition tail_key :: "scored_candidate \<Rightarrow> rat \<times> rat \<times> string" where
  "tail_key c = (- sc_final_score c, - sc_confidence c, sc_tutor_id c)"

definition locality_label :: "(string \<Rightarrow> string option) \<Rightarrow> scored_candidate \<Rightarrow> string" where
  "locality_label locality_of c =
     (let l = lower (case locality_of (sc_tutor_id c) of None \<Rightarrow> [] | Some s \<Rightarrow> s)
      in if l = [] then ''_unknown'' else l)"

definition best_score :: "scored_candidate list \<Rightarrow> rat" where
  "best_score cs = (if cs = [] then 0 else Max (set (map sc_final_score cs)))"

text \<open>The loop of \<open>_diversify\<close>: \<open>past\<close> are the candidates before the current one, \<open>rest\<close> those after it.\<close>

fun diversify_loop ::
  "scoring_policy \<Rightarrow> (string \<Rightarrow> string option) \<Rightarrow> scored_candidate list \<Rightarrow> scored_candidate list \<Rightarrow> scored_candidate list
     \<Rightarrow> scored_candidate list \<Rightarrow> (string, nat) odict \<Rightarrow> scored_candidate list \<times> scored_candidate list" where
  "diversify_loop policy locality_of past [] chosen deferred counts = (chosen, deferred)"
| "diversify_loop policy locality_of past (c # rest) chosen deferred counts =
     (if length chosen \<ge> th_shortlist_size (sp_thresholds policy)
      then diversify_loop policy locality_of (past @ [c]) rest chosen (deferred @ [c]) counts
      else
        let locality = locality_label locality_of c;
            seen = (case dict_get counts locality of None \<Rightarrow> 0 | Some n \<Rightarrow> n);
            best_remaining = best_score (filter (\<lambda>d. d \<notin> set chosen) (past @ rest))
        in if locality \<noteq> ''_unknown'' \<and> seen \<ge> dp_max_same_locality (sp_diversity policy) \<and>
              sc_final_score c - best_remaining \<le> dp_max_score_sacrifice (sp_diversity policy)
           then diversify_loop policy locality_of (past @ [c]) rest chosen (deferred @ [c]) counts
           else diversify_loop policy locality_of (past @ [c]) rest (chosen @ [c]) deferred
                  (dict_set counts locality (seen + 1)))"

definition diversify ::
  "scoring_policy \<Rightarrow> (string \<Rightarrow> string option) \<Rightarrow> scored_candidate list \<Rightarrow> scored_candidate list" where
  "diversify policy locality_of ordered =
     (let (chosen, deferred) = diversify_loop policy locality_of [] ordered [] [] [];
          filled = chosen @ take (th_shortlist_size (sp_thresholds policy) - length chosen) deferred;
          remaining = filter (\<lambda>c. c \<notin> set filled) ordered
      in filled @ sort_key tail_key remaining)"

definition rank ::
  "scoring_policy \<Rightarrow> (string \<Rightarrow> string option) \<Rightarrow> scored_candidate list \<Rightarrow> scored_candidate list" where
  "rank policy locality_of candidates =
     (let ordered = sort_key rank_key candidates
      in if \<not> dp_enabled (sp_diversity policy) then ordered else diversify policy locality_of ordered)"

definition shortlist_cutoff :: "scoring_policy \<Rightarrow> scored_candidate list \<Rightarrow> scored_candidate list" where
  "shortlist_cutoff policy ranked =
     take (th_shortlist_size (sp_thresholds policy))
       (filter (\<lambda>c. sc_final_score c \<ge> th_min_final_score (sp_thresholds policy)) ranked)"

section \<open>Selection of the policy\<close>

definition COMPETITIVE :: "string list" where
  "COMPETITIVE = [''JEE'', ''NEET'', ''NTSE'', ''CUET'', ''Olympiad'', ''SAT'']"

fun policy_by_mode :: "tuition_mode \<Rightarrow> string" where
  "policy_by_mode HOME = ''home_tuition.v1''"
| "policy_by_mode ONLINE = ''online_tuition.v1''"
| "policy_by_mode HYBRID = ''hybrid_tuition.v1''"

fun mode_value :: "tuition_mode \<Rightarrow> string" where
  "mode_value HOME = ''home''"
| "mode_value ONLINE = ''online''"
| "mode_value HYBRID = ''hybrid''"

definition select_policy :: "match_requirement \<Rightarrow> string \<times> string" where
  "select_policy r =
     (let exam = normalize_exam (value_of (rq_exam r));
          class_label = value_of (rq_student_class r);
          grade = class_number class_label
      in case exam of
           Some e \<Rightarrow>
             if e \<in> set COMPETITIVE then (''competitive_exam.v1'', ''competitive_exam:'' @ e)
             else if e = ''Board Exam'' \<or> grade = Some 10 \<or> grade = Some 12
             then (''board_exam_prep.v1'', ''board_exam_year:'' @ (if stated class_label then the class_label else e))
             else if rq_urgency r = URGENT then (''urgent_tuition.v1'', ''urgency:urgent'')
             else (case value_of (rq_mode r) of
                     Some m \<Rightarrow> (policy_by_mode m, ''mode:'' @ mode_value m)
                   | None \<Rightarrow> (''regular_school_support.v1'', ''default''))
         | None \<Rightarrow>
             if grade = Some 10 \<or> grade = Some 12
             then (''board_exam_prep.v1'', ''board_exam_year:'' @ (if stated class_label then the class_label else ''None''))
             else if rq_urgency r = URGENT then (''urgent_tuition.v1'', ''urgency:urgent'')
             else (case value_of (rq_mode r) of
                     Some m \<Rightarrow> (policy_by_mode m, ''mode:'' @ mode_value m)
                   | None \<Rightarrow> (''regular_school_support.v1'', ''default'')))"

section \<open>The score as a mixture\<close>

text \<open>The confidence with which a dimension takes part: none if it is missing or below the bar.\<close>

definition part_of :: "scoring_policy \<Rightarrow> (dimension, skill_score) odict \<Rightarrow> dimension \<Rightarrow> rat" where
  "part_of policy scores d =
     (case dict_get scores d of
        None \<Rightarrow> 0
      | Some s \<Rightarrow> if sk_confidence s < th_min_dimension_confidence (sp_thresholds policy) then 0 else sk_confidence s)"

definition score_of :: "(dimension, skill_score) odict \<Rightarrow> dimension \<Rightarrow> rat" where
  "score_of scores d = (case dict_get scores d of None \<Rightarrow> 0 | Some s \<Rightarrow> sk_score s)"

definition mixture :: "scoring_policy \<Rightarrow> (dimension, skill_score) odict \<Rightarrow> rat" where
  "mixture policy scores =
     sum_list (map (\<lambda>(d, w). w * (part_of policy scores d * score_of scores d +
         (1 - part_of policy scores d) * th_neutral_score (sp_thresholds policy))) (sp_weights policy))
     / sum_list (map snd (sp_weights policy))"

lemma tally_fold:
  "ty_weighted_total (foldl (tally_step policy scores) ty ws)
     = ty_weighted_total ty + sum_list (map (\<lambda>(d, w). w * (part_of policy scores d * score_of scores d)) ws)"
  "ty_contributing (foldl (tally_step policy scores) ty ws)
     = ty_contributing ty + sum_list (map (\<lambda>(d, w). w * part_of policy scores d) ws)"
  "ty_declared (foldl (tally_step policy scores) ty ws) = ty_declared ty + sum_list (map snd ws)"
  "ty_confidence (foldl (tally_step policy scores) ty ws)
     = ty_confidence ty + sum_list (map (\<lambda>(d, w). w * part_of policy scores d) ws)"
  by (induction ws arbitrary: ty)
    (auto simp: tally_step_def part_of_def score_of_def Let_def algebra_simps split: option.splits)

definition scores_ok :: "(dimension, skill_score) odict \<Rightarrow> bool" where
  "scores_ok scores \<longleftrightarrow> (\<forall>(d, s)\<in>set scores. skill_score_ok s)"

definition weights_positive :: "scoring_policy \<Rightarrow> bool" where
  "weights_positive policy \<longleftrightarrow> (\<forall>(d, w)\<in>set (sp_weights policy). 0 \<le> w) \<and> 0 < sum_list (map snd (sp_weights policy))"

lemma weights_ok_positive: "weights_ok p \<Longrightarrow> weights_positive p"
proof -
  assume ok: "weights_ok p"
  have "\<forall>(d, w)\<in>set (sp_weights p). 0 \<le> w"
    using ok by (fastforce simp: weights_ok_def dict_values_def list_ex_iff)
  moreover have "sum_list (map snd (sp_weights p)) > 0"
    using ok by (simp add: weights_ok_def dict_values_def WEIGHT_TOLERANCE_def abs_if split: if_splits)
  ultimately show ?thesis by (simp add: weights_positive_def)
qed

lemma part_range:
  assumes "scores_ok scores"
  shows "0 \<le> part_of policy scores d" "part_of policy scores d \<le> 1"
    "0 \<le> score_of scores d" "score_of scores d \<le> 1"
  using assms
  by (auto simp: scores_ok_def skill_score_ok_def part_of_def score_of_def dest!: dict_get_in split: option.split)

lemma mixture_range:
  assumes "scores_ok scores" and "weights_positive policy" and "thresholds_ok (sp_thresholds policy)"
  shows "0 \<le> mixture policy scores" and "mixture policy scores \<le> 1"
proof -
  let ?n = "th_neutral_score (sp_thresholds policy)"
  let ?m = "\<lambda>d. part_of policy scores d * score_of scores d + (1 - part_of policy scores d) * ?n"
  have n: "0 \<le> ?n" "?n \<le> 1" using assms(3) by (simp_all add: thresholds_ok_def)
  have m: "0 \<le> ?m d" "?m d \<le> 1" for d
  proof -
    have p: "0 \<le> part_of policy scores d" "part_of policy scores d \<le> 1" "0 \<le> score_of scores d" "score_of scores d \<le> 1"
      using part_range [OF assms(1)] by blast+
    show "0 \<le> ?m d" using p n by (intro add_nonneg_nonneg mult_nonneg_nonneg) simp_all
    have "?m d \<le> part_of policy scores d * 1 + (1 - part_of policy scores d) * 1"
      using p n by (intro add_mono mult_left_mono) simp_all
    then show "?m d \<le> 1" by simp
  qed
  have w: "\<forall>(d, w)\<in>set (sp_weights policy). 0 \<le> w" and s: "0 < sum_list (map snd (sp_weights policy))"
    using assms(2) by (simp_all add: weights_positive_def)
  have "0 \<le> sum_list (map (\<lambda>(d, w). w * ?m d) (sp_weights policy))"
    using w m(1) by (intro sum_list_nonneg) (auto intro!: mult_nonneg_nonneg)
  then show "0 \<le> mixture policy scores" using s by (simp add: mixture_def)
  have "sum_list (map (\<lambda>(d, w). w * ?m d) (sp_weights policy)) \<le> sum_list (map (\<lambda>(d, w). w * 1) (sp_weights policy))"
    using w m(2) by (intro sum_list_mono) (auto intro!: mult_left_le)
  also have "\<dots> = sum_list (map snd (sp_weights policy))" by (simp add: case_prod_beta')
  finally show "mixture policy scores \<le> 1" using s by (simp add: mixture_def)
qed

text \<open>(C35) Ignorance neither helps nor harms. For a valid policy and valid scores the combined score is the
  weighted average, over all the declared weight, of each dimension's score mixed with the neutral prior
  in proportion to its confidence: a missing or too uncertain dimension counts as exactly neutral. The
  average lies between 0 and 1, so the clamps never act, and only the rounding to four places is left.\<close>

theorem score_is_neutral_mixture:
  assumes "weights_ok policy" and "thresholds_ok (sp_thresholds policy)" and "scores_ok scores"
  shows "sc_final_score (combine tutor pseudonym scores policy) = round4 (mixture policy scores) \<and>
    0 \<le> mixture policy scores \<and> mixture policy scores \<le> 1"
proof -
  let ?n = "th_neutral_score (sp_thresholds policy)" and ?ws = "sp_weights policy"
  let ?W = "sum_list (map snd ?ws)" and ?C = "sum_list (map (\<lambda>(d, w). w * part_of policy scores d) ?ws)"
  let ?T = "sum_list (map (\<lambda>(d, w). w * (part_of policy scores d * score_of scores d)) ?ws)"
  have pos: "weights_positive policy" using weights_ok_positive assms(1) .
  have ty: "ty_declared (tally_scores policy scores) = ?W" "ty_contributing (tally_scores policy scores) = ?C"
    "ty_weighted_total (tally_scores policy scores) = ?T"
    by (simp_all add: tally_scores_def tally_fold)
  have "?C \<le> sum_list (map (\<lambda>(d, w). w * 1) ?ws)"
    using pos part_range(2) [OF assms(3)] by (intro sum_list_mono) (auto simp: weights_positive_def intro!: mult_left_le)
  then have "?C \<le> ?W" by (simp add: case_prod_beta')
  then have unclaimed: "max 0 (?W - ?C) = ?W - ?C" by simp
  have "sum_list (map (\<lambda>(d, w). w * (part_of policy scores d * score_of scores d + (1 - part_of policy scores d) * ?n)) ws)
      = sum_list (map (\<lambda>(d, w). w * (part_of policy scores d * score_of scores d)) ws) +
        (sum_list (map snd ws) - sum_list (map (\<lambda>(d, w). w * part_of policy scores d) ws)) * ?n" for ws
    by (induction ws) (auto simp: algebra_simps)
  then have "mixture policy scores = (?T + max 0 (?W - ?C) * ?n) / ?W" by (simp only: mixture_def unclaimed)
  moreover have "\<not> ?W \<le> 0" using pos by (simp add: weights_positive_def)
  ultimately have "sc_final_score (combine tutor pseudonym scores policy) = round4 (min 1 (max 0 (mixture policy scores)))"
    by (simp add: combine_def ty Let_def)
  then show ?thesis using mixture_range [OF assms(3) pos assms(2)] by simp
qed

section \<open>Ranking and the shortlist\<close>

lemma sort_key_unique:
  fixes k :: "'a \<Rightarrow> 'b::linorder"
  assumes "mset xs = mset ys" and "inj_on k (set xs)"
  shows "sort_key k xs = sort_key k ys"
proof -
  have s: "set xs = set ys" using assms(1) by (metis set_mset_mset)
  have "map k (sort_key k xs) = sort (map k xs)" "map k (sort_key k ys) = sort (map k ys)"
    by (rule properties_for_sort [symmetric]; simp)+
  moreover have "sort (map k xs) = sort (map k ys)"
    using assms(1) by (intro properties_for_sort) simp_all
  ultimately show ?thesis using assms(2) s by (intro map_inj_on [of k]) simp_all
qed

lemma diversify_loop_mset:
  "diversify_loop policy locality_of past rest chosen deferred counts = (ch, df) \<Longrightarrow>
    mset ch + mset df = mset chosen + mset deferred + mset rest"
  by (induction policy locality_of past rest chosen deferred counts rule: diversify_loop.induct)
    (auto simp: Let_def split: if_splits)

lemma diversify_mset:
  assumes "distinct cs"
  shows "mset (diversify policy locality_of cs) = mset cs"
proof -
  obtain ch df where p: "diversify_loop policy locality_of [] cs [] [] [] = (ch, df)" by fastforce
  let ?filled = "ch @ take (th_shortlist_size (sp_thresholds policy) - length ch) df"
  let ?rest = "filter (\<lambda>c. c \<notin> set ?filled) cs"
  have m: "mset (ch @ df) = mset cs" using diversify_loop_mset [OF p] by simp
  then have d: "distinct (ch @ df)" and s: "set (ch @ df) = set cs"
    using assms mset_eq_imp_distinct_iff [OF m] by (simp, metis m set_mset_mset)
  have "distinct ?filled" using d by (auto dest: in_set_takeD)
  moreover have "set ?filled \<subseteq> set cs" using s by (auto dest: in_set_takeD)
  ultimately have "distinct (?filled @ ?rest)" "set (?filled @ ?rest) = set cs" using assms by auto
  then have "mset (?filled @ ?rest) = mset cs" using assms set_eq_iff_mset_eq_distinct by blast
  then show ?thesis using p by (simp add: diversify_def)
qed

lemma rank_mset: "distinct cs \<Longrightarrow> mset (rank policy locality_of cs) = mset cs"
  by (simp add: rank_def diversify_mset Let_def)

text \<open>(C36) Ranking loses nobody and does not depend on the order of arrival. For candidates with distinct
  tutor ids the ranking, diversity rule included, is a permutation of them, and it is the same list
  whatever order they come in.\<close>

theorem ranking_is_deterministic:
  assumes "distinct (map sc_tutor_id cs)" and "mset cs' = mset cs"
  shows "mset (rank policy locality_of cs) = mset cs \<and> rank policy locality_of cs' = rank policy locality_of cs"
proof
  show "mset (rank policy locality_of cs) = mset cs" using assms(1) by (simp add: rank_mset distinct_map)
  have "inj_on rank_key (set cs)"
    using assms(1) by (auto simp: inj_on_def rank_key_def distinct_map)
  then have "sort_key rank_key cs = sort_key rank_key cs'" using assms(2) by (intro sort_key_unique) simp
  then show "rank policy locality_of cs' = rank policy locality_of cs" by (simp add: rank_def)
qed

lemma shortlist_length:
  "length (shortlist_cutoff policy cs)
     = min (th_shortlist_size (sp_thresholds policy))
         (length (filter (\<lambda>c. sc_final_score c \<ge> th_min_final_score (sp_thresholds policy)) cs))"
  by (simp add: shortlist_cutoff_def min.commute)

lemma filter_mset_length: "mset xs = mset ys \<Longrightarrow> length (filter P xs) = length (filter P ys)"
  by (metis mset_filter size_mset)

lemma take_sorted:
  assumes "sorted_wrt R xs" and "x \<in> set (take n xs)" and "y \<in> set xs" and "y \<notin> set (take n xs)"
  shows "R x y"
proof -
  have "sorted_wrt R (take n xs @ drop n xs)" using assms(1) by simp
  moreover have "y \<in> set (drop n xs)" using assms(3,4) by (metis UnE append_take_drop_id set_append)
  ultimately show ?thesis using assms(2) unfolding sorted_wrt_append by blast
qed

text \<open>The shortlist is honest. Every shortlisted tutor is one of the candidates and reaches the quality
  bar; the shortlist has as many entries as its size allows or as there are candidates above the bar,
  diversity never costing a place; and with the diversity rule off, a tutor above the bar who is left
  out scores no more than anyone shortlisted.\<close>

theorem shortlist_is_honest:
  assumes "distinct (map sc_tutor_id cs)"
  shows "let short = shortlist_cutoff policy (rank policy locality_of cs); bar = th_min_final_score (sp_thresholds policy)
    in set short \<subseteq> set cs \<and> (\<forall>c\<in>set short. bar \<le> sc_final_score c) \<and>
       length short = min (th_shortlist_size (sp_thresholds policy)) (length (filter (\<lambda>c. bar \<le> sc_final_score c) cs)) \<and>
       (\<not> dp_enabled (sp_diversity policy) \<longrightarrow>
          (\<forall>c\<in>set short. \<forall>d\<in>set cs - set short. bar \<le> sc_final_score d \<longrightarrow> sc_final_score d \<le> sc_final_score c))"
proof -
  let ?short = "shortlist_cutoff policy (rank policy locality_of cs)" and ?bar = "th_min_final_score (sp_thresholds policy)"
  let ?good = "filter (\<lambda>c. ?bar \<le> sc_final_score c) (rank policy locality_of cs)"
  have m: "mset (rank policy locality_of cs) = mset cs" using assms by (simp add: rank_mset distinct_map)
  then have s: "set (rank policy locality_of cs) = set cs" by (metis set_mset_mset)
  have "set ?short \<subseteq> set ?good" by (auto simp: shortlist_cutoff_def dest: in_set_takeD)
  moreover have "length ?short
      = min (th_shortlist_size (sp_thresholds policy)) (length (filter (\<lambda>c. ?bar \<le> sc_final_score c) cs))"
    using filter_mset_length [OF m] by (simp add: shortlist_length)
  moreover have "sc_final_score d \<le> sc_final_score c"
    if off: "\<not> dp_enabled (sp_diversity policy)" and c: "c \<in> set ?short" and d: "d \<in> set cs - set ?short" "?bar \<le> sc_final_score d" for c d
  proof -
    have r: "rank policy locality_of cs = sort_key rank_key cs" using off by (simp add: rank_def)
    have "sorted_wrt (\<lambda>x y. rank_key x \<le> rank_key y) (sort_key rank_key cs)"
      using sorted_sort_key [of rank_key cs] by (simp only: sorted_map)
    then have "sorted_wrt (\<lambda>x y. sc_final_score y \<le> sc_final_score x) (sort_key rank_key cs)"
      by (rule sorted_wrt_mono_rel [rotated]) (auto simp: rank_key_def less_eq_prod_def)
    then have "sorted_wrt (\<lambda>x y. sc_final_score y \<le> sc_final_score x) ?good" unfolding r by (rule sorted_wrt_filter)
    then show ?thesis
      by (rule take_sorted [where n = "th_shortlist_size (sp_thresholds policy)"])
        (use c d s in \<open>auto simp: shortlist_cutoff_def\<close>)
  qed
  ultimately show ?thesis using s by (auto simp: Let_def)
qed

section \<open>Examples\<close>

definition scored :: "string \<Rightarrow> rat \<Rightarrow> scored_candidate" where
  "scored i s = \<lparr>sc_tutor_id = i, sc_public_ref = i, sc_pseudonym = i, sc_scores = [], sc_final_score = s,
     sc_weight_coverage = 1, sc_confidence = 1, sc_freshness = FRESH, sc_flags = []\<rparr>"

definition shortlist_policy :: "bool \<Rightarrow> scoring_policy" where
  "shortlist_policy diverse =
     \<lparr>sp_policy_id = ''home'', sp_version = ''1'',
      sp_weights = map (\<lambda>d. (d, 1 / 8)) all_dimensions,
      sp_thresholds = \<lparr>th_min_final_score = 3 / 10, th_shortlist_size = 3, th_candidate_pool_limit = 50,
        th_min_weight_coverage = 3 / 10, th_min_dimension_confidence = 1 / 10, th_neutral_score = 1 / 2\<rparr>,
      sp_proximity = \<lparr>pp_default_travel_radius_km = [(''default'', 10)], pp_max_useful_distance_km = 20,
        pp_coarse_match_score = 1 / 2, pp_max_travel_minutes = 60\<rparr>,
      sp_negotiation = \<lparr>np_max_over_budget_ratio = 13 / 10, np_within_budget_score = 1,
        np_overload_active_students = 10, np_strategies = []\<rparr>,
      sp_diversity = \<lparr>dp_enabled = diverse, dp_max_same_locality = 2, dp_max_score_sacrifice = 1 / 20\<rparr>,
      sp_checksum = ''''\<rparr>"

definition one_block :: "string \<Rightarrow> string option" where
  "one_block i = Some (if i = ''e'' then ''Sector 57'' else ''Sector 56'')"

definition pool :: "scored_candidate list" where
  "pool = [scored ''a'' (90 / 100), scored ''b'' (80 / 100), scored ''c'' (79 / 100), scored ''d'' (78 / 100),
     scored ''e'' (30 / 100)]"

lemma pool_ranked: "sort_key rank_key pool = pool"
  by (simp add: pool_def scored_def rank_key_def less_eq_prod_def)

lemma pool_ids: "distinct (map sc_tutor_id pool)"
  by (simp add: pool_def scored_def)

lemma pool_diversified:
  "map sc_tutor_id (rank (shortlist_policy True) one_block pool) = [''a'', ''b'', ''e'', ''c'', ''d'']"
  by code_simp

theorem score_is_neutral_mixture_witness:
  "sc_final_score (combine (sample_tutor ''t'' None) ''p'' [(ACADEMIC, \<lparr>sk_dimension = ACADEMIC, sk_score = 1, sk_confidence = 4 / 5,
     sk_quality = PARTIAL, sk_evidence = [], sk_flags = [], sk_reasons = []\<rparr>)] (shortlist_policy True)) = 55 / 100"
proof -
  let ?s = "[(ACADEMIC, \<lparr>sk_dimension = ACADEMIC, sk_score = 1, sk_confidence = 4 / 5,
     sk_quality = PARTIAL, sk_evidence = [], sk_flags = [], sk_reasons = []\<rparr>)] :: (dimension, skill_score) odict"
  have w: "weights_ok (shortlist_policy True)" "thresholds_ok (sp_thresholds (shortlist_policy True))"
    by code_simp+
  have s: "scores_ok ?s" by (simp add: scores_ok_def skill_score_ok_def)
  have "mixture (shortlist_policy True) ?s = 55 / 100"
    by code_simp
  then show ?thesis
  proof -
    have "round4 (55 / 100) = 55 / 100" by code_simp
    then show ?thesis
      using score_is_neutral_mixture [OF w s, of "sample_tutor ''t'' None" "''p''"] \<open>mixture (shortlist_policy True) ?s = 55 / 100\<close>
      by (simp only:)
  qed
qed

theorem ranking_is_deterministic_witness:
  "rank (shortlist_policy True) one_block (rev pool) = rank (shortlist_policy True) one_block pool"
  using ranking_is_deterministic [of pool "rev pool" "shortlist_policy True" one_block]
  by (simp add: pool_def scored_def)

text \<open>Diversity can cost quality. The rule is to defer a tutor of a full locality only if a comparable
  alternative could take the place, but the alternative it compares with may itself be of that locality
  and deferred in turn: two tutors within a hundredth of each other are both deferred and the third
  place goes to one who scores 0.49 less, though the policy allows a sacrifice of 0.05.\<close>

theorem diversity_can_cost_quality:
  "dp_max_score_sacrifice (sp_diversity (shortlist_policy True)) = 1 / 20 \<and>
   map sc_tutor_id (shortlist_cutoff (shortlist_policy True) (rank (shortlist_policy True) one_block pool)) = [''a'', ''b'', ''e''] \<and>
   sc_final_score (scored ''c'' (79 / 100)) - sc_final_score (scored ''e'' (30 / 100)) = 49 / 100 \<and>
   map sc_tutor_id (shortlist_cutoff (shortlist_policy False) (rank (shortlist_policy False) one_block pool)) = [''a'', ''b'', ''c'']"
proof (intro conjI)
  let ?r = "rank (shortlist_policy True) one_block pool"
  have "set ?r = set pool"
    using rank_mset [of pool "shortlist_policy True" one_block] by (metis (no_types) mset_eq_setD distinct_map pool_ids)
  then have "\<forall>c\<in>set ?r. 3 / 10 \<le> sc_final_score c" by (simp add: pool_def scored_def)
  then have "filter (\<lambda>c. 3 / 10 \<le> sc_final_score c) ?r = ?r" by (simp add: filter_id_conv)
  then have "shortlist_cutoff (shortlist_policy True) ?r = take 3 ?r"
    by (simp add: shortlist_cutoff_def shortlist_policy_def)
  then show "map sc_tutor_id (shortlist_cutoff (shortlist_policy True) ?r) = [''a'', ''b'', ''e'']"
    using pool_diversified by (simp add: take_map [symmetric])
  show "map sc_tutor_id (shortlist_cutoff (shortlist_policy False) (rank (shortlist_policy False) one_block pool)) = [''a'', ''b'', ''c'']"
    by (simp add: rank_def pool_ranked shortlist_cutoff_def) (simp add: shortlist_policy_def pool_def scored_def)
qed (simp_all add: shortlist_policy_def scored_def)

end
