(* ===== verification/Spec2Isabelle.thy ===== *)
theory Spec2Isabelle
  imports
    Claims
    CommandFrames
    Commands
    Commerce
    Conversations
    CostControl
    DeliveryStores
    DemoStates
    Demos
    Discounts
    Envelope
    HoldStores
    Inbound
    Machine
    MachineRuns
    Messages
    Money
    Objections
    Orchestrator
    Outbound
    OutputGuard
    Ownership
    PaidTransition
    PatternGroups
    Payments
    Ports
    Prelude
    Pricing
    PyText
    RateLimit
    Regex
    Reminders
    Resilience
    Rounding
    Routing
    Saga
    Schedules
    Scheduling
    Shortlists
    Slots
    Tools
    Transitions
    TurnRuns
    Turns
    TutorContracts
    TutorFilters
    TutorMachine
    TutorMatch
    TutorScoring
    TutorText
    Urls
begin

text \<open>
  A model of the NXTutors agents in src/: the Demo Command Center
  (Demo Intelegence Agent/src/demo_command_center), which takes a parent from a matched tutor to a
  booked demo, through the demo and its follow-up to a paid subscription, and Tutor Intelligence
  (src/tutor_match_meta), which finds the tutor.

  How the parts interact. A conversation is in one of the states of state/states.py and moves only
  by \<open>StateMachine.fire\<close> (state/machine.py) over the table of state/transitions.py. Workers read a
  snapshot, fire, and save it with the version they read; the repositories (storage/memory,
  storage/postgres) refuse a stale version. A conversation belongs to one agent at a time
  (contracts/ownership.py) and is passed on in an envelope with a hop limit (contracts/envelope.py).
  Slots are held before a tutor is asked (domain/slots.py and the slot repositories). After the demo
  the objections found in the transcript (domain/objections.py) and the policy file decide a discount
  (capabilities/discounts), which becomes an offer, an order, a payment link, and, once the webhook
  of the provider has been reconciled, an activated subscription (capabilities/paid_transition).
  Everything said to a parent leaves through one boundary (orchestration/outbound.py), which checks
  ownership, state, consent, the session window, the text itself (guardrails/output.py,
  security/pii.py, security/urls.py) and the rate limit.

  How the model corresponds to the code. A dataclass or pydantic model is a record, an enum a
  datatype, a dict an association list in insertion order, a raise or an early return a value of a
  sum or option type, an aware datetime a number of microseconds, a string a list of characters below
  U+0100. The asyncio lock and the single SQL statement make each store operation one step; several
  workers are sequences of such steps in any order. What is not under src/ (payment provider,
  gateway, WhatsApp, SHA-256, ULIDs, address tables, the counter table) is an argument.

  The theories. Prelude, PyText, Regex: dictionaries, Python text, the regular expressions the source
  uses, with a matcher in the order Python tries alternatives and its declarative reading. Claims:
  the contracts of "exactly one worker wins" as locales.
  DemoStates, Transitions, Machine, MachineRuns: the state machine; what must have happened on every
  run into a booked, paid or converted state. Ownership, Envelope: who may speak, and why a handoff
  chain ends. Slots, HoldStores: holds, and their exclusion in both stores. Money, Objections,
  Pricing, Discounts: the discount engine, its soundness and that it gives what the policy promises.
  Payments, Commerce, PaidTransition: from the decision to the charged amount, who can make an order
  paid, replays, activation. Messages, DeliveryStores, Conversations: idempotency keys, the outbox,
  the message log, optimistic saves under interleaving and the audit trail. Urls, OutputGuard,
  RateLimit, Ports, Outbound: the outbound boundary. Saga: the two sagas, and that the customer is told
  last. Resilience: classes of errors, retries, the circuit breaker and the HTTP loop. CostControl: the
  ceilings on model calls, which no code calls. TutorMatch (contracts/tutor_match.py, guardrails/tutor_selection.py): the
  options of a match result and how a reply picks one. Demos (domain/demo.py): the demo and its store.
  Reminders: when a parent or a tutor is reminded, and the two stores. Scheduling
  (capabilities/scheduling): ranking free times, booking on the calendar, moving and cancelling.
  Inbound (orchestration/inbound.py): which trigger a message means, and what of a requirement it fills; its
  regular expressions are matched with PatternGroups. Turns, Commands, Orchestrator (orchestration/context.py,
  commands.py, orchestrator.py): one turn, from the claim of the event's key over facts, machine, save and
  command to the flush, on the memory repositories; what other workers do between a load and a save is an
  argument. CommandFrames: what commands leave alone, as a locale interpreted on four preorders. TurnRuns:
  events are handled once, and states, versions and audit trail follow the machine. Shortlists: what turns
  cannot do because a fact is not stored or a payload does not carry it.
  Tools (orchestration/tools.py, authorisation.py): what a proposed call must pass, and that exclusive calls fly
  alone. Routing (glue/routing.py, contracts/events.py, handlers/capabilities.py): which worker an event reaches, who
  writes which table, and (handlers/workers.py) that the relay publishes every event but one to nobody.
  Of Tutor Intelligence: Schedules (contracts/schedule.py, domain/scheduling.py): weekly windows, their
  one normal form (for windows of whole minutes), overlap, time zones. TutorMachine (state/machine.py): its conversation states and the
  search for reachable ones. TutorText (domain/text.py, academics.py, subjects.py, modes.py,
  localities.py): how free text becomes boards, classes, subjects, modes and cities. TutorContracts
  (contracts/, scoring/policy.py): requirements merged turn by turn under trust, tutors, scores and the
  policy; floats are exact rationals. TutorFilters (matching/hard_filters.py): who is removed, and that
  silence and guesses remove nobody. TutorScoring (scoring/combiner.py, selector.py): the combined score,
  the ranking, diversity and the shortlist; Rounding holds Python's rounding to even.

  The groups of lemmas. In each theory the operations come first, then the lemmas on each branch, then
  the invariants, then the properties, each after a text that states it. Locales (\<open>hold_store\<close>,
  \<open>single_winner\<close>, \<open>leased_claim\<close>, \<open>versioned_store\<close>, \<open>order_store\<close>,
  \<open>activation_store\<close>, \<open>send_log\<close>) hold what the memory and
  the Postgres repositories have in common; both interpret each of them. The locale \<open>command_frame\<close> holds what
  the steps of every command keep.

  Bounds. The transition table and the index are evaluated in full; runs, interleavings, replays and
  attempts are of any length. No fuel is used: the text scanners terminate on the length of the text.

  Not modelled and why. Adapters of outside services, logging, metrics, settings and the command line are
  I/O; prompts and language models are not deterministic code. glue/lifecycle.py only drives the other
  parts in order for demonstrations. human_handoff/escalation.py assembles the text an operator reads. The
  parsers of free-text times and the forecasting and monitoring services print and weigh floats for dashboards; the
  commands take their results as arguments. Of Tutor Intelligence, turn_service.py and handoff_service.py wire language
  models around the matching, and the evaluators under matching/ produce the scores whose combination is
  modelled here for every valid score.
\<close>

end
